(* ===== verification/Prelude.thy ===== *)
theory Prelude imports Main "HOL-Library.Multiset" begin

text \<open>
  Shared vocabulary of the development.  The C strings of the program are HOL strings without
  their terminating NUL; this theory gives the functions of the C library that the program calls
  on them (\<open>strncmp\<close>, \<open>strstr\<close>, \<open>strncpy\<close>, \<open>snprintf\<close>, \<open>atoi\<close>, the \<open>ctype\<close> tests in the "C"
  locale), the widths of C integers, the limits of \<^verbatim>\<open>base_openvas.h\<close>, the comparator contract that
  every ordered container of the program relies on, and the collections of hints the component
  theories extend.
\<close>

named_theorems cstr_simps \<open>rewriting of C string functions\<close>
named_theorems unfold_ops \<open>definitions of operations that proofs unfold\<close>

subsection \<open>Integers of C\<close>

text \<open>\<open>int\<close> has 32 bits and \<open>long\<close> and \<open>long long\<close> 64 on the program's platform; storing a wide
  value into an \<open>int\<close> keeps its low 32 bits.\<close>

definition c_int :: "int \<Rightarrow> int" where
  "c_int x = (x + 2147483648) mod 4294967296 - 2147483648"

lemma c_int_id [simp]: "- 2147483648 \<le> x \<Longrightarrow> x < 2147483648 \<Longrightarrow> c_int x = x"
  by (simp add: c_int_def)

lemma c_int_range: "- 2147483648 \<le> c_int x \<and> c_int x < 2147483648"
  by (simp add: c_int_def)

subsection \<open>Characters\<close>

definition byte :: "char \<Rightarrow> int" where
  "byte c = of_char c"

lemma byte_nonneg [simp]: "0 \<le> byte c"
  by (simp add: byte_def of_char_def)

lemma byte_inject [simp]: "byte c = byte d \<longleftrightarrow> c = d"
  by (simp add: byte_def)

definition NUL :: char where "NUL = CHR 0x00"
definition NL :: char where "NL = CHR 0x0A"
definition DQ :: char where "DQ = CHR 0x22"
definition BSL :: char where "BSL = CHR 0x5C"
definition BQ :: char where "BQ = CHR 0x60"
definition SQ :: char where "SQ = CHR 0x27"

lemma byte_pos: "c \<noteq> NUL \<Longrightarrow> 0 < byte c"
proof -
  assume "c \<noteq> NUL"
  then have "byte c \<noteq> byte NUL" by simp
  moreover have "byte NUL = 0" by (simp add: byte_def NUL_def)
  ultimately show "0 < byte c" using byte_nonneg [of c] by linarith
qed

definition isdigit :: "char \<Rightarrow> bool" where
  "isdigit c \<longleftrightarrow> 48 \<le> byte c \<and> byte c \<le> 57"

definition isspace :: "char \<Rightarrow> bool" where
  "isspace c \<longleftrightarrow> byte c = 32 \<or> (9 \<le> byte c \<and> byte c \<le> 13)"

definition isxdigit :: "char \<Rightarrow> bool" where
  "isxdigit c \<longleftrightarrow> isdigit c \<or> (65 \<le> byte c \<and> byte c \<le> 70) \<or> (97 \<le> byte c \<and> byte c \<le> 102)"

definition isalnum :: "char \<Rightarrow> bool" where
  "isalnum c \<longleftrightarrow> isdigit c \<or> (65 \<le> byte c \<and> byte c \<le> 90) \<or> (97 \<le> byte c \<and> byte c \<le> 122)"

lemma isdigit_isxdigit: "isdigit c \<Longrightarrow> isxdigit c"
  by (simp add: isxdigit_def)

lemma isdigit_not_isspace: "isdigit c \<Longrightarrow> \<not> isspace c"
  by (auto simp: isdigit_def isspace_def)

subsection \<open>Comparison of strings\<close>

text \<open>The difference of the first two bytes that differ; the terminator counts as byte 0.  Only
  its sign is documented and only its sign is used by the program.\<close>

fun strcmp :: "string \<Rightarrow> string \<Rightarrow> int" where
  "strcmp [] [] = 0"
| "strcmp [] (d # ds) = - byte d"
| "strcmp (c # cs) [] = byte c"
| "strcmp (c # cs) (d # ds) = (if c = d then strcmp cs ds else byte c - byte d)"

definition strncmp :: "string \<Rightarrow> string \<Rightarrow> nat \<Rightarrow> int" where
  "strncmp a b n = strcmp (take n a) (take n b)"

definition tolower :: "char \<Rightarrow> char" where
  "tolower c = (if 65 \<le> byte c \<and> byte c \<le> 90 then char_of (nat (byte c) + 32) else c)"

definition strcasecmp :: "string \<Rightarrow> string \<Rightarrow> int" where
  "strcasecmp a b = strcmp (map tolower a) (map tolower b)"

text \<open>The C string at the start of a buffer of bytes.\<close>

definition c_str :: "string \<Rightarrow> string" where
  "c_str b = takeWhile (\<lambda>c. c \<noteq> NUL) b"

definition cstring :: "string \<Rightarrow> bool" where
  "cstring s \<longleftrightarrow> NUL \<notin> set s"

lemma cstring_Nil [simp]: "cstring []"
  by (simp add: cstring_def)

lemma cstring_Cons [simp]: "cstring (c # s) \<longleftrightarrow> c \<noteq> NUL \<and> cstring s"
  by (auto simp: cstring_def)

lemma cstring_append [simp]: "cstring (a @ b) \<longleftrightarrow> cstring a \<and> cstring b"
  by (auto simp: cstring_def)

lemma cstring_take [intro]: "cstring s \<Longrightarrow> cstring (take n s)"
  by (auto simp: cstring_def dest: in_set_takeD)

lemma strcmp_refl [simp]: "strcmp s s = 0"
  by (induction s) auto

lemma strcmp_eq_0: "cstring a \<Longrightarrow> cstring b \<Longrightarrow> strcmp a b = 0 \<longleftrightarrow> a = b"
  by (induction a b rule: strcmp.induct) (auto dest: byte_pos)

lemma strcmp_swap: "strcmp b a = - strcmp a b"
  by (induction a b rule: strcmp.induct) auto

lemma strcmp_trans:
  "cstring a \<Longrightarrow> cstring b \<Longrightarrow> cstring c \<Longrightarrow> strcmp a b \<le> 0 \<Longrightarrow> strcmp b c \<le> 0 \<Longrightarrow> strcmp a c \<le> 0"
proof (induction a b arbitrary: c rule: strcmp.induct)
  case (1 c)
  then show ?case by simp
next
  case (2 d ds c)
  then show ?case by (cases c) auto
next
  case (3 x xs c)
  then have "0 < byte x" by (simp add: byte_pos)
  with 3 show ?case by simp
next
  case (4 x xs y ys c)
  have xy: "byte x \<le> byte y" using "4.prems"(4) by (auto split: if_splits)
  show ?case
  proof (cases c)
    case Nil
    with "4.prems" byte_pos [of y] show ?thesis by simp
  next
    case (Cons z zs)
    have yz: "byte y \<le> byte z" using "4.prems"(5) Cons by (auto split: if_splits)
    show ?thesis
    proof (cases "x = y \<and> y = z")
      case True
      with "4.prems" Cons "4.IH" [of zs] have "strcmp xs zs \<le> 0" by simp
      with True Cons show ?thesis by simp
    next
      case False
      then have "byte x < byte y \<or> byte y < byte z" using xy yz
        by (metis byte_inject order_le_less)
      then show ?thesis using xy yz Cons by auto
    qed
  qed
qed

lemma strncmp_eq_0:
  "cstring a \<Longrightarrow> cstring b \<Longrightarrow> length a < n \<Longrightarrow> length b < n \<Longrightarrow> strncmp a b n = 0 \<longleftrightarrow> a = b"
  by (simp add: strncmp_def strcmp_eq_0)

lemma strncmp_swap: "strncmp b a n = - strncmp a b n"
  unfolding strncmp_def by (rule strcmp_swap)

lemma strncmp_refl [simp]: "strncmp a a n = 0"
  by (simp add: strncmp_def)

lemma strncmp_trans:
  "cstring a \<Longrightarrow> cstring b \<Longrightarrow> cstring c \<Longrightarrow> strncmp a b n \<le> 0 \<Longrightarrow> strncmp b c n \<le> 0 \<Longrightarrow>
    strncmp a c n \<le> 0"
  unfolding strncmp_def by (rule strcmp_trans) auto

subsection \<open>The comparator contract\<close>

text \<open>What \<open>PComp\<close> functions promise to the containers of \<^verbatim>\<open>llist.c\<close>, on the objects of a set: the
  sign is antisymmetric and the order it gives is transitive.\<close>

locale comparator =
  fixes cmp :: "'a \<Rightarrow> 'a \<Rightarrow> int" and A :: "'a set"
  assumes cmp_swap: "x \<in> A \<Longrightarrow> y \<in> A \<Longrightarrow> 0 < cmp x y \<longleftrightarrow> cmp y x < 0"
    and cmp_trans: "x \<in> A \<Longrightarrow> y \<in> A \<Longrightarrow> z \<in> A \<Longrightarrow> cmp x y \<le> 0 \<Longrightarrow> cmp y z \<le> 0 \<Longrightarrow> cmp x z \<le> 0"
begin

lemma cmp_total: "x \<in> A \<Longrightarrow> y \<in> A \<Longrightarrow> cmp x y \<le> 0 \<or> cmp y x \<le> 0"
  using cmp_swap [of x y] by auto

lemma cmp_eq_sym: "x \<in> A \<Longrightarrow> y \<in> A \<Longrightarrow> cmp x y = 0 \<longleftrightarrow> cmp y x = 0"
  using cmp_swap [of x y] cmp_swap [of y x] by auto

lemma cmp_less_trans:
  "x \<in> A \<Longrightarrow> y \<in> A \<Longrightarrow> z \<in> A \<Longrightarrow> cmp x y < 0 \<Longrightarrow> cmp y z \<le> 0 \<Longrightarrow> cmp x z < 0"
  using cmp_trans [of y z x] cmp_swap [of x z] cmp_swap [of z x] cmp_swap [of y x]
    cmp_trans [of x y z] cmp_swap [of x y] by linarith

lemma cmp_le_less_trans:
  "x \<in> A \<Longrightarrow> y \<in> A \<Longrightarrow> z \<in> A \<Longrightarrow> cmp x y \<le> 0 \<Longrightarrow> cmp y z < 0 \<Longrightarrow> cmp x z < 0"
  using cmp_trans [of z x y] cmp_swap [of x z] cmp_swap [of z x] cmp_swap [of z y]
    cmp_trans [of x y z] cmp_swap [of y z] by linarith

end

lemma comparator_strncmp:
  assumes "\<And>x. x \<in> A \<Longrightarrow> cstring (f x)"
  shows "comparator (\<lambda>x y. strncmp (f x) (f y) n) A"
proof
  fix x y
  show "0 < strncmp (f x) (f y) n \<longleftrightarrow> strncmp (f y) (f x) n < 0"
    using strncmp_swap [of "f x" "f y" n] by linarith
next
  fix x y z
  assume "x \<in> A" "y \<in> A" "z \<in> A" "strncmp (f x) (f y) n \<le> 0" "strncmp (f y) (f z) n \<le> 0"
  then show "strncmp (f x) (f z) n \<le> 0"
    using strncmp_trans assms by blast
qed

end
