(* ===== verification/Text.thy ===== *)
theory Text imports Prelude "HOL-Library.Sublist" begin

text \<open>
  Text handling: the C library functions the program parses and prints with, and the token functions
  of \<^verbatim>\<open>comm_misc.c\<close> (\<open>getNextToken\<close>, \<open>getNextTokenInt\<close>, \<open>trimText\<close>).  A C string is a HOL string
  without its terminator; a pointer into a string is the suffix it points to.
\<close>

subsection \<open>Limits\<close>

definition MAX_COMM_MIN_SIZE :: nat where "MAX_COMM_MIN_SIZE = 32"
definition MAX_COMM_SIZE :: nat where "MAX_COMM_SIZE = 256"
definition MAX_MSG_SIZE :: nat where "MAX_MSG_SIZE = 4096"
definition MAX_UUID_SIZE :: nat where "MAX_UUID_SIZE = 64"
definition MAX_NAME_SIZE :: nat where "MAX_NAME_SIZE = 64"
definition MAX_BUFFER_SIZE :: nat where "MAX_BUFFER_SIZE = 1024"
definition MAX_TIMESTAMP_SIZE :: nat where "MAX_TIMESTAMP_SIZE = 32"
definition MAX_FILENAME_PATH_SIZE :: nat where "MAX_FILENAME_PATH_SIZE = 256"
definition MAX_SCHEDULE_LIST_SIZE :: nat where "MAX_SCHEDULE_LIST_SIZE = 256"
definition MAX_MEM_LIST_SIZE :: nat where "MAX_MEM_LIST_SIZE = 4096"
definition MAX_CMD_PARAM_SIZE :: nat where "MAX_CMD_PARAM_SIZE = 64"
definition MAX_NVT_NAME_SIZE :: nat where "MAX_NVT_NAME_SIZE = 256"
definition MAX_CACHE_SIZE :: nat where "MAX_CACHE_SIZE = 16777216"
definition MAX_TASK_FILE_SIZE :: nat where "MAX_TASK_FILE_SIZE = 10485760"
definition MAX_XML_SIZE :: nat where "MAX_XML_SIZE = 2048"
definition MAX_GROUP_SIZE :: nat where "MAX_GROUP_SIZE = 32"
definition MAX_HOSTS_SIZE :: nat where "MAX_HOSTS_SIZE = 256"

lemmas max_defs = MAX_COMM_MIN_SIZE_def MAX_COMM_SIZE_def MAX_MSG_SIZE_def MAX_UUID_SIZE_def
  MAX_NAME_SIZE_def MAX_BUFFER_SIZE_def MAX_TIMESTAMP_SIZE_def MAX_FILENAME_PATH_SIZE_def
  MAX_SCHEDULE_LIST_SIZE_def MAX_MEM_LIST_SIZE_def MAX_CMD_PARAM_SIZE_def MAX_NVT_NAME_SIZE_def
  MAX_CACHE_SIZE_def MAX_TASK_FILE_SIZE_def MAX_XML_SIZE_def MAX_GROUP_SIZE_def MAX_HOSTS_SIZE_def

subsection \<open>Searching\<close>

text \<open>The suffix at the first occurrence of the needle.\<close>

fun strstr :: "string \<Rightarrow> string \<Rightarrow> string option" where
  "strstr [] needle = (if needle = [] then Some [] else None)"
| "strstr (c # s) needle = (if prefix needle (c # s) then Some (c # s) else strstr s needle)"

lemma strstr_Some: "strstr s needle = Some t \<Longrightarrow> \<exists>u. s = u @ t \<and> prefix needle t"
proof (induction s)
  case (Cons c s)
  show ?case
  proof (cases "prefix needle (c # s)")
    case True
    then show ?thesis using Cons.prems by (intro exI [of _ "[]"]) simp
  next
    case False
    then obtain u where "s = u @ t" "prefix needle t" using Cons by auto
    then show ?thesis by (intro exI [of _ "c # u"]) simp
  qed
qed (auto split: if_splits)

lemma strstr_None: "strstr s needle = None \<longleftrightarrow> (\<forall>u v. s \<noteq> u @ needle @ v)"
proof (induction s)
  case Nil
  then show ?case by auto
next
  case (Cons c s)
  show ?case
  proof (cases "prefix needle (c # s)")
    case True
    then show ?thesis by (auto simp: prefix_def) (metis append_Nil)
  next
    case False
    have "c # s = u @ needle @ v \<longleftrightarrow> (\<exists>u'. u = c # u' \<and> s = u' @ needle @ v)" for u v
      using False by (cases u) (auto simp: prefix_def)
    then show ?thesis using Cons False by auto
  qed
qed

text \<open>A needle of one character: the text up to the first such character.\<close>

lemma strstr_char: "d \<notin> set f \<Longrightarrow> strstr (f @ d # r) [d] = Some (d # r)"
  by (induction f) auto

lemma strstr_char_None: "d \<notin> set f \<Longrightarrow> strstr f [d] = None"
  by (induction f) auto

lemma strstr_char_iff: "strstr s [d] = (if d \<in> set s then Some (dropWhile (\<lambda>c. c \<noteq> d) s) else None)"
  by (induction s) auto

subsection \<open>Numbers\<close>

definition digval :: "char \<Rightarrow> int" where
  "digval c = byte c - 48"

definition digits_val :: "string \<Rightarrow> int" where
  "digits_val = foldl (\<lambda>a c. a * 10 + digval c) 0"

text \<open>\<open>atoi\<close> is \<open>(int) strtol(s, NULL, 10)\<close>; \<open>strtol\<close> skips white space, reads a sign and digits, and
  saturates at the bounds of \<open>long\<close>.\<close>

definition strtol10 :: "string \<Rightarrow> int" where
  "strtol10 s =
     (let s1 = dropWhile isspace s;
          neg = (case s1 of c # _ \<Rightarrow> c = CHR ''-'' | [] \<Rightarrow> False);
          s2 = (case s1 of c # t \<Rightarrow> if c = CHR ''-'' \<or> c = CHR ''+'' then t else s1 | [] \<Rightarrow> []);
          v = digits_val (takeWhile isdigit s2)
      in max (- 9223372036854775808) (min 9223372036854775807 (if neg then - v else v)))"

definition atoi :: "string \<Rightarrow> int" where
  "atoi s = c_int (strtol10 s)"

text \<open>\<open>atoll\<close> on the platform of the program is \<open>strtol\<close>.\<close>

definition digit_char :: "nat \<Rightarrow> char" where
  "digit_char n = (if n < 10 then char_of (48 + n) else char_of (87 + n))"

fun digits :: "nat \<Rightarrow> nat \<Rightarrow> string" where
  "digits b n =
     (if n < b \<or> b < 2 then [digit_char n] else digits b (n div b) @ [digit_char (n mod b)])"

declare digits.simps [simp del]

text \<open>\<open>%d\<close>, and \<open>%0wd\<close> and \<open>%0wx\<close> of values that are not negative\<close>

definition dec :: "int \<Rightarrow> string" where
  "dec x = (if x < 0 then ''-'' @ digits 10 (nat (- x)) else digits 10 (nat x))"

definition pad0 :: "nat \<Rightarrow> string \<Rightarrow> string" where
  "pad0 w s = replicate (w - length s) CHR ''0'' @ s"

lemma byte_char_of: "n < 256 \<Longrightarrow> byte (char_of n) = int n"
  unfolding byte_def by (metis mod_less of_char_of of_nat_of_char)

lemma byte_digit_char: "n < 10 \<Longrightarrow> byte (digit_char n) = 48 + int n"
  by (simp add: digit_char_def byte_char_of)

lemma isdigit_digit_char [simp]: "n < 10 \<Longrightarrow> isdigit (digit_char n)"
  by (simp add: isdigit_def byte_digit_char)

lemma byte_hex_char: "10 \<le> n \<Longrightarrow> n < 16 \<Longrightarrow> byte (digit_char n) = 87 + int n"
  by (simp add: digit_char_def byte_char_of)

lemma isxdigit_digit_char [simp]: "n < 16 \<Longrightarrow> isxdigit (digit_char n)"
  by (cases "n < 10") (auto simp: isxdigit_def isdigit_def byte_digit_char byte_hex_char)

lemma digits_isdigit: "c \<in> set (digits 10 n) \<Longrightarrow> isdigit c"
proof (induction "10 :: nat" n rule: digits.induct)
  case (1 n)
  then show ?case by (subst (asm) digits.simps [of 10 n]) (auto split: if_splits)
qed

lemma digits_isxdigit: "b \<le> 16 \<Longrightarrow> 2 \<le> b \<Longrightarrow> c \<in> set (digits b n) \<Longrightarrow> isxdigit c"
proof (induction b n rule: digits.induct)
  case (1 b n)
  have "n mod b < 16" using 1 mod_less_divisor [of b n] by linarith
  then show ?case
    using 1 isxdigit_digit_char [of "n mod b"]
    by (subst (asm) digits.simps [of b n]) (auto split: if_splits)
qed

lemma digits_not_Nil [simp]: "digits b n \<noteq> []"
  by (subst digits.simps) simp

lemma digits_length: "2 \<le> b \<Longrightarrow> n < b ^ w \<Longrightarrow> 0 < w \<Longrightarrow> length (digits b n) \<le> w"
proof (induction w arbitrary: n)
  case (Suc w)
  show ?case
  proof (cases "n < b")
    case False
    then have "0 < w" using Suc.prems by (cases w) auto
    moreover have "n div b < b ^ w"
      using Suc.prems by (simp add: div_less_iff_less_mult mult.commute)
    ultimately show ?thesis
      using Suc.IH [of "n div b"] Suc.prems False by (subst digits.simps) simp
  qed (simp add: digits.simps)
qed simp

lemma digits_val_append: "digits_val (s @ [c]) = digits_val s * 10 + digval c"
  by (simp add: digits_val_def)

lemma digits_val_digits: "digits_val (digits 10 n) = int n"
proof (induction "10 :: nat" n rule: digits.induct)
  case (1 n)
  show ?case
  proof (cases "n < 10")
    case True
    then show ?thesis
      by (simp add: digits.simps [of 10 n] digits_val_def digval_def byte_digit_char)
  next
    case False
    then have "digits_val (digits 10 n) = int (n div 10) * 10 + int (n mod 10)"
      using 1 by (simp add: digits.simps [of 10 n] digits_val_append digval_def byte_digit_char)
    also have "\<dots> = int (n div 10 * 10 + n mod 10)" by (simp only: of_nat_add of_nat_mult of_nat_numeral)
    finally show ?thesis by (simp only: div_mult_mod_eq)
  qed
qed

lemma isdigit_not_sign: "isdigit c \<Longrightarrow> c \<noteq> CHR ''-'' \<and> c \<noteq> CHR ''+''"
  by (auto simp: isdigit_def byte_def of_char_def)

lemma strtol10_digits:
  assumes "\<forall>c\<in>set s. isdigit c" "s \<noteq> []" "rest = [] \<or> \<not> isdigit (hd rest)"
  shows "strtol10 (s @ rest) = min 9223372036854775807 (max (- 9223372036854775808) (digits_val s))"
proof -
  obtain c t where s: "s = c # t" using assms(2) by (cases s) auto
  have c: "isdigit c" using assms(1) s by simp
  then have "dropWhile isspace (s @ rest) = s @ rest" and "c \<noteq> CHR ''-''" "c \<noteq> CHR ''+''"
    using isdigit_not_sign [of c] isdigit_not_isspace [of c] by (auto simp: s)
  moreover have "takeWhile isdigit (s @ rest) = s"
    using assms(1,3) by (cases rest) (auto simp: takeWhile_append)
  ultimately show ?thesis
    by (simp add: strtol10_def Let_def s)
qed

lemma digits_val_nonneg: "\<forall>c\<in>set s. isdigit c \<Longrightarrow> 0 \<le> digits_val s"
  by (induction s rule: rev_induct) (auto simp: digits_val_append digits_val_def digval_def isdigit_def)

text \<open>Printing with \<open>%d\<close> and reading with \<open>atoi\<close> gives the number back.\<close>

lemma atoi_dec:
  assumes "- 2147483648 \<le> x" "x < 2147483648" "rest = [] \<or> \<not> isdigit (hd rest)"
  shows "atoi (dec x @ rest) = x"
proof (cases "x < 0")
  case True
  let ?d = "digits 10 (nat (- x))"
  have "takeWhile isdigit (?d @ rest) = ?d"
    using assms(3) digits_isdigit by (cases rest) (auto simp: takeWhile_append)
  then have "strtol10 (dec x @ rest) = x"
    using True assms digits_val_digits [of "nat (- x)"]
    by (simp add: strtol10_def Let_def dec_def isspace_def byte_def of_char_def)
  then show ?thesis using assms by (simp add: atoi_def)
next
  case False
  then show ?thesis
    using assms strtol10_digits [of "digits 10 (nat x)" rest] digits_isdigit digits_val_digits [of "nat x"]
    by (simp add: atoi_def dec_def)
qed

lemma dec_not_Nil [simp]: "dec x \<noteq> []"
  by (simp add: dec_def)

lemma dec_hd_isdigit: "0 \<le> x \<Longrightarrow> isdigit (hd (dec x))"
  using digits_isdigit [of "hd (digits 10 (nat x))" "nat x"] by (simp add: dec_def)

subsection \<open>Bounded printing\<close>

text \<open>\<open>snprintf\<close> writes at most \<open>cap - 1\<close> characters and returns the length of the whole text.\<close>

definition snprintf :: "nat \<Rightarrow> string \<Rightarrow> string \<times> int" where
  "snprintf cap s = (take (cap - 1) s, int (length s))"

lemma snprintf_fits [simp]: "length s < cap \<Longrightarrow> snprintf cap s = (s, int (length s))"
  by (simp add: snprintf_def)

subsection \<open>Tokens\<close>

text \<open>Every caller passes its cursor as the text and gets it back advanced; on failure the cursor and
  the buffer are as before.  The result is the return code, the buffer and the cursor.\<close>

definition getNextToken ::
  "string \<Rightarrow> string \<Rightarrow> string \<Rightarrow> nat \<Rightarrow> int \<times> string \<times> string" where
  "getNextToken text needle buf maxlen =
     (if text = [] then (1, buf, text)
      else
        let psz = strstr text needle;
            cnt = (case psz of Some p \<Rightarrow> length text - length p | None \<Rightarrow> min (length text) maxlen)
        in if cnt < maxlen
           then (0, take cnt text,
                 case psz of Some p \<Rightarrow> drop (length needle) p | None \<Rightarrow> drop cnt text)
           else (- 1, buf, text))"

definition getNextTokenInt :: "string \<Rightarrow> string \<Rightarrow> int \<times> int \<times> string" where
  "getNextTokenInt text needle =
     (case getNextToken text needle [] MAX_COMM_MIN_SIZE of
        (ret, buf, save) \<Rightarrow>
          if ret = 0
          then if buf \<noteq> [] \<and> isdigit (hd buf) then (0, atoi buf, save) else (- 2, - 1, save)
          else (ret, - 1, save))"

definition trimText :: "string \<Rightarrow> int \<times> string" where
  "trimText text =
     (if length text < MAX_MSG_SIZE
      then let t = rev (dropWhile isspace (rev (dropWhile isspace text)))
           in if t \<noteq> [] then (0, t) else (- 1, [])
      else (- 1, text))"

lemma getNextToken_field:
  assumes "d \<notin> set f" "length f < maxlen"
  shows "getNextToken (f @ d # rest) [d] buf maxlen = (0, f, rest)"
  using assms by (simp add: getNextToken_def strstr_char Let_def)

lemma getNextToken_last:
  assumes "d \<notin> set f" "length f < maxlen" "f \<noteq> []"
  shows "getNextToken f [d] buf maxlen = (0, f, [])"
  using assms by (simp add: getNextToken_def strstr_char_None Let_def)

lemma getNextToken_end [simp]: "getNextToken [] d buf maxlen = (1, buf, [])"
  by (simp add: getNextToken_def)

text \<open>The three outcomes for a delimiter of one character.\<close>

lemma getNextToken_cases:
  obtains "text = []" "getNextToken text [d] buf maxlen = (1, buf, text)"
  | f rest where "d \<notin> set f" "length f < maxlen" "text \<noteq> []"
      "text = f @ d # rest \<or> (text = f \<and> rest = [])"
      "getNextToken text [d] buf maxlen = (0, f, rest)"
  | "text \<noteq> []" "getNextToken text [d] buf maxlen = (- 1, buf, text)"
      "maxlen \<le> length (takeWhile (\<lambda>c. c \<noteq> d) text)"
proof -
  let ?f = "takeWhile (\<lambda>c. c \<noteq> d) text" and ?r = "dropWhile (\<lambda>c. c \<noteq> d) text"
  have f: "d \<notin> set ?f" by (auto dest: set_takeWhileD)
  have t: "text = ?f @ ?r" by simp
  show thesis
  proof (cases "text = []")
    case True
    then show thesis using that(1) by simp
  next
    case ne: False
    show thesis
    proof (cases "length ?f < maxlen")
      case True
      show thesis
      proof (cases ?r)
        case Nil
        then have "text = ?f" using t by (metis append_Nil2)
        then show thesis
          using that(2) [OF f True ne, of "[]"] getNextToken_last [OF f True, of buf] ne by metis
      next
        case (Cons d' rest)
        then have "d' = d" using hd_dropWhile [of "\<lambda>c. c \<noteq> d" "text"] by auto
        then have "text = ?f @ d # rest" using t Cons by metis
        then show thesis
          using that(2) [OF f True ne, of rest] getNextToken_field [OF f True, of rest buf] by metis
      qed
    next
      case False
      have "length ?f + length ?r = length text"
        by (metis length_append t)
      then have "getNextToken text [d] buf maxlen = (- 1, buf, text)"
        using False ne
        by (auto simp: getNextToken_def strstr_char_iff Let_def)
      then show thesis using that(3) ne False by simp
    qed
  qed
qed

lemma getNextTokenInt_dec:
  assumes "0 \<le> x" "x < 2147483648" "\<not> isdigit d"
  shows "getNextTokenInt (dec x @ d # rest) [d] = (0, x, rest)"
proof -
  have "length (dec x) \<le> 10"
    using assms digits_length [of 10 "nat x" 10] by (simp add: dec_def)
  moreover have "d \<notin> set (dec x)"
    using assms digits_isdigit by (auto simp: dec_def)
  ultimately show ?thesis
    using assms atoi_dec [of x "[]"] dec_hd_isdigit [of x]
    by (simp add: getNextTokenInt_def getNextToken_field max_defs)
qed

lemma trimText_ok:
  assumes "trimText text = (0, t)"
  shows "t \<noteq> [] \<and> \<not> isspace (hd t) \<and> \<not> isspace (last t) \<and>
    (\<exists>u v. text = u @ t @ v \<and> (\<forall>c\<in>set u. isspace c) \<and> (\<forall>c\<in>set v. isspace c))"
proof -
  let ?l = "dropWhile isspace text"
  have t: "t = rev (dropWhile isspace (rev ?l))" "t \<noteq> []"
    using assms by (auto simp: trimText_def Let_def split: if_splits)
  have l: "?l = t @ rev (takeWhile isspace (rev ?l))"
    using t(1) by (metis rev_append rev_rev_ident takeWhile_dropWhile_id)
  then have "\<not> isspace (hd ?l)" using t(2) hd_dropWhile by (metis append_is_Nil_conv)
  then have "\<not> isspace (hd t)" using l t(2) by (metis hd_append2)
  moreover have "\<not> isspace (last t)"
    using t by (metis hd_dropWhile last_rev rev_is_Nil_conv)
  moreover have "text = takeWhile isspace text @ t @ rev (takeWhile isspace (rev ?l))"
    using l by (metis takeWhile_dropWhile_id)
  ultimately show ?thesis
    using t(2) by (metis set_takeWhileD set_rev)
qed

lemma trimText_id:
  "t \<noteq> [] \<Longrightarrow> \<not> isspace (hd t) \<Longrightarrow> \<not> isspace (last t) \<Longrightarrow> length t < MAX_MSG_SIZE \<Longrightarrow> trimText t = (0, t)"
proof -
  assume a: "t \<noteq> []" "\<not> isspace (hd t)" "\<not> isspace (last t)" "length t < MAX_MSG_SIZE"
  then have "dropWhile isspace t = t" by (cases t) auto
  moreover have "dropWhile isspace (rev t) = rev t"
    using a by (cases t rule: rev_cases) auto
  ultimately show "trimText t = (0, t)" using a by (simp add: trimText_def)
qed

end
