(* ===== verification/World.thy ===== *)
theory World imports Text "HOL-Library.State_Monad" "HOL-Library.AList" begin

text \<open>
  What the program runs on.  A C function with effects is a state transformer over \<open>world\<close> in the
  monad of the library; \<open>env\<close> says what the operating system and the C library answer at each call.
  Every call to the system consumes a tick, and the answers of \<open>env\<close> depend on the tick, so any
  sequence of failures, partial writes, clock readings and replies is a choice of \<open>env\<close>.  Components
  extend \<open>world\<close> with their own state.  Logging has no effect on the state and is left out.
\<close>

subsection \<open>Reasoning about state transformers\<close>

definition wp :: "('s, 'a) state \<Rightarrow> ('a \<Rightarrow> 's \<Rightarrow> bool) \<Rightarrow> 's \<Rightarrow> bool" where
  "wp m Q s = (case run_state m s of (a, s') \<Rightarrow> Q a s')"

definition gets :: "('s \<Rightarrow> 'a) \<Rightarrow> ('s, 'a) state" where
  "gets f = State (\<lambda>s. (f s, s))"

definition modify :: "('s \<Rightarrow> 's) \<Rightarrow> ('s, unit) state" where
  "modify f = State (\<lambda>s. ((), f s))"

abbreviation ret :: "'a \<Rightarrow> ('s, 'a) state" where "ret \<equiv> State_Monad.return"

lemma run_gets [simp]: "run_state (gets f) s = (f s, s)"
  by (simp add: gets_def)

lemma run_modify [simp]: "run_state (modify f) s = ((), f s)"
  by (simp add: modify_def)

lemma wp_return [simp]: "wp (ret a) Q s = Q a s"
  by (simp add: wp_def)

lemma wp_bind [simp]: "wp (State_Monad.bind m f) Q s = wp m (\<lambda>a. wp (f a) Q) s"
  by (simp add: wp_def split: prod.splits)

lemma wp_gets [simp]: "wp (gets f) Q s = Q (f s) s"
  by (simp add: wp_def)

lemma wp_modify [simp]: "wp (modify f) Q s = Q () (f s)"
  by (simp add: wp_def)

lemma wp_if [simp]: "wp (if c then m else n) Q s = (if c then wp m Q s else wp n Q s)"
  by simp

lemma wp_option [simp]:
  "wp (case x of None \<Rightarrow> m | Some y \<Rightarrow> f y) Q s =
     (case x of None \<Rightarrow> wp m Q s | Some y \<Rightarrow> wp (f y) Q s)"
  by (cases x) simp_all

lemma wp_prod [simp]: "wp (case x of (a, b) \<Rightarrow> f a b) Q s = (case x of (a, b) \<Rightarrow> wp (f a b) Q s)"
  by (cases x) simp

lemma wp_let [simp]: "wp (Let x f) Q s = (let y = x in wp (f y) Q s)"
  by (simp add: Let_def)

lemma wp_mono: "wp m P s \<Longrightarrow> (\<And>a s'. P a s' \<Longrightarrow> Q a s') \<Longrightarrow> wp m Q s"
  by (simp add: wp_def split: prod.splits)

lemma wp_conj: "wp m P s \<Longrightarrow> wp m Q s \<Longrightarrow> wp m (\<lambda>a s'. P a s' \<and> Q a s') s"
  by (simp add: wp_def split: prod.splits)

lemma wp_run: "wp m Q s \<Longrightarrow> run_state m s = (a, s') \<Longrightarrow> Q a s'"
  by (simp add: wp_def)

lemma wpI: "(\<And>a s'. run_state m s = (a, s') \<Longrightarrow> Q a s') \<Longrightarrow> wp m Q s"
  by (simp add: wp_def split: prod.splits)

subsection \<open>The file system and the environment\<close>

datatype node = Reg (readable: bool) (contents: string) | Dir | Special

text \<open>The replies of a Redis server, as its client library gives them.\<close>

datatype reply = RStatus string | RError string | RStr string | RNil | RInt int | RArr "reply list"

text \<open>A document of the XML library: an element has a name, attributes and children; every other kind of
  node is \<open>XOther\<close> with its content.\<close>

datatype xnode = XElem string "(string \<times> string) list" "xnode list" | XOther string

record world =
  tick :: nat
  fs :: "(string \<times> node) list"

record env =
  fault :: "nat \<Rightarrow> bool"              \<comment> \<open>the call fails\<close>
  short :: "nat \<Rightarrow> nat"               \<comment> \<open>how many bytes a failing write or read transfers\<close>
  wall :: "nat \<Rightarrow> int"                \<comment> \<open>\<open>time\<close>\<close>
  usec :: "nat \<Rightarrow> int"                \<comment> \<open>microseconds of \<open>gettimeofday\<close>\<close>
  clk :: "nat \<Rightarrow> int"                 \<comment> \<open>seconds of \<open>CLOCK_MONOTONIC\<close>\<close>
  closefail :: "nat \<Rightarrow> bool"          \<comment> \<open>\<open>fclose\<close> cannot write what is still buffered\<close>
  entropy :: "nat \<Rightarrow> nat"             \<comment> \<open>addresses, thread ids, random bytes, nanoseconds\<close>
  strftime :: "string \<Rightarrow> bool \<Rightarrow> int \<Rightarrow> string option"   \<comment> \<open>format, local time or UTC, time\<close>
  strptime :: "string \<Rightarrow> bool \<Rightarrow> string \<Rightarrow> int option"
  localtime :: "int \<Rightarrow> int list"      \<comment> \<open>year since 1900, month, day, hour, minute, second\<close>
  popen :: "nat \<Rightarrow> string \<Rightarrow> string option"             \<comment> \<open>what a shell command prints\<close>
  redis :: "nat \<Rightarrow> string list \<Rightarrow> reply option"   \<comment> \<open>the reply to a command, if the connection holds\<close>
  xml_read :: "string \<Rightarrow> xnode option"         \<comment> \<open>the root of \<open>xmlReadMemory\<close>\<close>
  xml_xpath :: "xnode \<Rightarrow> string \<Rightarrow> xnode list option"   \<comment> \<open>\<open>xmlXPathEvalExpression\<close> on a document\<close>
  xml_prop :: "xnode \<Rightarrow> string \<Rightarrow> string option"        \<comment> \<open>\<open>xmlGetProp\<close>\<close>
  xml_text :: "xnode \<Rightarrow> string option"         \<comment> \<open>\<open>xmlNodeListGetString\<close> of the children\<close>
  strptime_tm :: "string \<Rightarrow> (int \<times> int \<times> int \<times> int) option"   \<comment> \<open>minute, hour, day, month of a timestamp\<close>
  sigchld :: "nat \<Rightarrow> bool"            \<comment> \<open>a child has ended\<close>
  sigstop :: "nat \<Rightarrow> bool"            \<comment> \<open>the daemon is asked to end\<close>
  reaped :: "nat \<Rightarrow> int list"         \<comment> \<open>the children that \<open>waitpid\<close> reports, until there is none\<close>
  waits :: "nat \<Rightarrow> bool list \<times> bool"  \<comment> \<open>the signals while waiting for one child (does each ask to stop), and
                                       whether waiting then ends with the child or with an error\<close>

text \<open>One tick: the number of the call, and the same with whether it fails.\<close>

definition now :: "('a world_scheme, nat) state" where
  "now = do { t \<leftarrow> gets tick; modify (\<lambda>w. w\<lparr>tick := t + 1\<rparr>); ret t }"

definition fails :: "env \<Rightarrow> ('a world_scheme, bool) state" where
  "fails env = do { t \<leftarrow> now; ret (fault env t) }"

definition getTime :: "env \<Rightarrow> ('a world_scheme, int) state" where
  "getTime env = do { t \<leftarrow> now; ret (wall env t) }"

definition getClkTime :: "env \<Rightarrow> ('a world_scheme, int) state" where
  "getClkTime env = do { t \<leftarrow> now; ret (clk env t) }"

abbreviation lookup :: "string \<Rightarrow> 'a world_scheme \<Rightarrow> node option" where
  "lookup path w \<equiv> map_of (fs w) path"

definition put_node :: "string \<Rightarrow> node \<Rightarrow> ('a world_scheme, unit) state" where
  "put_node path n = modify (\<lambda>w. w\<lparr>fs := AList.update path n (fs w)\<rparr>)"

definition drop_node :: "string \<Rightarrow> ('a world_scheme, unit) state" where
  "drop_node path = modify (\<lambda>w. w\<lparr>fs := AList.delete path (fs w)\<rparr>)"

text \<open>\<open>stat\<close>: an error other than a missing file is \<open>Inl False\<close>, a missing file \<open>Inl True\<close>.\<close>

definition sys_stat :: "env \<Rightarrow> string \<Rightarrow> ('a world_scheme, bool + node) state" where
  "sys_stat env path = do {
     f \<leftarrow> fails env;
     n \<leftarrow> gets (lookup path);
     ret (if f then Inl False else case n of None \<Rightarrow> Inl True | Some k \<Rightarrow> Inr k)
   }"

definition sys_mkdir :: "env \<Rightarrow> string \<Rightarrow> ('a world_scheme, int) state" where
  "sys_mkdir env path = do {
     f \<leftarrow> fails env;
     n \<leftarrow> gets (lookup path);
     if f \<or> n \<noteq> None then ret (- 1) else do { put_node path Dir; ret 0 }
   }"

definition sys_unlink :: "env \<Rightarrow> string \<Rightarrow> ('a world_scheme, int) state" where
  "sys_unlink env path = do {
     f \<leftarrow> fails env;
     n \<leftarrow> gets (lookup path);
     if f \<or> n = None \<or> n = Some Dir then ret (- 1) else do { drop_node path; ret 0 }
   }"

definition sys_rename :: "env \<Rightarrow> string \<Rightarrow> string \<Rightarrow> ('a world_scheme, int) state" where
  "sys_rename env old new = do {
     f \<leftarrow> fails env;
     n \<leftarrow> gets (lookup old);
     k \<leftarrow> gets (lookup new);
     case n of
       None \<Rightarrow> ret (- 1)
     | Some v \<Rightarrow>
         if f \<or> v = Dir \<or> k = Some Dir then ret (- 1)
         else if old = new then ret 0
         else do { drop_node old; put_node new v; ret 0 }
   }"

text \<open>\<open>fopen\<close> for writing and for appending; the file exists afterwards.\<close>

definition sys_create :: "env \<Rightarrow> bool \<Rightarrow> string \<Rightarrow> ('a world_scheme, bool) state" where
  "sys_create env app path = do {
     f \<leftarrow> fails env;
     n \<leftarrow> gets (lookup path);
     if f \<or> n = Some Dir then ret False
     else if app \<and> n \<noteq> None then ret True
     else do {
       put_node path (case n of Some (Reg r _) \<Rightarrow> Reg r [] | Some k \<Rightarrow> k | None \<Rightarrow> Reg True []);
       ret True
     }
   }"

definition add_bytes :: "string \<Rightarrow> string \<Rightarrow> ('a world_scheme, unit) state" where
  "add_bytes path s = do {
     n \<leftarrow> gets (lookup path);
     case n of Some (Reg r c) \<Rightarrow> put_node path (Reg r (c @ s)) | _ \<Rightarrow> ret ()
   }"

text \<open>\<open>fwrite\<close> transfers everything, or some bytes fewer and sets the error of the stream.\<close>

definition sys_fwrite :: "env \<Rightarrow> string \<Rightarrow> string \<Rightarrow> ('a world_scheme, nat \<times> bool) state" where
  "sys_fwrite env path s = do {
     t \<leftarrow> now;
     if fault env t
     then do {
       add_bytes path (take (min (short env t) (length s - 1)) s);
       ret (min (short env t) (length s - 1), True)
     }
     else do { add_bytes path s; ret (length s, False) }
   }"

text \<open>Every \<open>fclose\<close> of the program ignores its result; when it fails, a tail of the file is lost.\<close>

definition sys_fclose :: "env \<Rightarrow> string \<Rightarrow> ('a world_scheme, unit) state" where
  "sys_fclose env path = do {
     t \<leftarrow> now;
     n \<leftarrow> gets (lookup path);
     case n of
       Some (Reg r c) \<Rightarrow> if closefail env t then put_node path (Reg r (take (short env t) c)) else ret ()
     | _ \<Rightarrow> ret ()
   }"

text \<open>A path below the directory \<open>d\<close>, without a further separator.\<close>

definition child_of :: "string \<Rightarrow> string \<Rightarrow> bool" where
  "child_of d p \<longleftrightarrow> prefix (d @ ''/'') p \<and> CHR ''/'' \<notin> set (drop (length d + 1) p) \<and> length d + 1 < length p"

definition entries :: "string \<Rightarrow> 'a world_scheme \<Rightarrow> (string \<times> node) list" where
  "entries d w = map (\<lambda>(p, n). (drop (length d + 1) p, n)) (filter (\<lambda>(p, n). child_of d p) (fs w))"

definition sys_rmdir :: "env \<Rightarrow> string \<Rightarrow> ('a world_scheme, int) state" where
  "sys_rmdir env path = do {
     f \<leftarrow> fails env;
     n \<leftarrow> gets (lookup path);
     es \<leftarrow> gets (entries path);
     if f \<or> n \<noteq> Some Dir \<or> es \<noteq> [] then ret (- 1) else do { drop_node path; ret 0 }
   }"

subsection \<open>What the calls change\<close>

lemma wp_now [simp]: "wp now Q w = Q (tick w) (w\<lparr>tick := tick w + 1\<rparr>)"
  by (simp add: now_def)

lemma wp_fails [simp]: "wp (fails env) Q w = Q (fault env (tick w)) (w\<lparr>tick := tick w + 1\<rparr>)"
  by (simp add: fails_def)

lemma wp_getClkTime [simp]: "wp (getClkTime env) Q w = Q (clk env (tick w)) (w\<lparr>tick := tick w + 1\<rparr>)"
  by (simp add: getClkTime_def)

lemma wp_getTime [simp]: "wp (getTime env) Q w = Q (wall env (tick w)) (w\<lparr>tick := tick w + 1\<rparr>)"
  by (simp add: getTime_def)

lemma wp_node [simp]:
  "wp (case n of Reg r c \<Rightarrow> f r c | Dir \<Rightarrow> m | Special \<Rightarrow> m') Q s =
     (case n of Reg r c \<Rightarrow> wp (f r c) Q s | Dir \<Rightarrow> wp m Q s | Special \<Rightarrow> wp m' Q s)"
  by (cases n) simp_all

lemma wp_sum [simp]:
  "wp (case x of Inl a \<Rightarrow> f a | Inr b \<Rightarrow> g b) Q s =
     (case x of Inl a \<Rightarrow> wp (f a) Q s | Inr b \<Rightarrow> wp (g b) Q s)"
  by (cases x) simp_all

lemma wp_put_node [simp]: "wp (put_node p n) Q w = Q () (w\<lparr>fs := AList.update p n (fs w)\<rparr>)"
  by (simp add: put_node_def)

lemma wp_drop_node [simp]: "wp (drop_node p) Q w = Q () (w\<lparr>fs := AList.delete p (fs w)\<rparr>)"
  by (simp add: drop_node_def)

lemmas sys_defs = sys_stat_def sys_mkdir_def sys_unlink_def sys_rename_def sys_create_def
  add_bytes_def sys_fwrite_def sys_rmdir_def

text \<open>\<open>touches P m\<close>: \<open>m\<close> changes nothing of the state but the tick and the files whose paths satisfy
  \<open>P\<close>.\<close>

definition same_rest :: "(string \<Rightarrow> bool) \<Rightarrow> 'a world_scheme \<Rightarrow> 'a world_scheme \<Rightarrow> bool" where
  "same_rest P w w' \<longleftrightarrow> world.more w' = world.more w \<and> (\<forall>p. \<not> P p \<longrightarrow> lookup p w' = lookup p w) \<and>
     tick w \<le> tick w'"

definition touches :: "(string \<Rightarrow> bool) \<Rightarrow> ('a world_scheme, 'b) state \<Rightarrow> bool" where
  "touches P m \<longleftrightarrow> (\<forall>w. wp m (\<lambda>_ w'. same_rest P w w') w)"

lemma same_rest_refl [simp]: "same_rest P w w"
  by (simp add: same_rest_def)

lemma same_rest_trans: "same_rest P u v \<Longrightarrow> same_rest P v w \<Longrightarrow> same_rest P u w"
  by (simp add: same_rest_def)

lemma touches_run: "touches P m \<Longrightarrow> run_state m w = (a, w') \<Longrightarrow> same_rest P w w'"
  unfolding touches_def wp_def by (metis (mono_tags, lifting) case_prod_conv)

lemma touches_bind [intro]:
  assumes "touches P m" "\<And>a. touches P (f a)"
  shows "touches P (State_Monad.bind m f)"
  unfolding touches_def
proof (rule allI, rule wpI)
  fix w b w2
  assume "run_state (State_Monad.bind m f) w = (b, w2)"
  then obtain a w1 where "run_state m w = (a, w1)" "run_state (f a) w1 = (b, w2)"
    by (auto split: prod.splits)
  with assms show "same_rest P w w2"
    by (blast intro: same_rest_trans touches_run)
qed

lemma touches_return [intro]: "touches P (ret a)"
  by (simp add: touches_def)

lemma touches_gets [intro]: "touches P (gets f)"
  by (simp add: touches_def)

lemma touches_now [intro]: "touches P now"
  by (simp add: touches_def same_rest_def)

lemma touches_fails [intro]: "touches P (fails env)"
  by (simp add: touches_def same_rest_def)

lemma touches_put [intro]: "P p \<Longrightarrow> touches P (put_node p n)"
  by (auto simp: touches_def same_rest_def update_conv')

lemma touches_drop [intro]: "P p \<Longrightarrow> touches P (drop_node p)"
  by (auto simp: touches_def same_rest_def delete_conv')

lemma touches_if [intro]: "(c \<Longrightarrow> touches P m) \<Longrightarrow> (\<not> c \<Longrightarrow> touches P n) \<Longrightarrow> touches P (if c then m else n)"
  by simp

lemma touches_option [intro]:
  "touches P m \<Longrightarrow> (\<And>y. touches P (f y)) \<Longrightarrow> touches P (case x of None \<Rightarrow> m | Some y \<Rightarrow> f y)"
  by (cases x) simp_all

lemma touches_prod [intro]: "(\<And>a b. touches P (f a b)) \<Longrightarrow> touches P (case x of (a, b) \<Rightarrow> f a b)"
  by (cases x) simp

lemma touches_node [intro]:
  "(\<And>r c. touches P (f r c)) \<Longrightarrow> touches P m \<Longrightarrow> touches P m' \<Longrightarrow>
    touches P (case n of Reg r c \<Rightarrow> f r c | Dir \<Rightarrow> m | Special \<Rightarrow> m')"
  by (cases n) simp_all

lemma touches_sum [intro]:
  "(\<And>a. touches P (f a)) \<Longrightarrow> (\<And>b. touches P (g b)) \<Longrightarrow> touches P (case x of Inl a \<Rightarrow> f a | Inr b \<Rightarrow> g b)"
  by (cases x) simp_all

lemma touches_sys [intro]:
  "touches P (sys_stat env p)"
  "P p \<Longrightarrow> touches P (sys_mkdir env p)"
  "P p \<Longrightarrow> touches P (sys_unlink env p)"
  "P p \<Longrightarrow> P q \<Longrightarrow> touches P (sys_rename env p q)"
  "P p \<Longrightarrow> touches P (sys_create env a p)"
  "P p \<Longrightarrow> touches P (add_bytes p s)"
  "P p \<Longrightarrow> touches P (sys_rmdir env p)"
  unfolding sys_defs by (intro touches_bind touches_return touches_gets touches_fails touches_if
      touches_option touches_put touches_drop touches_node; assumption)+

lemma touches_fwrite [intro]: "P p \<Longrightarrow> touches P (sys_fwrite env p s)"
  unfolding sys_fwrite_def by (intro touches_bind touches_return touches_now touches_if touches_sys) auto

lemma touches_fclose [intro]: "P p \<Longrightarrow> touches P (sys_fclose env p)"
  unfolding sys_fclose_def by (intro touches_bind touches_return touches_now touches_gets touches_option
      touches_node touches_if touches_put)

lemma touches_wp: "touches P m \<Longrightarrow> (\<And>a w'. same_rest P w w' \<Longrightarrow> Q a w') \<Longrightarrow> wp m Q w"
  unfolding touches_def wp_def by (auto split: prod.splits)

end
