(* ===== verification/Regex.thy ===== *)
theory Regex imports Prelude "HOL-Library.Sublist" begin

text \<open>
  The POSIX extended regular expressions the program compiles with \<open>regcomp\<close>, as an abstract syntax,
  with their languages and an executable matcher by derivatives.  \<open>regexec\<close> is used in three
  ways: a test on an unanchored or anchored pattern (\<open>regmatch\<close>), the extraction of groups from a
  pattern that is a concatenation of literals and groups (\<open>tmatch\<close>, anchored at both ends, and
  \<open>tsearch\<close>, leftmost), and the line-wise search of \<open>getPatternKey\<close>.  Characters are bytes, as in the
  "C" locale the program runs in.
\<close>

subsection \<open>Expressions and their languages\<close>

datatype rx =
    Zero
  | One
  | Cls "char \<Rightarrow> bool"
  | Alt rx rx
  | Seq rx rx
  | Star rx

inductive_set star :: "string set \<Rightarrow> string set" for L where
  star_Nil: "[] \<in> star L"
| star_step: "u \<in> L \<Longrightarrow> v \<in> star L \<Longrightarrow> u @ v \<in> star L"

fun lang :: "rx \<Rightarrow> string set" where
  "lang Zero = {}"
| "lang One = {[]}"
| "lang (Cls p) = {[c] | c. p c}"
| "lang (Alt r s) = lang r \<union> lang s"
| "lang (Seq r s) = {u @ v | u v. u \<in> lang r \<and> v \<in> lang s}"
| "lang (Star r) = star (lang r)"

fun nullable :: "rx \<Rightarrow> bool" where
  "nullable Zero = False"
| "nullable One = True"
| "nullable (Cls p) = False"
| "nullable (Alt r s) = (nullable r \<or> nullable s)"
| "nullable (Seq r s) = (nullable r \<and> nullable s)"
| "nullable (Star r) = True"

fun alt :: "rx \<Rightarrow> rx \<Rightarrow> rx" where
  "alt Zero s = s"
| "alt r Zero = r"
| "alt r s = Alt r s"

fun seq :: "rx \<Rightarrow> rx \<Rightarrow> rx" where
  "seq Zero s = Zero"
| "seq One s = s"
| "seq r s = Seq r s"

fun deriv :: "char \<Rightarrow> rx \<Rightarrow> rx" where
  "deriv c Zero = Zero"
| "deriv c One = Zero"
| "deriv c (Cls p) = (if p c then One else Zero)"
| "deriv c (Alt r s) = alt (deriv c r) (deriv c s)"
| "deriv c (Seq r s) =
     (if nullable r then alt (seq (deriv c r) s) (deriv c s) else seq (deriv c r) s)"
| "deriv c (Star r) = seq (deriv c r) (Star r)"

fun matches :: "rx \<Rightarrow> string \<Rightarrow> bool" where
  "matches r [] = nullable r"
| "matches r (c # s) = matches (deriv c r) s"

text \<open>The lengths of the prefixes of a string that match, shortest first.\<close>

fun prefix_lens :: "rx \<Rightarrow> string \<Rightarrow> nat list" where
  "prefix_lens r [] = (if nullable r then [0] else [])"
| "prefix_lens r (c # s) =
     (if r = Zero then []
      else (if nullable r then [0] else []) @ map Suc (prefix_lens (deriv c r) s))"

lemma lang_alt [simp]: "lang (alt r s) = lang r \<union> lang s"
  by (induction r s rule: alt.induct) auto

lemma lang_seq [simp]: "lang (seq r s) = {u @ v | u v. u \<in> lang r \<and> v \<in> lang s}"
  by (induction r s rule: seq.induct) auto

lemma nullable_lang: "nullable r \<longleftrightarrow> [] \<in> lang r"
  by (induction r) (auto intro: star_Nil)

lemma star_Cons:
  "c # w \<in> star L \<longleftrightarrow> (\<exists>u v. w = u @ v \<and> c # u \<in> L \<and> v \<in> star L)"
proof
  show "\<exists>u v. w = u @ v \<and> c # u \<in> L \<and> v \<in> star L \<Longrightarrow> c # w \<in> star L"
    using star_step [of "c # u" L for u] by fastforce
  have "x \<in> star L \<Longrightarrow> x = c # w \<Longrightarrow> \<exists>u v. w = u @ v \<and> c # u \<in> L \<and> v \<in> star L" for x
  proof (induction x rule: star.induct)
    case (star_step u v)
    then show ?case by (cases u) auto
  qed simp
  then show "c # w \<in> star L \<Longrightarrow> \<exists>u v. w = u @ v \<and> c # u \<in> L \<and> v \<in> star L"
    by blast
qed

lemma lang_deriv: "w \<in> lang (deriv c r) \<longleftrightarrow> c # w \<in> lang r"
proof (induction r arbitrary: w)
  case (Seq r s)
  have "(\<exists>u v. c # w = u @ v \<and> u \<in> lang r \<and> v \<in> lang s) \<longleftrightarrow>
      (\<exists>u v. w = u @ v \<and> c # u \<in> lang r \<and> v \<in> lang s) \<or> ([] \<in> lang r \<and> c # w \<in> lang s)"
    by (auto simp: Cons_eq_append_conv)
  with Seq show ?case by (simp add: nullable_lang)
next
  case (Star r)
  then show ?case by (simp add: star_Cons)
qed auto

theorem matches_lang: "matches r s \<longleftrightarrow> s \<in> lang r"
  by (induction s arbitrary: r) (simp_all add: nullable_lang lang_deriv)

lemma prefix_lens_lang: "k \<in> set (prefix_lens r s) \<longleftrightarrow> k \<le> length s \<and> take k s \<in> lang r"
proof (induction s arbitrary: r k)
  case Nil
  then show ?case by (simp add: nullable_lang)
next
  case (Cons c s)
  then show ?case
    by (cases k) (auto simp: nullable_lang lang_deriv image_iff)
qed

subsection \<open>Derived forms\<close>

definition Chr :: "char \<Rightarrow> rx" where
  "Chr c = Cls (\<lambda>d. d = c)"

fun Str :: "string \<Rightarrow> rx" where
  "Str [] = One"
| "Str [c] = Chr c"
| "Str (c # cs) = Seq (Chr c) (Str cs)"

fun Alts :: "rx list \<Rightarrow> rx" where
  "Alts [] = Zero"
| "Alts [r] = r"
| "Alts (r # rs) = Alt r (Alts rs)"

fun Seqs :: "rx list \<Rightarrow> rx" where
  "Seqs [] = One"
| "Seqs [r] = r"
| "Seqs (r # rs) = Seq r (Seqs rs)"

definition Opt :: "rx \<Rightarrow> rx" where
  "Opt r = Alt One r"

fun Upto :: "nat \<Rightarrow> rx \<Rightarrow> rx" where
  "Upto 0 r = One"
| "Upto (Suc n) r = Alt One (Seq r (Upto n r))"

fun Rep :: "nat \<Rightarrow> rx \<Rightarrow> rx" where
  "Rep 0 r = One"
| "Rep (Suc n) r = Seq r (Rep n r)"

text \<open>\<open>r{m,n}\<close>\<close>

definition Range :: "nat \<Rightarrow> nat \<Rightarrow> rx \<Rightarrow> rx" where
  "Range m n r = Seq (Rep m r) (Upto (n - m) r)"

definition Plus :: "rx \<Rightarrow> rx" where
  "Plus r = Seq r (Star r)"

text \<open>\<open>[lo-hi]\<close>\<close>

definition between :: "char \<Rightarrow> char \<Rightarrow> char \<Rightarrow> bool" where
  "between lo hi c \<longleftrightarrow> byte lo \<le> byte c \<and> byte c \<le> byte hi"

lemma lang_Chr [simp]: "lang (Chr c) = {[c]}"
  by (auto simp: Chr_def)

lemma lang_Str [simp]: "lang (Str s) = {s}"
  by (induction s rule: Str.induct) auto

lemma lang_Alts [simp]: "lang (Alts rs) = \<Union> (lang ` set rs)"
  by (induction rs rule: Alts.induct) auto

lemma lang_Opt [simp]: "lang (Opt r) = insert [] (lang r)"
  by (auto simp: Opt_def)

lemma lang_Seqs_Cons [simp]:
  "lang (Seqs (r # rs)) = {u @ v | u v. u \<in> lang r \<and> v \<in> lang (Seqs rs)}"
  by (cases rs) auto

lemma lang_Seq_Cls:
  "[] \<notin> lang (Seq (Cls p) r)" "c # s \<in> lang (Seq (Cls p) r) \<longleftrightarrow> p c \<and> s \<in> lang r"
proof -
  show "c # s \<in> lang (Seq (Cls p) r) \<longleftrightarrow> p c \<and> s \<in> lang r"
    by simp (metis append_Cons append_Nil list.inject)
qed simp

lemma lang_Rep_Cls: "s \<in> lang (Rep n (Cls p)) \<longleftrightarrow> length s = n \<and> (\<forall>c\<in>set s. p c)"
proof (induction n arbitrary: s)
  case (Suc n)
  then show ?case by (cases s) (auto simp: lang_Seq_Cls simp del: lang.simps(5))
qed auto

lemma lang_Upto_Cls: "s \<in> lang (Upto n (Cls p)) \<longleftrightarrow> length s \<le> n \<and> (\<forall>c\<in>set s. p c)"
proof (induction n arbitrary: s)
  case (Suc n)
  then show ?case by (cases s) (auto simp: lang_Seq_Cls simp del: lang.simps(5))
qed auto

lemma lang_Star_Cls: "s \<in> lang (Star (Cls p)) \<longleftrightarrow> (\<forall>c\<in>set s. p c)"
proof (induction s)
  case Nil
  then show ?case by (simp add: star_Nil)
next
  case (Cons c s)
  then show ?case by (auto simp: star_Cons)
qed

lemma lang_Range_Cls:
  "m \<le> n \<Longrightarrow> s \<in> lang (Range m n (Cls p)) \<longleftrightarrow> m \<le> length s \<and> length s \<le> n \<and> (\<forall>c\<in>set s. p c)"
proof -
  assume mn: "m \<le> n"
  have "s \<in> lang (Range m n (Cls p)) \<longleftrightarrow>
      (\<exists>u v. s = u @ v \<and> length u = m \<and> length v \<le> n - m \<and> (\<forall>c\<in>set s. p c))"
    unfolding Range_def lang.simps mem_Collect_eq lang_Rep_Cls lang_Upto_Cls
    by (metis Un_iff set_append)
  also have "\<dots> \<longleftrightarrow> m \<le> length s \<and> length s \<le> n \<and> (\<forall>c\<in>set s. p c)"
  proof
    assume a: "m \<le> length s \<and> length s \<le> n \<and> (\<forall>c\<in>set s. p c)"
    then show "\<exists>u v. s = u @ v \<and> length u = m \<and> length v \<le> n - m \<and> (\<forall>c\<in>set s. p c)"
      by (intro exI [of _ "take m s"] exI [of _ "drop m s"]) auto
  qed (use mn in auto)
  finally show ?thesis .
qed

lemma star_lang_sub: "w \<in> star L \<Longrightarrow> (\<And>u. u \<in> L \<Longrightarrow> set u \<subseteq> C) \<Longrightarrow> set w \<subseteq> C"
  by (induction w rule: star.induct) auto

text \<open>A string of a repetition is the concatenation of strings of the repeated expression.\<close>

lemma star_concat: "w \<in> star L \<longleftrightarrow> (\<exists>ws. w = concat ws \<and> set ws \<subseteq> L)"
proof
  show "w \<in> star L \<Longrightarrow> \<exists>ws. w = concat ws \<and> set ws \<subseteq> L"
  proof (induction w rule: star.induct)
    case star_Nil
    then show ?case by (intro exI [of _ "[]"]) simp
  next
    case (star_step u v)
    then obtain ws where "v = concat ws" "set ws \<subseteq> L" by blast
    then show ?case using star_step.hyps(1) by (intro exI [of _ "u # ws"]) simp
  qed
  have "set ws \<subseteq> L \<Longrightarrow> concat ws \<in> star L" for ws
    by (induction ws) (auto intro: star_Nil star_step)
  then show "\<exists>ws. w = concat ws \<and> set ws \<subseteq> L \<Longrightarrow> w \<in> star L" by blast
qed

subsection \<open>The ways the program matches\<close>

text \<open>\<open>^r$\<close> without \<open>REG_NEWLINE\<close>, and \<open>r\<close> anywhere in the text; 0 is a match as in
  \<^verbatim>\<open>regmatch\<close>, whose \<open>regcomp\<close> accepts the constant patterns of the program.\<close>

definition regmatch_whole :: "rx \<Rightarrow> string \<Rightarrow> int" where
  "regmatch_whole r text = (if matches r text then 0 else - 1)"

fun found_in :: "rx \<Rightarrow> string \<Rightarrow> bool" where
  "found_in r [] = nullable r"
| "found_in r (c # s) = (prefix_lens r (c # s) \<noteq> [] \<or> found_in r s)"

definition regmatch_search :: "rx \<Rightarrow> string \<Rightarrow> int" where
  "regmatch_search r text = (if found_in r text then 0 else - 1)"

lemma found_in_lang: "found_in r s \<longleftrightarrow> (\<exists>u v w. s = u @ v @ w \<and> v \<in> lang r)"
proof (induction s)
  case Nil
  then show ?case by (simp add: nullable_lang)
next
  case (Cons c s)
  have "prefix_lens r (c # s) \<noteq> [] \<longleftrightarrow> (\<exists>k\<le>length (c # s). take k (c # s) \<in> lang r)"
    using prefix_lens_lang [of _ r "c # s"] by (metis list.set_intros(1) neq_Nil_conv list.set(1) empty_iff)
  also have "\<dots> \<longleftrightarrow> (\<exists>v w. c # s = v @ w \<and> v \<in> lang r)"
    by (metis append_eq_conv_conj append_take_drop_id le_cases take_all length_append le_add1)
  finally have "found_in r (c # s) \<longleftrightarrow>
      (\<exists>v w. c # s = v @ w \<and> v \<in> lang r) \<or> (\<exists>u v w. s = u @ v @ w \<and> v \<in> lang r)"
    using Cons by simp
  then show ?case
    by (auto simp: Cons_eq_append_conv) blast+
qed

text \<open>A pattern with groups.  By the POSIX rule each group, from left to right, takes the longest
  string that lets the rest match.\<close>

datatype titem = Lit string | Skip rx | Grp rx

definition longest_first :: "rx \<Rightarrow> string \<Rightarrow> nat list" where
  "longest_first r s = rev (prefix_lens r s)"

fun first_some :: "('a \<Rightarrow> 'b option) \<Rightarrow> 'a list \<Rightarrow> 'b option" where
  "first_some f [] = None"
| "first_some f (x # xs) = (case f x of None \<Rightarrow> first_some f xs | Some y \<Rightarrow> Some y)"

lemma first_some_cong [fundef_cong]:
  "xs = ys \<Longrightarrow> (\<And>x. x \<in> set ys \<Longrightarrow> f x = g x) \<Longrightarrow> first_some f xs = first_some g ys"
  by (induction xs arbitrary: ys) (auto split: option.split)

lemma first_some_None: "first_some f xs = None \<longleftrightarrow> (\<forall>x\<in>set xs. f x = None)"
  by (induction xs) (auto split: option.splits)

lemma first_some_Some: "first_some f xs = Some y \<Longrightarrow> \<exists>x\<in>set xs. f x = Some y"
  by (induction xs) (auto split: option.splits)

text \<open>\<open>tmatch whole ts s\<close> matches at the beginning of \<open>s\<close>, to its end if \<open>whole\<close>.\<close>

fun tmatch :: "bool \<Rightarrow> titem list \<Rightarrow> string \<Rightarrow> string list option" where
  "tmatch whole [] s = (if whole \<and> s \<noteq> [] then None else Some [])"
| "tmatch whole (Lit l # ts) s = (if prefix l s then tmatch whole ts (drop (length l) s) else None)"
| "tmatch whole (Skip r # ts) s = first_some (\<lambda>k. tmatch whole ts (drop k s)) (longest_first r s)"
| "tmatch whole (Grp r # ts) s =
     first_some (\<lambda>k. map_option ((#) (take k s)) (tmatch whole ts (drop k s))) (longest_first r s)"

fun tsearch :: "titem list \<Rightarrow> string \<Rightarrow> string list option" where
  "tsearch ts [] = tmatch False ts []"
| "tsearch ts (c # s) =
     (case tmatch False ts (c # s) of None \<Rightarrow> tsearch ts s | Some gs \<Rightarrow> Some gs)"

text \<open>What a match says: the text is the literals and the groups in order, each group in the
  language of its expression.\<close>

fun tparse :: "titem list \<Rightarrow> string list \<Rightarrow> string \<Rightarrow> bool" where
  "tparse [] gs s \<longleftrightarrow> gs = [] \<and> s = []"
| "tparse (Lit l # ts) gs s \<longleftrightarrow> (\<exists>t. s = l @ t \<and> tparse ts gs t)"
| "tparse (Skip r # ts) gs s \<longleftrightarrow> (\<exists>u t. s = u @ t \<and> u \<in> lang r \<and> tparse ts gs t)"
| "tparse (Grp r # ts) gs s \<longleftrightarrow>
     (\<exists>u t gs'. gs = u # gs' \<and> s = u @ t \<and> u \<in> lang r \<and> tparse ts gs' t)"

lemma longest_first_iff: "k \<in> set (longest_first r s) \<longleftrightarrow> k \<le> length s \<and> take k s \<in> lang r"
  by (simp add: longest_first_def prefix_lens_lang)

lemma tmatch_sound: "tmatch whole ts s = Some gs \<Longrightarrow> \<exists>t u. s = t @ u \<and> tparse ts gs t \<and> (whole \<longrightarrow> u = [])"
proof (induction whole ts s arbitrary: gs rule: tmatch.induct)
  case (1 whole s)
  then show ?case by (auto split: if_splits)
next
  case (2 whole l ts s)
  then obtain t u where "drop (length l) s = t @ u" "tparse ts gs t" "whole \<longrightarrow> u = []" "prefix l s"
    by (auto split: if_splits)
  then show ?case
    by (intro exI [of _ "l @ t"] exI [of _ u]) (auto simp: prefix_def)
next
  case (3 whole r ts s)
  from "3.prems" obtain k where
    k: "k \<in> set (longest_first r s)" "tmatch whole ts (drop k s) = Some gs"
    by (auto dest: first_some_Some)
  obtain t u where "drop k s = t @ u" "tparse ts gs t" "whole \<longrightarrow> u = []"
    using "3.IH" [OF k] by blast
  then show ?case using k(1)
    by (intro exI [of _ "take k s @ t"] exI [of _ u])
      (auto simp: longest_first_iff, metis append_take_drop_id)
next
  case (4 whole r ts s)
  from "4.prems" obtain k gs' where
    k: "k \<in> set (longest_first r s)" "tmatch whole ts (drop k s) = Some gs'" "gs = take k s # gs'"
    by (auto dest: first_some_Some)
  obtain t u where "drop k s = t @ u" "tparse ts gs' t" "whole \<longrightarrow> u = []"
    using "4.IH" [OF k(1,2)] by blast
  then show ?case using k(1,3)
    by (intro exI [of _ "take k s @ t"] exI [of _ u])
      (auto simp: longest_first_iff, metis append_take_drop_id)
qed

lemma tmatch_complete: "tparse ts gs t \<Longrightarrow> tmatch whole ts (t @ u) = None \<Longrightarrow> whole \<and> u \<noteq> []"
proof (induction whole ts "t @ u" arbitrary: gs t rule: tmatch.induct)
  case (1 whole)
  then show ?case by (auto split: if_splits)
next
  case (2 whole l ts)
  then show ?case by (force simp: prefix_def split: if_splits)
next
  case (3 whole r ts)
  then obtain v w where t: "t = v @ w" "v \<in> lang r" "tparse ts gs w" by auto
  then have "length v \<in> set (longest_first r (t @ u))" by (simp add: longest_first_iff)
  with "3.hyps" [of "length v" w gs] "3.prems"(2) t show ?case
    by (auto simp: first_some_None)
next
  case (4 whole r ts)
  then obtain v w gs' where t: "t = v @ w" "v \<in> lang r" "tparse ts gs' w" by auto
  then have "length v \<in> set (longest_first r (t @ u))" by (simp add: longest_first_iff)
  with "4.hyps" [of "length v" w gs'] "4.prems"(2) t show ?case
    by (auto simp: first_some_None)
qed

text \<open>A whole match exists exactly for the texts that parse, and when the parse is unique it is the
  one found.\<close>

lemma tmatch_whole_iff: "tmatch True ts s \<noteq> None \<longleftrightarrow> (\<exists>gs. tparse ts gs s)"
  using tmatch_sound [of True ts s] tmatch_complete [of ts _ s True "[]"] by fastforce

lemma tmatch_whole_parse: "tmatch True ts s = Some gs \<Longrightarrow> tparse ts gs s"
  using tmatch_sound by fastforce

lemma tmatch_whole_unique:
  "tparse ts gs s \<Longrightarrow> (\<And>gs'. tparse ts gs' s \<Longrightarrow> gs' = gs) \<Longrightarrow> tmatch True ts s = Some gs"
  by (metis not_None_eq tmatch_whole_iff tmatch_whole_parse)

end
