(* ===== verification/Patterns.thy ===== *)
theory Patterns imports Regex Text begin

text \<open>
  The patterns of \<^verbatim>\<open>base_openvas.h\<close>, one definition per macro, and what each accepts in terms of
  characters and numbers.
\<close>

subsection \<open>Character classes\<close>

definition one_of :: "string \<Rightarrow> char \<Rightarrow> bool" where
  "one_of cs c \<longleftrightarrow> c \<in> set cs"

text \<open>\<open>[^\'`"]\<close> and \<open>[^\/#|'~`!^$,:;?"&*%<>[:space:]]\<close>; a backslash in brackets stands for itself.\<close>

definition comm_char :: "char \<Rightarrow> bool" where
  "comm_char c \<longleftrightarrow> \<not> one_of [BSL, SQ, BQ, DQ] c"

definition name_char :: "char \<Rightarrow> bool" where
  "name_char c \<longleftrightarrow> \<not> one_of ([BSL, SQ, BQ, DQ] @ ''/#|~!^$,:;?&*%<>'') c \<and> \<not> isspace c"

definition DIGIT :: rx where "DIGIT = Cls isdigit"
definition XDIGIT :: rx where "XDIGIT = Cls isxdigit"

abbreviation rng :: "char \<Rightarrow> char \<Rightarrow> rx" where
  "rng lo hi \<equiv> Cls (between lo hi)"

subsection \<open>The macros\<close>

definition CUSTOM_COMM_PATTERN :: rx where "CUSTOM_COMM_PATTERN = Star (Cls comm_char)"
definition CUSTOM_SCHEDULE_TYPE_PATTERN :: rx where "CUSTOM_SCHEDULE_TYPE_PATTERN = DIGIT"
definition CUSTOM_ON_OFF_PATTERN :: rx where "CUSTOM_ON_OFF_PATTERN = Cls (one_of ''01'')"
definition CUSTOM_SERVICES_PATTERN :: rx where
  "CUSTOM_SERVICES_PATTERN = Star (Cls (\<lambda>c. one_of ''-,'' c \<or> isalnum c))"

definition CUSTOM_PORT_PATTERN :: rx where
  "CUSTOM_PORT_PATTERN = Alts
     [Seq (Opt (rng CHR ''1'' CHR ''5'')) (Range 1 4 DIGIT),
      Seqs [Chr CHR ''6'', rng CHR ''0'' CHR ''4'', Rep 3 DIGIT],
      Seqs [Str ''65'', rng CHR ''0'' CHR ''4'', Rep 2 DIGIT],
      Seqs [Str ''655'', Cls (one_of ''012''), DIGIT],
      Seq (Str ''6553'') (rng CHR ''0'' CHR ''5'')]"

definition OR_REPEAT :: "rx \<Rightarrow> rx" where
  "OR_REPEAT r = Seq r (Star (Seq (Chr CHR '','') r))"

definition delim_char :: "char \<Rightarrow> bool" where
  "delim_char c \<longleftrightarrow> c = CHR '','' \<or> isspace c"

definition OR_REPEAT_EX :: "rx \<Rightarrow> rx" where
  "OR_REPEAT_EX r = Seq r (Star (Seq (Plus (Cls delim_char)) r))"

definition UUID_REG_PATTERN :: rx where
  "UUID_REG_PATTERN = Seqs
     [Rep 8 XDIGIT, Chr CHR ''-'', Rep 4 XDIGIT, Chr CHR ''-'', Rep 4 XDIGIT, Chr CHR ''-'',
      Rep 4 XDIGIT, Chr CHR ''-'', Rep 12 XDIGIT]"

definition GVM_NAME_PATTERN :: rx where "GVM_NAME_PATTERN = Range 1 128 (Cls name_char)"
definition CUSTOM_DIGIT_NUM_PATTERN :: rx where "CUSTOM_DIGIT_NUM_PATTERN = Range 1 3 DIGIT"

definition CUSTOM_TIME_STAMP_PATTERN :: rx where
  "CUSTOM_TIME_STAMP_PATTERN = Seqs
     [Rep 4 DIGIT, Chr CHR ''-'', Rep 2 DIGIT, Chr CHR ''-'', Rep 2 DIGIT, Chr CHR '' '',
      Rep 2 DIGIT, Chr CHR '':'', Rep 2 DIGIT, Chr CHR '':'', Rep 2 DIGIT]"

definition CUSTOM_WEEK_DAY_PATTERN :: rx where
  "CUSTOM_WEEK_DAY_PATTERN = Alts (map Str [''MO'', ''TU'', ''WE'', ''TH'', ''FR'', ''SA'', ''SU''])"

definition CUSTOM_MONTH_DAY_PATTERN :: rx where
  "CUSTOM_MONTH_DAY_PATTERN = Alts
     [rng CHR ''1'' CHR ''9'', Seq (Cls (one_of ''12'')) DIGIT, Str ''30'', Str ''31'', Str ''-1'']"

definition CUSTOM_IP_NUM :: rx where
  "CUSTOM_IP_NUM = Alts
     [DIGIT, Seq (rng CHR ''1'' CHR ''9'') DIGIT, Seqs [Chr CHR ''1'', DIGIT, DIGIT],
      Seqs [Chr CHR ''2'', rng CHR ''0'' CHR ''4'', DIGIT], Seq (Str ''25'') (rng CHR ''0'' CHR ''5'')]"

definition CUSTOM_IP_PATTERN :: rx where
  "CUSTOM_IP_PATTERN = Seq CUSTOM_IP_NUM (Rep 3 (Seq (Chr CHR ''.'') CUSTOM_IP_NUM))"

definition CUSTOM_IP_RANGE_PATTERN :: rx where
  "CUSTOM_IP_RANGE_PATTERN = Alts
     [CUSTOM_IP_PATTERN,
      Seqs [CUSTOM_IP_PATTERN, Chr CHR ''/'', Range 1 2 DIGIT],
      Seqs [CUSTOM_IP_PATTERN, Chr CHR ''-'', CUSTOM_IP_PATTERN],
      Seqs [CUSTOM_IP_PATTERN, Chr CHR ''-'', Range 1 3 DIGIT]]"

definition CUSTOM_HOST_OR_PORT :: "rx \<Rightarrow> rx" where
  "CUSTOM_HOST_OR_PORT r = Seq r (Opt (Seq (Chr CHR '':'') CUSTOM_PORT_PATTERN))"

definition CUSTOM_IP_BLOCK :: rx where
  "CUSTOM_IP_BLOCK = Seqs
     [CUSTOM_IP_PATTERN, Chr CHR ''/'',
      Alts [Seq (Chr CHR ''1'') (rng CHR ''6'' CHR ''9''), Seq (Chr CHR ''2'') DIGIT, Str ''30'', Str ''31'']]"

definition CUSTOM_IP_OR_PORT :: rx where
  "CUSTOM_IP_OR_PORT = CUSTOM_HOST_OR_PORT CUSTOM_IP_PATTERN"

definition CUSTOM_IP_BLOCK_OR_PORT :: rx where
  "CUSTOM_IP_BLOCK_OR_PORT = CUSTOM_HOST_OR_PORT CUSTOM_IP_BLOCK"

subsection \<open>Classes and numbers\<close>

text \<open>Patterns of fixed length are a class per position.\<close>

definition fixed :: "rx \<Rightarrow> (char \<Rightarrow> bool) list \<Rightarrow> bool" where
  "fixed r ps \<longleftrightarrow> (\<forall>s. s \<in> lang r \<longleftrightarrow> list_all2 (\<lambda>p c. p c) ps s)"

lemma fixed_Cls: "fixed (Cls p) [p]"
  by (auto simp: fixed_def list_all2_Cons1)

lemma fixed_Chr: "fixed (Chr c) [\<lambda>d. d = c]"
  by (auto simp: fixed_def list_all2_Cons1)

lemma fixed_Rep: "fixed (Rep n (Cls p)) (replicate n p)"
  unfolding fixed_def lang_Rep_Cls by (auto simp: list_all2_conv_all_nth all_set_conv_all_nth)

lemma fixed_Seq:
  assumes "fixed r ps" "fixed q qs"
  shows "fixed (Seq r q) (ps @ qs)"
proof -
  have "(\<exists>u v. s = u @ v \<and> list_all2 (\<lambda>p c. p c) ps u \<and> list_all2 (\<lambda>p c. p c) qs v) \<longleftrightarrow>
      list_all2 (\<lambda>p c. p c) (ps @ qs) s" for s
    unfolding list_all2_append1 by (metis list_all2_lengthD)
  then show ?thesis
    using assms by (simp only: fixed_def lang.simps mem_Collect_eq simp_thms)
qed

lemma fixed_Seqs_Nil: "fixed (Seqs []) []"
  by (simp add: fixed_def)

lemma fixed_Seqs: "fixed r ps \<Longrightarrow> fixed (Seqs rs) qs \<Longrightarrow> fixed (Seqs (r # rs)) (ps @ qs)"
  by (drule (1) fixed_Seq) (simp only: fixed_def lang_Seqs_Cons lang.simps(5) simp_thms)

lemmas fixed_intros = fixed_Cls fixed_Chr fixed_Rep fixed_Seqs_Nil fixed_Seqs

lemma fixed_iff:
  "fixed r (map f [0..<n]) \<Longrightarrow> s \<in> lang r \<longleftrightarrow> length s = n \<and> (\<forall>i<n. f i (s ! i))"
  by (auto simp: fixed_def list_all2_conv_all_nth)

lemma lang_DIGIT [simp]: "lang DIGIT = {[c] | c. isdigit c}"
  by (simp add: DIGIT_def)

lemma between_digit [simp]:
  "between CHR ''0'' CHR ''9'' = isdigit"
  by (rule ext) (simp add: between_def isdigit_def byte_def of_char_def)

text \<open>A name is one to 128 characters that the shell, XML and the message format do not treat
  specially.\<close>

lemma GVM_NAME_iff:
  "matches GVM_NAME_PATTERN s \<longleftrightarrow> 1 \<le> length s \<and> length s \<le> 128 \<and> (\<forall>c\<in>set s. name_char c)"
  by (simp add: matches_lang GVM_NAME_PATTERN_def lang_Range_Cls del: lang.simps)

lemma CUSTOM_COMM_iff: "s \<in> lang CUSTOM_COMM_PATTERN \<longleftrightarrow> (\<forall>c\<in>set s. comm_char c)"
  unfolding CUSTOM_COMM_PATTERN_def by (rule lang_Star_Cls)

definition uuid_at :: "nat \<Rightarrow> char \<Rightarrow> bool" where
  "uuid_at i = (if i \<in> {8, 13, 18, 23} then (\<lambda>c. c = CHR ''-'') else isxdigit)"

lemma uuid_lang_iff:
  "s \<in> lang UUID_REG_PATTERN \<longleftrightarrow> length s = 36 \<and> (\<forall>i<36. uuid_at i (s ! i))"
proof (rule fixed_iff)
  have "fixed UUID_REG_PATTERN
      (replicate 8 isxdigit @ [\<lambda>c. c = CHR ''-''] @ replicate 4 isxdigit @ [\<lambda>c. c = CHR ''-''] @
       replicate 4 isxdigit @ [\<lambda>c. c = CHR ''-''] @ replicate 4 isxdigit @ [\<lambda>c. c = CHR ''-''] @
       replicate 12 isxdigit @ [])"
    unfolding UUID_REG_PATTERN_def XDIGIT_def by (intro fixed_intros)
  then show "fixed UUID_REG_PATTERN (map uuid_at [0..<36])"
    by (simp add: upt_conv_Cons uuid_at_def numeral_eq_Suc)
qed

definition stamp_at :: "nat \<Rightarrow> char \<Rightarrow> bool" where
  "stamp_at i = (if i = 4 \<or> i = 7 then (\<lambda>c. c = CHR ''-'') else if i = 10 then (\<lambda>c. c = CHR '' '')
     else if i = 13 \<or> i = 16 then (\<lambda>c. c = CHR '':'') else isdigit)"

lemma time_stamp_lang_iff:
  "s \<in> lang CUSTOM_TIME_STAMP_PATTERN \<longleftrightarrow> length s = 19 \<and> (\<forall>i<19. stamp_at i (s ! i))"
proof (rule fixed_iff)
  have "fixed CUSTOM_TIME_STAMP_PATTERN
      (replicate 4 isdigit @ [\<lambda>c. c = CHR ''-''] @ replicate 2 isdigit @ [\<lambda>c. c = CHR ''-''] @
       replicate 2 isdigit @ [\<lambda>c. c = CHR '' ''] @ replicate 2 isdigit @ [\<lambda>c. c = CHR '':''] @
       replicate 2 isdigit @ [\<lambda>c. c = CHR '':''] @ replicate 2 isdigit @ [])"
    unfolding CUSTOM_TIME_STAMP_PATTERN_def DIGIT_def by (intro fixed_intros)
  then show "fixed CUSTOM_TIME_STAMP_PATTERN (map stamp_at [0..<19])"
    by (simp add: upt_conv_Cons stamp_at_def numeral_eq_Suc)
qed

text \<open>The numeric patterns, by the value of the digits.\<close>

lemma byte_consts [simp]:
  "byte CHR ''0'' = 48" "byte CHR ''1'' = 49" "byte CHR ''2'' = 50" "byte CHR ''3'' = 51"
  "byte CHR ''4'' = 52" "byte CHR ''5'' = 53" "byte CHR ''6'' = 54" "byte CHR ''9'' = 57"
  by (simp_all add: byte_def of_char_def)

lemma digit_eq:
  "c = CHR ''0'' \<longleftrightarrow> byte c = 48" "c = CHR ''1'' \<longleftrightarrow> byte c = 49" "c = CHR ''2'' \<longleftrightarrow> byte c = 50"
  "c = CHR ''3'' \<longleftrightarrow> byte c = 51" "c = CHR ''4'' \<longleftrightarrow> byte c = 52" "c = CHR ''5'' \<longleftrightarrow> byte c = 53"
  "c = CHR ''6'' \<longleftrightarrow> byte c = 54"
  by (simp_all flip: byte_inject)

lemma digits_val_simps:
  "digits_val [a] = byte a - 48" "digits_val [a, b] = 10 * byte a + byte b - 528"
  "digits_val [a, b, c] = 100 * byte a + 10 * byte b + byte c - 5328"
  "digits_val [a, b, c, d] = 1000 * byte a + 100 * byte b + 10 * byte c + byte d - 53328"
  "digits_val [a, b, c, d, e] =
     10000 * byte a + 1000 * byte b + 100 * byte c + 10 * byte d + byte e - 533328"
  by (simp_all add: digits_val_def digval_def)

lemma fixedD: "fixed r ps \<Longrightarrow> s \<in> lang r \<longleftrightarrow> list_all2 (\<lambda>p c. p c) ps s"
  by (simp add: fixed_def)

definition num_text :: "nat \<Rightarrow> int \<Rightarrow> string \<Rightarrow> bool" where
  "num_text w m s \<longleftrightarrow> s \<noteq> [] \<and> length s \<le> w \<and> (\<forall>c\<in>set s. isdigit c) \<and> digits_val s \<le> m"

lemma list_le3_cases:
  assumes "s \<noteq> []" "length s \<le> 3"
  obtains a where "s = [a]" | a b where "s = [a, b]" | a b c where "s = [a, b, c]"
  using assms by (cases s; cases "tl s"; cases "tl (tl s)"; cases "tl (tl (tl s))") auto

text \<open>Membership of a string whose length is known, character by character.\<close>

lemma mem_lang:
  "s \<in> lang (Alt r q) \<longleftrightarrow> s \<in> lang r \<or> s \<in> lang q"
  "s \<in> lang One \<longleftrightarrow> s = []"
  "[] \<notin> lang (Cls p)" "[c] \<in> lang (Cls p) \<longleftrightarrow> p c" "c # d # t \<notin> lang (Cls p)"
  "[] \<notin> lang (Seq (Cls p) r)" "c # t \<in> lang (Seq (Cls p) r) \<longleftrightarrow> p c \<and> t \<in> lang r"
  "s \<in> lang (Seq (Alt r q) r') \<longleftrightarrow> s \<in> lang (Seq r r') \<or> s \<in> lang (Seq q r')"
  "s \<in> lang (Seq One r) \<longleftrightarrow> s \<in> lang r"
  "s \<in> lang (Seq (Seq r q) r') \<longleftrightarrow> s \<in> lang (Seq r (Seq q r'))"
  using lang_Seq_Cls(1) [of p r] lang_Seq_Cls(2) [of c t p r] by auto (metis append.assoc)+

lemmas rx_unfolds = Alts.simps Seqs.simps Chr_def Str.simps DIGIT_def Opt_def Range_def
  Rep.simps Upto.simps numeral_eq_Suc pred_numeral_simps

lemmas num_unfolds = num_text_def between_def isdigit_def digit_eq digits_val_simps one_of_def

lemma ip_num_lens: "s \<in> lang CUSTOM_IP_NUM \<Longrightarrow> s \<noteq> [] \<and> length s \<le> 3"
  by (auto simp: CUSTOM_IP_NUM_def)

lemma CUSTOM_IP_NUM_iff:
  "s \<in> lang CUSTOM_IP_NUM \<longleftrightarrow> num_text 3 255 s \<and> (1 < length s \<longrightarrow> hd s \<noteq> CHR ''0'')"
proof (cases "s \<noteq> [] \<and> length s \<le> 3")
  case False
  then show ?thesis using ip_num_lens [of s] by (auto simp: num_text_def)
next
  case True
  then show ?thesis
    by (rule conjE, elim list_le3_cases)
      (auto simp: CUSTOM_IP_NUM_def rx_unfolds mem_lang num_unfolds simp del: lang.simps)
qed

lemma list_le5_cases:
  assumes "s \<noteq> []" "length s \<le> 5"
  obtains a where "s = [a]" | a b where "s = [a, b]" | a b c where "s = [a, b, c]"
    | a b c d where "s = [a, b, c, d]" | a b c d e where "s = [a, b, c, d, e]"
  using assms
  by (cases s; cases "tl s"; cases "tl (tl s)"; cases "tl (tl (tl s))"; cases "tl (tl (tl (tl s)))";
      cases "tl (tl (tl (tl (tl s))))") auto

lemma CUSTOM_PORT_iff:
  "s \<in> lang CUSTOM_PORT_PATTERN \<longleftrightarrow> num_text 5 65535 s \<and> (length s = 5 \<longrightarrow> hd s \<noteq> CHR ''0'')"
proof (cases "s \<noteq> [] \<and> length s \<le> 5")
  case False
  moreover have "s \<in> lang CUSTOM_PORT_PATTERN \<Longrightarrow> s \<noteq> [] \<and> length s \<le> 5"
    by (auto simp: CUSTOM_PORT_PATTERN_def lang_Range_Cls lang_Rep_Cls DIGIT_def)
  ultimately show ?thesis by (auto simp: num_text_def)
next
  case True
  note unf = CUSTOM_PORT_PATTERN_def rx_unfolds mem_lang num_unfolds
  show ?thesis
  proof (rule list_le5_cases [OF conjunct1 [OF True] conjunct2 [OF True]])
    fix a b c d e
    assume s: "s = [a, b, c, d, e]"
    define ds where "ds \<longleftrightarrow> isdigit a \<and> isdigit b \<and> isdigit c \<and> isdigit d \<and> isdigit e"
    have "s \<in> lang CUSTOM_PORT_PATTERN \<longleftrightarrow> ds \<and> 49 \<le> byte a \<and>
       (byte a \<le> 53 \<or> byte a = 54 \<and> (byte b \<le> 52 \<or> byte b = 53 \<and> (byte c \<le> 52 \<or>
         byte c = 53 \<and> (byte d \<le> 50 \<or> byte d = 51 \<and> byte e \<le> 53))))"
      unfolding s ds_def by (simp add: unf del: lang.simps, safe; linarith)
    also have "\<dots> \<longleftrightarrow> ds \<and> 49 \<le> byte a \<and> digits_val s \<le> 65535"
      unfolding s ds_def by (simp add: num_unfolds, safe; linarith)
    also have "\<dots> \<longleftrightarrow> num_text 5 65535 s \<and> (length s = 5 \<longrightarrow> hd s \<noteq> CHR ''0'')"
      unfolding s ds_def by (simp add: num_unfolds, safe; linarith)
    finally show ?thesis .
  qed (simp add: unf del: lang.simps, safe; linarith)+
qed

end
