(* ===== verification/Checks.thy ===== *)
theory Checks imports Patterns begin

text \<open>
  The parameter checks of \<^verbatim>\<open>task_openvas.c\<close>: validators, extraction of values from requests, records
  and XML replies, and the functions that escape them.  Return codes are the \<open>int\<close>s of the code; a
  function that writes a buffer returns it.
\<close>

subsection \<open>Validators\<close>

definition ICAL_DATE_NONE :: int where "ICAL_DATE_NONE = 0"
definition ICAL_DATE_ONCE :: int where "ICAL_DATE_ONCE = 1"
definition ICAL_DATE_DAILY :: int where "ICAL_DATE_DAILY = 2"
definition ICAL_DATE_WEEKLY :: int where "ICAL_DATE_WEEKLY = 3"
definition ICAL_DATE_MONTHLY :: int where "ICAL_DATE_MONTHLY = 4"
definition ICAL_DATE_END :: int where "ICAL_DATE_END = 5"

lemmas ical_defs = ICAL_DATE_NONE_def ICAL_DATE_ONCE_def ICAL_DATE_DAILY_def ICAL_DATE_WEEKLY_def
  ICAL_DATE_MONTHLY_def ICAL_DATE_END_def

definition chkTimeStamp :: "string \<Rightarrow> int" where
  "chkTimeStamp s = regmatch_whole CUSTOM_TIME_STAMP_PATTERN s"

definition chkScheduleParam :: "int \<Rightarrow> string \<Rightarrow> string \<Rightarrow> int" where
  "chkScheduleParam type schedule_time schedule_list =
     (if type = ICAL_DATE_NONE
      then (if schedule_time = [] \<and> schedule_list = [] then 0 else - 1)
      else if chkTimeStamp schedule_time = 0
      then (if type = ICAL_DATE_ONCE \<or> type = ICAL_DATE_DAILY
            then (if schedule_list = [] then 0 else - 1)
            else if type = ICAL_DATE_WEEKLY
            then regmatch_whole (OR_REPEAT CUSTOM_WEEK_DAY_PATTERN) schedule_list
            else if type = ICAL_DATE_MONTHLY
            then regmatch_whole (OR_REPEAT CUSTOM_MONTH_DAY_PATTERN) schedule_list
            else 0)
      else - 1)"

definition chkConfigInfo :: "string \<Rightarrow> string \<Rightarrow> int" where
  "chkConfigInfo ids names =
     (let ret = regmatch_whole (OR_REPEAT UUID_REG_PATTERN) ids
      in if ret \<noteq> 0 then ret else regmatch_whole (OR_REPEAT GVM_NAME_PATTERN) names)"

definition isMultiUuid :: "string \<Rightarrow> int" where
  "isMultiUuid ids =
     (if regmatch_search (Seq UUID_REG_PATTERN (Plus (Seq (Chr CHR '','') UUID_REG_PATTERN))) ids = 0
      then 1 else 0)"

definition chkUuid :: "string \<Rightarrow> int" where
  "chkUuid s = regmatch_whole UUID_REG_PATTERN s"

definition chkHosts :: "string \<Rightarrow> int" where
  "chkHosts s = regmatch_whole (OR_REPEAT CUSTOM_IP_RANGE_PATTERN) s"

definition chkHostsExt :: "string \<Rightarrow> int" where
  "chkHostsExt s = regmatch_whole (OR_REPEAT_EX CUSTOM_IP_RANGE_PATTERN) s"

definition chkName :: "string \<Rightarrow> int" where
  "chkName s = regmatch_whole GVM_NAME_PATTERN s"

definition chkHydraHosts :: "int \<Rightarrow> string \<Rightarrow> int" where
  "chkHydraHosts hosts_type hosts =
     (if hosts_type = 0 then regmatch_whole (OR_REPEAT_EX CUSTOM_IP_OR_PORT) hosts
      else if hosts_type = 1 then regmatch_whole CUSTOM_IP_BLOCK_OR_PORT hosts
      else - 1)"

definition chkHydraHostsIntern :: "int \<Rightarrow> string \<Rightarrow> int" where
  "chkHydraHostsIntern hosts_type hosts =
     (if hosts_type = 0 then regmatch_whole (OR_REPEAT CUSTOM_IP_OR_PORT) hosts
      else if hosts_type = 1 then regmatch_whole CUSTOM_IP_BLOCK_OR_PORT hosts
      else - 1)"

definition chkLoginList :: "string \<Rightarrow> int" where
  "chkLoginList s = regmatch_whole (OR_REPEAT GVM_NAME_PATTERN) s"

definition chkPasswdList :: "string \<Rightarrow> int" where
  "chkPasswdList s = regmatch_whole (OR_REPEAT GVM_NAME_PATTERN) s"

definition SYS_SERVICE_LIST :: "string list" where
  "SYS_SERVICE_LIST =
     [''ftp'', ''ssh'', ''telnet'', ''rtsp'', ''mysql'', ''rdp'', ''onvif'', ''http-get'']"

lemma getNextToken_shorter: "getNextToken s [d] buf n = (0, f, rest) \<Longrightarrow> length rest < length s"
  by (rule getNextToken_cases [of s d buf n]) auto

function chkServices_loop :: "string \<Rightarrow> bool \<Rightarrow> int" where
  "chkServices_loop saveptr has_service =
     (case getNextToken saveptr '','' [] MAX_NAME_SIZE of (ret, service, save) \<Rightarrow>
        if ret = 0
        then if service \<in> set SYS_SERVICE_LIST then chkServices_loop save True else - 1
        else if ret = 1 then (if has_service then 0 else - 1)
        else - 1)"
  by pat_completeness auto
termination
  by (relation "measure (\<lambda>(s, _). length s)") (auto dest: getNextToken_shorter [OF sym])

declare chkServices_loop.simps [simp del]

definition chkServices :: "string \<Rightarrow> int" where
  "chkServices s = chkServices_loop s False"

subsection \<open>Extraction\<close>

definition DQS :: string where "DQS = [DQ]"

definition chkRspStatusOk :: "string \<Rightarrow> string \<Rightarrow> int" where
  "chkRspStatusOk cmd rsp =
     (case tmatch False
        [Lit (''<'' @ cmd @ ''_response status='' @ DQS), Grp (Rep 3 DIGIT), Lit (DQS @ '' '')] rsp of
        Some [val] \<Rightarrow> if val \<noteq> [] \<and> hd val = CHR ''2'' then 0 else 2
      | _ \<Rightarrow> 1)"

definition take_group :: "string list option \<Rightarrow> nat \<Rightarrow> int \<times> string" where
  "take_group m maxlen =
     (case m of Some [g] \<Rightarrow> if length g < maxlen then (0, g) else (- 1, []) | _ \<Rightarrow> (- 1, []))"

definition extractTagUuid :: "string \<Rightarrow> string \<Rightarrow> nat \<Rightarrow> int \<times> string" where
  "extractTagUuid rsp tag maxlen =
     take_group (tsearch [Lit (''<'' @ tag @ ''>''), Grp UUID_REG_PATTERN, Lit (''</'' @ tag @ ''>'')] rsp)
       maxlen"

definition extractAttrUuid :: "string \<Rightarrow> string \<Rightarrow> nat \<Rightarrow> int \<times> string" where
  "extractAttrUuid rsp tag maxlen =
     take_group (tsearch
       [Lit (''<'' @ tag @ '' status='' @ DQS @ ''20''), Skip DIGIT, Lit (DQS @ '' status_text='' @ DQS),
        Skip (Star (Cls (\<lambda>c. c \<noteq> DQ \<and> c \<noteq> CHR ''>''))), Lit (DQS @ '' id='' @ DQS),
        Grp UUID_REG_PATTERN, Lit DQS, Skip (Opt (Chr CHR ''/'')), Lit ''>''] rsp) maxlen"

text \<open>With \<open>REG_NEWLINE\<close> the anchors match at lines, and none of the patterns used here matches a
  newline, so the first line that matches is the match.\<close>

fun lines_of :: "string \<Rightarrow> string list" where
  "lines_of [] = [[]]"
| "lines_of (c # s) =
     (if c = NL then [] # lines_of s else (c # hd (lines_of s)) # tl (lines_of s))"

definition getPatternKey :: "string \<Rightarrow> string \<Rightarrow> rx \<Rightarrow> nat \<Rightarrow> int \<times> string" where
  "getPatternKey rec key pattern maxlen =
     take_group
       (first_some (tmatch True [Lit (key @ ''='' @ DQS), Grp pattern, Lit DQS]) (lines_of rec)) maxlen"

definition getPatternKeyInt :: "string \<Rightarrow> string \<Rightarrow> rx \<Rightarrow> int \<times> int" where
  "getPatternKeyInt rec key pattern =
     (case getPatternKey rec key pattern MAX_COMM_MIN_SIZE of (ret, buf) \<Rightarrow>
        if ret = 0 then if buf \<noteq> [] \<and> isdigit (hd buf) then (0, atoi buf) else (- 1, - 1)
        else (ret, - 1))"

definition getXmlTagVal :: "string \<Rightarrow> string \<Rightarrow> nat \<Rightarrow> (int \<times> string)" where
  "getXmlTagVal xml tag maxlen =
     (let beg = fst (snprintf MAX_COMM_SIZE (''<'' @ tag @ ''>''));
          fin = fst (snprintf MAX_COMM_SIZE (''</'' @ tag @ ''>''))
      in case strstr xml beg of
           None \<Rightarrow> (- 1, [])
         | Some p \<Rightarrow>
             (let start = drop (length beg) p
              in case strstr start fin of
                   None \<Rightarrow> (- 1, [])
                 | Some stop \<Rightarrow>
                     (let len = length start - length stop
                      in if len < maxlen then (0, take len start) else (- 1, []))))"

subsection \<open>Escaping\<close>

text \<open>\<open>cnt\<close> is the length of what has been written; the loop stops in front of a character that does
  not fit, and the text counts as escaped only when nothing is left.\<close>

fun escapeXml_loop :: "string \<Rightarrow> nat \<Rightarrow> nat \<Rightarrow> string \<times> string" where
  "escapeXml_loop [] cnt maxlen = ([], [])"
| "escapeXml_loop (c # cs) cnt maxlen =
     (if cnt < maxlen - 1
      then if c = DQ
           then if cnt < maxlen - 2
                then (case escapeXml_loop cs (cnt + 2) maxlen of (out, left) \<Rightarrow> (BSL # DQ # out, left))
                else ([], c # cs)
           else (case escapeXml_loop cs (cnt + 1) maxlen of (out, left) \<Rightarrow> (c # out, left))
      else ([], c # cs))"

definition escapeXml :: "string \<Rightarrow> nat \<Rightarrow> int \<times> string" where
  "escapeXml xml maxlen =
     (case escapeXml_loop xml 0 maxlen of (out, left) \<Rightarrow>
        if 0 < length out \<and> left = [] then (int (length out), out) else (0, []))"

text \<open>\<open>escapeHosts\<close> and \<open>escapeHydraHosts\<close> are the same loop over different sets of kept characters.
  They work in place; the write index never passes the read index, so the text read is the original
  one.  \<open>out\<close> is what has been written.\<close>

fun compact :: "(char \<Rightarrow> bool) \<Rightarrow> string \<Rightarrow> string \<Rightarrow> bool \<Rightarrow> string" where
  "compact keep [] out isDelim = out"
| "compact keep (c # cs) out isDelim =
     (if keep c then compact keep cs (out @ [c]) False
      else if \<not> isDelim \<and> out \<noteq> [] then compact keep cs (out @ '','') True
      else compact keep cs out isDelim)"

definition finish_hosts :: "string \<Rightarrow> int \<times> string" where
  "finish_hosts out =
     (let h = (if out \<noteq> [] \<and> last out = CHR '','' then butlast out else out)
      in if h \<noteq> [] then (0, h) else (- 1, h))"

definition host_char :: "char \<Rightarrow> bool" where
  "host_char c \<longleftrightarrow> isdigit c \<or> one_of ''/.-'' c"

definition hydra_host_char :: "char \<Rightarrow> bool" where
  "hydra_host_char c \<longleftrightarrow> isdigit c \<or> one_of ''/.:'' c"

definition escapeHosts :: "string \<Rightarrow> int \<times> string" where
  "escapeHosts hosts = finish_hosts (compact host_char hosts [] False)"

definition escapeHydraHosts :: "string \<Rightarrow> int \<times> string" where
  "escapeHydraHosts hosts = finish_hosts (compact hydra_host_char hosts [] False)"

subsection \<open>Parameters of the requests\<close>

record php_key_task_param =
  pk_task_name :: string
  pk_task_id :: string
  pk_target_id :: string

record php_create_task_param =
  pc_task_name :: string
  pc_group_name :: string
  pc_group_id :: string
  pc_hosts :: string
  pc_schedule_type :: string
  pc_schedule_time :: string
  pc_schedule_list :: string

record php_key_hydra_param =
  hk_task_name :: string
  hk_task_id :: string

record php_create_hydra_param =
  hc_hosts_type :: int
  hc_task_name :: string
  hc_hosts :: string
  hc_services :: string
  hc_opts :: string
  hc_login_list :: string
  hc_passwd_list :: string
  hc_schedule_type :: string
  hc_schedule_time :: string
  hc_schedule_list :: string

text \<open>The text between two groups: a closing quote, the next field and an opening quote.\<close>

definition amp :: "string \<Rightarrow> titem" where
  "amp field = Lit (DQS @ ''&'' @ field @ ''='' @ DQS)"

definition getPhpKeyTaskParam :: "string \<Rightarrow> int \<times> php_key_task_param option" where
  "getPhpKeyTaskParam input =
     (case tmatch True
        [Lit (''taskname='' @ DQS), Grp GVM_NAME_PATTERN, amp ''taskid'', Grp UUID_REG_PATTERN,
         amp ''targetid'', Grp UUID_REG_PATTERN, Lit DQS] input of
        Some [nm, task, target] \<Rightarrow>
          if length nm < MAX_NAME_SIZE \<and> length task < MAX_UUID_SIZE \<and> length target < MAX_UUID_SIZE
          then (0, Some \<lparr>pk_task_name = nm, pk_task_id = task, pk_target_id = target\<rparr>)
          else (- 1, None)
      | _ \<Rightarrow> (- 1, None))"

definition getPhpKeyHydraParam :: "string \<Rightarrow> int \<times> php_key_hydra_param option" where
  "getPhpKeyHydraParam input =
     (case tmatch True
        [Lit (''taskname='' @ DQS), Grp GVM_NAME_PATTERN, amp ''taskid'', Grp UUID_REG_PATTERN, Lit DQS]
        input of
        Some [nm, task] \<Rightarrow>
          if length nm < MAX_NAME_SIZE \<and> length task < MAX_UUID_SIZE
          then (0, Some \<lparr>hk_task_name = nm, hk_task_id = task\<rparr>)
          else (- 1, None)
      | _ \<Rightarrow> (- 1, None))"

definition create_task_template :: "titem list" where
  "create_task_template =
     [Lit (''taskname='' @ DQS), Grp CUSTOM_COMM_PATTERN, amp ''group'', Grp CUSTOM_COMM_PATTERN,
      amp ''groupname'', Grp CUSTOM_COMM_PATTERN, amp ''hosts'', Grp CUSTOM_COMM_PATTERN,
      amp ''schdule_type'', Grp CUSTOM_COMM_PATTERN, amp ''schedule_time'', Grp CUSTOM_COMM_PATTERN,
      amp ''schedule_list'', Grp CUSTOM_COMM_PATTERN, Lit DQS]"

text \<open>The checks in the order of the code; the first that fails gives the return code.\<close>

fun first_fail :: "int list \<Rightarrow> int" where
  "first_fail [] = 0"
| "first_fail (r # rs) = (if r \<noteq> 0 then r else first_fail rs)"

lemma first_fail_0: "first_fail rs = 0 \<longleftrightarrow> (\<forall>r\<in>set rs. r = 0)"
  by (induction rs) auto

definition getPhpCreateTaskParam :: "string \<Rightarrow> int \<times> php_create_task_param option" where
  "getPhpCreateTaskParam input =
     (case tmatch True create_task_template input of
        Some [nm, gid, gname, hosts, stype, stime, slist] \<Rightarrow>
          if length nm < MAX_NAME_SIZE \<and> length gid < MAX_MEM_LIST_SIZE \<and>
             length gname < MAX_MEM_LIST_SIZE \<and> length hosts < MAX_MEM_LIST_SIZE \<and>
             length stype < MAX_COMM_MIN_SIZE \<and> length stime < MAX_TIMESTAMP_SIZE \<and>
             length slist < MAX_SCHEDULE_LIST_SIZE
          then let hosts1 = snd (escapeHosts hosts);
                   ret = first_fail
                     [chkName nm, chkConfigInfo gid gname, chkHostsExt hosts,
                      fst (escapeHosts hosts), chkScheduleParam (atoi stype) stime slist]
               in (ret, if ret = 0
                    then Some \<lparr>pc_task_name = nm, pc_group_name = gname, pc_group_id = gid,
                               pc_hosts = hosts1, pc_schedule_type = stype, pc_schedule_time = stime,
                               pc_schedule_list = slist\<rparr>
                    else None)
          else (- 1, None)
      | _ \<Rightarrow> (- 1, None))"

definition create_hydra_template :: "titem list" where
  "create_hydra_template =
     [Lit (''taskname='' @ DQS), Grp CUSTOM_COMM_PATTERN, amp ''hosts_type'', Grp CUSTOM_ON_OFF_PATTERN,
      amp ''hosts'', Grp CUSTOM_COMM_PATTERN, amp ''services'', Grp CUSTOM_SERVICES_PATTERN,
      amp ''opts'', Grp CUSTOM_COMM_PATTERN, amp ''login_list'', Grp CUSTOM_COMM_PATTERN,
      amp ''passwd_list'', Grp CUSTOM_COMM_PATTERN, amp ''schdule_type'', Grp CUSTOM_COMM_PATTERN,
      amp ''schedule_time'', Grp CUSTOM_COMM_PATTERN, amp ''schedule_list'', Grp CUSTOM_COMM_PATTERN,
      Lit DQS]"

definition getPhpCreateHydraParam :: "string \<Rightarrow> int \<times> php_create_hydra_param option" where
  "getPhpCreateHydraParam input =
     (case tmatch True create_hydra_template input of
        Some [nm, htype, hosts, services, opts, login, passwd, stype, stime, slist] \<Rightarrow>
          if length nm < MAX_NAME_SIZE \<and> length htype < MAX_COMM_MIN_SIZE \<and>
             length hosts < MAX_MEM_LIST_SIZE \<and> length services < MAX_MEM_LIST_SIZE \<and>
             length opts < MAX_MEM_LIST_SIZE \<and> length login < MAX_MEM_LIST_SIZE \<and>
             length passwd < MAX_MEM_LIST_SIZE \<and> length stype < MAX_COMM_MIN_SIZE \<and>
             length stime < MAX_TIMESTAMP_SIZE \<and> length slist < MAX_SCHEDULE_LIST_SIZE
          then let hosts_type = atoi htype;
                   ret = first_fail
                     [chkName nm, chkHydraHosts hosts_type hosts, chkLoginList login,
                      chkPasswdList passwd, fst (escapeHydraHosts hosts), chkServices services,
                      chkScheduleParam (atoi stype) stime slist]
               in (ret, if ret = 0
                    then Some \<lparr>hc_hosts_type = hosts_type, hc_task_name = nm,
                               hc_hosts = snd (escapeHydraHosts hosts), hc_services = services,
                               hc_opts = opts, hc_login_list = login, hc_passwd_list = passwd,
                               hc_schedule_type = stype, hc_schedule_time = stime,
                               hc_schedule_list = slist\<rparr>
                    else None)
          else (- 1, None)
      | _ \<Rightarrow> (- 1, None))"

end
