(* ===== verification/Files.thy ===== *)
theory Files imports World Checks begin

text \<open>
  The file helpers of \<^verbatim>\<open>comm_misc.c\<close> and its UUID generator, over the file system of \<open>World\<close>, with
  every return code of the code.
\<close>

subsection \<open>Existence, directories and files\<close>

definition chkExists :: "env \<Rightarrow> string \<Rightarrow> bool \<Rightarrow> ('a world_scheme, int) state" where
  "chkExists env dir isFile = do {
     st \<leftarrow> sys_stat env dir;
     ret (case st of
            Inr (Reg _ _) \<Rightarrow> if isFile then 0 else - 2
          | Inr Dir \<Rightarrow> if \<not> isFile then 0 else - 2
          | Inr Special \<Rightarrow> - 2
          | Inl enoent \<Rightarrow> if enoent then 1 else - 1)
   }"

definition createDir :: "env \<Rightarrow> string \<Rightarrow> ('a world_scheme, int) state" where
  "createDir env dir = do {
     st \<leftarrow> sys_stat env dir;
     case st of
       Inr n \<Rightarrow> ret (if n = Dir then 1 else - 2)
     | Inl enoent \<Rightarrow> if enoent then sys_mkdir env dir else ret (- 1)
   }"

definition deleteFile :: "env \<Rightarrow> string \<Rightarrow> ('a world_scheme, int) state" where
  "deleteFile env path = do {
     st \<leftarrow> sys_stat env path;
     case st of
       Inr n \<Rightarrow> if n \<noteq> Dir then sys_unlink env path else ret (- 2)
     | Inl enoent \<Rightarrow> ret (if enoent then 1 else - 1)
   }"

definition strip_slashes :: "string \<Rightarrow> string" where
  "strip_slashes d = rev (dropWhile (\<lambda>c. c = CHR ''/'') (rev (take MAX_FILENAME_PATH_SIZE d)))"

text \<open>The entries of a directory as \<open>readdir_r\<close> gives them; \<open>rec\<close> deletes a subdirectory.\<close>

fun del_entries ::
  "env \<Rightarrow> (string \<Rightarrow> ('a world_scheme, int) state) \<Rightarrow> string \<Rightarrow> (string \<times> node) list \<Rightarrow> ('a world_scheme, int) state" where
  "del_entries env rec path [] = do { f \<leftarrow> fails env; ret (if f then - 1 else 0) }"
| "del_entries env rec path ((nm, kind) # es) = do {
     f \<leftarrow> fails env;
     if f then ret (- 1)
     else if length path + length nm < MAX_FILENAME_PATH_SIZE
     then if kind \<noteq> Dir
          then do {
            r \<leftarrow> sys_unlink env (path @ nm);
            if r = 0 then del_entries env rec path es else ret (- 1)
          }
          else if nm \<noteq> ''.'' \<and> nm \<noteq> ''..''
          then do {
            r \<leftarrow> rec (path @ nm);
            if r \<noteq> 0 then ret r else del_entries env rec path es
          }
          else del_entries env rec path es
     else ret (- 1)
   }"

text \<open>Paths are shorter than 256 and grow with every level, so a depth of 256 is never reached
  (\<open>deleteDir_fuel_enough\<close>).\<close>

primrec deleteDir_fuel :: "nat \<Rightarrow> env \<Rightarrow> string \<Rightarrow> ('a world_scheme, int) state" where
  "deleteDir_fuel 0 env dir = ret (- 1)"
| "deleteDir_fuel (Suc n) env dir =
     (let path = strip_slashes dir
      in if dir = [] \<or> length path \<le> 1 \<or> MAX_FILENAME_PATH_SIZE - 2 \<le> length path \<or> hd dir \<noteq> CHR ''/''
         then ret (- 1)
         else do {
           st \<leftarrow> sys_stat env path;
           case st of
             Inl enoent \<Rightarrow> ret (if enoent then 1 else - 1)
           | Inr k \<Rightarrow>
               if k \<noteq> Dir then ret (- 2)
               else do {
                 f \<leftarrow> fails env;
                 if f then ret (- 1)
                 else do {
                   es \<leftarrow> gets (entries path);
                   r \<leftarrow> del_entries env (deleteDir_fuel n env) (path @ ''/'') ((''.'', Dir) # (''..'', Dir) # es);
                   if r = 0 then sys_rmdir env path else ret r
                 }
               }
         })"

definition deleteDir :: "env \<Rightarrow> string \<Rightarrow> ('a world_scheme, int) state" where
  "deleteDir env dir = deleteDir_fuel MAX_FILENAME_PATH_SIZE env dir"

subsection \<open>Reading and writing\<close>

text \<open>The result of reading: the return code and the bytes.\<close>

definition readTotalFile :: "env \<Rightarrow> string \<Rightarrow> ('a world_scheme, int \<times> string) state" where
  "readTotalFile env nm = do {
     st \<leftarrow> sys_stat env nm;
     case st of
       Inl enoent \<Rightarrow> ret (if enoent then 1 else - 1, [])
     | Inr (Reg r c) \<Rightarrow>
         if \<not> r then ret (- 1, [])
         else if length c > MAX_TASK_FILE_SIZE then ret (- 1, [])
         else if c = [] then ret (2, [])
         else do {
           nomem \<leftarrow> fails env;
           if nomem then ret (- 1, [])
           else do {
             noopen \<leftarrow> fails env;
             if noopen then ret (- 1, [])
             else do {
               bad \<leftarrow> fails env;
               ret (if bad then (- 1, []) else (0, c))
             }
           }
         }
     | Inr _ \<Rightarrow> ret (- 1, [])
   }"

text \<open>The loop of \<open>writeFile\<close> and \<open>appendFile\<close>: \<open>fwrite\<close> once, and again only when it neither failed nor
  finished, which does not happen; what is left is the second result.\<close>

definition write_all :: "env \<Rightarrow> string \<Rightarrow> string \<Rightarrow> ('a world_scheme, nat) state" where
  "write_all env filename buf =
     (if buf = [] then ret 0
      else do { (cnt, _) \<leftarrow> sys_fwrite env filename buf; ret (length buf - cnt) })"

definition write_mode :: "env \<Rightarrow> bool \<Rightarrow> string \<Rightarrow> string \<Rightarrow> ('a world_scheme, int) state" where
  "write_mode env app buf filename = do {
     ok \<leftarrow> sys_create env app filename;
     if ok
     then do {
       left \<leftarrow> write_all env filename buf;
       sys_fclose env filename;
       ret (if left = 0 then 0 else - 2)
     }
     else ret (- 1)
   }"

definition writeFile :: "env \<Rightarrow> string \<Rightarrow> string \<Rightarrow> ('a world_scheme, int) state" where
  "writeFile env buf filename = write_mode env False buf filename"

definition appendFile :: "env \<Rightarrow> string \<Rightarrow> string \<Rightarrow> ('a world_scheme, int) state" where
  "appendFile env buf path = write_mode env True buf path"

definition rename_if :: "env \<Rightarrow> int \<Rightarrow> string \<Rightarrow> string \<Rightarrow> ('a world_scheme, int) state" where
  "rename_if env r tmpFile normalFile =
     (if r = 0 then do { k \<leftarrow> sys_rename env tmpFile normalFile; ret (if k \<noteq> 0 then - 3 else 0) } else ret r)"

definition writeFileSafe :: "env \<Rightarrow> string \<Rightarrow> string \<Rightarrow> string \<Rightarrow> ('a world_scheme, int) state" where
  "writeFileSafe env buf normalFile tmpFile = do {
     r \<leftarrow> writeFile env buf tmpFile;
     rename_if env r tmpFile normalFile
   }"

definition createPidFile :: "env \<Rightarrow> string \<Rightarrow> int \<Rightarrow> ('a world_scheme, int) state" where
  "createPidFile env path pid =
     writeFile env (if pid \<noteq> 0 then fst (snprintf MAX_COMM_MIN_SIZE (dec pid)) else []) path"

text \<open>One step per token; the list of names gets shorter, so its length is fuel enough.\<close>

primrec copy_loop ::
  "nat \<Rightarrow> env \<Rightarrow> string \<Rightarrow> string \<Rightarrow> bool \<Rightarrow> string \<Rightarrow> ('a world_scheme, int) state" where
  "copy_loop 0 env basedir dst has_write saveptr = ret (- 1)"
| "copy_loop (Suc n) env basedir dst has_write saveptr =
     (case getNextToken saveptr '','' [] MAX_FILENAME_PATH_SIZE of (r, nm, save) \<Rightarrow>
        if r = 0 \<and> nm \<noteq> []
        then if MAX_FILENAME_PATH_SIZE \<le> length (basedir @ ''/'' @ nm) then ret (- 1)
             else do {
               (rd, buf) \<leftarrow> readTotalFile env (basedir @ ''/'' @ nm);
               if rd = 0
               then do {
                 wr \<leftarrow> (if \<not> has_write then writeFile env buf dst else appendFile env buf dst);
                 (if wr = 0 \<and> last buf \<noteq> NL
                  then do { _ \<leftarrow> appendFile env [NL] dst; ret () } else ret ());
                 if wr \<noteq> 0 then ret wr else copy_loop n env basedir dst True save
               }
               else if rd = 1 then ret 1
               else if rd = 2 then copy_loop n env basedir dst has_write save
               else ret (- 1)
             }
        else if r = 1 then ret (if has_write then 0 else 1)
        else ret (- 1))"

definition copyFileList :: "env \<Rightarrow> string \<Rightarrow> string \<Rightarrow> string \<Rightarrow> ('a world_scheme, int) state" where
  "copyFileList env basedir filelist dst = copy_loop (Suc (length filelist)) env basedir dst False filelist"

definition copyFileListSafe ::
  "env \<Rightarrow> string \<Rightarrow> string \<Rightarrow> string \<Rightarrow> string \<Rightarrow> ('a world_scheme, int) state" where
  "copyFileListSafe env basedir filelist dst dstTmp = do {
     r \<leftarrow> copyFileList env basedir filelist dstTmp;
     rename_if env r dstTmp dst
   }"

subsection \<open>Identifiers\<close>

definition getDevRand :: "env \<Rightarrow> ('a world_scheme, nat) state" where
  "getDevRand env = do {
     noopen \<leftarrow> fails env;
     short \<leftarrow> (if noopen then ret True else fails env);
     t \<leftarrow> now;
     ret (if short then (nat (clk env t) + entropy env t) mod 2 ^ 32 else entropy env t mod 2 ^ 32)
   }"

definition uuid_text :: "nat \<Rightarrow> int list \<Rightarrow> nat \<Rightarrow> nat \<Rightarrow> string" where
  "uuid_text rand0 tm tid rand1 =
     pad0 8 (digits 16 rand0) @ ''-'' @
     pad0 2 (digits 16 (nat (tm ! 0 mod 256))) @ pad0 2 (dec (tm ! 1 + 1)) @ ''-'' @
     pad0 2 (dec (tm ! 2)) @ pad0 2 (dec (tm ! 3)) @ ''-'' @
     pad0 2 (dec (tm ! 4)) @ pad0 2 (dec (tm ! 5)) @ ''-'' @
     pad0 4 (digits 16 tid) @ pad0 8 (digits 16 rand1)"

definition genUUID :: "env \<Rightarrow> nat \<Rightarrow> ('a world_scheme, int \<times> string) state" where
  "genUUID env maxlen = do {
     t \<leftarrow> now;
     let ull = (entropy env t + nat (wall env t) + nat (usec env t)) mod 2 ^ 64;
     let rand0 = (ull mod 2 ^ 32 + ull div 2 ^ 32) mod 2 ^ 32;
     let tm = localtime env (wall env t);
     let tid = entropy env (t + 1) mod 2 ^ 16;
     rand1 \<leftarrow> getDevRand env;
     let buf = uuid_text rand0 tm tid rand1;
     ret (if length buf < maxlen then (0, fst (snprintf MAX_UUID_SIZE buf)) else (- 1, []))
   }"

end
