(* ===== verification/CheckProps.thy ===== *)
theory CheckProps imports Checks begin

text \<open>
  What the parameter checks accept and what the escaping functions produce.
\<close>

subsection \<open>Repetitions and the characters of a language\<close>

definition join :: "string list \<Rightarrow> string" where
  "join rs = (case rs of [] \<Rightarrow> [] | r # qs \<Rightarrow> r @ concat (map ((#) CHR '','') qs))"

lemma join_simps [simp]: "join [] = []" "join [r] = r" "join (r # q # qs) = r @ CHR '','' # join (q # qs)"
  by (simp_all add: join_def)

lemma join_snoc: "rs \<noteq> [] \<Longrightarrow> join (rs @ [q]) = join rs @ CHR '','' # q"
  by (cases rs) (simp_all add: join_def)

lemma star_map_list:
  assumes "set ws \<subseteq> {f x | x. x \<in> X}"
  shows "\<exists>xs. ws = map f xs \<and> set xs \<subseteq> X"
  using assms
proof (induction ws)
  case (Cons w ws)
  then obtain x xs where "w = f x" "x \<in> X" "ws = map f xs" "set xs \<subseteq> X" by auto
  then show ?case by (intro exI [of _ "x # xs"]) simp
qed simp

lemma OR_REPEAT_iff: "s \<in> lang (OR_REPEAT r) \<longleftrightarrow> (\<exists>rs. rs \<noteq> [] \<and> set rs \<subseteq> lang r \<and> s = join rs)"
proof
  assume "s \<in> lang (OR_REPEAT r)"
  then obtain q w where q: "s = q @ w" "q \<in> lang r" "w \<in> star {CHR '','' # v | v. v \<in> lang r}"
    by (auto simp: OR_REPEAT_def)
  then obtain ws where ws: "w = concat ws" "set ws \<subseteq> {CHR '','' # v | v. v \<in> lang r}"
    by (auto simp: star_concat)
  then obtain qs where "ws = map ((#) CHR '','') qs" "set qs \<subseteq> lang r"
    using star_map_list by blast
  then show "\<exists>rs. rs \<noteq> [] \<and> set rs \<subseteq> lang r \<and> s = join rs"
    using q ws by (intro exI [of _ "q # qs"]) (simp add: join_def)
next
  assume "\<exists>rs. rs \<noteq> [] \<and> set rs \<subseteq> lang r \<and> s = join rs"
  then obtain rs where "rs \<noteq> []" "set rs \<subseteq> lang r" "s = join rs" by blast
  then obtain q qs where q: "rs = q # qs" "q \<in> lang r" "set qs \<subseteq> lang r"
    and s: "s = q @ concat (map ((#) CHR '','') qs)"
    by (metis insert_subset join_def list.exhaust list.simps(15) list.simps(5))
  have "concat (map ((#) CHR '','') qs) \<in> star {CHR '','' # v | v. v \<in> lang r}"
    unfolding star_concat using q(3) by (intro exI [of _ "map ((#) CHR '','') qs"]) auto
  then show "s \<in> lang (OR_REPEAT r)"
    using q s by (auto simp: OR_REPEAT_def)
qed

lemma lang_Plus_Cls: "s \<in> lang (Plus (Cls p)) \<longleftrightarrow> s \<noteq> [] \<and> (\<forall>c\<in>set s. p c)"
  unfolding Plus_def by (cases s) (simp_all add: lang_Seq_Cls lang_Star_Cls del: lang.simps)

text \<open>A list with any separators of commas and white space.\<close>

definition spaced :: "string \<Rightarrow> (string \<times> string) list \<Rightarrow> string" where
  "spaced r dqs = r @ concat (map (\<lambda>(d, q). d @ q) dqs)"

lemma OR_REPEAT_EX_D:
  assumes "s \<in> lang (OR_REPEAT_EX r)"
  shows "\<exists>q dqs. s = spaced q dqs \<and> q \<in> lang r \<and>
    (\<forall>(d, q)\<in>set dqs. d \<noteq> [] \<and> (\<forall>c\<in>set d. delim_char c) \<and> q \<in> lang r)"
proof -
  let ?D = "{d. d \<noteq> [] \<and> (\<forall>c\<in>set d. delim_char c)}"
  obtain q w where q: "s = q @ w" "q \<in> lang r"
    "w \<in> star {u @ v | u v. u \<in> lang (Plus (Cls delim_char)) \<and> v \<in> lang r}"
    using assms unfolding OR_REPEAT_EX_def lang.simps(5,6) mem_Collect_eq by blast
  then obtain ws where ws: "w = concat ws"
    "set ws \<subseteq> {u @ v | u v. u \<in> lang (Plus (Cls delim_char)) \<and> v \<in> lang r}"
    by (auto simp: star_concat)
  have "set ws \<subseteq> {(\<lambda>(d, q). d @ q) x | x. x \<in> ?D \<times> lang r}"
  proof
    fix w
    assume "w \<in> set ws"
    then obtain u v where "w = u @ v" "u \<in> lang (Plus (Cls delim_char))" "v \<in> lang r"
      using ws(2) by blast
    then show "w \<in> {(\<lambda>(d, q). d @ q) x | x. x \<in> ?D \<times> lang r}"
      unfolding lang_Plus_Cls by (intro CollectI exI [of _ "(u, v)"]) simp
  qed
  from star_map_list [OF this] obtain dqs where
    "ws = map (\<lambda>(d, q). d @ q) dqs" "set dqs \<subseteq> ?D \<times> lang r" by blast
  then show ?thesis
    using q ws by (intro exI [of _ q] exI [of _ dqs]) (auto simp: spaced_def)
qed

text \<open>\<open>over p r\<close>: every character of every string of \<open>r\<close> satisfies \<open>p\<close>.\<close>

fun over :: "(char \<Rightarrow> bool) \<Rightarrow> rx \<Rightarrow> bool" where
  "over p Zero \<longleftrightarrow> True"
| "over p One \<longleftrightarrow> True"
| "over p (Cls q) \<longleftrightarrow> (\<forall>c. q c \<longrightarrow> p c)"
| "over p (Alt r s) \<longleftrightarrow> over p r \<and> over p s"
| "over p (Seq r s) \<longleftrightarrow> over p r \<and> over p s"
| "over p (Star r) \<longleftrightarrow> over p r"

lemma over_lang: "over p r \<Longrightarrow> s \<in> lang r \<Longrightarrow> c \<in> set s \<Longrightarrow> p c"
proof (induction r arbitrary: s c)
  case (Star r)
  have "set u \<subseteq> {c. p c}" if "u \<in> lang r" for u
    using Star that by auto
  then show ?case using star_lang_sub [of s "lang r" "{c. p c}"] Star.prems by auto
qed auto

lemma over_derived [simp]:
  "over p (Chr c) \<longleftrightarrow> p c" "over p (Opt r) \<longleftrightarrow> over p r" "over p (Plus r) \<longleftrightarrow> over p r"
  by (auto simp: Chr_def Opt_def Plus_def)

lemma over_Rep: "over p r \<Longrightarrow> over p (Rep n r)" by (induction n) auto
lemma over_Upto: "over p r \<Longrightarrow> over p (Upto n r)" by (induction n) auto
lemma over_Range: "over p r \<Longrightarrow> over p (Range m n r)" by (simp add: Range_def over_Rep over_Upto)
lemma over_Str: "(\<forall>c\<in>set s. p c) \<Longrightarrow> over p (Str s)" by (induction s rule: Str.induct) auto

lemma between_isdigit: "48 \<le> byte lo \<Longrightarrow> byte hi \<le> 57 \<Longrightarrow> between lo hi c \<Longrightarrow> isdigit c"
  by (simp add: between_def isdigit_def)

lemma byte_puncts [simp]:
  "byte CHR '','' = 44" "byte CHR ''-'' = 45" "byte CHR ''.'' = 46" "byte CHR ''/'' = 47"
  "byte CHR '':'' = 58"
  by (simp_all add: byte_def of_char_def)

lemma isdigit_consts [simp]:
  "isdigit CHR ''0''" "isdigit CHR ''1''" "isdigit CHR ''2''" "isdigit CHR ''3''" "isdigit CHR ''4''"
  "isdigit CHR ''5''" "isdigit CHR ''6''" "\<not> isdigit CHR '',''" "\<not> isdigit CHR ''.''"
  by (simp_all add: isdigit_def byte_def of_char_def)

lemma over_IP_NUM: "(\<And>c. isdigit c \<Longrightarrow> p c) \<Longrightarrow> over p CUSTOM_IP_NUM"
  by (auto simp: CUSTOM_IP_NUM_def DIGIT_def dest!: between_isdigit [rotated 2])

lemma over_IP: "(\<And>c. isdigit c \<Longrightarrow> p c) \<Longrightarrow> p CHR ''.'' \<Longrightarrow> over p CUSTOM_IP_PATTERN"
  by (simp add: CUSTOM_IP_PATTERN_def over_IP_NUM over_Rep)

lemma over_IP_RANGE: "over host_char CUSTOM_IP_RANGE_PATTERN"
  by (auto simp: CUSTOM_IP_RANGE_PATTERN_def DIGIT_def host_char_def one_of_def
      intro!: over_IP over_Range)

lemma over_IP_OR_PORT: "over hydra_host_char CUSTOM_IP_OR_PORT"
  by (auto simp: CUSTOM_IP_OR_PORT_def CUSTOM_HOST_OR_PORT_def CUSTOM_PORT_PATTERN_def DIGIT_def
      hydra_host_char_def one_of_def intro!: over_IP over_Range over_Rep over_Str between_isdigit)

lemma over_IP_BLOCK_OR_PORT: "over hydra_host_char CUSTOM_IP_BLOCK_OR_PORT"
  by (auto simp: CUSTOM_IP_BLOCK_OR_PORT_def CUSTOM_IP_BLOCK_def CUSTOM_HOST_OR_PORT_def
      CUSTOM_PORT_PATTERN_def DIGIT_def hydra_host_char_def one_of_def
      intro!: over_IP over_Range over_Rep over_Str between_isdigit)

subsection \<open>The escaped host lists\<close>

lemma compact_keep: "\<forall>c\<in>set r. keep c \<Longrightarrow> r \<noteq> [] \<Longrightarrow> compact keep (r @ cs) out d = compact keep cs (out @ r) False"
proof (induction r arbitrary: out d)
  case (Cons c r)
  then show ?case by (cases "r = []") simp_all
qed simp

lemma compact_skip: "\<forall>c\<in>set d. \<not> keep c \<Longrightarrow> compact keep (d @ cs) out True = compact keep cs out True"
  by (induction d) simp_all

lemma compact_delim:
  "\<forall>c\<in>set d. \<not> keep c \<Longrightarrow> d \<noteq> [] \<Longrightarrow> out \<noteq> [] \<Longrightarrow>
    compact keep (d @ cs) out False = compact keep cs (out @ '','') True"
  by (cases d) (simp_all add: compact_skip)

lemma compact_spaced:
  assumes "\<forall>(d, q)\<in>set dqs. d \<noteq> [] \<and> (\<forall>c\<in>set d. \<not> keep c) \<and> q \<noteq> [] \<and> (\<forall>c\<in>set q. keep c)"
    and "out \<noteq> []"
  shows "compact keep (concat (map (\<lambda>(d, q). d @ q) dqs)) out False =
    out @ concat (map (\<lambda>(d, q). CHR '','' # q) dqs)"
  using assms
proof (induction dqs arbitrary: out)
  case (Cons dq dqs)
  obtain d q where dq: "dq = (d, q)" by (cases dq)
  then show ?case
    using Cons by (simp add: compact_delim compact_keep)
qed simp

text \<open>The entries of a list of hosts: its longest parts without a comma and without white space, in their
  order.\<close>

fun split_delims :: "string \<Rightarrow> string list" where
  "split_delims [] = [[]]"
| "split_delims (c # s) =
     (case split_delims s of
        [] \<Rightarrow> []
      | r # rs \<Rightarrow> if delim_char c then [] # r # rs else (c # r) # rs)"

definition host_entries :: "string \<Rightarrow> string list" where
  "host_entries h = filter (\<lambda>r. r \<noteq> []) (split_delims h)"

lemma split_delims_ne [simp]: "split_delims s \<noteq> []"
  by (induction s) (simp_all split: list.split)

lemma split_delims_Cons:
  "split_delims (c # s) =
    (if delim_char c then [] # split_delims s else (c # hd (split_delims s)) # tl (split_delims s))"
  by (simp split: list.split)

declare split_delims.simps(2) [simp del] split_delims_Cons [simp]

lemma split_delims_word:
  "\<forall>c\<in>set q. \<not> delim_char c \<Longrightarrow>
    split_delims (q @ s) = (q @ hd (split_delims s)) # tl (split_delims s)"
  by (induction q) simp_all

lemma host_entries_delims: "\<forall>c\<in>set d. delim_char c \<Longrightarrow> host_entries (d @ s) = host_entries s"
  by (induction d) (simp_all add: host_entries_def)

lemma host_entries_word:
  assumes "\<forall>c\<in>set q. \<not> delim_char c" "q \<noteq> []" "s = [] \<or> delim_char (hd s)"
  shows "host_entries (q @ s) = q # host_entries s"
  using assms split_delims_word [of q s] by (cases s) (auto simp: host_entries_def)

lemma host_entries_spaced:
  assumes "\<forall>(d, q)\<in>set dqs. d \<noteq> [] \<and> (\<forall>c\<in>set d. delim_char c) \<and> q \<noteq> [] \<and> (\<forall>c\<in>set q. \<not> delim_char c)"
    and "q \<noteq> []" "\<forall>c\<in>set q. \<not> delim_char c"
  shows "host_entries (spaced q dqs) = q # map snd dqs"
  using assms
proof (induction dqs arbitrary: q)
  case Nil
  then show ?case using host_entries_word [of q "[]"] by (simp add: spaced_def host_entries_def)
next
  case (Cons dq dqs)
  obtain d r where dq: "dq = (d, r)" by (cases dq)
  have s: "spaced q (dq # dqs) = q @ d @ spaced r dqs"
    by (simp add: spaced_def dq)
  have "delim_char (hd (d @ spaced r dqs))"
    using Cons.prems(1) by (cases d) (auto simp: dq)
  then have "host_entries (spaced q (dq # dqs)) = q # host_entries (d @ spaced r dqs)"
    unfolding s using Cons.prems by (intro host_entries_word) simp_all
  also have "\<dots> = q # r # map snd dqs"
    using Cons.prems Cons.IH [of r] by (simp add: dq host_entries_delims)
  finally show ?case by (simp add: dq)
qed

lemma finish_hosts_ok: "h \<noteq> [] \<Longrightarrow> last h \<noteq> CHR '','' \<Longrightarrow> finish_hosts h = (0, h)"
  by (simp add: finish_hosts_def)

lemma join_last: "rs \<noteq> [] \<Longrightarrow> (\<forall>r\<in>set rs. r \<noteq> []) \<Longrightarrow> last (join rs) = last (last rs) \<and> join rs \<noteq> []"
proof (induction rs rule: rev_induct)
  case (snoc r rs)
  then show ?case by (cases "rs = []") (simp_all add: join_snoc)
qed simp

lemma compact_list:
  assumes "s \<in> lang (OR_REPEAT_EX r)" "over keep r" "[] \<notin> lang r"
    and "\<And>c. delim_char c \<Longrightarrow> \<not> keep c" "\<not> keep CHR '',''"
  shows "host_entries s \<noteq> [] \<and> set (host_entries s) \<subseteq> lang r \<and>
    finish_hosts (compact keep s [] False) = (0, join (host_entries s))"
proof -
  obtain q dqs where s: "s = spaced q dqs" "q \<in> lang r"
    "\<forall>(d, q)\<in>set dqs. d \<noteq> [] \<and> (\<forall>c\<in>set d. delim_char c) \<and> q \<in> lang r"
    using OR_REPEAT_EX_D [OF assms(1)] by blast
  let ?rs = "q # map snd dqs"
  have k: "u \<noteq> [] \<and> (\<forall>c\<in>set u. keep c)" if "u \<in> lang r" for u
    using that over_lang [OF assms(2) that] assms(3) by auto
  have "concat (map (\<lambda>(d, q). CHR '','' # q) dqs) = concat (map ((#) CHR '','') (map snd dqs))"
    by (induction dqs) auto
  moreover have "\<forall>(d, q)\<in>set dqs. d \<noteq> [] \<and> (\<forall>c\<in>set d. \<not> keep c) \<and> q \<noteq> [] \<and> (\<forall>c\<in>set q. keep c)"
    using s(3) k assms(4) by fastforce
  ultimately have c: "compact keep s [] False = join ?rs"
    using k [OF s(2)] by (simp add: s(1) spaced_def compact_keep compact_spaced join_def)
  have sub: "set ?rs \<subseteq> lang r" using s by auto
  then have "\<forall>u\<in>set ?rs. u \<noteq> [] \<and> (\<forall>c\<in>set u. keep c)" using k by blast
  moreover have "last ?rs \<in> set ?rs" by (rule last_in_set) simp
  ultimately have "keep (last (last ?rs))" "\<forall>u\<in>set ?rs. u \<noteq> []" by (metis last_in_set)+
  then have "finish_hosts (join ?rs) = (0, join ?rs)"
    using join_last [of ?rs] assms(5) by (intro finish_hosts_ok) auto
  moreover have "host_entries s = ?rs"
    unfolding s(1) using s(3) k [OF s(2)] k assms(4) by (intro host_entries_spaced) fastforce+
  ultimately show ?thesis
    using c sub by simp
qed

lemma delim_not_kept: "delim_char c \<Longrightarrow> \<not> host_char c \<and> \<not> hydra_host_char c"
  by (auto simp: delim_char_def host_char_def hydra_host_char_def one_of_def isspace_def isdigit_def)

subsection \<open>Validators\<close>

lemma regmatch_whole_0 [simp]: "regmatch_whole r s = 0 \<longleftrightarrow> s \<in> lang r"
  by (simp add: regmatch_whole_def matches_lang)

text \<open>An address is four numbers without leading zeros, none above 255.\<close>

definition octet :: "string \<Rightarrow> bool" where
  "octet s \<longleftrightarrow> num_text 3 255 s \<and> (1 < length s \<longrightarrow> hd s \<noteq> CHR ''0'')"

definition ip_text :: "string \<Rightarrow> bool" where
  "ip_text s \<longleftrightarrow> (\<exists>a b c d. s = a @ ''.'' @ b @ ''.'' @ c @ ''.'' @ d \<and>
     octet a \<and> octet b \<and> octet c \<and> octet d)"

definition port_text :: "string \<Rightarrow> bool" where
  "port_text s \<longleftrightarrow> num_text 5 65535 s \<and> (length s = 5 \<longrightarrow> hd s \<noteq> CHR ''0'')"

lemma lang_Seq_iff: "s \<in> lang (Seq r q) \<longleftrightarrow> (\<exists>u v. s = u @ v \<and> u \<in> lang r \<and> v \<in> lang q)"
  by simp

lemma octet_lang: "octet s \<longleftrightarrow> s \<in> lang CUSTOM_IP_NUM"
  by (simp add: octet_def CUSTOM_IP_NUM_iff)

lemma ip_text_lang: "ip_text s \<longleftrightarrow> s \<in> lang CUSTOM_IP_PATTERN"
proof -
  have d: "v \<in> lang (Seq (Chr CHR ''.'') r) \<longleftrightarrow> (\<exists>w. v = CHR ''.'' # w \<and> w \<in> lang r)" for v r
    by auto
  have r: "v \<in> lang (Rep (Suc n) (Seq (Chr CHR ''.'') CUSTOM_IP_NUM)) \<longleftrightarrow>
      (\<exists>b w. v = CHR ''.'' # b @ w \<and> octet b \<and> w \<in> lang (Rep n (Seq (Chr CHR ''.'') CUSTOM_IP_NUM)))" for v n
    unfolding Rep.simps lang_Seq_iff [of v] d octet_lang by (metis append_Cons)
  have "s \<in> lang CUSTOM_IP_PATTERN \<longleftrightarrow>
      (\<exists>a v. s = a @ v \<and> octet a \<and> v \<in> lang (Rep (Suc (Suc (Suc 0))) (Seq (Chr CHR ''.'') CUSTOM_IP_NUM)))"
    unfolding CUSTOM_IP_PATTERN_def lang_Seq_iff octet_lang by (simp add: numeral_3_eq_3)
  also have "\<dots> \<longleftrightarrow> ip_text s"
    unfolding r ip_text_def by (auto simp del: Rep.simps(2)) (metis append.right_neutral)+
  finally show ?thesis by simp
qed

text \<open>An entry of the hosts of a scan: an address, a block of addresses with the length of its prefix, or
  a range of addresses up to an address or up to a last number.\<close>

definition digits_upto :: "nat \<Rightarrow> string \<Rightarrow> bool" where
  "digits_upto n s \<longleftrightarrow> 1 \<le> length s \<and> length s \<le> n \<and> (\<forall>c\<in>set s. isdigit c)"

definition range_text :: "string \<Rightarrow> bool" where
  "range_text s \<longleftrightarrow> ip_text s \<or> (\<exists>h p. s = h @ ''/'' @ p \<and> ip_text h \<and> digits_upto 2 p) \<or>
     (\<exists>h q. s = h @ ''-'' @ q \<and> ip_text h \<and> (ip_text q \<or> digits_upto 3 q))"

lemma range_text_lang: "range_text s \<longleftrightarrow> s \<in> lang CUSTOM_IP_RANGE_PATTERN"
proof -
  have d: "v \<in> lang (Seq (Chr c) r) \<longleftrightarrow> (\<exists>w. v = c # w \<and> w \<in> lang r)" for v c r
    by auto
  have m: "s \<in> lang (Seq CUSTOM_IP_PATTERN (Seq (Chr c) r)) \<longleftrightarrow>
      (\<exists>h w. s = h @ c # w \<and> ip_text h \<and> w \<in> lang r)" for c r
    unfolding lang_Seq_iff [of s] d ip_text_lang by blast
  have r: "v \<in> lang (Range 1 n DIGIT) \<longleftrightarrow> digits_upto n v" if "1 \<le> n" for v n
    using that by (simp add: DIGIT_def lang_Range_Cls digits_upto_def del: lang.simps)
  have r: "v \<in> lang (Range 1 2 DIGIT) \<longleftrightarrow> digits_upto 2 v" "v \<in> lang (Range 1 3 DIGIT) \<longleftrightarrow> digits_upto 3 v" for v
    by (rule r, simp)+
  have "s \<in> lang CUSTOM_IP_RANGE_PATTERN \<longleftrightarrow> ip_text s \<or>
      (\<exists>h w. s = h @ CHR ''/'' # w \<and> ip_text h \<and> digits_upto 2 w) \<or>
      (\<exists>h w. s = h @ CHR ''-'' # w \<and> ip_text h \<and> ip_text w) \<or>
      (\<exists>h w. s = h @ CHR ''-'' # w \<and> ip_text h \<and> digits_upto 3 w)"
    unfolding CUSTOM_IP_RANGE_PATTERN_def Alts.simps Seqs.simps mem_lang(1) m r ip_text_lang [symmetric] ..
  then show ?thesis
    by (simp only: range_text_def append_Cons append_Nil conj_disj_distribL ex_disj_distrib)
qed

text \<open>A host entry of a brute-force task.\<close>

definition host_or_port :: "string \<Rightarrow> bool" where
  "host_or_port s \<longleftrightarrow> ip_text s \<or> (\<exists>h p. s = h @ '':'' @ p \<and> ip_text h \<and> port_text p)"

lemma host_or_port_lang: "host_or_port s \<longleftrightarrow> s \<in> lang CUSTOM_IP_OR_PORT"
proof -
  have "s \<in> lang CUSTOM_IP_OR_PORT \<longleftrightarrow>
      (\<exists>u v. s = u @ v \<and> ip_text u \<and> (v = [] \<or> (\<exists>p. v = CHR '':'' # p \<and> port_text p)))"
    unfolding CUSTOM_IP_OR_PORT_def CUSTOM_HOST_OR_PORT_def lang_Seq_iff ip_text_lang lang_Opt insert_iff
      port_text_def CUSTOM_PORT_iff [symmetric] by auto
  then show ?thesis by (auto simp: host_or_port_def)
qed

subsection \<open>Schedules\<close>

definition stamp_text :: "string \<Rightarrow> bool" where
  "stamp_text s \<longleftrightarrow> length s = 19 \<and> (\<forall>i<19. stamp_at i (s ! i))"

text \<open>A day of the month is a number from 1 to 31 without leading zeros, or \<open>-1\<close>, the last day.\<close>

definition month_day :: "string \<Rightarrow> bool" where
  "month_day s \<longleftrightarrow> s = ''-1'' \<or> num_text 2 31 s \<and> hd s \<noteq> CHR ''0''"

lemma month_day_lang: "month_day s \<longleftrightarrow> s \<in> lang CUSTOM_MONTH_DAY_PATTERN"
proof (cases "s \<noteq> [] \<and> length s \<le> 2")
  case False
  moreover have "s \<in> lang CUSTOM_MONTH_DAY_PATTERN \<Longrightarrow> s \<noteq> [] \<and> length s \<le> 2"
    by (auto simp: CUSTOM_MONTH_DAY_PATTERN_def)
  ultimately show ?thesis by (auto simp: month_day_def num_text_def)
next
  case True
  note unf = month_day_def CUSTOM_MONTH_DAY_PATTERN_def rx_unfolds mem_lang num_unfolds
  consider a where "s = [a]" | a b where "s = [a, b]"
    using True by (cases s; cases "tl s") auto
  then show ?thesis
    by cases (auto simp: unf simp del: lang.simps)
qed

lemma week_day_lang: "lang CUSTOM_WEEK_DAY_PATTERN = {''MO'', ''TU'', ''WE'', ''TH'', ''FR'', ''SA'', ''SU''}"
  by (auto simp: CUSTOM_WEEK_DAY_PATTERN_def)

subsection \<open>Services\<close>

lemma services_tokens: "svc \<in> set SYS_SERVICE_LIST \<Longrightarrow> svc \<noteq> [] \<and> CHR '','' \<notin> set svc \<and> length svc < 64"
  by (auto simp: SYS_SERVICE_LIST_def)

text \<open>The texts of a list with an optional comma at its end.\<close>

fun tokens_of :: "string list \<Rightarrow> bool \<Rightarrow> string" where
  "tokens_of [] b = []"
| "tokens_of [r] b = (if b then r @ '','' else r)"
| "tokens_of (r # q # qs) b = r @ CHR '','' # tokens_of (q # qs) b"

lemma chkServices_loop_sound:
  "chkServices_loop s has = 0 \<Longrightarrow> \<exists>svs b. set svs \<subseteq> set SYS_SERVICE_LIST \<and> s = tokens_of svs b \<and> (has \<or> svs \<noteq> [])"
proof (induction s has rule: chkServices_loop.induct)
  case (1 s has)
  show ?case
  proof (rule getNextToken_cases [of s "CHR '',''" "[]" MAX_NAME_SIZE])
    fix f rest
    assume f: "s = f @ CHR '','' # rest \<or> s = f \<and> rest = []"
      "getNextToken s '','' [] MAX_NAME_SIZE = (0, f, rest)"
    then have sv: "f \<in> set SYS_SERVICE_LIST" and "chkServices_loop rest True = 0"
      using "1.prems" by (simp_all add: chkServices_loop.simps [of s] split: if_splits)
    then obtain svs b where svs: "set svs \<subseteq> set SYS_SERVICE_LIST" "rest = tokens_of svs b"
      using "1.IH" [OF f(2) [symmetric]] by (auto simp: f(2))
    show ?thesis
    proof (cases svs)
      case Nil
      then show ?thesis using sv svs f(1)
        by (intro exI [of _ "[f]"] exI [of _ "s \<noteq> f"]) auto
    next
      case (Cons q qs)
      then have "rest \<noteq> []" using svs services_tokens [of q] by (cases qs) auto
      then show ?thesis using sv svs f(1) Cons
        by (intro exI [of _ "f # svs"] exI [of _ b]) auto
    qed
  next
    assume "getNextToken s '','' [] MAX_NAME_SIZE = (1, [], s)" "s = []"
    then show ?thesis using "1.prems"
      by (intro exI [of _ "[]"]) (simp add: chkServices_loop.simps split: if_splits)
  next
    assume "getNextToken s '','' [] MAX_NAME_SIZE = (- 1, [], s)"
    then show ?thesis using "1.prems" by (simp add: chkServices_loop.simps)
  qed
qed

lemma chkServices_loop_complete:
  "set svs \<subseteq> set SYS_SERVICE_LIST \<Longrightarrow> has \<or> svs \<noteq> [] \<Longrightarrow> chkServices_loop (tokens_of svs b) has = 0"
proof (induction svs arbitrary: has)
  case Nil
  then show ?case by (simp add: chkServices_loop.simps)
next
  case (Cons r rs)
  have r: "r \<noteq> []" "CHR '','' \<notin> set r" "length r < MAX_NAME_SIZE"
    using services_tokens [of r] Cons.prems by (auto simp: max_defs)
  have "chkServices_loop (tokens_of (r # rs) b) has = chkServices_loop (tokens_of rs b) True"
    using Cons.prems(1) r
    by (cases rs; cases b; subst chkServices_loop.simps)
      (simp_all add: getNextToken_field getNextToken_last)
  then show ?case using Cons by simp
qed

subsection \<open>Rewritten host lists\<close>

lemma not_Nil_lang:
  "[] \<notin> lang CUSTOM_IP_RANGE_PATTERN" "[] \<notin> lang CUSTOM_IP_OR_PORT" "[] \<notin> lang CUSTOM_IP_BLOCK_OR_PORT"
  unfolding nullable_lang [symmetric]
  by (simp_all add: CUSTOM_IP_RANGE_PATTERN_def CUSTOM_IP_OR_PORT_def CUSTOM_IP_BLOCK_OR_PORT_def
      CUSTOM_IP_BLOCK_def CUSTOM_HOST_OR_PORT_def CUSTOM_IP_PATTERN_def CUSTOM_IP_NUM_def DIGIT_def)

lemma escapeHosts_list:
  assumes "chkHostsExt h = 0"
  shows "host_entries h \<noteq> [] \<and> set (host_entries h) \<subseteq> lang CUSTOM_IP_RANGE_PATTERN \<and>
    escapeHosts h = (0, join (host_entries h))"
  using assms compact_list [OF _ over_IP_RANGE not_Nil_lang(1), of h] delim_not_kept
  by (auto simp: chkHostsExt_def escapeHosts_def delim_char_def)

lemma escapeHydraHosts_list:
  assumes "chkHydraHosts 0 h = 0"
  shows "host_entries h \<noteq> [] \<and> set (host_entries h) \<subseteq> lang CUSTOM_IP_OR_PORT \<and>
    escapeHydraHosts h = (0, join (host_entries h))"
  using assms compact_list [OF _ over_IP_OR_PORT not_Nil_lang(2), of h] delim_not_kept
  by (auto simp: chkHydraHosts_def escapeHydraHosts_def delim_char_def)

lemma escapeHydraHosts_block:
  assumes "h \<in> lang CUSTOM_IP_BLOCK_OR_PORT"
  shows "escapeHydraHosts h = (0, h)"
proof -
  have k: "\<forall>c\<in>set h. hydra_host_char c"
    using over_lang [OF over_IP_BLOCK_OR_PORT assms] by blast
  have ne: "h \<noteq> []" using assms not_Nil_lang(3) by auto
  then have "hydra_host_char (last h)" using k by simp
  then have "last h \<noteq> CHR '',''"
    using delim_not_kept [of "CHR '',''"] by (auto simp: delim_char_def)
  with ne show ?thesis
    using compact_keep [of h hydra_host_char "[]" "[]" False] k
    by (simp add: escapeHydraHosts_def finish_hosts_ok)
qed

lemma compact_length: "length (compact keep s out d) \<le> length out + length s"
proof (induction keep s out d rule: compact.induct)
  case (2 keep c cs out d)
  then show ?case by (cases "keep c"; cases "\<not> d \<and> out \<noteq> []") fastforce+
qed simp

lemma escape_length:
  "length (snd (escapeHosts h)) \<le> length h" "length (snd (escapeHydraHosts h)) \<le> length h"
proof -
  have "length (snd (finish_hosts out)) \<le> length out" for out
    by (simp add: finish_hosts_def Let_def)
  then show "length (snd (escapeHosts h)) \<le> length h" "length (snd (escapeHydraHosts h)) \<le> length h"
    unfolding escapeHosts_def escapeHydraHosts_def
    using compact_length [of _ h "[]" False] by (metis add_0 le_trans list.size(3))+
qed

lemma over_OR_REPEAT: "over p r \<Longrightarrow> p CHR '','' \<Longrightarrow> over p (OR_REPEAT r)"
  by (simp add: OR_REPEAT_def)

subsection \<open>Properties of the checks\<close>

text \<open>C38: an accepted identifier is 36 characters, hexadecimal digits with dashes at the positions of
  a UUID, and an accepted name is 1 to 128 characters of which none is white space, a quote, a backslash or
  a character with a meaning to the shell or to XML; all of them are accepted.\<close>

theorem chkUuid_chkName_exact:
  "(chkUuid s = 0 \<longleftrightarrow> length s = 36 \<and> (\<forall>i<36. uuid_at i (s ! i))) \<and>
   (chkName s = 0 \<longleftrightarrow> 1 \<le> length s \<and> length s \<le> 128 \<and> (\<forall>c\<in>set s. name_char c))"
  using GVM_NAME_iff [of s] by (simp add: chkUuid_def chkName_def uuid_lang_iff matches_lang)

lemma chkUuid_chkName_exact_witness:
  "chkUuid ''00000001-0000-0000-0000-00000000000a'' = 0 \<and> chkName ''task_1'' = 0"
  unfolding conjunct1 [OF chkUuid_chkName_exact] conjunct2 [OF chkUuid_chkName_exact]
  by (simp add: numeral_eq_Suc All_less_Suc uuid_at_def isxdigit_def isdigit_def name_char_def
      one_of_def isspace_def byte_def of_char_def BSL_def SQ_def BQ_def DQ_def)

text \<open>C36: a host list that the client accepts with any separators is rewritten to the entries of that
  list, all of them and in their order, joined by single commas.  The entries are its parts without comma and
  white space, there is at least one, and each is an address, a block or a range.  The daemon's stricter check
  accepts the result.\<close>

theorem escapeHosts_normal:
  assumes "chkHostsExt h = 0"
  shows "escapeHosts h = (0, join (host_entries h)) \<and> host_entries h \<noteq> [] \<and>
    (\<forall>r\<in>set (host_entries h). range_text r) \<and> chkHosts (snd (escapeHosts h)) = 0"
  using escapeHosts_list [OF assms]
  by (auto simp: chkHosts_def OR_REPEAT_iff range_text_lang intro!: exI [of _ "host_entries h"])

lemma escapeHosts_normal_witness:
  "host_entries ''1.2.3.4 ,5.6.7.8/24'' = [''1.2.3.4'', ''5.6.7.8/24''] \<and>
   escapeHosts ''1.2.3.4 ,5.6.7.8/24'' = (0, ''1.2.3.4,5.6.7.8/24'')"
proof -
  have h: "host_entries ''1.2.3.4 ,5.6.7.8/24'' = [''1.2.3.4'', ''5.6.7.8/24'']" by code_simp
  have "chkHostsExt ''1.2.3.4 ,5.6.7.8/24'' = 0" by code_simp
  from escapeHosts_normal [OF this] show ?thesis unfolding h by simp
qed

text \<open>C37: the same for the host lists of brute-force tasks.  What the client sends for a list is its
  entries, all of them and in their order, joined by single commas, each an address of four numbers up to 255
  with an optional port up to 65535; for a block of addresses it is the block unchanged.  The daemon's check
  accepts it.\<close>

theorem escapeHydraHosts_normal:
  assumes "chkHydraHosts t h = 0"
  shows "chkHydraHostsIntern t (snd (escapeHydraHosts h)) = 0 \<and>
    (if t = 0
     then escapeHydraHosts h = (0, join (host_entries h)) \<and> host_entries h \<noteq> [] \<and>
       (\<forall>r\<in>set (host_entries h). host_or_port r)
     else t = 1 \<and> escapeHydraHosts h = (0, h))"
proof (cases "t = 0")
  case True
  with assms escapeHydraHosts_list [of h]
  show ?thesis
    by (auto simp: host_or_port_lang chkHydraHostsIntern_def OR_REPEAT_iff intro!: exI [of _ "host_entries h"])
next
  case False
  then have "t = 1" "h \<in> lang CUSTOM_IP_BLOCK_OR_PORT"
    using assms by (auto simp: chkHydraHosts_def split: if_splits)
  then show ?thesis
    using False escapeHydraHosts_block by (simp add: chkHydraHostsIntern_def)
qed

lemma escapeHydraHosts_normal_witness:
  "host_entries ''10.0.0.1:22, 10.0.0.2'' = [''10.0.0.1:22'', ''10.0.0.2''] \<and>
   escapeHydraHosts ''10.0.0.1:22, 10.0.0.2'' = (0, ''10.0.0.1:22,10.0.0.2'')"
proof -
  have h: "host_entries ''10.0.0.1:22, 10.0.0.2'' = [''10.0.0.1:22'', ''10.0.0.2'']" by code_simp
  have "chkHydraHosts 0 ''10.0.0.1:22, 10.0.0.2'' = 0" by code_simp
  from escapeHydraHosts_normal [OF this] show ?thesis unfolding h by simp
qed

text \<open>C40: the service check accepts exactly the non-empty comma lists of known services, with an
  optional comma at the end.\<close>

theorem chkServices_exact:
  "chkServices s = 0 \<longleftrightarrow> (\<exists>svs b. svs \<noteq> [] \<and> set svs \<subseteq> set SYS_SERVICE_LIST \<and> s = tokens_of svs b)"
  using chkServices_loop_sound [of s False] chkServices_loop_complete [of _ False]
  unfolding chkServices_def by blast

text \<open>C39: what the schedule check accepts.  A time stamp is exactly 19 characters, digits with dashes at
  the places 4 and 7, a blank at 10 and colons at 13 and 16.  A task without schedule has neither time nor days;
  one that runs once or daily has a time and no days; a weekly one has a time and a non-empty comma list of days
  of the week; a monthly one has a time and a non-empty comma list of numbers from 1 to 31 without leading zeros
  or \<open>-1\<close>.  For any other type only the time stamp counts.\<close>

theorem chkScheduleParam_exact:
  "(chkTimeStamp tm = 0 \<longleftrightarrow> stamp_text tm) \<and>
   (chkScheduleParam ICAL_DATE_NONE tm ds = 0 \<longleftrightarrow> tm = [] \<and> ds = []) \<and>
   (chkScheduleParam ICAL_DATE_ONCE tm ds = 0 \<longleftrightarrow> stamp_text tm \<and> ds = []) \<and>
   (chkScheduleParam ICAL_DATE_DAILY tm ds = 0 \<longleftrightarrow> stamp_text tm \<and> ds = []) \<and>
   (chkScheduleParam ICAL_DATE_WEEKLY tm ds = 0 \<longleftrightarrow> stamp_text tm \<and>
     (\<exists>rs. rs \<noteq> [] \<and> set rs \<subseteq> {''MO'', ''TU'', ''WE'', ''TH'', ''FR'', ''SA'', ''SU''} \<and> ds = join rs)) \<and>
   (chkScheduleParam ICAL_DATE_MONTHLY tm ds = 0 \<longleftrightarrow> stamp_text tm \<and>
     (\<exists>rs. rs \<noteq> [] \<and> (\<forall>r\<in>set rs. month_day r) \<and> ds = join rs)) \<and>
   (type \<notin> {0, 1, 2, 3, 4} \<longrightarrow> (chkScheduleParam type tm ds = 0 \<longleftrightarrow> stamp_text tm))"
proof -
  have s: "chkTimeStamp s = 0 \<longleftrightarrow> stamp_text s" for s
    by (simp add: chkTimeStamp_def time_stamp_lang_iff stamp_text_def)
  have m: "set rs \<subseteq> lang CUSTOM_MONTH_DAY_PATTERN \<longleftrightarrow> (\<forall>r\<in>set rs. month_day r)" for rs
    by (auto simp: month_day_lang)
  show ?thesis
    by (simp add: chkScheduleParam_def ical_defs OR_REPEAT_iff week_day_lang s m)
qed

lemma chkScheduleParam_exact_witness:
  "chkScheduleParam ICAL_DATE_MONTHLY ''2021-05-06 07:08:09'' ''1,31,-1'' = 0 \<and>
   chkScheduleParam ICAL_DATE_WEEKLY ''2021-05-06 07:08:09'' ''MO,FR'' = 0 \<and>
   chkScheduleParam 7 ''2021-05-06 07:08'' [] \<noteq> 0"
proof -
  let ?t = "''2021-05-06 07:08:09''"
  have "chkTimeStamp ?t = 0" by code_simp
  then have s: "stamp_text ?t" using conjunct1 [OF chkScheduleParam_exact] by blast
  have n: "\<not> stamp_text ''2021-05-06 07:08''" by (simp add: stamp_text_def)
  have "month_day ''1'' \<and> month_day ''31'' \<and> month_day ''-1''" by code_simp
  then have "\<exists>rs. rs \<noteq> [] \<and> (\<forall>r\<in>set rs. month_day r) \<and> ''1,31,-1'' = join rs"
    by (intro exI [of _ "[''1'', ''31'', ''-1'']"]) simp
  then have "chkScheduleParam ICAL_DATE_MONTHLY ?t ''1,31,-1'' = 0"
    using s chkScheduleParam_exact [of ?t "''1,31,-1''" 7] by blast
  moreover have "\<exists>rs. rs \<noteq> [] \<and> set rs \<subseteq> {''MO'', ''TU'', ''WE'', ''TH'', ''FR'', ''SA'', ''SU''} \<and> ''MO,FR'' = join rs"
    by (intro exI [of _ "[''MO'', ''FR'']"]) simp
  then have "chkScheduleParam ICAL_DATE_WEEKLY ?t ''MO,FR'' = 0"
    using s chkScheduleParam_exact [of ?t "''MO,FR''" 7] by blast
  moreover have "chkScheduleParam 7 ''2021-05-06 07:08'' [] \<noteq> 0"
    using n chkScheduleParam_exact [of "''2021-05-06 07:08''" "[]" 7] by simp
  ultimately show ?thesis by blast
qed

end
