(* ===== verification/FileProps.thy ===== *)
theory FileProps imports Files CheckProps begin

text \<open>
  What the file helpers guarantee under every behaviour of the system: which paths they may change,
  that replacing a file is atomic, that deleting a directory stays below it, and that generated
  identifiers pass the checks of the daemons.
\<close>

subsection \<open>Frames\<close>

lemma touches_mono: "touches P m \<Longrightarrow> (\<And>p. P p \<Longrightarrow> Q p) \<Longrightarrow> touches Q m"
  unfolding touches_def wp_def same_rest_def by (fastforce split: prod.splits)

lemma touches_write_all: "P p \<Longrightarrow> touches P (write_all env p buf)"
  unfolding write_all_def
  by (intro touches_if touches_bind touches_return touches_fwrite touches_prod)

lemma touches_write_mode: "P p \<Longrightarrow> touches P (write_mode env a buf p)"
  unfolding write_mode_def
  by (intro touches_bind touches_sys touches_if touches_return touches_write_all touches_fclose)

lemma touches_rename_if: "P t \<Longrightarrow> P p \<Longrightarrow> touches P (rename_if env r t p)"
  unfolding rename_if_def by (intro touches_if touches_bind touches_sys touches_return)

lemma touches_writeFileSafe: "P p \<Longrightarrow> P t \<Longrightarrow> touches P (writeFileSafe env buf p t)"
  unfolding writeFileSafe_def writeFile_def
  by (intro touches_bind touches_write_mode touches_rename_if)

lemma touches_readTotalFile: "touches P (readTotalFile env nm)"
  unfolding readTotalFile_def
  by (intro touches_bind touches_sys touches_sum touches_return touches_node touches_if touches_fails)

lemma touches_createDir: "P p \<Longrightarrow> touches P (createDir env p)"
  unfolding createDir_def by (intro touches_bind touches_sys touches_sum touches_return touches_if)

lemma touches_deleteFile: "P p \<Longrightarrow> touches P (deleteFile env p)"
  unfolding deleteFile_def by (intro touches_bind touches_sys touches_sum touches_return touches_if)

lemma touches_chkExists: "touches P (chkExists env p b)"
  unfolding chkExists_def by (intro touches_bind touches_sys touches_return)

lemma touches_copy_loop: "P dst \<Longrightarrow> touches P (copy_loop n env basedir dst w save)"
proof (induction n arbitrary: w save)
  case (Suc n)
  then show ?case
    unfolding copy_loop.simps writeFile_def appendFile_def
    by (intro touches_prod touches_if touches_bind touches_return touches_readTotalFile touches_write_mode) auto
qed (simp add: touches_return)

lemma touches_copyFileListSafe: "P dst \<Longrightarrow> P tmp \<Longrightarrow> touches P (copyFileListSafe env basedir files dst tmp)"
  unfolding copyFileListSafe_def copyFileList_def
  by (intro touches_bind touches_copy_loop touches_rename_if)

lemma touches_genUUID: "touches P (genUUID env n)"
  unfolding genUUID_def getDevRand_def Let_def
  by (intro touches_bind touches_now touches_return touches_fails touches_if)

subsection \<open>Replacing a file\<close>

text \<open>A successful write leaves exactly the buffer in the file.\<close>

lemma write_mode_new:
  assumes "\<forall>t. \<not> closefail env t" "lookup p w \<noteq> Some Special"
  shows "wp (write_mode env False buf p) (\<lambda>r w'. same_rest (\<lambda>q. q = p) w w' \<and>
    (r = 0 \<longrightarrow> (\<exists>b. lookup p w' = Some (Reg b buf))) \<and> r \<in> {0, - 1, - 2}) w"
proof -
  have "wp (write_mode env False buf p) (\<lambda>r w'. same_rest (\<lambda>q. q = p) w w') w"
    using touches_write_mode [of "\<lambda>q. q = p" p env False buf] unfolding touches_def by blast
  moreover have "wp (write_mode env False buf p) (\<lambda>r w'.
      (r = 0 \<longrightarrow> (\<exists>b. lookup p w' = Some (Reg b buf))) \<and> r \<in> {0, - 1, - 2}) w"
    using assms
    by (auto simp: write_mode_def sys_create_def write_all_def sys_fwrite_def sys_fclose_def add_bytes_def
        update_conv' split: option.splits node.splits)
  ultimately show ?thesis by (rule wp_conj)
qed

lemma writeFileSafe_post:
  assumes "p \<noteq> tmp" "lookup tmp w \<noteq> Some Special" "\<forall>t. \<not> closefail env t"
    and "run_state (writeFileSafe env buf p tmp) (w :: 'a world_scheme) = (r, w')"
  shows "(if r = 0 then \<exists>b. lookup p w' = Some (Reg b buf) else lookup p w' = lookup p w) \<and>
    (\<forall>q. q \<noteq> p \<and> q \<noteq> tmp \<longrightarrow> lookup q w' = lookup q w)"
proof -
  have "wp (writeFileSafe env buf p tmp) (\<lambda>r w'.
      if r = 0 then \<exists>b. lookup p w' = Some (Reg b buf) else lookup p w' = lookup p w) w"
    unfolding writeFileSafe_def writeFile_def wp_bind
  proof (rule wp_mono [OF write_mode_new [OF assms(3,2)]])
    fix r1 :: int and w1 :: "'a world_scheme"
    assume a: "same_rest (\<lambda>q. q = tmp) w w1 \<and> (r1 = 0 \<longrightarrow> (\<exists>b. lookup tmp w1 = Some (Reg b buf))) \<and>
      r1 \<in> {0, - 1, - 2}"
    then have "lookup p w1 = lookup p w"
      using assms(1) by (simp add: same_rest_def)
    then show "wp (rename_if env r1 tmp p) (\<lambda>r w'.
        if r = 0 then \<exists>b. lookup p w' = Some (Reg b buf) else lookup p w' = lookup p w) w1"
      using a assms(1)
      by (auto simp: rename_if_def sys_rename_def update_conv' delete_conv' split: option.splits)
  qed
  moreover have "same_rest (\<lambda>q. q = p \<or> q = tmp) w w'"
    using touches_writeFileSafe [of "\<lambda>q. q = p \<or> q = tmp" p tmp env buf] assms(4)
    by (auto intro: touches_run)
  ultimately show ?thesis
    using assms(4) by (auto simp: wp_def same_rest_def)
qed

text \<open>C6: \<open>writeFileSafe\<close> replaces a file atomically: whatever calls fail, the target either has exactly
  the new contents, and the call returns 0, or is as before; nothing but the target and its temporary file
  changes.  (Losing buffered bytes in \<open>fclose\<close> is excluded: the code ignores that result.)\<close>

theorem writeFileSafe_atomic:
  assumes "p \<noteq> tmp" "lookup tmp w \<noteq> Some Special" "\<forall>t. \<not> closefail env t"
    and "run_state (writeFileSafe env buf p tmp) (w :: 'a world_scheme) = (r, w')"
  shows "(if r = 0 then \<exists>b. lookup p w' = Some (Reg b buf) else lookup p w' = lookup p w) \<and>
    (\<forall>q. q \<noteq> p \<and> q \<noteq> tmp \<longrightarrow> lookup q w' = lookup q w)"
  using assms by (rule writeFileSafe_post)

definition demo_env :: env where
  "demo_env = \<lparr>fault = (\<lambda>t. t = 7), short = (\<lambda>t. t), wall = (\<lambda>t. 1600000000 + int t), usec = (\<lambda>t. 5),
     clk = (\<lambda>t. 1000 + int t), closefail = (\<lambda>_. False), entropy = (\<lambda>t. 99 * t),
     strftime = (\<lambda>f l t. Some ''2020-09-13 12:26:40''), strptime = (\<lambda>f l s. Some 1600000000),
     localtime = (\<lambda>_. [120, 8, 13, 12, 26, 40]), popen = (\<lambda>_ _. None), redis = (\<lambda>_ _. None),
     xml_read = (\<lambda>_. None), xml_xpath = (\<lambda>_ _. None), xml_prop = (\<lambda>_ _. None), xml_text = (\<lambda>_. None),
     strptime_tm = (\<lambda>_. Some (30, 12, 13, 8)), sigchld = (\<lambda>_. False), sigstop = (\<lambda>_. False),
     reaped = (\<lambda>_. []), waits = (\<lambda>_. ([], True))\<rparr>"

definition demo_world :: world where
  "demo_world = \<lparr>tick = 0, fs = [(''/a'', Dir), (''/a/x'', Reg True ''old''), (''/b'', Reg True ''keep'')]\<rparr>"

lemma writeFileSafe_atomic_witness:
  "\<exists>b. lookup ''/a/x'' (snd (run_state (writeFileSafe demo_env ''new'' ''/a/x'' ''/a/.x'') demo_world)) =
     Some (Reg b ''new'')"
proof -
  let ?m = "run_state (writeFileSafe demo_env ''new'' ''/a/x'' ''/a/.x'') demo_world"
  have "fst ?m = 0" by code_simp
  then show ?thesis
    using writeFileSafe_atomic [of "''/a/x''" "''/a/.x''" demo_world demo_env "''new''" 0 "snd ?m"]
    by (cases ?m) (simp add: demo_env_def demo_world_def)
qed

subsection \<open>Deleting a directory\<close>

lemma touches_gets_bind: "(\<And>w. touches P (f (g w))) \<Longrightarrow> touches P (State_Monad.bind (gets g) f)"
  unfolding touches_def by simp

definition below :: "string \<Rightarrow> string \<Rightarrow> bool" where
  "below d p \<longleftrightarrow> p = d \<or> prefix (d @ ''/'') p"

lemma below_trans: "below d e \<Longrightarrow> below e p \<Longrightarrow> below d p"
  unfolding below_def by (metis append_prefixD prefix_order.trans)

lemma below_child: "below d (d @ ''/'' @ nm)"
  by (simp add: below_def)

definition plain_name :: "string \<Rightarrow> bool" where
  "plain_name nm \<longleftrightarrow> nm \<noteq> [] \<and> CHR ''/'' \<notin> set nm"

lemma entries_plain: "(nm, k) \<in> set (entries d w) \<Longrightarrow> plain_name nm"
  by (auto simp: entries_def child_of_def plain_name_def)

lemma strip_child:
  assumes "plain_name nm" "length (d @ ''/'' @ nm) < MAX_FILENAME_PATH_SIZE"
  shows "strip_slashes (d @ ''/'' @ nm) = d @ ''/'' @ nm"
proof -
  let ?s = "d @ ''/'' @ nm"
  have "hd (rev nm) \<in> set nm" using assms(1) by (metis hd_in_set plain_name_def rev_is_Nil_conv set_rev)
  then have "hd (rev ?s) \<noteq> CHR ''/''" using assms(1) by (auto simp: plain_name_def)
  then have "dropWhile (\<lambda>c. c = CHR ''/'') (rev ?s) = rev ?s"
    by (cases "rev ?s") auto
  then have "rev (dropWhile (\<lambda>c. c = CHR ''/'') (rev ?s)) = ?s" by (metis rev_rev_ident)
  then show ?thesis using assms(2) by (simp add: strip_slashes_def)
qed

lemma touches_del_entries:
  assumes "\<forall>(nm, k)\<in>set es. plain_name nm"
    and "\<And>nm. plain_name nm \<Longrightarrow> length (d @ ''/'' @ nm) < MAX_FILENAME_PATH_SIZE \<Longrightarrow>
      touches (below d) (rec (d @ ''/'' @ nm))"
  shows "touches (below d) (del_entries env rec (d @ ''/'') es)"
  using assms(1)
proof (induction es)
  case Nil
  then show ?case by (auto simp del: append_assoc)
next
  case (Cons e es)
  obtain nm k where e: "e = (nm, k)" by (cases e)
  have nm: "plain_name nm" and tl: "touches (below d) (del_entries env rec (d @ ''/'') es)"
    using Cons e by auto
  show ?case
    unfolding e del_entries.simps append_assoc
    by (intro touches_bind touches_fails touches_if touches_return touches_sys tl below_child assms(2) nm) simp
qed

lemma touches_deleteDir_fuel:
  "touches (below (strip_slashes dir)) (deleteDir_fuel n env dir :: ('a world_scheme, int) state)"
proof (induction n arbitrary: dir)
  case 0
  show ?case by (simp add: touches_return)
next
  case (Suc n)
  let ?d = "strip_slashes dir"
  have r: "touches (below ?d) (deleteDir_fuel n env (?d @ ''/'' @ nm) :: ('a world_scheme, int) state)"
    if "plain_name nm" "length (?d @ ''/'' @ nm) < MAX_FILENAME_PATH_SIZE" for nm
  proof (rule touches_mono)
    show "touches (below (?d @ ''/'' @ nm)) (deleteDir_fuel n env (?d @ ''/'' @ nm) :: ('a world_scheme, int) state)"
      using Suc [of "?d @ ''/'' @ nm"] unfolding strip_child [OF that] .
    show "below ?d p" if "below (?d @ ''/'' @ nm) p" for p
      using below_child that by (rule below_trans)
  qed
  have e: "touches (below ?d) (del_entries env (deleteDir_fuel n env) (?d @ ''/'')
      ((''.'', Dir) # (''..'', Dir) # entries ?d w) :: ('a world_scheme, int) state)" for w :: "'a world_scheme"
  proof (rule touches_del_entries)
    show "\<forall>(nm, k)\<in>set ((''.'', Dir) # (''..'', Dir) # entries ?d w). plain_name nm"
      using entries_plain [of _ _ ?d w] by (auto simp: plain_name_def)
  qed (rule r)
  show ?case
    unfolding deleteDir_fuel.simps Let_def
    by (intro touches_if touches_return touches_bind touches_sys touches_sum touches_fails
        touches_gets_bind e) (simp add: below_def)
qed

text \<open>C34: \<open>deleteDir\<close> changes nothing outside the directory it is given, and does nothing at all for
  an empty path, a relative path or the root.\<close>

theorem deleteDir_contained:
  assumes "run_state (deleteDir env dir) w = (r, w')"
  shows "(\<forall>p. \<not> below (strip_slashes dir) p \<longrightarrow> lookup p w' = lookup p w) \<and>
    (dir = [] \<or> hd dir \<noteq> CHR ''/'' \<or> length (strip_slashes dir) \<le> 1 \<longrightarrow> r = - 1 \<and> w' = w)"
proof -
  have "same_rest (below (strip_slashes dir)) w w'"
    using touches_deleteDir_fuel assms unfolding deleteDir_def by (rule touches_run)
  moreover have "r = - 1 \<and> w' = w" if "dir = [] \<or> hd dir \<noteq> CHR ''/'' \<or> length (strip_slashes dir) \<le> 1"
    using that assms by (auto simp: deleteDir_def MAX_FILENAME_PATH_SIZE_def numeral_eq_Suc)
  ultimately show ?thesis by (auto simp: same_rest_def)
qed

lemma deleteDir_contained_witness:
  "lookup ''/b'' (snd (run_state (deleteDir demo_env ''/a/'') demo_world)) = Some (Reg True ''keep'')"
proof -
  have "strip_slashes ''/a/'' = ''/a''" by code_simp
  then have "\<not> below (strip_slashes ''/a/'') ''/b''" by (simp add: below_def)
  then show ?thesis
    using deleteDir_contained [of demo_env "''/a/''" demo_world
        "fst (run_state (deleteDir demo_env ''/a/'') demo_world)"
        "snd (run_state (deleteDir demo_env ''/a/'') demo_world)"]
    by (simp add: demo_world_def)
qed

text \<open>The depth bound of the model is never reached: more of it changes nothing.\<close>

lemma del_entries_cong:
  "(\<And>nm k. (nm, k) \<in> set es \<Longrightarrow> length path + length nm < MAX_FILENAME_PATH_SIZE \<Longrightarrow>
      rec (path @ nm) = rec' (path @ nm)) \<Longrightarrow> del_entries env rec path es = del_entries env rec' path es"
proof (induction es)
  case (Cons e es)
  obtain nm k where e: "e = (nm, k)" by (cases e)
  have "del_entries env rec path es = del_entries env rec' path es"
    using Cons.prems by (intro Cons.IH) auto
  moreover have "length path + length nm < MAX_FILENAME_PATH_SIZE \<Longrightarrow> rec (path @ nm) = rec' (path @ nm)"
    using Cons.prems [of nm k] e by simp
  ultimately show ?case
    by (simp add: e cong: if_cong)
qed simp

lemma strip_length: "length (strip_slashes d) \<le> MAX_FILENAME_PATH_SIZE"
  unfolding strip_slashes_def
  by (metis length_dropWhile_le length_rev length_take min.bounded_iff)

lemma bind_gets_cong: "(\<And>w. f (g w) = f' (g w)) \<Longrightarrow> State_Monad.bind (gets g) f = State_Monad.bind (gets g) f'"
  by (rule state_ext) simp

lemma deleteDir_fuel_enough:
  "MAX_FILENAME_PATH_SIZE - length (strip_slashes dir) < n \<Longrightarrow> n \<le> m \<Longrightarrow>
    (deleteDir_fuel n env dir :: ('a world_scheme, int) state) = deleteDir_fuel m env dir"
proof (induction n arbitrary: m dir)
  case (Suc n)
  obtain m' where m: "m = Suc m'" "n \<le> m'" using Suc.prems(2) by (cases m) auto
  let ?d = "strip_slashes dir"
  have r: "(deleteDir_fuel n env ((?d @ ''/'') @ nm) :: ('a world_scheme, int) state) =
      deleteDir_fuel m' env ((?d @ ''/'') @ nm)"
    if "plain_name nm" "length (?d @ ''/'') + length nm < MAX_FILENAME_PATH_SIZE" for nm
  proof -
    have s: "strip_slashes ((?d @ ''/'') @ nm) = ?d @ ''/'' @ nm"
      using strip_child [OF that(1), of ?d] that(2) by simp
    show ?thesis
      using that Suc.prems(1) m s by (intro Suc.IH) auto
  qed
  have e: "(del_entries env (deleteDir_fuel n env) (?d @ ''/'') ((''.'', Dir) # (''..'', Dir) # entries ?d w) ::
      ('a world_scheme, int) state) =
      del_entries env (deleteDir_fuel m' env) (?d @ ''/'') ((''.'', Dir) # (''..'', Dir) # entries ?d w)"
    for w :: "'a world_scheme"
  proof (rule del_entries_cong, rule r)
    fix nm k assume "(nm, k) \<in> set ((''.'', Dir) # (''..'', Dir) # entries ?d w)"
    then show "plain_name nm"
      using entries_plain [of _ _ ?d w] by (auto simp: plain_name_def)
  qed
  show ?case
    unfolding m(1) deleteDir_fuel.simps Let_def
    by (intro if_cong refl arg_cong2 [where f = State_Monad.bind] ext sum.case_cong bind_gets_cong)
      (simp_all only: e)
qed simp

lemma deleteDir_fuel_irrelevant:
  "MAX_FILENAME_PATH_SIZE \<le> n \<Longrightarrow> length (strip_slashes dir) > 0 \<Longrightarrow> deleteDir_fuel n env dir = deleteDir env dir"
  unfolding deleteDir_def
  by (rule deleteDir_fuel_enough [symmetric]) (simp_all add: max_defs)

subsection \<open>Generated identifiers\<close>

lemma pad0_length: "length s \<le> n \<Longrightarrow> length (pad0 n s) = n"
  by (simp add: pad0_def)

lemma pad0_xdigit: "\<forall>c\<in>set s. isxdigit c \<Longrightarrow> c \<in> set (pad0 n s) \<Longrightarrow> isxdigit c"
  by (auto simp: pad0_def isxdigit_def)

lemma hex_field:
  "x < 16 ^ n \<Longrightarrow> 0 < n \<Longrightarrow> length (pad0 n (digits 16 x)) = n \<and> (\<forall>c\<in>set (pad0 n (digits 16 x)). isxdigit c)"
  using digits_length [of 16 x n] pad0_xdigit [of "digits 16 x"] digits_isxdigit [of 16 _ x]
  by (auto simp: pad0_length)

lemma dec_field:
  "0 \<le> x \<Longrightarrow> x < 100 \<Longrightarrow> length (pad0 2 (dec x)) = 2 \<and> (\<forall>c\<in>set (pad0 2 (dec x)). isxdigit c)"
  using digits_length [of 10 "nat x" 2] pad0_xdigit [of "dec x"] digits_isdigit [of _ "nat x"]
  by (auto simp: pad0_length dec_def isdigit_isxdigit)

definition broken_down :: "int list \<Rightarrow> bool" where
  "broken_down tm \<longleftrightarrow> length tm = 6 \<and> 0 \<le> tm ! 1 \<and> tm ! 1 \<le> 11 \<and> 1 \<le> tm ! 2 \<and> tm ! 2 \<le> 31 \<and>
     0 \<le> tm ! 3 \<and> tm ! 3 \<le> 23 \<and> 0 \<le> tm ! 4 \<and> tm ! 4 \<le> 59 \<and> 0 \<le> tm ! 5 \<and> tm ! 5 \<le> 60"

lemma lang_RepX:
  "length u = n \<Longrightarrow> \<forall>c\<in>set u. isxdigit c \<Longrightarrow> u \<in> lang (Rep n XDIGIT)"
  by (simp add: XDIGIT_def lang_Rep_Cls)

lemma Seqs_ConsI: "u \<in> lang r \<Longrightarrow> v \<in> lang (Seqs rs) \<Longrightarrow> u @ v \<in> lang (Seqs (r # rs))"
  by auto

lemma uuid_text_ok:
  assumes "rand0 < 2 ^ 32" "rand1 < 2 ^ 32" "tid < 2 ^ 16" "broken_down tm"
  shows "uuid_text rand0 tm tid rand1 \<in> lang UUID_REG_PATTERN"
proof -
  define a b where "a = pad0 8 (digits 16 rand0)" and "b = pad0 2 (digits 16 (nat (tm ! 0 mod 256)))"
  define c d where "c = pad0 2 (dec (tm ! 1 + 1))" and "d = pad0 2 (dec (tm ! 2))"
  define e f where "e = pad0 2 (dec (tm ! 3))" and "f = pad0 2 (dec (tm ! 4))"
  define g h k where "g = pad0 2 (dec (tm ! 5))" and "h = pad0 4 (digits 16 tid)" and "k = pad0 8 (digits 16 rand1)"
  note defs = a_def b_def c_def d_def e_def f_def g_def h_def k_def
  have abk: "length a = 8 \<and> (\<forall>x\<in>set a. isxdigit x)" "length b = 2 \<and> (\<forall>x\<in>set b. isxdigit x)"
    "length h = 4 \<and> (\<forall>x\<in>set h. isxdigit x)" "length k = 8 \<and> (\<forall>x\<in>set k. isxdigit x)"
    unfolding defs using assms by (intro hex_field; simp)+
  have cg: "length c = 2 \<and> (\<forall>x\<in>set c. isxdigit x)" "length d = 2 \<and> (\<forall>x\<in>set d. isxdigit x)"
    "length e = 2 \<and> (\<forall>x\<in>set e. isxdigit x)" "length f = 2 \<and> (\<forall>x\<in>set f. isxdigit x)"
    "length g = 2 \<and> (\<forall>x\<in>set g. isxdigit x)"
    unfolding defs using assms(4) unfolding broken_down_def by (intro dec_field; simp)+
  have p: "a \<in> lang (Rep 8 XDIGIT)" "b @ c \<in> lang (Rep 4 XDIGIT)" "d @ e \<in> lang (Rep 4 XDIGIT)"
    "f @ g \<in> lang (Rep 4 XDIGIT)" "h @ k \<in> lang (Rep 12 XDIGIT)"
    using abk cg by (intro lang_RepX; auto)+
  have t: "uuid_text rand0 tm tid rand1 =
      a @ ''-'' @ (b @ c) @ ''-'' @ (d @ e) @ ''-'' @ (f @ g) @ ''-'' @ (h @ k) @ []"
    by (simp add: uuid_text_def defs)
  show ?thesis
    unfolding UUID_REG_PATTERN_def t by (intro Seqs_ConsI p) simp_all
qed

lemma wp_genUUID:
  assumes "\<forall>t. broken_down (localtime env t)" "36 < maxlen"
  shows "wp (genUUID env maxlen) (\<lambda>r w'. fst r = 0 \<and> chkUuid (snd r) = 0 \<and> same_rest (\<lambda>_. False) w w') w"
proof -
  have ok: "rand1 < 2 ^ 32 \<Longrightarrow> rand0 < 2 ^ 32 \<Longrightarrow> tid < 2 ^ 16 \<Longrightarrow>
      length (uuid_text rand0 (localtime env t) tid rand1) = 36 \<and>
      chkUuid (uuid_text rand0 (localtime env t) tid rand1) = 0" for rand0 rand1 tid t
    using uuid_text_ok [of rand0 rand1 tid "localtime env t"] assms(1)
    by (simp add: chkUuid_def matches_lang uuid_lang_iff)
  have r: "wp (getDevRand env) (\<lambda>r _. r < 2 ^ 32) w" for w :: "'a world_scheme"
    by (simp add: getDevRand_def)
  have "wp (genUUID env maxlen) (\<lambda>r _. fst r = 0 \<and> chkUuid (snd r) = 0) w"
    unfolding genUUID_def wp_bind wp_now wp_let Let_def
    by (rule wp_mono [OF r]) (use assms(2) ok in \<open>auto simp: snprintf_def MAX_UUID_SIZE_def\<close>)
  moreover have "wp (genUUID env maxlen) (\<lambda>_. same_rest (\<lambda>_. False) w) w"
    using touches_genUUID [of "\<lambda>_. False" env maxlen] unfolding touches_def by blast
  ultimately show ?thesis
    by (rule wp_mono [OF wp_conj]) simp
qed

text \<open>C35: an identifier generated for a caller with room for it always passes the check that every
  request and record reader makes, whatever the clock and the random source give.\<close>

theorem genUUID_valid:
  assumes "\<forall>t. broken_down (localtime env t)" "36 < maxlen"
    and "run_state (genUUID env maxlen) w = (r, w')"
  shows "fst r = 0 \<and> chkUuid (snd r) = 0"
  using wp_run [OF wp_genUUID [OF assms(1,2)] assms(3)] by simp

lemma genUUID_valid_witness:
  "chkUuid (snd (fst (run_state (genUUID demo_env 64) demo_world))) = 0"
  using genUUID_valid [of demo_env 64 demo_world "fst (run_state (genUUID demo_env 64) demo_world)"
      "snd (run_state (genUUID demo_env 64) demo_world)"]
  by (simp add: demo_env_def broken_down_def)

end
