(* ===== verification/Redis.thy ===== *)
theory Redis imports FileProps begin

text \<open>
  The access to the Redis server (\<^verbatim>\<open>redis_*\<close> of \<^verbatim>\<open>base_openvas.c\<close>) and the clock and time stamp
  functions of the same file.  The server is a parameter: at every command it gives any reply, or the
  connection breaks.  What the program does to it is the list of the commands sent.
\<close>

subsection \<open>The connection\<close>

record rworld = world +
  link :: bool                \<comment> \<open>\<open>rctx\<close> is not NULL\<close>
  sent :: "string list list"

definition set_link :: "bool \<Rightarrow> ('a rworld_scheme, unit) state" where
  "set_link b = modify (\<lambda>w. w\<lparr>link := b\<rparr>)"

definition send_cmd :: "env \<Rightarrow> string list \<Rightarrow> ('a rworld_scheme, reply option) state" where
  "send_cmd env cmd = do {
     t \<leftarrow> now;
     modify (\<lambda>w. w\<lparr>sent := sent w @ [cmd]\<rparr>);
     ret (redis env t cmd)
   }"

definition ECONNREFUSED :: int where "ECONNREFUSED = 111"
definition EINVAL :: int where "EINVAL = 22"
definition EPROTO :: int where "EPROTO = 71"

definition redis_test_connection :: "env \<Rightarrow> ('a rworld_scheme, int) state" where
  "redis_test_connection env = do {
     r \<leftarrow> send_cmd env [''PING''];
     ret (case r of
            None \<Rightarrow> - ECONNREFUSED
          | Some (RStatus s) \<Rightarrow> if strcasecmp s ''PONG'' \<noteq> 0 then - EPROTO else 0
          | Some _ \<Rightarrow> - EINVAL)
   }"

definition get_redis_ctx :: "env \<Rightarrow> ('a rworld_scheme, int) state" where
  "get_redis_ctx env = do {
     c \<leftarrow> gets link;
     if c then ret 0
     else do {
       f \<leftarrow> fails env;
       if f then ret (- 1)
       else do {
         set_link True;
         r \<leftarrow> redis_test_connection env;
         if r \<noteq> 0 then do { set_link False; ret r } else ret 0
       }
     }
   }"

text \<open>One round of the loop of \<open>redis_cmd\<close>: no connection, an error on the connection, or a reply.\<close>

definition redis_attempt :: "env \<Rightarrow> string list \<Rightarrow> ('a rworld_scheme, bool + reply) state" where
  "redis_attempt env cmd = do {
     c \<leftarrow> get_redis_ctx env;
     if c \<noteq> 0 then ret (Inl False)
     else do {
       r \<leftarrow> send_cmd env cmd;
       case r of
         None \<Rightarrow> do { set_link False; ret (Inl True) }
       | Some v \<Rightarrow> ret (Inr v)
     }
   }"

text \<open>\<open>retry\<close> is flipped at each error of the connection, so there are at most two rounds.\<close>

definition redis_cmd :: "env \<Rightarrow> string list \<Rightarrow> ('a rworld_scheme, reply option) state" where
  "redis_cmd env cmd = do {
     a \<leftarrow> redis_attempt env cmd;
     case a of
       Inr v \<Rightarrow> ret (Some v)
     | Inl retry \<Rightarrow>
         if \<not> retry then ret None
         else do {
           b \<leftarrow> redis_attempt env cmd;
           ret (case b of Inr v \<Rightarrow> Some v | Inl _ \<Rightarrow> None)
         }
   }"

definition redis_conn :: "env \<Rightarrow> ('a rworld_scheme, bool) state" where
  "redis_conn env = do {
     nomem \<leftarrow> fails env;
     if nomem then ret False
     else do {
       set_link False;
       r \<leftarrow> get_redis_ctx env;
       ret (r = 0)
     }
   }"

definition redis_new :: "env \<Rightarrow> ('a rworld_scheme, bool) state" where
  "redis_new env = do {
     nomem \<leftarrow> fails env;
     if nomem then ret False else do { set_link False; ret True }
   }"

definition redis_delete :: "('a rworld_scheme, int) state" where
  "redis_delete = do { set_link False; ret 0 }"

subsection \<open>Queues of messages\<close>

definition reply_ok :: "reply option \<Rightarrow> int" where
  "reply_ok r = (case r of None \<Rightarrow> - 1 | Some (RError _) \<Rightarrow> - 1 | _ \<Rightarrow> 0)"

definition redis_expire :: "env \<Rightarrow> string \<Rightarrow> int \<Rightarrow> ('a rworld_scheme, int) state" where
  "redis_expire env nm ttl = do { r \<leftarrow> redis_cmd env [''EXPIRE'', nm, dec ttl]; ret (reply_ok r) }"

text \<open>With a length the value is binary, without one it ends at its first NUL.\<close>

definition redis_push_str :: "env \<Rightarrow> string \<Rightarrow> string \<Rightarrow> nat \<Rightarrow> ('a rworld_scheme, int) state" where
  "redis_push_str env nm v len = do {
     r \<leftarrow> redis_cmd env [''LPUSH'', nm, if len = 0 then c_str v else take len v];
     ret (reply_ok r)
   }"

text \<open>A string that fits the capacity of the buffer.\<close>

definition into_buf :: "nat \<Rightarrow> string \<Rightarrow> int \<times> string" where
  "into_buf cap s = (if 0 < length s then if length s \<le> cap then (1, s) else (- 1, []) else (0, []))"

definition redis_pop_str :: "env \<Rightarrow> string \<Rightarrow> nat \<Rightarrow> ('a rworld_scheme, int \<times> string) state" where
  "redis_pop_str env nm cap = do {
     r \<leftarrow> redis_cmd env [''RPOP'', nm];
     ret (case r of None \<Rightarrow> (- 1, []) | Some (RStr s) \<Rightarrow> into_buf cap s | Some _ \<Rightarrow> (0, []))
   }"

definition redis_push_str_ttl ::
  "env \<Rightarrow> string \<Rightarrow> string \<Rightarrow> nat \<Rightarrow> int \<Rightarrow> ('a rworld_scheme, int) state" where
  "redis_push_str_ttl env nm v len ttl = do {
     r \<leftarrow> redis_push_str env nm v len;
     (if r = 0 then do { _ \<leftarrow> redis_expire env nm ttl; ret () } else ret ());
     ret r
   }"

definition redis_push_int_ttl :: "env \<Rightarrow> string \<Rightarrow> int \<Rightarrow> int \<Rightarrow> ('a rworld_scheme, int) state" where
  "redis_push_int_ttl env nm v ttl = redis_push_str_ttl env nm (fst (snprintf MAX_COMM_MIN_SIZE (dec v))) 0 ttl"

definition redis_bpop_str :: "env \<Rightarrow> string \<Rightarrow> nat \<Rightarrow> int \<Rightarrow> ('a rworld_scheme, int \<times> string) state" where
  "redis_bpop_str env nm cap timeout = do {
     r \<leftarrow> redis_cmd env [''BRPOP'', nm, dec timeout];
     ret (case r of None \<Rightarrow> (- 1, []) | Some (RArr [_, RStr s]) \<Rightarrow> into_buf cap s | Some _ \<Rightarrow> (0, []))
   }"

text \<open>The value is left alone unless the result is 1.\<close>

definition redis_bpop_int :: "env \<Rightarrow> string \<Rightarrow> int \<Rightarrow> ('a rworld_scheme, int \<times> int option) state" where
  "redis_bpop_int env nm timeout = do {
     (r, b) \<leftarrow> redis_bpop_str env nm (MAX_COMM_MIN_SIZE - 1) timeout;
     ret (if r = 1
          then if \<not> isdigit (hd b) \<and> hd b \<noteq> CHR ''-'' \<or> \<not> list_all isdigit (tl b) then (- 1, None)
               else (1, Some (atoi b))
          else (r, None))
   }"

definition redis_del_items :: "env \<Rightarrow> string \<Rightarrow> ('a rworld_scheme, int) state" where
  "redis_del_items env nm = do { r \<leftarrow> redis_cmd env [''DEL'', nm]; ret (reply_ok r) }"

subsection \<open>Time\<close>

definition DEF_DAY_SECONDS :: int where "DEF_DAY_SECONDS = 24 * 3600"

definition getTimeLastDays :: "env \<Rightarrow> int \<Rightarrow> ('a world_scheme, int) state" where
  "getTimeLastDays env nday = do {
     t \<leftarrow> getTime env;
     ret (if 0 < t - DEF_DAY_SECONDS * nday then t - DEF_DAY_SECONDS * nday else 0)
   }"

definition TIME_FORMAT :: string where "TIME_FORMAT = ''%Y-%m-%d %H:%M:%S''"
definition UTC_FORMAT :: string where "UTC_FORMAT = ''%Y-%m-%dT%H:%M:%SZ''"
definition CUSTOM_SCHEDULE_TIME_MARK :: string where "CUSTOM_SCHEDULE_TIME_MARK = ''%Y%m%dT%H%M%SZ''"

definition time2asc :: "env \<Rightarrow> int \<Rightarrow> string \<Rightarrow> nat \<Rightarrow> bool \<Rightarrow> int \<times> string" where
  "time2asc env t fmt maxlen is_local =
     (case strftime env fmt is_local t of
        None \<Rightarrow> (- 1, [])
      | Some s \<Rightarrow> if 0 < length s \<and> length s < maxlen then (0, s) else (- 1, []))"

definition getTimeStamp :: "env \<Rightarrow> int \<Rightarrow> nat \<Rightarrow> int \<times> string" where
  "getTimeStamp env t maxlen = (if 0 < t then time2asc env t TIME_FORMAT maxlen True else (- 1, []))"

definition nowTimeStamp :: "env \<Rightarrow> nat \<Rightarrow> ('a world_scheme, int \<times> string) state" where
  "nowTimeStamp env maxlen = do { t \<leftarrow> getTime env; ret (time2asc env t TIME_FORMAT maxlen True) }"

definition asc2time :: "env \<Rightarrow> string \<Rightarrow> string \<Rightarrow> bool \<Rightarrow> int option" where
  "asc2time env txt fmt is_local = strptime env fmt is_local txt"

definition utc2LocalTime :: "env \<Rightarrow> nat \<Rightarrow> string \<Rightarrow> int \<times> string" where
  "utc2LocalTime env maxlen utc =
     (if utc = [] then (0, [])
      else case asc2time env utc UTC_FORMAT False of
             None \<Rightarrow> (- 1, [])
           | Some t \<Rightarrow> time2asc env t TIME_FORMAT maxlen True)"

text \<open>A schedule that runs once is moved to at least 100 seconds from now.\<close>

definition local2SchedTime :: "env \<Rightarrow> nat \<Rightarrow> string \<Rightarrow> bool \<Rightarrow> ('a world_scheme, int \<times> string) state" where
  "local2SchedTime env maxlen localtm is_once =
     (if localtm = [] then ret (0, [])
      else case asc2time env localtm TIME_FORMAT True of
             None \<Rightarrow> ret (- 1, [])
           | Some t \<Rightarrow> do {
               t' \<leftarrow> (if is_once then do { c \<leftarrow> getTime env; ret (if t < c + 100 then c + 100 else t) } else ret t);
               ret (time2asc env t' CUSTOM_SCHEDULE_TIME_MARK maxlen False)
             })"

end
