(* ===== verification/QueueSpec.thy ===== *)
theory QueueSpec imports Prelude begin

text \<open>
  The contract of the ordered queue of \<^verbatim>\<open>llist.c\<close>, independent of how it is stored: where an item
  goes (\<open>q_insert\<close>: behind every item that is not greater, scanning from the tail), what it means to
  be ordered (\<open>ordered\<close>), and the interface \<open>ordered_queue\<close> with the lemmas its clients use.  The
  pointer implementation (\<^verbatim>\<open>LList.thy\<close>) and the list implementation that the daemon components use
  (\<^verbatim>\<open>ListQueue.thy\<close>) are instances.
\<close>

subsection \<open>The place of an item\<close>

definition q_front :: "('a \<Rightarrow> 'a \<Rightarrow> int) \<Rightarrow> 'a \<Rightarrow> 'a list \<Rightarrow> 'a list" where
  "q_front cmp x xs = rev (dropWhile (\<lambda>y. 0 < cmp y x) (rev xs))"

definition q_back :: "('a \<Rightarrow> 'a \<Rightarrow> int) \<Rightarrow> 'a \<Rightarrow> 'a list \<Rightarrow> 'a list" where
  "q_back cmp x xs = rev (takeWhile (\<lambda>y. 0 < cmp y x) (rev xs))"

definition q_insert :: "('a \<Rightarrow> 'a \<Rightarrow> int) \<Rightarrow> 'a \<Rightarrow> 'a list \<Rightarrow> 'a list" where
  "q_insert cmp x xs = q_front cmp x xs @ x # q_back cmp x xs"

lemma q_front_back: "q_front cmp x xs @ q_back cmp x xs = xs"
  by (metis q_front_def q_back_def rev_append rev_rev_ident takeWhile_dropWhile_id)

lemma q_insert_Nil [simp]: "q_insert cmp x [] = [x]"
  by (simp add: q_insert_def q_front_def q_back_def)

lemma q_back_gt: "y \<in> set (q_back cmp x xs) \<Longrightarrow> 0 < cmp y x"
  by (auto simp: q_back_def dest: set_takeWhileD)

lemma q_front_last: "q_front cmp x xs \<noteq> [] \<Longrightarrow> cmp (last (q_front cmp x xs)) x \<le> 0"
  unfolding q_front_def
  by (metis last_rev hd_dropWhile linorder_not_le rev_is_Nil_conv)

lemma q_insert_mset [simp]: "mset (q_insert cmp x xs) = add_mset x (mset xs)"
  using arg_cong [OF q_front_back, of mset cmp x xs] by (simp add: q_insert_def)

lemma q_insert_set [simp]: "set (q_insert cmp x xs) = insert x (set xs)"
  by (metis q_insert_mset set_mset_add_mset_insert set_mset_mset)

lemma q_insert_length [simp]: "length (q_insert cmp x xs) = Suc (length xs)"
  by (metis q_insert_mset size_add_mset size_mset)

lemma q_insert_distinct [simp]: "distinct (q_insert cmp x xs) \<longleftrightarrow> x \<notin> set xs \<and> distinct xs"
proof -
  have "distinct (q_front cmp x xs @ q_back cmp x xs) = distinct xs"
    "set (q_front cmp x xs) \<union> set (q_back cmp x xs) = set xs"
    by (simp_all only: q_front_back flip: set_append)
  then show ?thesis
    by (auto simp: q_insert_def)
qed

lemma q_insert_cong:
  assumes "\<And>y. y \<in> set xs \<Longrightarrow> 0 < cmp y x \<longleftrightarrow> 0 < cmp' y x"
  shows "q_insert cmp x xs = q_insert cmp' x xs"
proof -
  have "takeWhile (\<lambda>y. 0 < cmp y x) (rev xs) = takeWhile (\<lambda>y. 0 < cmp' y x) (rev xs)"
    "dropWhile (\<lambda>y. 0 < cmp y x) (rev xs) = dropWhile (\<lambda>y. 0 < cmp' y x) (rev xs)"
    using assms by (auto intro: takeWhile_cong dropWhile_cong)
  then show ?thesis
    by (simp add: q_insert_def q_front_def q_back_def)
qed

subsection \<open>Order\<close>

definition ordered :: "('a \<Rightarrow> 'a \<Rightarrow> int) \<Rightarrow> 'a list \<Rightarrow> bool" where
  "ordered cmp = sorted_wrt (\<lambda>x y. cmp x y \<le> 0)"

lemma ordered_Nil [simp]: "ordered cmp []"
  by (simp add: ordered_def)

lemma ordered_Cons [simp]: "ordered cmp (x # xs) \<longleftrightarrow> (\<forall>y\<in>set xs. cmp x y \<le> 0) \<and> ordered cmp xs"
  by (simp add: ordered_def)

lemma ordered_append:
  "ordered cmp (xs @ ys) \<longleftrightarrow>
     ordered cmp xs \<and> ordered cmp ys \<and> (\<forall>x\<in>set xs. \<forall>y\<in>set ys. cmp x y \<le> 0)"
  by (auto simp: ordered_def sorted_wrt_append)

lemma ordered_remove1: "ordered cmp xs \<Longrightarrow> ordered cmp (remove1 x xs)"
  by (induction xs) (auto dest: notin_set_remove1 [rotated])

lemma ordered_cong:
  "(\<And>x y. x \<in> set xs \<Longrightarrow> y \<in> set xs \<Longrightarrow> cmp x y \<le> 0 \<longleftrightarrow> cmp' x y \<le> 0) \<Longrightarrow>
    ordered cmp xs \<longleftrightarrow> ordered cmp' xs"
  by (induction xs) auto

context comparator
begin

lemma q_insert_ordered:
  assumes "set xs \<subseteq> A" "x \<in> A" "ordered cmp xs"
  shows "ordered cmp (q_insert cmp x xs)"
proof -
  let ?f = "q_front cmp x xs" and ?b = "q_back cmp x xs"
  have o: "ordered cmp ?f" "ordered cmp ?b" "\<forall>a\<in>set ?f. \<forall>b\<in>set ?b. cmp a b \<le> 0"
    using assms(3) q_front_back [of cmp x xs] ordered_append [of cmp ?f ?b] by auto
  have sub: "set ?f \<subseteq> A" "set ?b \<subseteq> A"
    using assms(1) arg_cong [OF q_front_back, of set cmp x xs] by auto
  have f: "cmp a x \<le> 0" if "a \<in> set ?f" for a
  proof -
    from that have ne: "?f \<noteq> []" by auto
    then have l: "cmp (last ?f) x \<le> 0" by (rule q_front_last)
    have "?f = butlast ?f @ [last ?f]" using ne by simp
    then have "a = last ?f \<or> cmp a (last ?f) \<le> 0"
      using o(1) that ordered_append [of cmp "butlast ?f" "[last ?f]"]
      by (metis in_set_conv_decomp Un_iff list.set_intros(1) set_ConsD set_append empty_iff empty_set)
    then show ?thesis
      using l cmp_trans [of a "last ?f" x] that sub assms(2) ne last_in_set by fastforce
  qed
  have b: "cmp x y \<le> 0" if "y \<in> set ?b" for y
    using q_back_gt [OF that] cmp_swap [of y x] that sub assms(2) by fastforce
  show ?thesis
    using o f b by (auto simp: q_insert_def ordered_append)
qed

text \<open>The items that are not greater stay in front: the insertion is stable.\<close>

lemma q_insert_stable:
  assumes "set xs \<subseteq> A" "x \<in> A" "ordered cmp xs"
  shows "q_insert cmp x xs = filter (\<lambda>y. cmp y x \<le> 0) xs @ x # filter (\<lambda>y. 0 < cmp y x) xs"
proof -
  let ?f = "q_front cmp x xs" and ?b = "q_back cmp x xs"
  have "ordered cmp (?f @ x # ?b)"
    using q_insert_ordered [OF assms] by (simp add: q_insert_def)
  then have "\<forall>y\<in>set ?f. cmp y x \<le> 0" "\<forall>y\<in>set ?b. 0 < cmp y x"
    by (auto simp: ordered_append q_back_gt)
  then have "filter (\<lambda>y. cmp y x \<le> 0) (?f @ ?b) = ?f" "filter (\<lambda>y. 0 < cmp y x) (?f @ ?b) = ?b"
    by (auto simp: filter_id_conv intro!: filter_True filter_False)
  then show ?thesis
    by (simp add: q_front_back q_insert_def)
qed

end

subsection \<open>The interface\<close>

text \<open>\<open>q\<close> is the state of the implementation; \<open>items\<close> is the abstraction, \<open>inv\<close> its domain and
  \<open>fresh\<close> says that an item may be linked.  \<open>enq\<close> is partial because the scan of the implementation
  is a loop: that it ends is part of the contract.\<close>

locale ordered_queue =
  fixes items :: "'q \<Rightarrow> 'a list"
    and inv :: "'q \<Rightarrow> bool"
    and fresh :: "'q \<Rightarrow> 'a \<Rightarrow> bool"
    and enq :: "('a \<Rightarrow> 'a \<Rightarrow> int) \<Rightarrow> 'q \<Rightarrow> 'a \<Rightarrow> 'q option"
    and deq :: "'q \<Rightarrow> 'a option \<times> 'q"
    and del :: "'q \<Rightarrow> 'a \<Rightarrow> int \<times> 'q"
  assumes inv_distinct: "inv q \<Longrightarrow> distinct (items q)"
    and fresh_iff: "inv q \<Longrightarrow> fresh q x \<Longrightarrow> x \<notin> set (items q)"
    and enq_law: "inv q \<Longrightarrow> fresh q x \<Longrightarrow>
      \<exists>q'. enq cmp q x = Some q' \<and> inv q' \<and> items q' = q_insert cmp x (items q)"
    and deq_Nil: "inv q \<Longrightarrow> items q = [] \<Longrightarrow> deq q = (None, q)"
    and deq_Cons: "inv q \<Longrightarrow> items q = x # xs \<Longrightarrow>
      \<exists>q'. deq q = (Some x, q') \<and> inv q' \<and> items q' = xs \<and> fresh q' x"
    and del_law: "inv q \<Longrightarrow> x \<in> set (items q) \<Longrightarrow>
      \<exists>q'. del q x = (0, q') \<and> inv q' \<and> items q' = remove1 x (items q) \<and> fresh q' x"
begin

definition requeue :: "('a \<Rightarrow> 'a \<Rightarrow> int) \<Rightarrow> 'q \<Rightarrow> 'a \<Rightarrow> 'q option" where
  "requeue cmp q x = enq cmp (snd (del q x)) x"

lemma requeue_law:
  assumes "inv q" "x \<in> set (items q)"
  shows "\<exists>q'. requeue cmp q x = Some q' \<and> inv q' \<and> items q' = q_insert cmp x (remove1 x (items q))"
  using del_law [OF assms] enq_law unfolding requeue_def by fastforce

text \<open>A queue ordered by keys stays ordered when the key of one item changes and that item is queued
  again: \<open>cmp\<close> compares before the change and \<open>cmp'\<close> after it.\<close>

lemma requeue_ordered:
  assumes "comparator cmp' A" "inv q" "x \<in> set (items q)" "set (items q) \<subseteq> A" "ordered cmp (items q)"
    and same: "\<And>y z. y \<in> A - {x} \<Longrightarrow> z \<in> A - {x} \<Longrightarrow> cmp' y z = cmp y z"
  shows "\<exists>q'. requeue cmp' q x = Some q' \<and> inv q' \<and> ordered cmp' (items q') \<and>
    set (items q') = set (items q)"
proof -
  let ?r = "remove1 x (items q)"
  have d: "distinct (items q)" using assms(2) by (rule inv_distinct)
  have "ordered cmp ?r" using assms(5) by (rule ordered_remove1)
  moreover have sub: "set ?r \<subseteq> A - {x}" using d assms(4) by auto
  ultimately have "ordered cmp' ?r"
    using same ordered_cong [of ?r cmp' cmp] by (metis subsetD)
  then have "ordered cmp' (q_insert cmp' x ?r)"
    using sub assms(3,4) by (intro comparator.q_insert_ordered [OF assms(1)]) auto
  moreover have "insert x (set ?r) = set (items q)"
    using d assms(3) by auto
  ultimately show ?thesis
    using requeue_law [OF assms(2,3), of cmp'] by auto
qed

lemma enq_ordered:
  assumes "comparator cmp A" "inv q" "fresh q x" "set (items q) \<subseteq> A" "x \<in> A" "ordered cmp (items q)"
  shows "\<exists>q'. enq cmp q x = Some q' \<and> inv q' \<and> ordered cmp (items q') \<and>
    mset (items q') = add_mset x (mset (items q))"
  using enq_law [OF assms(2,3), of cmp] comparator.q_insert_ordered [OF assms(1,4,5,6)] by auto

text \<open>Taking the head again and again returns the items in the order of the queue and leaves the
  queue empty.\<close>

fun drain :: "nat \<Rightarrow> 'q \<Rightarrow> 'a list \<times> 'q" where
  "drain 0 q = ([], q)"
| "drain (Suc n) q =
     (case deq q of (None, q') \<Rightarrow> ([], q')
      | (Some x, q') \<Rightarrow> (case drain n q' of (xs, q'') \<Rightarrow> (x # xs, q'')))"

lemma drain_law:
  "inv q \<Longrightarrow> items q = xs \<Longrightarrow> length xs \<le> n \<Longrightarrow>
    fst (drain n q) = xs \<and> inv (snd (drain n q)) \<and> items (snd (drain n q)) = []"
proof (induction n arbitrary: q xs)
  case 0
  then show ?case by simp
next
  case (Suc n)
  show ?case
  proof (cases xs)
    case Nil
    then show ?thesis using Suc.prems deq_Nil by simp
  next
    case (Cons x ys)
    obtain q' where q': "deq q = (Some x, q')" "inv q'" "items q' = ys"
      using deq_Cons [of q x ys] Suc.prems Cons by blast
    then show ?thesis using Suc.IH [of q' ys] Suc.prems Cons by (auto split: prod.splits)
  qed
qed

end

end
