(* ===== verification/LList.thy ===== *)
theory LList imports QueueSpec begin

text \<open>
  The intrusive doubly linked list and the ordered queue of \<^verbatim>\<open>llist.c\<close>, at the level of the
  pointers: \<open>struct LList\<close> is a node of a heap that maps each node to its two neighbours, a queue is
  a head node of a circular list, and each C function is the same sequence of stores.  The second
  half relates a heap to the HOL list of the queued nodes (\<open>queue_repr\<close>) and proves every operation
  against that list; the contract is the locale \<open>ordered_queue\<close>, which the pointers implement
  here and the list level (used by the components with task objects) implements in
  \<^verbatim>\<open>ListQueue.thy\<close>.
\<close>

subsection \<open>The heap of list nodes\<close>

record 'n heap =
  prv :: "'n \<Rightarrow> 'n"
  nxt :: "'n \<Rightarrow> 'n"

definition set_prev :: "'n \<Rightarrow> 'n \<Rightarrow> 'n heap \<Rightarrow> 'n heap" where
  "set_prev i v h = h\<lparr>prv := (prv h)(i := v)\<rparr>"

definition set_next :: "'n \<Rightarrow> 'n \<Rightarrow> 'n heap \<Rightarrow> 'n heap" where
  "set_next i v h = h\<lparr>nxt := (nxt h)(i := v)\<rparr>"

lemma heap_sel_simps [simp]:
  "prv (set_prev i v h) = (prv h)(i := v)" "nxt (set_prev i v h) = nxt h"
  "prv (set_next i v h) = prv h" "nxt (set_next i v h) = (nxt h)(i := v)"
  by (simp_all add: set_prev_def set_next_def)

definition reset :: "'n heap \<Rightarrow> 'n \<Rightarrow> 'n heap" where
  "reset h item = set_next item item (set_prev item item h)"

definition isEmpty :: "'n heap \<Rightarrow> 'n \<Rightarrow> bool" where
  "isEmpty h item \<longleftrightarrow> nxt h item = item"

definition delListItem :: "'n heap \<Rightarrow> 'n \<Rightarrow> 'n heap" where
  "delListItem h item =
     (let h1 = set_next (prv h item) (nxt h item) h;
          h2 = set_prev (nxt h1 item) (prv h1 item) h1
      in reset h2 item)"

definition addPrev :: "'n heap \<Rightarrow> 'n \<Rightarrow> 'n \<Rightarrow> 'n heap" where
  "addPrev h cur newItr =
     (let h1 = set_next newItr cur h;
          h2 = set_prev newItr (prv h1 cur) h1;
          h3 = set_next (prv h2 cur) newItr h2
      in set_prev cur newItr h3)"

definition addNext :: "'n heap \<Rightarrow> 'n \<Rightarrow> 'n \<Rightarrow> 'n heap" where
  "addNext h cur newItr =
     (let h1 = set_next newItr (nxt h cur) h;
          h2 = set_prev newItr cur h1;
          h3 = set_prev (nxt h2 cur) newItr h2
      in set_next cur newItr h3)"

subsection \<open>The queue\<close>

text \<open>\<open>m_cmp\<close> is a pointer to a comparison function that reads the queued objects; what it computes
  is an argument of the operations that call it, because the objects change between calls.\<close>

record ('n, 'f) list_queue =
  m_cnt :: int
  m_cmp :: "'f option"
  m_head :: 'n

definition initListQue ::
  "'n heap \<Rightarrow> 'n \<Rightarrow> 'f option \<Rightarrow> int \<times> 'n heap \<times> ('n, 'f) list_queue" where
  "initListQue h head cmp =
     (if cmp \<noteq> None then 0 else - 1, reset h head, \<lparr>m_cnt = 0, m_cmp = cmp, m_head = head\<rparr>)"

definition resetListQue :: "'n heap \<Rightarrow> ('n, 'f) list_queue \<Rightarrow> 'n heap \<times> ('n, 'f) list_queue" where
  "resetListQue h root = (reset h (m_head root), root\<lparr>m_cnt := 0\<rparr>)"

text \<open>The loops follow pointers, so they end only on a well-formed heap: \<open>None\<close> is a loop that does
  not return.  \<open>freeListQue\<close> collects the nodes it hands to \<open>pf\<close> or \<open>free\<close>, in order.\<close>

partial_function (option) free_loop :: "'n heap \<Rightarrow> 'n \<Rightarrow> 'n list \<Rightarrow> ('n heap \<times> 'n list) option" where
  "free_loop h head freed =
     (if nxt h head \<noteq> head
      then free_loop (delListItem h (nxt h head)) head (freed @ [nxt h head])
      else Some (h, freed))"

definition freeListQue ::
  "'n heap \<Rightarrow> ('n, 'f) list_queue \<Rightarrow> ('n list \<times> 'n heap \<times> ('n, 'f) list_queue) option" where
  "freeListQue h root =
     map_option (\<lambda>(h', freed). (freed, h', root\<lparr>m_cnt := 0\<rparr>)) (free_loop h (m_head root) [])"

partial_function (option) push_scan ::
  "('n \<Rightarrow> 'n \<Rightarrow> int) \<Rightarrow> 'n heap \<Rightarrow> 'n \<Rightarrow> 'n \<Rightarrow> 'n \<Rightarrow> 'n option" where
  "push_scan cmp h head item cur =
     (if prv h cur \<noteq> head
      then if cmp (prv h cur) item \<le> 0 then Some cur
           else push_scan cmp h head item (prv h cur)
      else Some cur)"

definition push_back ::
  "('n \<Rightarrow> 'n \<Rightarrow> int) \<Rightarrow> 'n heap \<Rightarrow> ('n, 'f) list_queue \<Rightarrow> 'n \<Rightarrow> ('n heap \<times> ('n, 'f) list_queue) option" where
  "push_back cmp h root item =
     (case push_scan cmp h (m_head root) item (m_head root) of
        None \<Rightarrow> None
      | Some cur \<Rightarrow> Some (addPrev h cur item, root\<lparr>m_cnt := m_cnt root + 1\<rparr>))"

definition pop_head ::
  "'n heap \<Rightarrow> ('n, 'f) list_queue \<Rightarrow> 'n option \<times> 'n heap \<times> ('n, 'f) list_queue" where
  "pop_head h root =
     (if nxt h (m_head root) \<noteq> m_head root
      then let cur = nxt h (m_head root)
           in (Some cur, delListItem h cur, root\<lparr>m_cnt := m_cnt root - 1\<rparr>)
      else (None, h, root))"

definition get_head :: "'n heap \<Rightarrow> ('n, 'f) list_queue \<Rightarrow> 'n option" where
  "get_head h root =
     (if nxt h (m_head root) \<noteq> m_head root then Some (nxt h (m_head root)) else None)"

definition del_item ::
  "'n heap \<Rightarrow> ('n, 'f) list_queue \<Rightarrow> 'n \<Rightarrow> int \<times> 'n heap \<times> ('n, 'f) list_queue" where
  "del_item h root item =
     (if nxt h item \<noteq> item
      then (0, delListItem h item, root\<lparr>m_cnt := m_cnt root - 1\<rparr>)
      else (- 1, h, root))"

definition reque_list ::
  "('n \<Rightarrow> 'n \<Rightarrow> int) \<Rightarrow> 'n heap \<Rightarrow> ('n, 'f) list_queue \<Rightarrow> 'n \<Rightarrow> ('n heap \<times> ('n, 'f) list_queue) option" where
  "reque_list cmp h root item =
     (if nxt h item \<noteq> item
      then case del_item h root item of (_, h1, root1) \<Rightarrow> push_back cmp h1 root1 item
      else Some (h, root))"

text \<open>\<open>for_each\<close> saves the successor before it calls \<open>work\<close>, so \<open>work\<close> may unlink or free its
  argument.  \<open>work\<close> runs on a state \<open>'s\<close> that contains the heap.\<close>

partial_function (option) each_loop ::
  "('s \<Rightarrow> 'n heap) \<Rightarrow> ('n \<Rightarrow> 's \<Rightarrow> int \<times> 's) \<Rightarrow> 'n \<Rightarrow> 'n \<Rightarrow> int \<Rightarrow> 's \<Rightarrow> (int \<times> 's) option" where
  "each_loop hp work head next0 ret s =
     (if next0 = head then Some (ret, s)
      else let next1 = nxt (hp s) next0
           in case work next0 s of (ret1, s1) \<Rightarrow>
                if ret1 \<noteq> 0 then Some (ret1, s1) else each_loop hp work head next1 ret1 s1)"

definition for_each ::
  "('s \<Rightarrow> 'n heap) \<Rightarrow> ('n, 'f) list_queue \<Rightarrow> ('n \<Rightarrow> 's \<Rightarrow> int \<times> 's) \<Rightarrow> 's \<Rightarrow> (int \<times> 's) option" where
  "for_each hp root work s = each_loop hp work (m_head root) (nxt (hp s) (m_head root)) 0 s"

subsection \<open>What a heap represents\<close>

fun dlinks :: "'n heap \<Rightarrow> 'n list \<Rightarrow> bool" where
  "dlinks h (a # b # cs) \<longleftrightarrow> nxt h a = b \<and> prv h b = a \<and> dlinks h (b # cs)"
| "dlinks h _ \<longleftrightarrow> True"

definition queue_repr :: "'n heap \<Rightarrow> 'n \<Rightarrow> 'n list \<Rightarrow> bool" where
  "queue_repr h head xs \<longleftrightarrow> distinct (head # xs) \<and> dlinks h (head # xs @ [head])"

lemma dlinks_append:
  "dlinks h (as @ b # cs) \<longleftrightarrow> dlinks h (as @ [b]) \<and> dlinks h (b # cs)"
proof (induction as)
  case Nil
  show ?case by simp
next
  case (Cons a as)
  then show ?case by (cases as) auto
qed

lemma dlinks_Cons: "dlinks h (a # b # cs) \<longleftrightarrow> nxt h a = b \<and> prv h b = a \<and> dlinks h (b # cs)"
  by simp

lemma dlinks_set_next:
  "a \<notin> set (butlast xs) \<Longrightarrow> dlinks (set_next a v h) xs = dlinks h xs"
  by (induction h xs rule: dlinks.induct) auto

lemma dlinks_set_prev:
  "a \<notin> set (tl xs) \<Longrightarrow> dlinks (set_prev a v h) xs = dlinks h xs"
  by (induction h xs rule: dlinks.induct) auto

text \<open>Frame: stores to nodes outside a list leave it as it is.\<close>

lemma dlinks_frame:
  "a \<notin> set xs \<Longrightarrow> dlinks (set_next a v h) xs = dlinks h xs"
  "a \<notin> set xs \<Longrightarrow> dlinks (set_prev a v h) xs = dlinks h xs"
proof -
  show "a \<notin> set xs \<Longrightarrow> dlinks (set_next a v h) xs = dlinks h xs"
    by (meson dlinks_set_next in_set_butlastD)
  show "a \<notin> set xs \<Longrightarrow> dlinks (set_prev a v h) xs = dlinks h xs"
    by (rule dlinks_set_prev) (cases xs; simp)
qed

subsection \<open>Unlinking and linking one node\<close>

lemma delListItem_dlinks:
  assumes d: "dlinks h (ps @ p # i # n # ns)"
    and i: "i \<notin> set ps" "i \<noteq> p" "i \<noteq> n" "i \<notin> set (butlast (n # ns))" "i \<notin> set ns"
    and p: "p \<notin> set ps" "p \<notin> set (butlast (n # ns))"
    and n: "n \<notin> set ns" "n \<notin> set (tl (ps @ [p]))"
  shows "dlinks (delListItem h i) (ps @ p # n # ns)"
proof -
  from d have d1: "dlinks h (ps @ [p])" and d2: "nxt h p = i" "prv h i = p" "nxt h i = n" "prv h n = i"
    and d3: "dlinks h (n # ns)"
    by (auto simp: dlinks_append [of h ps p "i # n # ns"])
  let ?h = "set_next i i (set_prev i i (set_prev n p (set_next p n h)))"
  have h: "delListItem h i = ?h"
    using i(2,3) d2 by (auto simp: delListItem_def reset_def Let_def)
  have i': "i \<notin> set (tl (ps @ [p]))"
    using i by (cases ps) auto
  have "dlinks ?h (ps @ [p])"
    using d1 by (intro dlinks_set_next [THEN iffD2] dlinks_set_prev [THEN iffD2]) (simp_all add: i i' p n)
  moreover have "dlinks ?h (n # ns)"
    using d3 by (intro dlinks_set_next [THEN iffD2] dlinks_set_prev [THEN iffD2])
      (simp_all only: i p n list.sel not_False_eq_True)
  moreover have "nxt ?h p = n" "prv ?h n = p"
    using i(2,3) by auto
  ultimately show ?thesis
    unfolding h dlinks_append [of _ ps p "n # ns"] by simp
qed

lemma addPrev_dlinks:
  assumes d: "dlinks h (ps @ p # n # ns)"
    and i: "i \<notin> set ps" "i \<noteq> p" "i \<noteq> n" "i \<notin> set ns"
    and p: "p \<notin> set ps" "p \<notin> set (butlast (n # ns))"
    and n: "n \<notin> set ns" "n \<notin> set (tl (ps @ [p]))"
  shows "dlinks (addPrev h n i) (ps @ p # i # n # ns)"
proof -
  from d have d1: "dlinks h (ps @ [p])" and d2: "nxt h p = n" "prv h n = p"
    and d3: "dlinks h (n # ns)"
    by (auto simp: dlinks_append [of h ps p "n # ns"])
  let ?h = "set_prev n i (set_next p i (set_prev i p (set_next i n h)))"
  have h: "addPrev h n i = ?h"
    using i(2,3) d2 by (auto simp: addPrev_def Let_def)
  have i': "i \<notin> set (tl (ps @ [p]))"
    using i by (cases ps) auto
  have i'': "i \<notin> set (butlast (n # ns))"
    using i by (metis in_set_butlastD set_ConsD)
  have "dlinks ?h (ps @ [p])"
    using d1 by (intro dlinks_set_next [THEN iffD2] dlinks_set_prev [THEN iffD2]) (simp_all add: i i' p n)
  moreover have "dlinks ?h (n # ns)"
    using d3 by (intro dlinks_set_next [THEN iffD2] dlinks_set_prev [THEN iffD2])
      (simp_all only: i i'' p n list.sel not_False_eq_True)
  moreover have "nxt ?h p = i" "prv ?h i = p" "nxt ?h i = n" "prv ?h n = i"
    using i(2,3) by auto
  ultimately show ?thesis
    unfolding h dlinks_append [of _ ps p "i # n # ns"] by simp
qed

text \<open>A position in a queue: the node before it and the node after it, the head standing at both
  ends.\<close>

lemma queue_split:
  obtains ps p n ns where "head # as = ps @ [p]" "bs @ [head] = n # ns"
    "tl (ps @ [p]) = as" "butlast (n # ns) = bs"
    "set (ps @ [p]) = insert head (set as)" "set (n # ns) = insert head (set bs)"
proof -
  obtain ps p where 1: "head # as = ps @ [p]"
    by (metis append_butlast_last_id list.distinct(1))
  obtain n ns where 2: "bs @ [head] = n # ns"
    by (metis list.exhaust snoc_eq_iff_butlast)
  show thesis
  proof (rule that [OF 1 2])
    show "tl (ps @ [p]) = as" using 1 by (metis list.sel(3))
    show "butlast (n # ns) = bs" using 2 by (metis butlast_snoc)
    show "set (ps @ [p]) = insert head (set as)" by (simp flip: 1)
    show "set (n # ns) = insert head (set bs)" by (simp flip: 2)
  qed
qed

lemma delListItem_repr:
  assumes "queue_repr h head (as @ i # bs)"
  shows "queue_repr (delListItem h i) head (as @ bs)" and "isEmpty (delListItem h i) i"
proof -
  obtain ps p n ns where e: "head # as = ps @ [p]" "bs @ [head] = n # ns"
    and tl: "tl (ps @ [p]) = as" "butlast (n # ns) = bs"
    and s: "set (ps @ [p]) = insert head (set as)" "set (n # ns) = insert head (set bs)"
    by (rule queue_split)
  have l: "head # (as @ i # bs) @ [head] = ps @ p # i # n # ns"
    using e by (metis append.assoc append_Cons append_Nil)
  have l': "head # (as @ bs) @ [head] = ps @ p # n # ns"
    using e by (metis append.assoc append_Cons append_Nil)
  have dist: "distinct (head # as @ i # bs)" and d: "dlinks h (ps @ p # i # n # ns)"
    using assms l by (auto simp: queue_repr_def)
  have dp: "distinct (ps @ [p])"
    using dist by (simp flip: e)
  have dn: "distinct (n # ns)"
    using dist by (simp flip: e)
  have "dlinks (delListItem h i) (ps @ p # n # ns)"
  proof (rule delListItem_dlinks [OF d])
    show "i \<notin> set ps" "i \<noteq> p" "i \<noteq> n" "i \<notin> set ns" "i \<notin> set (butlast (n # ns))"
      using dist s tl by auto
    show "p \<notin> set ps" "n \<notin> set ns" using dp dn by auto
    have "p \<in> insert head (set as)" "n \<in> insert head (set bs)"
      unfolding s [symmetric] by simp_all
    then show "p \<notin> set (butlast (n # ns))" "n \<notin> set (tl (ps @ [p]))"
      unfolding tl using dist by auto
  qed
  then show "queue_repr (delListItem h i) head (as @ bs)"
    using dist l' by (auto simp: queue_repr_def)
  show "isEmpty (delListItem h i) i"
    by (simp add: isEmpty_def delListItem_def reset_def Let_def)
qed

lemma addPrev_repr:
  assumes "queue_repr h head (as @ bs)" and "i \<notin> set (head # as @ bs)"
  shows "queue_repr (addPrev h (hd (bs @ [head])) i) head (as @ i # bs)"
proof -
  obtain ps p n ns where e: "head # as = ps @ [p]" "bs @ [head] = n # ns"
    and tl: "tl (ps @ [p]) = as" "butlast (n # ns) = bs"
    and s: "set (ps @ [p]) = insert head (set as)" "set (n # ns) = insert head (set bs)"
    by (rule queue_split)
  have l: "head # (as @ i # bs) @ [head] = ps @ p # i # n # ns"
    using e by (metis append.assoc append_Cons append_Nil)
  have l': "head # (as @ bs) @ [head] = ps @ p # n # ns"
    using e by (metis append.assoc append_Cons append_Nil)
  have dist: "distinct (head # as @ bs)" and d: "dlinks h (ps @ p # n # ns)"
    using assms l' by (auto simp: queue_repr_def)
  have dp: "distinct (ps @ [p])"
    using dist by (simp flip: e)
  have dn: "distinct (n # ns)"
    using dist by (simp flip: e)
  have "dlinks (addPrev h n i) (ps @ p # i # n # ns)"
  proof (rule addPrev_dlinks [OF d])
    show "i \<notin> set ps" "i \<noteq> p" "i \<noteq> n" "i \<notin> set ns"
      using assms(2) s by auto
    show "p \<notin> set ps" "n \<notin> set ns" using dp dn by auto
    have "p \<in> insert head (set as)" "n \<in> insert head (set bs)"
      unfolding s [symmetric] by simp_all
    then show "p \<notin> set (butlast (n # ns))" "n \<notin> set (tl (ps @ [p]))"
      unfolding tl using dist by auto
  qed
  then show ?thesis
    using dist assms(2) unfolding queue_repr_def l by (auto simp: e(2))
qed

subsection \<open>The operations of the queue\<close>

lemma queue_repr_hd: "queue_repr h head xs \<Longrightarrow> nxt h head = hd (xs @ [head])"
  by (cases xs) (auto simp: queue_repr_def)

lemma queue_repr_Cons_ne: "queue_repr h head (x # xs) \<Longrightarrow> nxt h head = x \<and> x \<noteq> head"
  by (auto simp: queue_repr_def)

lemma queue_repr_linked:
  assumes "queue_repr h head xs" "x \<in> set xs"
  shows "\<not> isEmpty h x"
proof -
  obtain as bs where xs: "xs = as @ x # bs"
    using assms(2) by (metis split_list)
  have "dlinks h ((head # as) @ x # bs @ [head])"
    using assms(1) by (simp add: queue_repr_def xs)
  then have "dlinks h (x # bs @ [head])"
    unfolding dlinks_append [of h "head # as" x "bs @ [head]"] by simp
  moreover have "x \<notin> set (bs @ [head])"
    using assms(1) by (auto simp: queue_repr_def xs)
  ultimately show ?thesis
    by (cases bs) (auto simp: isEmpty_def)
qed

lemma reset_repr: "queue_repr (reset h head) head []"
  by (simp add: queue_repr_def reset_def)

lemma queue_repr_prv:
  assumes "queue_repr h head (as @ bs)"
  shows "prv h (hd (bs @ [head])) = last (head # as)"
proof -
  obtain ps p n ns where e: "head # as = ps @ [p]" "bs @ [head] = n # ns"
    by (rule queue_split)
  have "dlinks h (ps @ p # n # ns)"
    using assms e unfolding queue_repr_def
    by (metis append.assoc append_Cons append_Nil)
  then have "prv h n = p"
    unfolding dlinks_append [of h ps p "n # ns"] by simp
  then show ?thesis by (simp only: e) simp
qed

lemma push_scan_repr:
  assumes "queue_repr h head (as @ bs)" "\<forall>y\<in>set bs. 0 < cmp y item"
  shows "push_scan cmp h head item (hd (bs @ [head])) =
    Some (hd (q_back cmp item (as @ bs) @ [head]))"
  using assms
proof (induction as arbitrary: bs rule: rev_induct)
  case Nil
  then have "prv h (hd (bs @ [head])) = head"
    using queue_repr_prv [of h head "[]" bs] by simp
  moreover have "q_back cmp item bs = bs"
    using Nil.prems(2) by (simp add: q_back_def takeWhile_eq_all_conv [THEN iffD2])
  ultimately show ?case
    by (subst push_scan.simps) simp
next
  case (snoc a as)
  have p: "prv h (hd (bs @ [head])) = a" "a \<noteq> head"
    using queue_repr_prv [OF snoc.prems(1)] snoc.prems(1) by (auto simp: queue_repr_def)
  show ?case
  proof (cases "cmp a item \<le> 0")
    case True
    have "q_back cmp item (as @ [a] @ bs) = bs"
      using snoc.prems(2) True by (simp add: q_back_def takeWhile_append2 takeWhile_append)
    then show ?thesis using p True
      by (subst push_scan.simps) simp
  next
    case False
    then show ?thesis using snoc.IH [of "a # bs"] snoc.prems p
      by (subst push_scan.simps) simp
  qed
qed

lemma push_back_repr:
  assumes "queue_repr h (m_head root) xs" "item \<notin> set xs" "item \<noteq> m_head root"
  shows "\<exists>h'. push_back cmp h root item = Some (h', root\<lparr>m_cnt := m_cnt root + 1\<rparr>) \<and>
    queue_repr h' (m_head root) (q_insert cmp item xs)"
proof -
  let ?f = "q_front cmp item xs" and ?b = "q_back cmp item xs"
  have r: "queue_repr h (m_head root) (?f @ ?b)"
    using assms(1) by (simp add: q_front_back)
  have "push_scan cmp h (m_head root) item (m_head root) = Some (hd (?b @ [m_head root]))"
    using push_scan_repr [of h "m_head root" xs "[]" cmp item] assms(1) by simp
  moreover have "item \<notin> set (m_head root # ?f @ ?b)"
    using assms by (simp add: q_front_back del: set_append)
  ultimately show ?thesis
    using addPrev_repr [OF r] by (simp add: push_back_def q_insert_def)
qed

lemma pop_head_Nil:
  "queue_repr h (m_head root) [] \<Longrightarrow> pop_head h root = (None, h, root)"
  by (simp add: pop_head_def queue_repr_def)

lemma pop_head_Cons:
  assumes "queue_repr h (m_head root) (x # xs)"
  shows "pop_head h root = (Some x, delListItem h x, root\<lparr>m_cnt := m_cnt root - 1\<rparr>)"
    and "queue_repr (delListItem h x) (m_head root) xs"
  using queue_repr_Cons_ne [OF assms] delListItem_repr [of h "m_head root" "[]" x xs] assms
  by (auto simp: pop_head_def)

lemma get_head_repr:
  "queue_repr h (m_head root) xs \<Longrightarrow> get_head h root = (case xs of [] \<Rightarrow> None | x # _ \<Rightarrow> Some x)"
  by (cases xs) (auto simp: get_head_def queue_repr_def)

lemma del_item_repr:
  assumes "queue_repr h (m_head root) xs" "x \<in> set xs"
  shows "del_item h root x = (0, delListItem h x, root\<lparr>m_cnt := m_cnt root - 1\<rparr>)"
    and "queue_repr (delListItem h x) (m_head root) (remove1 x xs)"
    and "isEmpty (delListItem h x) x"
proof -
  show "del_item h root x = (0, delListItem h x, root\<lparr>m_cnt := m_cnt root - 1\<rparr>)"
    using queue_repr_linked [OF assms] by (simp add: del_item_def isEmpty_def)
  obtain as bs where xs: "xs = as @ x # bs" "x \<notin> set as"
    using assms(2) by (metis split_list_first)
  then have "remove1 x xs = as @ bs"
    by (simp add: remove1_append)
  then show "queue_repr (delListItem h x) (m_head root) (remove1 x xs)"
    "isEmpty (delListItem h x) x"
    using delListItem_repr [of h "m_head root" as x bs] assms(1) xs by simp_all
qed

lemma reque_list_repr:
  assumes "queue_repr h (m_head root) xs" "x \<in> set xs"
  shows "\<exists>h'. reque_list cmp h root x = Some (h', root) \<and>
    queue_repr h' (m_head root) (q_insert cmp x (remove1 x xs))"
proof -
  have "x \<noteq> m_head root" "x \<notin> set (remove1 x xs)"
    using assms by (auto simp: queue_repr_def)
  then show ?thesis
    using del_item_repr [OF assms] queue_repr_linked [OF assms]
      push_back_repr [of "delListItem h x" "root\<lparr>m_cnt := m_cnt root - 1\<rparr>" "remove1 x xs" x cmp]
    by (simp add: reque_list_def isEmpty_def)
qed

lemma reque_list_unlinked: "isEmpty h x \<Longrightarrow> reque_list cmp h root x = Some (h, root)"
  by (simp add: reque_list_def isEmpty_def)

lemma free_loop_repr:
  assumes "queue_repr h head xs"
  shows "\<exists>h'. free_loop h head ys = Some (h', ys @ xs) \<and> queue_repr h' head []"
  using assms
proof (induction xs arbitrary: h ys)
  case Nil
  then show ?case
    by (subst free_loop.simps) (simp add: queue_repr_def)
next
  case (Cons x xs)
  have "queue_repr (delListItem h x) head xs"
    using delListItem_repr [of h head "[]" x xs] Cons.prems by simp
  from Cons.IH [OF this, of "ys @ [x]"] show ?case
    using queue_repr_Cons_ne [OF Cons.prems] by (subst free_loop.simps) simp
qed

lemma freeListQue_repr:
  assumes "queue_repr h (m_head root) xs"
  shows "\<exists>h'. freeListQue h root = Some (xs, h', root\<lparr>m_cnt := 0\<rparr>) \<and> queue_repr h' (m_head root) []"
  using free_loop_repr [OF assms, of "[]"] by (auto simp: freeListQue_def)

subsection \<open>The contract\<close>

text \<open>\<open>walk\<close> reads the queued nodes off the heap, by following \<open>next\<close> from the head.\<close>

partial_function (option) walk :: "'n heap \<Rightarrow> 'n \<Rightarrow> 'n \<Rightarrow> 'n list option" where
  "walk h head cur = (if cur = head then Some []
     else Option.bind (walk h head (nxt h cur)) (\<lambda>xs. Some (cur # xs)))"

lemma walk_repr: "dlinks h (xs @ [head]) \<Longrightarrow> head \<notin> set xs \<Longrightarrow> walk h head (hd (xs @ [head])) = Some xs"
proof (induction xs)
  case Nil
  then show ?case by (simp add: walk.simps)
next
  case (Cons x xs)
  have "nxt h x = hd (xs @ [head])" "dlinks h (xs @ [head])"
    using Cons.prems(1) by (cases xs; simp)+
  then show ?case
    using Cons by (subst walk.simps) auto
qed

type_synonym ('n, 'f) qheap = "'n heap \<times> ('n, 'f) list_queue"

definition queued :: "('n, 'f) qheap \<Rightarrow> 'n list" where
  "queued q = (case q of (h, root) \<Rightarrow>
     case walk h (m_head root) (nxt h (m_head root)) of None \<Rightarrow> [] | Some xs \<Rightarrow> xs)"

definition q_inv :: "('n, 'f) qheap \<Rightarrow> bool" where
  "q_inv q \<longleftrightarrow> queue_repr (fst q) (m_head (snd q)) (queued q) \<and> m_cnt (snd q) = int (length (queued q))"

definition q_fresh :: "('n, 'f) qheap \<Rightarrow> 'n \<Rightarrow> bool" where
  "q_fresh q x \<longleftrightarrow> x \<notin> set (queued q) \<and> x \<noteq> m_head (snd q)"

lemma queued_repr:
  assumes "queue_repr h (m_head root) xs"
  shows "queued (h, root) = xs"
proof -
  have "dlinks h (xs @ [m_head root])" "m_head root \<notin> set xs"
    using assms by (cases xs; auto simp: queue_repr_def)+
  then show ?thesis
    using walk_repr [of h xs] queue_repr_hd [OF assms] by (simp add: queued_def)
qed

lemma q_invI:
  "queue_repr h (m_head root) xs \<Longrightarrow> m_cnt root = int (length xs) \<Longrightarrow> q_inv (h, root)"
  by (simp add: q_inv_def queued_repr)

lemma q_invD: "q_inv (h, root) \<Longrightarrow> queue_repr h (m_head root) (queued (h, root))"
  by (simp add: q_inv_def)

lemma pop_head_queued:
  assumes "q_inv q" "queued q = x # xs"
  shows "\<exists>q'. pop_head (fst q) (snd q) = (Some x, q') \<and> q_inv q' \<and> queued q' = xs \<and> q_fresh q' x"
proof -
  obtain h root where q: "q = (h, root)" by (cases q)
  have r: "queue_repr h (m_head root) (x # xs)" and c: "m_cnt root = 1 + int (length xs)"
    using assms by (simp_all add: q q_inv_def)
  let ?root = "root\<lparr>m_cnt := m_cnt root - 1\<rparr>"
  have r': "queue_repr (delListItem h x) (m_head ?root) xs"
    using pop_head_Cons(2) [OF r] by simp
  have "q_fresh (delListItem h x, ?root) x"
    using queued_repr [OF r'] r by (auto simp: q_fresh_def queue_repr_def)
  then show ?thesis
    using pop_head_Cons(1) [OF r] queued_repr [OF r'] q_invI [OF r'] c by (simp add: q)
qed

lemma del_item_queued:
  assumes "q_inv q" "x \<in> set (queued q)"
  shows "\<exists>q'. del_item (fst q) (snd q) x = (0, q') \<and> q_inv q' \<and>
    queued q' = remove1 x (queued q) \<and> q_fresh q' x"
proof -
  obtain h root where q: "q = (h, root)" by (cases q)
  let ?xs = "queued (h, root)"
  have r: "queue_repr h (m_head root) ?xs" and c: "m_cnt root = int (length ?xs)"
    using assms by (simp_all add: q q_inv_def)
  let ?root = "root\<lparr>m_cnt := m_cnt root - 1\<rparr>"
  have r': "queue_repr (delListItem h x) (m_head ?root) (remove1 x ?xs)"
    using del_item_repr(2) [OF r] assms(2) q by simp
  have "q_fresh (delListItem h x, ?root) x"
    using queued_repr [OF r'] r assms(2) by (auto simp: q_fresh_def queue_repr_def q)
  moreover have "length ?xs = Suc (length (remove1 x ?xs))"
    using assms(2) q by (metis One_nat_def Suc_pred length_pos_if_in_set length_remove1)
  ultimately show ?thesis
    using del_item_repr(1) [OF r] assms(2) queued_repr [OF r'] q_invI [OF r'] c by (simp add: q)
qed

lemma push_back_queued:
  assumes "q_inv q" "q_fresh q x"
  shows "\<exists>q'. push_back cmp (fst q) (snd q) x = Some q' \<and> q_inv q' \<and>
    queued q' = q_insert cmp x (queued q)"
proof -
  obtain h root where q: "q = (h, root)" by (cases q)
  let ?root = "root\<lparr>m_cnt := m_cnt root + 1\<rparr>"
  obtain h' where h': "push_back cmp h root x = Some (h', ?root)"
    "queue_repr h' (m_head ?root) (q_insert cmp x (queued q))"
    using push_back_repr [of h root "queued q" x cmp] assms by (auto simp: q q_inv_def q_fresh_def)
  then show ?thesis
    using queued_repr [OF h'(2)] q_invI [OF h'(2)] assms(1) by (simp add: q q_inv_def)
qed

interpretation pq: ordered_queue queued q_inv q_fresh
  "\<lambda>cmp q x. push_back cmp (fst q) (snd q) x" "\<lambda>q. pop_head (fst q) (snd q)"
  "\<lambda>q x. del_item (fst q) (snd q) x"
proof
  show "q_inv q \<Longrightarrow> distinct (queued q)" for q :: "('a, 'b) qheap"
    by (simp add: q_inv_def queue_repr_def)
  show "q_inv q \<Longrightarrow> q_fresh q x \<Longrightarrow> x \<notin> set (queued q)" for q :: "('a, 'b) qheap" and x
    by (simp add: q_fresh_def)
  show "q_inv q \<Longrightarrow> queued q = [] \<Longrightarrow> pop_head (fst q) (snd q) = (None, q)" for q :: "('a, 'b) qheap"
    by (cases q) (simp add: q_inv_def pop_head_Nil)
qed (rule push_back_queued pop_head_queued del_item_queued; assumption)+

end
