(* ===== verification/ListQueue.thy ===== *)
theory ListQueue imports LList "HOL-Library.Sublist" begin

text \<open>
  The ordered queue of \<^verbatim>\<open>llist.c\<close> over the HOL list of its items, as the daemon components use it
  with task objects.  Each operation is related to the pointer operation of the same C function by
  a simulation (\<open>sim_*\<close>), so the facts the daemons use hold of the linked nodes too.
\<close>

subsection \<open>The operations\<close>

record 'a lqueue =
  lq_cnt :: int
  lq_items :: "'a list"

definition lq_init :: "'a lqueue" where
  "lq_init = \<lparr>lq_cnt = 0, lq_items = []\<rparr>"

definition lq_push :: "('a \<Rightarrow> 'a \<Rightarrow> int) \<Rightarrow> 'a lqueue \<Rightarrow> 'a \<Rightarrow> 'a lqueue" where
  "lq_push cmp q x = \<lparr>lq_cnt = lq_cnt q + 1, lq_items = q_insert cmp x (lq_items q)\<rparr>"

definition lq_pop :: "'a lqueue \<Rightarrow> 'a option \<times> 'a lqueue" where
  "lq_pop q = (case lq_items q of [] \<Rightarrow> (None, q)
     | x # xs \<Rightarrow> (Some x, \<lparr>lq_cnt = lq_cnt q - 1, lq_items = xs\<rparr>))"

definition lq_head :: "'a lqueue \<Rightarrow> 'a option" where
  "lq_head q = (case lq_items q of [] \<Rightarrow> None | x # xs \<Rightarrow> Some x)"

definition lq_del :: "'a lqueue \<Rightarrow> 'a \<Rightarrow> int \<times> 'a lqueue" where
  "lq_del q x = (if x \<in> set (lq_items q)
     then (0, \<lparr>lq_cnt = lq_cnt q - 1, lq_items = remove1 x (lq_items q)\<rparr>) else (- 1, q))"

definition lq_reque :: "('a \<Rightarrow> 'a \<Rightarrow> int) \<Rightarrow> 'a lqueue \<Rightarrow> 'a \<Rightarrow> 'a lqueue" where
  "lq_reque cmp q x = (if x \<in> set (lq_items q) then lq_push cmp (snd (lq_del q x)) x else q)"

fun each :: "('a \<Rightarrow> 's \<Rightarrow> int \<times> 's) \<Rightarrow> 'a list \<Rightarrow> 's \<Rightarrow> int \<times> 's" where
  "each work [] s = (0, s)"
| "each work (x # xs) s =
     (case work x s of (ret, s1) \<Rightarrow> if ret \<noteq> 0 then (ret, s1) else each work xs s1)"

lemma lq_items_simps [simp]:
  "lq_items lq_init = []"
  "lq_items (lq_push cmp q x) = q_insert cmp x (lq_items q)"
  "lq_items (snd (lq_del q x)) = remove1 x (lq_items q)"
  by (auto simp: lq_init_def lq_push_def lq_del_def remove1_idem)

lemma set_lq_reque [simp]:
  "distinct (lq_items q) \<Longrightarrow> set (lq_items (lq_reque cmp q x)) = set (lq_items q)"
  by (auto simp: lq_reque_def)

lemma distinct_lq_reque [simp]:
  "distinct (lq_items q) \<Longrightarrow> distinct (lq_items (lq_reque cmp q x))"
  by (auto simp: lq_reque_def)

subsection \<open>The contract\<close>

definition lq_inv :: "'a lqueue \<Rightarrow> bool" where
  "lq_inv q \<longleftrightarrow> distinct (lq_items q) \<and> lq_cnt q = int (length (lq_items q))"

lemma lq_inv_init [simp]: "lq_inv lq_init"
  by (simp add: lq_inv_def lq_init_def)

lemma lq_inv_push: "lq_inv q \<Longrightarrow> x \<notin> set (lq_items q) \<Longrightarrow> lq_inv (lq_push cmp q x)"
  by (simp add: lq_inv_def lq_push_def)

lemma lq_inv_del: "lq_inv q \<Longrightarrow> lq_inv (snd (lq_del q x))"
  using length_pos_if_in_set [of x "lq_items q"]
  by (auto simp: lq_inv_def lq_del_def length_remove1 of_nat_diff Suc_le_eq)

lemma lq_inv_reque: "lq_inv q \<Longrightarrow> lq_inv (lq_reque cmp q x)"
  using lq_inv_del [of q x] lq_inv_push [of "snd (lq_del q x)" x cmp]
  by (auto simp: lq_reque_def lq_inv_def)

interpretation lq: ordered_queue lq_items lq_inv "\<lambda>q x. x \<notin> set (lq_items q)"
  "\<lambda>cmp q x. Some (lq_push cmp q x)" lq_pop lq_del
proof
  show "lq_inv q \<Longrightarrow> lq_items q = x # xs \<Longrightarrow> \<exists>q'. lq_pop q = (Some x, q') \<and> lq_inv q' \<and>
      lq_items q' = xs \<and> x \<notin> set (lq_items q')" for q :: "'a lqueue" and x xs
    by (auto simp: lq_inv_def lq_pop_def)
  show "lq_inv q \<Longrightarrow> x \<in> set (lq_items q) \<Longrightarrow> \<exists>q'. lq_del q x = (0, q') \<and> lq_inv q' \<and>
      lq_items q' = remove1 x (lq_items q) \<and> x \<notin> set (lq_items q')" for q :: "'a lqueue" and x
    using lq_inv_del [of q x] by (auto simp: lq_inv_def lq_del_def)
qed (auto simp: lq_inv_def lq_pop_def lq_push_def)

lemma lq_reque_ordered:
  assumes "comparator cmp' A" "lq_inv q" "set (lq_items q) \<subseteq> A" "ordered cmp (lq_items q)"
    and "x \<in> set (lq_items q)"
    and "\<And>y z. y \<in> A - {x} \<Longrightarrow> z \<in> A - {x} \<Longrightarrow> cmp' y z = cmp y z"
  shows "ordered cmp' (lq_items (lq_reque cmp' q x))"
  using lq.requeue_ordered [OF assms(1,2,5,3,4,6)] assms(5)
  by (simp add: lq.requeue_def lq_reque_def)

subsection \<open>The pointers simulate the list\<close>

definition abs_queue :: "('n, 'f) qheap \<Rightarrow> 'n lqueue" where
  "abs_queue q = \<lparr>lq_cnt = m_cnt (snd q), lq_items = queued q\<rparr>"

lemma lq_inv_abs: "q_inv q \<Longrightarrow> lq_inv (abs_queue q)"
  by (auto simp: lq_inv_def abs_queue_def q_inv_def queue_repr_def)

lemma q_inv_cnt: "q_inv q \<Longrightarrow> m_cnt (snd q) = int (length (queued q))"
  by (simp add: q_inv_def)

lemma sim_push_back:
  assumes "q_inv q" "q_fresh q x"
  shows "\<exists>q'. push_back cmp (fst q) (snd q) x = Some q' \<and> q_inv q' \<and>
    abs_queue q' = lq_push cmp (abs_queue q) x"
  using push_back_queued [OF assms, of cmp] q_inv_cnt [OF assms(1)] q_inv_cnt
  by (fastforce simp: abs_queue_def lq_push_def)

lemma sim_pop_head:
  assumes "q_inv q"
  shows "\<exists>r q'. pop_head (fst q) (snd q) = (r, q') \<and> q_inv q' \<and> lq_pop (abs_queue q) = (r, abs_queue q')"
proof (cases "queued q")
  case Nil
  then show ?thesis
    using pq.deq_Nil [OF assms Nil] assms
    by (intro exI [of _ None] exI [of _ q]) (simp add: lq_pop_def abs_queue_def)
next
  case (Cons x xs)
  then show ?thesis
    using pop_head_queued [OF assms Cons] q_inv_cnt [OF assms] q_inv_cnt
    by (fastforce simp: lq_pop_def abs_queue_def)
qed

lemma sim_del_item:
  assumes "q_inv q" "x \<in> set (queued q) \<or> isEmpty (fst q) x"
  shows "\<exists>r q'. del_item (fst q) (snd q) x = (r, q') \<and> q_inv q' \<and> lq_del (abs_queue q) x = (r, abs_queue q')"
proof (cases "x \<in> set (queued q)")
  case True
  then have "length (queued q) = Suc (length (remove1 x (queued q)))"
    by (metis One_nat_def Suc_pred length_pos_if_in_set length_remove1)
  then show ?thesis
    using del_item_queued [OF assms(1) True] q_inv_cnt [OF assms(1)] q_inv_cnt True
    by (fastforce simp: lq_del_def abs_queue_def)
next
  case False
  then show ?thesis
    using assms by (auto simp: del_item_def isEmpty_def lq_del_def abs_queue_def)
qed

lemma sim_reque_list:
  assumes "q_inv q" "x \<in> set (queued q)"
  shows "\<exists>q'. reque_list cmp (fst q) (snd q) x = Some q' \<and> q_inv q' \<and>
    abs_queue q' = lq_reque cmp (abs_queue q) x"
proof -
  obtain h root where q: "q = (h, root)" by (cases q)
  have r: "queue_repr h (m_head root) (queued q)"
    using assms(1) by (simp add: q q_inv_def)
  have d: "distinct (queued q)" using assms(1) by (rule pq.inv_distinct)
  obtain h' where h': "reque_list cmp h root x = Some (h', root)"
    "queue_repr h' (m_head root) (q_insert cmp x (remove1 x (queued q)))"
    using reque_list_repr [OF r assms(2), of cmp] by blast
  have c: "m_cnt root = int (Suc (length (remove1 x (queued q))))"
    using assms q_inv_cnt [OF assms(1)]
    by (metis One_nat_def Suc_pred length_pos_if_in_set length_remove1 q snd_conv)
  show ?thesis
    using h' queued_repr [OF h'(2)] q_invI [OF h'(2)] c assms(2)
    by (auto simp: q lq_reque_def lq_push_def lq_del_def abs_queue_def)
qed

text \<open>The iteration visits the items that were queued when it began.  \<open>I rest s\<close> is what the callbacks
  maintain when \<open>rest\<close> is still to be visited; a callback keeps the successors of those nodes.\<close>

fun nlinks :: "'n heap \<Rightarrow> 'n list \<Rightarrow> bool" where
  "nlinks h (a # b # cs) \<longleftrightarrow> nxt h a = b \<and> nlinks h (b # cs)"
| "nlinks h _ \<longleftrightarrow> True"

lemma dlinks_nlinks: "dlinks h xs \<Longrightarrow> nlinks h xs"
  by (induction h xs rule: dlinks.induct) auto

lemma nlinks_frame: "\<forall>y\<in>set xs. nxt h' y = nxt h y \<Longrightarrow> nlinks h (xs @ [e]) \<Longrightarrow> nlinks h' (xs @ [e])"
proof (induction xs)
  case (Cons x xs)
  then show ?case by (cases xs) simp_all
qed simp

lemma each_loop_repr:
  assumes "\<And>x rest s. I (x # rest) s \<Longrightarrow> I rest (snd (work x s))"
    and "\<And>x rest s y. I (x # rest) s \<Longrightarrow> y \<in> set rest \<Longrightarrow> nxt (hp (snd (work x s))) y = nxt (hp s) y"
  shows "I xs s \<Longrightarrow> nlinks (hp s) (xs @ [head]) \<Longrightarrow> head \<notin> set xs \<Longrightarrow>
    each_loop hp work head (hd (xs @ [head])) 0 s = Some (each work xs s)"
proof (induction xs arbitrary: s)
  case Nil
  then show ?case by (simp add: each_loop.simps)
next
  case (Cons x xs)
  obtain ret s1 where w: "work x s = (ret, s1)" by (cases "work x s")
  have n: "nxt (hp s) x = hd (xs @ [head])" "nlinks (hp s) (xs @ [head])"
    using Cons.prems(2) by (cases xs; simp)+
  have "I xs s1" "\<forall>y\<in>set xs. nxt (hp s1) y = nxt (hp s) y"
    using assms(1) [OF Cons.prems(1)] assms(2) [OF Cons.prems(1)] w by simp_all
  then have "each_loop hp work head (hd (xs @ [head])) 0 s1 = Some (each work xs s1)"
    using Cons.IH [of s1] nlinks_frame [OF _ n(2)] Cons.prems(3) by simp
  then show ?case
    using Cons.prems(3) n(1) w by (subst each_loop.simps) auto
qed

subsection \<open>Properties of the queue\<close>

text \<open>C26: \<open>push_back\<close> returns, leaves a well-formed circular list whose counter is its length, and puts
  the new node behind exactly the nodes that are not greater: the queue stays ordered and nodes
  with equal keys keep their order of arrival.\<close>

theorem push_back_sorted:
  assumes "q_inv q" "q_fresh q x" "comparator cmp A" "insert x (set (queued q)) \<subseteq> A"
    and "ordered cmp (queued q)"
  shows "\<exists>q'. push_back cmp (fst q) (snd q) x = Some q' \<and> q_inv q' \<and> ordered cmp (queued q') \<and>
    m_cnt (snd q') = m_cnt (snd q) + 1 \<and>
    queued q' = filter (\<lambda>y. cmp y x \<le> 0) (queued q) @ x # filter (\<lambda>y. 0 < cmp y x) (queued q)"
proof -
  obtain q' where q': "push_back cmp (fst q) (snd q) x = Some q'" "q_inv q'"
    "queued q' = q_insert cmp x (queued q)"
    using pq.enq_law [OF assms(1,2)] by blast
  moreover have "ordered cmp (queued q')"
    using pq.enq_ordered [OF assms(3,1,2) _ _ assms(5)] assms(4) q'(1) by auto
  moreover have "m_cnt (snd q') = m_cnt (snd q) + 1"
    using q_inv_cnt [OF assms(1)] q_inv_cnt [OF q'(2)] q'(3) by simp
  ultimately show ?thesis
    using comparator.q_insert_stable [OF assms(3) _ _ assms(5)] assms(4) by auto
qed

text \<open>A queue of two nodes, 3 and 5, with head 0; nodes are compared by their last decimal digit.\<close>

definition demo_cmp :: "nat \<Rightarrow> nat \<Rightarrow> int" where
  "demo_cmp x y = int (x mod 10) - int (y mod 10)"

definition demo_queue :: "(nat, unit) qheap" where
  "demo_queue =
     (\<lparr>prv = (\<lambda>n. if n = 0 then 5 else if n = 5 then 3 else if n = 3 then 0 else n),
       nxt = (\<lambda>n. if n = 0 then 3 else if n = 3 then 5 else if n = 5 then 0 else n)\<rparr>,
      \<lparr>m_cnt = 2, m_cmp = Some (), m_head = 0\<rparr>)"

lemma demo_queue_repr: "queue_repr (fst demo_queue) (m_head (snd demo_queue)) [3, 5]"
  by (simp add: queue_repr_def demo_queue_def)

lemma queued_demo [simp]: "queued demo_queue = [3, 5]"
  using queued_repr [OF demo_queue_repr] by simp

lemma q_inv_demo [simp]: "q_inv demo_queue"
  using demo_queue_repr by (simp add: q_inv_def) (simp add: demo_queue_def)

lemma q_fresh_demo [simp]: "n \<notin> {0, 3, 5} \<Longrightarrow> q_fresh demo_queue n"
  by (simp add: q_fresh_def) (simp add: demo_queue_def)

lemma comparator_demo: "comparator demo_cmp UNIV"
  by unfold_locales (auto simp: demo_cmp_def)

lemma push_back_sorted_witness:
  "\<exists>q'. push_back demo_cmp (fst demo_queue) (snd demo_queue) 13 = Some q' \<and> q_inv q' \<and>
     ordered demo_cmp (queued q') \<and> m_cnt (snd q') = m_cnt (snd demo_queue) + 1 \<and> queued q' = [3, 13, 5]"
  using push_back_sorted [OF q_inv_demo q_fresh_demo comparator_demo, of 13]
  by (simp add: demo_cmp_def)

text \<open>C28: \<open>reque_list\<close> returns and restores the order after the key of one queued node has changed:
  the same nodes are queued and the counter is as before.\<close>

theorem reque_list_sorted:
  assumes "q_inv q" "x \<in> set (queued q)" "set (queued q) \<subseteq> A" "comparator cmp' A"
    and "ordered cmp (queued q)"
    and "\<And>y z. y \<in> A - {x} \<Longrightarrow> z \<in> A - {x} \<Longrightarrow> cmp' y z = cmp y z"
  shows "\<exists>q'. reque_list cmp' (fst q) (snd q) x = Some q' \<and> q_inv q' \<and> ordered cmp' (queued q') \<and>
    set (queued q') = set (queued q) \<and> m_cnt (snd q') = m_cnt (snd q)"
proof -
  obtain q' where q': "reque_list cmp' (fst q) (snd q) x = Some q'" "q_inv q'"
    "abs_queue q' = lq_reque cmp' (abs_queue q) x"
    using sim_reque_list [OF assms(1,2)] by blast
  have i: "queued q' = lq_items (lq_reque cmp' (abs_queue q) x)"
    using arg_cong [OF q'(3), of lq_items] by (simp add: abs_queue_def)
  have "ordered cmp' (queued q')"
    unfolding i using lq_reque_ordered [OF assms(4) lq_inv_abs [OF assms(1)] _ _ _ assms(6)] assms
    by (simp add: abs_queue_def)
  moreover have s: "set (queued q') = set (queued q)" "distinct (queued q)" "distinct (queued q')"
    unfolding i using pq.inv_distinct [OF assms(1)] by (simp_all add: abs_queue_def)
  moreover have "length (queued q') = length (queued q)"
    using s by (metis distinct_card)
  ultimately show ?thesis
    using q' q_inv_cnt [OF assms(1)] q_inv_cnt [OF q'(2)] by auto
qed

lemma reque_list_sorted_witness:
  "\<exists>q'. reque_list (\<lambda>x y. demo_cmp (if x = 3 then 9 else x) (if y = 3 then 9 else y))
          (fst demo_queue) (snd demo_queue) 3 = Some q' \<and> q_inv q' \<and>
     ordered (\<lambda>x y. demo_cmp (if x = 3 then 9 else x) (if y = 3 then 9 else y)) (queued q') \<and>
     set (queued q') = {3, 5} \<and> m_cnt (snd q') = m_cnt (snd demo_queue)"
  using reque_list_sorted [of demo_queue 3 "{3, 5}"
      "\<lambda>x y. demo_cmp (if x = 3 then 9 else x) (if y = 3 then 9 else y)" demo_cmp]
  by (auto simp: comparator_def demo_cmp_def)

text \<open>C30: \<open>freeListQue\<close> terminates, hands every queued node exactly once and in order to the free
  function, and leaves an empty queue.\<close>

theorem freeListQue_once:
  assumes "q_inv q"
  shows "\<exists>freed h' root'. freeListQue (fst q) (snd q) = Some (freed, h', root') \<and>
    freed = queued q \<and> distinct freed \<and> q_inv (h', root') \<and> queued (h', root') = [] \<and> m_cnt root' = 0"
proof -
  obtain h root where q: "q = (h, root)" by (cases q)
  have "queue_repr h (m_head root) (queued q)"
    using assms by (simp add: q q_inv_def)
  from freeListQue_repr [OF this] obtain h' where
    h': "freeListQue h root = Some (queued q, h', root\<lparr>m_cnt := 0\<rparr>)"
    "queue_repr h' (m_head (root\<lparr>m_cnt := 0\<rparr>)) []" by auto
  then show ?thesis
    using q_invI [OF h'(2)] queued_repr [OF h'(2)] pq.inv_distinct [OF assms] by (simp add: q)
qed

lemma freeListQue_once_witness:
  "\<exists>h' root'. freeListQue (fst demo_queue) (snd demo_queue) = Some ([3, 5], h', root') \<and>
     queued (h', root') = []"
  using freeListQue_once [OF q_inv_demo] by auto

text \<open>C29: the iteration \<open>for_each\<close> terminates and visits the nodes queued when it began, in order, up
  to the first whose callback does not return 0, even when the callback unlinks or relinks the node it
  is given and changes nothing of the nodes still to come.\<close>

theorem for_each_visits:
  assumes "q_inv (hp s, root)" "I (queued (hp s, root)) s"
    and "\<And>x rest s. I (x # rest) s \<Longrightarrow> I rest (snd (work x s))"
    and "\<And>x rest s y. I (x # rest) s \<Longrightarrow> y \<in> set rest \<Longrightarrow> nxt (hp (snd (work x s))) y = nxt (hp s) y"
  shows "for_each hp root work s = Some (each work (queued (hp s, root)) s)"
proof -
  let ?xs = "queued (hp s, root)"
  have r: "queue_repr (hp s) (m_head root) ?xs"
    using assms(1) by (simp add: q_inv_def)
  then have "nlinks (hp s) (?xs @ [m_head root])" "m_head root \<notin> set ?xs"
    by (cases ?xs; auto simp: queue_repr_def intro!: dlinks_nlinks)+
  from each_loop_repr [where I = I, OF assms(3,4,2) this] show ?thesis
    using queue_repr_hd [OF r] by (simp add: for_each_def)
qed

text \<open>A callback that unlinks every node it is given and notes it.\<close>

definition demo_work :: "nat \<Rightarrow> nat heap \<times> nat list \<Rightarrow> int \<times> nat heap \<times> nat list" where
  "demo_work x s = (0, delListItem (fst s) x, snd s @ [x])"

lemma for_each_visits_witness:
  "for_each fst (snd demo_queue) demo_work (fst demo_queue, []) =
     Some (each demo_work [3, 5] (fst demo_queue, []))"
proof -
  let ?I = "\<lambda>rest s. queue_repr (fst s) 0 rest"
  have step: "queue_repr (delListItem h x) 0 rest" if "queue_repr h 0 (x # rest)" for h x rest
    using delListItem_repr(1) [of h 0 "[]" x rest] that by simp
  have frame: "nxt (delListItem h x) y = nxt h y" if "queue_repr h 0 (x # rest)" "y \<in> set rest" for h x rest y
  proof -
    have "prv h x = 0" "y \<noteq> x" "y \<noteq> 0" using that by (auto simp: queue_repr_def)
    then show ?thesis by (auto simp: delListItem_def reset_def Let_def)
  qed
  have "for_each fst (snd demo_queue) demo_work (fst demo_queue, []) =
      Some (each demo_work (queued (fst (fst demo_queue, [] :: nat list), snd demo_queue)) (fst demo_queue, []))"
  proof (rule for_each_visits [where I = ?I])
    have "m_head (snd demo_queue) = 0" by (simp add: demo_queue_def)
    then show "?I (queued (fst (fst demo_queue, [] :: nat list), snd demo_queue)) (fst demo_queue, [])"
      using demo_queue_repr by simp
  qed (simp_all add: demo_work_def step frame)
  then show ?thesis by simp
qed

end
