(* ===== verification/ListSet.thy ===== *)
theory ListSet imports QueueSpec begin

text \<open>
  The ordered array \<open>struct ListSet\<close> of \<^verbatim>\<open>llist.c\<close>: a block of \<open>m_capacity\<close> pointers of which the first
  \<open>m_size\<close> are used.  The loops run on indexes as in the code.  The second half proves them against
  the sorted list of the items; the contract is the locale \<open>keyed_set\<close>, which the arrays implement
  here and the lists that the task components use implement at the end.
\<close>

subsection \<open>The array\<close>

definition DEF_LIST_ARRAY_SIZE :: nat where "DEF_LIST_ARRAY_SIZE = 100"

record 'a list_set =
  m_capacity :: nat
  m_size :: nat
  m_data :: "'a option list"

text \<open>The comparison is an argument of the operations that call it, as for the queue.  \<open>alloc\<close> is
  whether \<open>calloc\<close> returns a block.\<close>

definition initListSet :: "bool \<Rightarrow> int \<times> 'a list_set" where
  "initListSet alloc =
     (if alloc then (0, \<lparr>m_capacity = DEF_LIST_ARRAY_SIZE, m_size = 0,
                         m_data = replicate DEF_LIST_ARRAY_SIZE None\<rparr>)
      else (- 1, \<lparr>m_capacity = 0, m_size = 0, m_data = []\<rparr>))"

text \<open>\<open>freeListSet\<close> returns the objects it hands to \<open>pf\<close> or \<open>free\<close>.\<close>

definition freeListSet :: "'a list_set \<Rightarrow> 'a list \<times> 'a list_set" where
  "freeListSet arr =
     (List.map_filter id (take (m_size arr) (m_data arr)), \<lparr>m_capacity = 0, m_size = 0, m_data = []\<rparr>)"

text \<open>\<open>binarySearch\<close> looks in \<open>[low, high)\<close>.\<close>

function binarySearch :: "('a \<Rightarrow> 'k \<Rightarrow> int) \<Rightarrow> 'a option list \<Rightarrow> nat \<Rightarrow> nat \<Rightarrow> 'k \<Rightarrow> 'a option" where
  "binarySearch cmp arr low high key =
     (if low < high
      then let mid = (low + high) div 2; ret = cmp (the (arr ! mid)) key
           in if ret < 0 then binarySearch cmp arr (mid + 1) high key
              else if 0 < ret then binarySearch cmp arr low mid key
              else arr ! mid
      else None)"
  by pat_completeness auto
termination by (relation "measure (\<lambda>(cmp, arr, low, high, key). high - low)") auto

declare binarySearch.simps [simp del]

definition searchListSet :: "('a \<Rightarrow> 'k \<Rightarrow> int) \<Rightarrow> 'a list_set \<Rightarrow> 'k \<Rightarrow> 'a option" where
  "searchListSet cmp s key =
     (if 0 < m_size s then binarySearch cmp (m_data s) 0 (m_size s) key else None)"

text \<open>\<open>grown\<close> is what \<open>realloc\<close> does: \<open>None\<close> when it fails, otherwise the contents of the new cells.\<close>

definition growArray :: "(nat \<Rightarrow> 'a option) option \<Rightarrow> 'a list_set \<Rightarrow> int \<times> 'a list_set" where
  "growArray grown s =
     (if m_size s = m_capacity s
      then let cnt = m_capacity s + DEF_LIST_ARRAY_SIZE
           in case grown of
                None \<Rightarrow> (- 1, s)
              | Some f \<Rightarrow> (0, s\<lparr>m_data := m_data s @ map f [m_capacity s..<cnt], m_capacity := cnt\<rparr>)
      else (0, s))"

text \<open>The loop of \<open>addToSet\<close> with its index one higher than the \<open>n\<close> of the code.\<close>

fun add_shift :: "('a \<Rightarrow> 'a \<Rightarrow> int) \<Rightarrow> 'a \<Rightarrow> 'a option list \<Rightarrow> nat \<Rightarrow> 'a option list" where
  "add_shift cmp item data 0 = data[0 := Some item]"
| "add_shift cmp item data (Suc n) =
     (if 0 < cmp (the (data ! n)) item
      then add_shift cmp item (data[Suc n := data ! n]) n
      else data[Suc n := Some item])"

definition addToSet ::
  "('a \<Rightarrow> 'a \<Rightarrow> int) \<Rightarrow> (nat \<Rightarrow> 'a option) option \<Rightarrow> 'a list_set \<Rightarrow> 'a \<Rightarrow> int \<times> 'a list_set" where
  "addToSet cmp grown s item =
     (case growArray grown s of (ret, s1) \<Rightarrow>
        if ret \<noteq> 0 then (ret, s1)
        else (0, s1\<lparr>m_data := add_shift cmp item (m_data s1) (m_size s1), m_size := m_size s1 + 1\<rparr>))"

function shift_down :: "'a option list \<Rightarrow> nat \<Rightarrow> nat \<Rightarrow> 'a option list" where
  "shift_down data n sz =
     (if n + 1 < sz then shift_down (data[n := data ! (n + 1)]) (n + 1) sz
      else data[n := None])"
  by pat_completeness auto
termination by (relation "measure (\<lambda>(data, n, sz). sz - n)") auto

declare shift_down.simps [simp del]

function del_scan :: "('a \<Rightarrow> 'k \<Rightarrow> int) \<Rightarrow> 'a list_set \<Rightarrow> 'k \<Rightarrow> nat \<Rightarrow> 'a option \<times> 'a list_set" where
  "del_scan cmp s key n =
     (if n < m_size s
      then let cur = the (m_data s ! n); ret = cmp cur key
           in if ret < 0 then del_scan cmp s key (n + 1)
              else if ret = 0
              then (Some cur, s\<lparr>m_data := shift_down (m_data s) n (m_size s), m_size := m_size s - 1\<rparr>)
              else (None, s)
      else (None, s))"
  by pat_completeness auto
termination by (relation "measure (\<lambda>(cmp, s, key, n). m_size s - n)") auto

declare del_scan.simps [simp del]

definition delFromSet :: "('a \<Rightarrow> 'k \<Rightarrow> int) \<Rightarrow> 'a list_set \<Rightarrow> 'k \<Rightarrow> 'a option \<times> 'a list_set" where
  "delFromSet cmp s key = del_scan cmp s key 0"

subsection \<open>The sorted list it holds\<close>

definition set_items :: "'a list_set \<Rightarrow> 'a list" where
  "set_items s = map the (take (m_size s) (m_data s))"

definition set_inv :: "'a list_set \<Rightarrow> bool" where
  "set_inv s \<longleftrightarrow> m_size s \<le> m_capacity s \<and> length (m_data s) = m_capacity s \<and>
     take (m_size s) (m_data s) = map Some (set_items s)"

lemma set_invI:
  assumes "m_size s = length xs" "m_data s = map Some xs @ rest" "length (m_data s) = m_capacity s"
  shows "set_inv s \<and> set_items s = xs"
  using assms by (auto simp: set_inv_def set_items_def comp_def)

lemma set_invE:
  assumes "set_inv s"
  obtains rest where "m_data s = map Some (set_items s) @ rest" "m_size s = length (set_items s)"
    "length (m_data s) = m_capacity s"
proof -
  have "m_data s = map Some (set_items s) @ drop (m_size s) (m_data s)"
    using assms by (metis append_take_drop_id set_inv_def)
  moreover have "m_size s = length (set_items s)"
    using assms by (simp add: set_inv_def set_items_def)
  ultimately show thesis
    using that [of "drop (m_size s) (m_data s)"] assms by (simp add: set_inv_def)
qed

lemma initListSet_ok: "initListSet True = (0, s) \<Longrightarrow> set_inv s \<and> set_items s = []"
  by (auto simp: initListSet_def set_inv_def set_items_def)

lemma map_filter_Some [simp]: "List.map_filter id (map Some xs) = xs"
  by (induction xs) (auto simp: List.map_filter_def)

lemma freeListSet_items: "set_inv s \<Longrightarrow> fst (freeListSet s) = set_items s"
  by (simp add: freeListSet_def set_inv_def)

lemma binarySearch_steps:
  assumes "low < high"
  shows "cmp (the (arr ! ((low + high) div 2))) key < 0 \<Longrightarrow>
      binarySearch cmp arr low high key = binarySearch cmp arr ((low + high) div 2 + 1) high key"
    and "0 < cmp (the (arr ! ((low + high) div 2))) key \<Longrightarrow>
      binarySearch cmp arr low high key = binarySearch cmp arr low ((low + high) div 2) key"
    and "cmp (the (arr ! ((low + high) div 2))) key = 0 \<Longrightarrow>
      binarySearch cmp arr low high key = arr ! ((low + high) div 2)"
  using assms by (subst binarySearch.simps; simp add: Let_def)+

lemma binarySearch_index:
  assumes "binarySearch cmp arr low high key = Some y"
    and "\<forall>i<high. arr ! i \<noteq> None"
  shows "\<exists>i. low \<le> i \<and> i < high \<and> arr ! i = Some y \<and> cmp y key = 0"
  using assms
proof (induction cmp arr low high key rule: binarySearch.induct)
  case (1 cmp arr low high key)
  let ?mid = "(low + high) div 2"
  show ?case
  proof (cases "low < high")
    case False
    with 1 show ?thesis by (simp add: binarySearch.simps)
  next
    case True
    then have m: "low \<le> ?mid" "?mid < high" by auto
    consider "cmp (the (arr ! ?mid)) key < 0" | "0 < cmp (the (arr ! ?mid)) key"
      | "cmp (the (arr ! ?mid)) key = 0" by linarith
    then show ?thesis
    proof cases
      case 1
      then have "\<exists>i. ?mid + 1 \<le> i \<and> i < high \<and> arr ! i = Some y \<and> cmp y key = 0"
        using "1.IH"(1) [OF True refl refl] "1.prems" True
        by (simp add: binarySearch_steps)
      then show ?thesis using m by (meson add_leD1 order_trans)
    next
      case 2
      then have "\<exists>i. low \<le> i \<and> i < ?mid \<and> arr ! i = Some y \<and> cmp y key = 0"
        using "1.IH"(2) [OF True refl refl] "1.prems" True m
        by (simp add: binarySearch_steps)
      then show ?thesis using m by (meson less_trans)
    next
      case 3
      then show ?thesis using "1.prems" True m
        by (intro exI [of _ ?mid]) (auto simp: binarySearch_steps)
    qed
  qed
qed

text \<open>What the search needs of the order: seen from the key, the array is a part below it, a part
  equal to it and a part above it.\<close>

definition key_split :: "('a \<Rightarrow> 'k \<Rightarrow> int) \<Rightarrow> 'k \<Rightarrow> 'a list \<Rightarrow> bool" where
  "key_split cmp k =
     sorted_wrt (\<lambda>x y. (0 \<le> cmp x k \<longrightarrow> 0 \<le> cmp y k) \<and> (cmp y k \<le> 0 \<longrightarrow> cmp x k \<le> 0))"

lemma key_split_nth:
  "key_split cmp k xs \<Longrightarrow> i \<le> j \<Longrightarrow> j < length xs \<Longrightarrow>
    (0 \<le> cmp (xs ! i) k \<longrightarrow> 0 \<le> cmp (xs ! j) k) \<and> (cmp (xs ! j) k \<le> 0 \<longrightarrow> cmp (xs ! i) k \<le> 0)"
  unfolding key_split_def by (cases "i = j") (auto dest: sorted_wrt_nth_less [of _ _ i j])

lemma key_split_Cons:
  "key_split cmp k (x # xs) \<longleftrightarrow>
     (\<forall>y\<in>set xs. (0 \<le> cmp x k \<longrightarrow> 0 \<le> cmp y k) \<and> (cmp y k \<le> 0 \<longrightarrow> cmp x k \<le> 0)) \<and> key_split cmp k xs"
  by (simp add: key_split_def)

context comparator
begin

lemma ordered_key_split:
  assumes "set xs \<subseteq> A" "k \<in> A" "ordered cmp xs"
  shows "key_split cmp k xs"
proof -
  have "sorted_wrt (\<lambda>x y. x \<in> A \<and> y \<in> A \<and> cmp x y \<le> 0) xs"
    using assms by (induction xs) auto
  then show ?thesis
    unfolding key_split_def
  proof (rule sorted_wrt_mono_rel [rotated])
    fix x y
    assume "x \<in> A \<and> y \<in> A \<and> cmp x y \<le> 0"
    then show "(0 \<le> cmp x k \<longrightarrow> 0 \<le> cmp y k) \<and> (cmp y k \<le> 0 \<longrightarrow> cmp x k \<le> 0)"
      using cmp_trans [of x y k] cmp_le_less_trans [of x y k] assms(2)
      by (meson linorder_not_le)
  qed
qed

end

lemma binarySearch_None:
  assumes "binarySearch cmp (map Some xs @ rest) low high key = None"
    and "high \<le> length xs" "key_split cmp key xs" "low \<le> i" "i < high"
  shows "cmp (xs ! i) key \<noteq> 0"
  using assms
proof (induction cmp "map Some xs @ rest" low high key rule: binarySearch.induct)
  case (1 cmp low high key)
  let ?mid = "(low + high) div 2"
  have m: "low < high" "low \<le> ?mid" "?mid < high" using "1.prems" by auto
  have n: "(map Some xs @ rest) ! ?mid = Some (xs ! ?mid)"
    using m "1.prems"(2) by (simp add: nth_append)
  consider "cmp (xs ! ?mid) key < 0" | "0 < cmp (xs ! ?mid) key" | "cmp (xs ! ?mid) key = 0"
    by linarith
  then show ?case
  proof cases
    case a: 1
    then have b: "binarySearch cmp (map Some xs @ rest) (?mid + 1) high key = None"
      using "1.prems"(1) m n by (simp add: binarySearch_steps)
    show ?thesis
    proof (cases "i \<le> ?mid")
      case True
      then show ?thesis
        using key_split_nth [OF "1.prems"(3) True] m "1.prems"(2) a by fastforce
    next
      case False
      then show ?thesis
        using "1.hyps"(1) [OF m(1) refl refl _ b] a n "1.prems" by simp
    qed
  next
    case a: 2
    then have b: "binarySearch cmp (map Some xs @ rest) low ?mid key = None"
      using "1.prems"(1) m n by (simp add: binarySearch_steps)
    show ?thesis
    proof (cases "?mid \<le> i")
      case True
      then show ?thesis
        using key_split_nth [OF "1.prems"(3) True] m "1.prems"(2,5) a by fastforce
    next
      case False
      then show ?thesis
        using "1.hyps"(2) [OF m(1) refl refl _ _ b] a n "1.prems" m by simp
    qed
  next
    case 3
    then have "binarySearch cmp (map Some xs @ rest) low high key = Some (xs ! ?mid)"
      using m n by (simp add: binarySearch_steps)
    then show ?thesis using "1.prems"(1) by simp
  qed
qed

lemma searchListSet_items:
  assumes "set_inv s" "key_split cmp key (set_items s)"
  shows "case searchListSet cmp s key of
      Some y \<Rightarrow> y \<in> set (set_items s) \<and> cmp y key = 0
    | None \<Rightarrow> \<forall>y\<in>set (set_items s). cmp y key \<noteq> 0"
proof -
  obtain rest where d: "m_data s = map Some (set_items s) @ rest" "m_size s = length (set_items s)"
    using set_invE [OF assms(1)] .
  have nth: "m_data s ! i = Some (set_items s ! i)" if "i < m_size s" for i
    using that d by (simp add: nth_append)
  show ?thesis
  proof (cases "searchListSet cmp s key")
    case None
    have "\<forall>i < length (set_items s). cmp (set_items s ! i) key \<noteq> 0"
    proof (cases "m_size s = 0")
      case False
      then have "binarySearch cmp (map Some (set_items s) @ rest) 0 (length (set_items s)) key = None"
        using None d by (simp add: searchListSet_def)
      then show ?thesis
        using binarySearch_None [OF _ order_refl assms(2)] by blast
    qed (simp add: d)
    then show ?thesis using None by (auto simp: in_set_conv_nth)
  next
    case (Some y)
    then have "binarySearch cmp (m_data s) 0 (m_size s) key = Some y"
      by (auto simp: searchListSet_def split: if_splits)
    then obtain i where "i < m_size s" "m_data s ! i = Some y" "cmp y key = 0"
      using binarySearch_index [of cmp "m_data s" 0 "m_size s" key y] nth by auto
    then show ?thesis using Some nth d by auto
  qed
qed

lemma q_insert_append_gt:
  assumes "\<forall>y\<in>set bs. 0 < cmp y x"
  shows "q_insert cmp x (as @ bs) = q_front cmp x as @ x # q_back cmp x as @ bs"
proof -
  have "takeWhile (\<lambda>y. 0 < cmp y x) (rev bs @ rev as) = rev bs @ takeWhile (\<lambda>y. 0 < cmp y x) (rev as)"
    "dropWhile (\<lambda>y. 0 < cmp y x) (rev bs @ rev as) = dropWhile (\<lambda>y. 0 < cmp y x) (rev as)"
    using assms by (auto intro!: takeWhile_append2 dropWhile_append2)
  then show ?thesis
    by (simp add: q_insert_def q_front_def q_back_def)
qed

lemma q_insert_snoc_le: "cmp y x \<le> 0 \<Longrightarrow> q_insert cmp x (as @ [y]) = as @ [y, x]"
  by (simp add: q_insert_def q_front_def q_back_def)

lemma add_shift_items:
  assumes "data = map Some as @ g # map Some bs @ rest" "\<forall>y\<in>set bs. 0 < cmp y x"
  shows "add_shift cmp x data (length as) = map Some (q_insert cmp x (as @ bs)) @ rest"
  using assms
proof (induction as arbitrary: data g bs rule: rev_induct)
  case Nil
  then show ?case
    using q_insert_append_gt [of bs cmp x "[]"] by (simp add: q_front_def q_back_def)
next
  case (snoc a as)
  have n: "data ! length as = Some a"
    using snoc.prems(1) by (simp add: nth_append)
  show ?case
  proof (cases "0 < cmp a x")
    case True
    have "data[Suc (length as) := Some a] = map Some as @ Some a # map Some (a # bs) @ rest"
      using snoc.prems(1) by (simp add: list_update_append)
    then show ?thesis
      using snoc.IH [of _ "Some a" "a # bs"] True n snoc.prems(2) by simp
  next
    case False
    have "data[Suc (length as) := Some x] = map Some (as @ a # x # bs) @ rest"
      using snoc.prems(1) by (simp add: list_update_append)
    then show ?thesis
      using False n q_insert_append_gt [of bs cmp x "as @ [a]", OF snoc.prems(2)]
      by (simp add: q_front_def q_back_def)
  qed
qed

lemma addToSet_items:
  assumes "set_inv s" "grown \<noteq> None \<or> m_size s < m_capacity s"
  shows "\<exists>s'. addToSet cmp grown s x = (0, s') \<and> set_inv s' \<and> set_items s' = q_insert cmp x (set_items s)"
proof -
  obtain rest where d: "m_data s = map Some (set_items s) @ rest" "m_size s = length (set_items s)"
    "length (m_data s) = m_capacity s"
    using set_invE [OF assms(1)] .
  obtain s1 g rest1 where s1: "growArray grown s = (0, s1)" "m_size s1 = m_size s"
    "m_data s1 = map Some (set_items s) @ g # map Some [] @ rest1" "length (m_data s1) = m_capacity s1"
  proof (cases "m_size s = m_capacity s")
    case True
    then obtain f where f: "grown = Some f" using assms(2) by auto
    let ?new = "map f [m_capacity s..<m_capacity s + DEF_LIST_ARRAY_SIZE]"
    have "rest = []" using d True by simp
    moreover obtain g r where "?new = g # r" by (cases ?new) (auto simp: DEF_LIST_ARRAY_SIZE_def)
    moreover have "length ?new = DEF_LIST_ARRAY_SIZE" by simp
    ultimately show thesis
      using that [of "snd (growArray grown s)" g r] d True f by (simp add: growArray_def Let_def del: length_map)
  next
    case False
    then obtain g r where "rest = g # r" using d assms(2) by (cases rest) auto
    then show thesis
      using that [of s g r] d False by (simp add: growArray_def)
  qed
  have l: "m_data (s1\<lparr>m_data := add_shift cmp x (m_data s1) (m_size s1), m_size := m_size s1 + 1\<rparr>) =
      map Some (q_insert cmp x (set_items s)) @ rest1"
    using add_shift_items [OF s1(3), of cmp x] s1(2) d(2) by simp
  show ?thesis
    using s1 l set_invI [OF _ l] d(2) by (auto simp: addToSet_def)
qed

lemma addToSet_full:
  "m_size s = m_capacity s \<Longrightarrow> addToSet cmp None s x = (- 1, s)"
  by (simp add: addToSet_def growArray_def)

lemma shift_down_items:
  "data = map Some as @ Some a # map Some bs @ rest \<Longrightarrow>
    shift_down data (length as) (Suc (length as + length bs)) = map Some (as @ bs) @ None # rest"
proof (induction bs arbitrary: as a data)
  case Nil
  then show ?case by (simp add: shift_down.simps list_update_append)
next
  case (Cons b bs)
  have "data[length as := data ! Suc (length as)] = map Some (as @ [b]) @ Some b # map Some bs @ rest"
    using Cons.prems by (simp add: list_update_append nth_append)
  from Cons.IH [OF this] show ?case
    by (subst shift_down.simps) simp
qed

lemma del_scan_items:
  assumes "m_data s = map Some (as @ bs) @ rest" "m_size s = length (as @ bs)"
    and "length (m_data s) = m_capacity s"
  shows "(case find (\<lambda>y. 0 \<le> cmp y key) bs of
      Some y \<Rightarrow> if cmp y key = 0
        then \<exists>s'. del_scan cmp s key (length as) = (Some y, s') \<and> set_inv s' \<and> set_items s' = as @ remove1 y bs
        else del_scan cmp s key (length as) = (None, s)
    | None \<Rightarrow> del_scan cmp s key (length as) = (None, s))"
  using assms
proof (induction bs arbitrary: as)
  case Nil
  then show ?case by (simp add: del_scan.simps)
next
  case (Cons b bs)
  have n: "length as < m_size s" "m_data s ! length as = Some b"
    using Cons.prems by (simp_all add: nth_append)
  consider "cmp b key < 0" | "0 < cmp b key" | "cmp b key = 0" by linarith
  then show ?case
  proof cases
    case 1
    have "(case find (\<lambda>y. 0 \<le> cmp y key) bs of
      Some y \<Rightarrow> if cmp y key = 0
        then \<exists>s'. del_scan cmp s key (length (as @ [b])) = (Some y, s') \<and> set_inv s' \<and>
               set_items s' = (as @ [b]) @ remove1 y bs
        else del_scan cmp s key (length (as @ [b])) = (None, s)
      | None \<Rightarrow> del_scan cmp s key (length (as @ [b])) = (None, s))"
      using Cons.prems by (intro Cons.IH) simp_all
    moreover have "find (\<lambda>y. 0 \<le> cmp y key) bs = Some y \<Longrightarrow> y \<noteq> b" for y
      using 1 by (auto simp: find_Some_iff)
    ultimately show ?thesis
      using 1 n del_scan.simps [of cmp s key "length as"]
      by (auto simp: Let_def split: option.splits if_splits)
  next
    case 2
    then show ?thesis using n by (simp add: del_scan.simps)
  next
    case 3
    let ?s' = "s\<lparr>m_data := shift_down (m_data s) (length as) (m_size s), m_size := m_size s - 1\<rparr>"
    have e: "m_data ?s' = map Some (as @ bs) @ None # rest"
      using shift_down_items [of "m_data s" as b bs rest] Cons.prems(1,2) by simp
    have "set_inv ?s' \<and> set_items ?s' = as @ bs"
      using Cons.prems arg_cong [OF e, of length] by (intro set_invI [OF _ e]) auto
    then show ?thesis using 3 n by (simp add: del_scan.simps)
  qed
qed

lemma delFromSet_items:
  assumes "set_inv s" "key_split cmp key (set_items s)"
  shows "case find (\<lambda>y. cmp y key = 0) (set_items s) of
      Some y \<Rightarrow> \<exists>s'. delFromSet cmp s key = (Some y, s') \<and> set_inv s' \<and> set_items s' = remove1 y (set_items s)
    | None \<Rightarrow> delFromSet cmp s key = (None, s)"
proof -
  obtain rest where d: "m_data s = map Some ([] @ set_items s) @ rest"
    "m_size s = length ([] @ set_items s)" "length (m_data s) = m_capacity s"
    using set_invE [OF assms(1)] by auto
  have gt: "find (\<lambda>y. cmp y key = 0) xs = None" if "\<forall>y\<in>set xs. 0 \<le> cmp y key \<and> \<not> cmp y key \<le> 0" for xs
    using that by (induction xs) auto
  have f: "find (\<lambda>y. cmp y key = 0) xs =
      (case find (\<lambda>y. 0 \<le> cmp y key) xs of Some y \<Rightarrow> if cmp y key = 0 then Some y else None | None \<Rightarrow> None)"
    if "key_split cmp key xs" for xs
    using that
  proof (induction xs)
    case (Cons x xs)
    then show ?case
      using gt [of xs] by (cases "0 < cmp x key") (auto simp: key_split_Cons split: if_splits)
  qed simp
  show ?thesis
    using del_scan_items [OF d, of cmp key] f [OF assms(2)]
    by (auto simp: delFromSet_def split: option.splits if_splits)
qed

subsection \<open>The contract\<close>

text \<open>A collection of objects found by key.  \<open>find\<close> and \<open>rem\<close> take the comparison of an object with
  the key.  The laws ask that the collection is ordered as seen from the key (\<open>key_split\<close>), which
  holds when it has been filled with one comparison.\<close>

locale keyed_set =
  fixes elems :: "'s \<Rightarrow> 'a list"
    and ok :: "'s \<Rightarrow> bool"
    and ins :: "('a \<Rightarrow> 'a \<Rightarrow> int) \<Rightarrow> 's \<Rightarrow> 'a \<Rightarrow> int \<times> 's"
    and lookup :: "('a \<Rightarrow> 'k \<Rightarrow> int) \<Rightarrow> 's \<Rightarrow> 'k \<Rightarrow> 'a option"
    and rem :: "('a \<Rightarrow> 'k \<Rightarrow> int) \<Rightarrow> 's \<Rightarrow> 'k \<Rightarrow> 'a option \<times> 's"
  assumes ins_law: "ok s \<Longrightarrow> ins cmp s x = (ret, s') \<Longrightarrow>
      (ret = 0 \<and> ok s' \<and> elems s' = q_insert cmp x (elems s)) \<or> (ret = - 1 \<and> s' = s)"
    and lookup_Some: "ok s \<Longrightarrow> key_split kcmp k (elems s) \<Longrightarrow> lookup kcmp s k = Some y \<Longrightarrow>
      y \<in> set (elems s) \<and> kcmp y k = 0"
    and lookup_None: "ok s \<Longrightarrow> key_split kcmp k (elems s) \<Longrightarrow> lookup kcmp s k = None \<Longrightarrow>
      y \<in> set (elems s) \<Longrightarrow> kcmp y k \<noteq> 0"
    and rem_law: "ok s \<Longrightarrow> key_split kcmp k (elems s) \<Longrightarrow> rem kcmp s k = (r, s') \<Longrightarrow>
      r = find (\<lambda>y. kcmp y k = 0) (elems s) \<and> ok s' \<and>
      elems s' = (case r of None \<Rightarrow> elems s | Some y \<Rightarrow> remove1 y (elems s))"
begin

text \<open>When an object with a key is stored and no other has that key, it is found, and it is not
  found any more once it has been removed.\<close>

lemma lookup_after_ins:
  assumes "comparator cmp A" "ok s" "set (elems s) \<subseteq> A" "x \<in> A" "ordered cmp (elems s)"
    and "ins cmp s x = (0, s')" "key_split kcmp k (elems s')" "kcmp x k = 0"
    and "\<And>y. y \<in> set (elems s) \<Longrightarrow> kcmp y k \<noteq> 0"
  shows "lookup kcmp s' k = Some x"
proof -
  have s': "ok s'" "elems s' = q_insert cmp x (elems s)"
    using ins_law [OF assms(2,6)] by auto
  obtain y where "lookup kcmp s' k = Some y"
    using lookup_None [OF s'(1) assms(7)] assms(8) s'(2) by (cases "lookup kcmp s' k") auto
  then show ?thesis
    using lookup_Some [OF s'(1) assms(7)] assms(9) s'(2) by auto
qed

lemma lookup_after_rem:
  assumes "ok s" "key_split kcmp k (elems s)" "rem kcmp s k = (r, s')" "key_split kcmp k (elems s')"
    and "\<And>y z. y \<in> set (elems s) \<Longrightarrow> z \<in> set (elems s) \<Longrightarrow> kcmp y k = 0 \<Longrightarrow> kcmp z k = 0 \<Longrightarrow> y = z"
    and "distinct (elems s)"
  shows "lookup kcmp s' k = None"
proof (rule ccontr)
  assume "lookup kcmp s' k \<noteq> None"
  moreover have s': "ok s'" "elems s' = (case r of None \<Rightarrow> elems s | Some y \<Rightarrow> remove1 y (elems s))"
    and r: "r = find (\<lambda>y. kcmp y k = 0) (elems s)"
    using rem_law [OF assms(1-3)] by auto
  ultimately obtain z where z: "z \<in> set (elems s')" "kcmp z k = 0"
    using lookup_Some [OF s'(1) assms(4)] by auto
  show False
  proof (cases r)
    case None
    then have "find (\<lambda>y. kcmp y k = 0) (elems s) = None" using r by simp
    then show ?thesis using z s' None by (simp add: find_None_iff)
  next
    case (Some y)
    then have y: "y \<in> set (elems s)" "kcmp y k = 0"
      using r [symmetric] by (auto simp: find_Some_iff)
    have "z \<in> set (elems s)" "z \<noteq> y"
      using z(1) s'(2) Some assms(6) by auto
    then show ?thesis using assms(5) z(2) y by auto
  qed
qed

end

interpretation arr: keyed_set set_items set_inv "\<lambda>cmp s x. addToSet cmp grown s x"
  searchListSet delFromSet
  for grown :: "(nat \<Rightarrow> 'a option) option"
proof
  show "(ret = 0 \<and> set_inv s' \<and> set_items s' = q_insert cmp x (set_items s)) \<or> (ret = - 1 \<and> s' = s)"
    if "set_inv s" "addToSet cmp grown s x = (ret, s')" for s s' :: "'a list_set" and cmp x ret
  proof (cases "grown \<noteq> None \<or> m_size s < m_capacity s")
    case True
    then show ?thesis using addToSet_items [OF that(1), of grown cmp x] that(2) by auto
  next
    case False
    then have "m_size s = m_capacity s" "grown = None"
      using that(1) by (auto simp: set_inv_def)
    then show ?thesis using addToSet_full [of s cmp x] that(2) by simp
  qed
next
  fix s s' :: "'a list_set" and kcmp and k :: 'k and y r
  assume a: "set_inv s" "key_split kcmp k (set_items s)"
  show "searchListSet kcmp s k = Some y \<Longrightarrow> y \<in> set (set_items s) \<and> kcmp y k = 0"
    using searchListSet_items [OF a] by simp
  show "searchListSet kcmp s k = None \<Longrightarrow> y \<in> set (set_items s) \<Longrightarrow> kcmp y k \<noteq> 0"
    using searchListSet_items [OF a] by simp
  show "delFromSet kcmp s k = (r, s') \<Longrightarrow> r = find (\<lambda>y. kcmp y k = 0) (set_items s) \<and> set_inv s' \<and>
      set_items s' = (case r of None \<Rightarrow> set_items s | Some y \<Rightarrow> remove1 y (set_items s))"
    using delFromSet_items [OF a] a(1)
    by (auto split: option.splits)
qed

subsection \<open>The sets of the task components\<close>

text \<open>The components keep the set as the list of its items.\<close>

definition ls_add :: "('a \<Rightarrow> 'a \<Rightarrow> int) \<Rightarrow> bool \<Rightarrow> 'a list \<Rightarrow> 'a \<Rightarrow> int \<times> 'a list" where
  "ls_add cmp alloc xs x = (if alloc then (0, q_insert cmp x xs) else (- 1, xs))"

definition ls_find :: "('a \<Rightarrow> 'k \<Rightarrow> int) \<Rightarrow> 'a list \<Rightarrow> 'k \<Rightarrow> 'a option" where
  "ls_find cmp xs k = find (\<lambda>y. cmp y k = 0) xs"

definition ls_del :: "('a \<Rightarrow> 'k \<Rightarrow> int) \<Rightarrow> 'a list \<Rightarrow> 'k \<Rightarrow> 'a option \<times> 'a list" where
  "ls_del cmp xs k = (case find (\<lambda>y. cmp y k = 0) xs of None \<Rightarrow> (None, xs) | Some y \<Rightarrow> (Some y, remove1 y xs))"

interpretation ls: keyed_set "\<lambda>xs. xs" "\<lambda>_. True" "\<lambda>cmp xs x. ls_add cmp alloc xs x" ls_find ls_del
  for alloc :: bool
proof
  show "r = find (\<lambda>y. kcmp y k = 0) xs \<and> True \<and>
      xs' = (case r of None \<Rightarrow> xs | Some y \<Rightarrow> remove1 y xs)"
    if "ls_del kcmp xs k = (r, xs')" for kcmp :: "'a \<Rightarrow> 'b \<Rightarrow> int" and xs xs' k r
    using that unfolding ls_del_def by (auto split: option.splits)
qed (auto simp: ls_add_def ls_find_def find_Some_iff find_None_iff split: if_splits)

subsection \<open>Properties of the array\<close>

text \<open>C27: inserting keeps the array well formed and ordered and adds exactly the item, growing it when
  it is full; when no memory is left it is unchanged and the call fails.  Afterwards the binary search finds
  an item equal to a key whenever one is stored, and only such an item.\<close>

theorem addToSet_search:
  assumes "set_inv s" "comparator cmp A" "insert x (set (set_items s)) \<subseteq> A" "ordered cmp (set_items s)"
    and "addToSet cmp grown s x = (ret, s')"
  shows "(ret = 0 \<and> set_inv s' \<and> ordered cmp (set_items s') \<and>
          mset (set_items s') = add_mset x (mset (set_items s)) \<and>
          (\<forall>k\<in>A. case searchListSet cmp s' k of
             Some y \<Rightarrow> y \<in> set (set_items s') \<and> cmp y k = 0
           | None \<Rightarrow> \<forall>y\<in>set (set_items s'). cmp y k \<noteq> 0)) \<or>
      (ret = - 1 \<and> s' = s \<and> m_size s = m_capacity s \<and> grown = None)"
proof (cases "grown \<noteq> None \<or> m_size s < m_capacity s")
  case True
  from addToSet_items [OF assms(1) this, of cmp x] assms(5)
  have s': "ret = 0" "set_inv s'" "set_items s' = q_insert cmp x (set_items s)" by auto
  have o: "ordered cmp (set_items s')"
    unfolding s' using comparator.q_insert_ordered [OF assms(2) _ _ assms(4)] assms(3) by simp
  have "key_split cmp k (set_items s')" if "k \<in> A" for k
    using comparator.ordered_key_split [OF assms(2) _ that o] assms(3) s'(3) by auto
  then have "\<forall>k\<in>A. case searchListSet cmp s' k of
       Some y \<Rightarrow> y \<in> set (set_items s') \<and> cmp y k = 0
     | None \<Rightarrow> \<forall>y\<in>set (set_items s'). cmp y k \<noteq> 0"
    by (intro ballI searchListSet_items [OF s'(2)])
  moreover have "mset (set_items s') = add_mset x (mset (set_items s))"
    by (simp add: s'(3))
  ultimately show ?thesis
    using s'(1,2) o by blast
next
  case False
  then have f: "m_size s = m_capacity s" "grown = None"
    using assms(1) by (auto simp: set_inv_def)
  then show ?thesis using addToSet_full [OF f(1), of cmp x] assms(5) by simp
qed

definition demo_set :: "int list_set" where
  "demo_set = \<lparr>m_capacity = 4, m_size = 2, m_data = [Some 2, Some 5, None, None]\<rparr>"

lemma comparator_diff: "comparator (\<lambda>x y. x - y :: int) UNIV"
  by unfold_locales auto

lemma demo_set_facts [simp]: "set_inv demo_set" "set_items demo_set = [2, 5]"
  by (simp_all add: set_inv_def set_items_def demo_set_def)

lemma addToSet_search_witness:
  "ordered (\<lambda>x y. x - y) (set_items (snd (addToSet (\<lambda>x y. x - y) None demo_set 3))) \<and>
   searchListSet (\<lambda>x y. x - y) (snd (addToSet (\<lambda>x y. x - y) None demo_set 3)) 3 \<noteq> None"
proof -
  let ?s' = "snd (addToSet (\<lambda>x y. x - y) None demo_set 3)"
  have "fst (addToSet (\<lambda>x y. x - y) None demo_set 3) = 0"
    by (simp add: addToSet_def growArray_def demo_set_def)
  then have r: "addToSet (\<lambda>x y. x - y) None demo_set 3 = (0, ?s')"
    by (cases "addToSet (\<lambda>x y. x - y) None demo_set 3") simp
  note a = addToSet_search [OF demo_set_facts(1) comparator_diff _ _ r]
  have "ordered (\<lambda>x y. x - y) (set_items ?s')" "3 \<in># mset (set_items ?s')"
    "case searchListSet (\<lambda>x y. x - y) ?s' 3 of
       Some y \<Rightarrow> y \<in> set (set_items ?s') \<and> y - 3 = 0
     | None \<Rightarrow> \<forall>y\<in>set (set_items ?s'). y - 3 \<noteq> 0"
    using a by simp_all
  then show ?thesis
    by (auto split: option.splits)
qed

text \<open>C31: removing a key takes out the first item equal to it and keeps the others in their order; a
  key that is not stored leaves the array as it is.\<close>

theorem delFromSet_exact:
  assumes "set_inv s" "comparator cmp A" "insert k (set (set_items s)) \<subseteq> A" "ordered cmp (set_items s)"
    and "delFromSet cmp s k = (r, s')"
  shows "set_inv s' \<and> ordered cmp (set_items s') \<and>
    (case r of
       None \<Rightarrow> s' = s \<and> (\<forall>y\<in>set (set_items s). cmp y k \<noteq> 0)
     | Some y \<Rightarrow> \<exists>as bs. set_items s = as @ y # bs \<and> set_items s' = as @ bs \<and> cmp y k = 0 \<and>
         (\<forall>z\<in>set as. cmp z k \<noteq> 0))"
proof -
  have ks: "key_split cmp k (set_items s)"
    using comparator.ordered_key_split [OF assms(2) _ _ assms(4)] assms(3) by simp
  note d = delFromSet_items [OF assms(1) ks]
  show ?thesis
  proof (cases "find (\<lambda>y. cmp y k = 0) (set_items s)")
    case None
    moreover from None have "\<forall>y\<in>set (set_items s). cmp y k \<noteq> 0" by (simp add: find_None_iff)
    ultimately show ?thesis using d assms by auto
  next
    case (Some y)
    then obtain i where i: "i < length (set_items s)" "set_items s ! i = y" "cmp y k = 0"
      "\<forall>j<i. cmp (set_items s ! j) k \<noteq> 0"
      by (auto simp: find_Some_iff)
    let ?as = "take i (set_items s)" and ?bs = "drop (Suc i) (set_items s)"
    have e: "set_items s = ?as @ y # ?bs"
      using i id_take_nth_drop by metis
    have f: "\<forall>z\<in>set ?as. cmp z k \<noteq> 0"
      using i(1,4) by (auto simp: in_set_conv_nth)
    then have "y \<notin> set ?as" using i(3) by auto
    then have "remove1 y (set_items s) = ?as @ ?bs"
      by (subst e) (simp add: remove1_append)
    moreover have "r = Some y" "set_inv s'" "set_items s' = remove1 y (set_items s)"
      using d Some assms(5) by auto
    ultimately show ?thesis
      using e f i(3) ordered_remove1 [OF assms(4), of y] by auto
  qed
qed

lemma delFromSet_exact_witness:
  "fst (delFromSet (\<lambda>x y. x - y) demo_set 2) = Some 2 \<and>
   set_items (snd (delFromSet (\<lambda>x y. x - y) demo_set 2)) = [5]"
proof -
  have "fst (delFromSet (\<lambda>x y. x - y) demo_set 2) = Some 2"
    by (simp add: delFromSet_def del_scan.simps demo_set_def Let_def)
  then show ?thesis
    using delFromSet_exact [OF demo_set_facts(1) comparator_diff, of 2 "Some 2"
        "snd (delFromSet (\<lambda>x y. x - y) demo_set 2)"]
    by (cases "delFromSet (\<lambda>x y. x - y) demo_set 2") (auto simp: Cons_eq_append_conv append_eq_Cons_conv)
qed

end
