(* ===== verification/Model.thy ===== *)
theory Model imports Redis ListQueue ListSet begin

text \<open>
  The data of the daemons: the task objects of \<^verbatim>\<open>openvas_business.h\<close> and \<^verbatim>\<open>hydra_business.h\<close> field by
  field, the enumerations and return codes, and the accessors of \<^verbatim>\<open>openvas_business.c\<close>.
\<close>

subsection \<open>Return codes\<close>

definition GVM_ERR_FAIL :: int where "GVM_ERR_FAIL = - 1"
definition GVM_ERR_PARAM_INVALID :: int where "GVM_ERR_PARAM_INVALID = 1"
definition GVM_ERR_INTERNAL_FAIL :: int where "GVM_ERR_INTERNAL_FAIL = 2"
definition GVM_ERR_WAIT_TIMEOUT :: int where "GVM_ERR_WAIT_TIMEOUT = 3"
definition GVM_ERR_TASK_NOT_FOUND :: int where "GVM_ERR_TASK_NOT_FOUND = 4"
definition GVM_ERR_TASK_ALREADY_EXISTS :: int where "GVM_ERR_TASK_ALREADY_EXISTS = 5"
definition GVM_ERR_TASK_IS_BUSY :: int where "GVM_ERR_TASK_IS_BUSY = 6"
definition GVM_ERR_TASK_IS_NOT_RUNNING :: int where "GVM_ERR_TASK_IS_NOT_RUNNING = 7"
definition GVM_ERR_OPENVAS_PROC_FAIL :: int where "GVM_ERR_OPENVAS_PROC_FAIL = 8"
definition GVM_ERR_REDIS_CONN :: int where "GVM_ERR_REDIS_CONN = 9"
definition GVM_ERR_GVMD_CONN :: int where "GVM_ERR_GVMD_CONN = 10"

lemmas gvm_err_defs = GVM_ERR_FAIL_def GVM_ERR_PARAM_INVALID_def GVM_ERR_INTERNAL_FAIL_def
  GVM_ERR_WAIT_TIMEOUT_def GVM_ERR_TASK_NOT_FOUND_def GVM_ERR_TASK_ALREADY_EXISTS_def
  GVM_ERR_TASK_IS_BUSY_def GVM_ERR_TASK_IS_NOT_RUNNING_def GVM_ERR_OPENVAS_PROC_FAIL_def
  GVM_ERR_REDIS_CONN_def GVM_ERR_GVMD_CONN_def

definition MAX_REDIS_WAIT_TIMEOUT :: int where "MAX_REDIS_WAIT_TIMEOUT = 15"

definition OPENVAS_MSG_NAME :: string where "OPENVAS_MSG_NAME = ''openvas_msg_id''"

definition SOH :: char where "SOH = CHR 0x01"

definition DEF_OPENVAS_PORT_LIST_ID :: string where
  "DEF_OPENVAS_PORT_LIST_ID = ''00000001-0000-0000-0000-000000000000''"

subsection \<open>Scan tasks\<close>

datatype gvm_task_status =
  GVM_TASK_CREATE | GVM_TASK_READY | GVM_TASK_WAITING | GVM_TASK_RUNNING | GVM_TASK_DONE |
  GVM_TASK_STOP | GVM_TASK_INTERRUPT | GVM_TASK_ERROR

fun status_int :: "gvm_task_status \<Rightarrow> int" where
  "status_int GVM_TASK_CREATE = 0"
| "status_int GVM_TASK_READY = 1"
| "status_int GVM_TASK_WAITING = 2"
| "status_int GVM_TASK_RUNNING = 3"
| "status_int GVM_TASK_DONE = 4"
| "status_int GVM_TASK_STOP = 5"
| "status_int GVM_TASK_INTERRUPT = 6"
| "status_int GVM_TASK_ERROR = 7"

text \<open>The cast of an \<open>int\<close>; \<open>parseTaskStatusRecord\<close> checks the range first.\<close>

definition int_status :: "int \<Rightarrow> gvm_task_status" where
  "int_status n =
     (if n = 0 then GVM_TASK_CREATE else if n = 1 then GVM_TASK_READY else if n = 2 then GVM_TASK_WAITING
      else if n = 3 then GVM_TASK_RUNNING else if n = 4 then GVM_TASK_DONE else if n = 5 then GVM_TASK_STOP
      else if n = 6 then GVM_TASK_INTERRUPT else GVM_TASK_ERROR)"

lemma int_status_int [simp]: "int_status (status_int s) = s"
  by (cases s) (simp_all add: int_status_def)

datatype gvm_task_chk_type =
  GVM_TASK_CHK_TASK | GVM_TASK_CHK_REPORT | GVM_TASK_CHK_RESULT | GVM_TASK_CHK_DELETED

fun chk_type_int :: "gvm_task_chk_type \<Rightarrow> int" where
  "chk_type_int GVM_TASK_CHK_TASK = 0"
| "chk_type_int GVM_TASK_CHK_REPORT = 1"
| "chk_type_int GVM_TASK_CHK_RESULT = 2"
| "chk_type_int GVM_TASK_CHK_DELETED = 3"

definition int_chk_type :: "int \<Rightarrow> gvm_task_chk_type" where
  "int_chk_type n =
     (if n = 0 then GVM_TASK_CHK_TASK else if n = 1 then GVM_TASK_CHK_REPORT
      else if n = 2 then GVM_TASK_CHK_RESULT else GVM_TASK_CHK_DELETED)"

lemma int_chk_type_int [simp]: "int_chk_type (chk_type_int c) = c"
  by (cases c) (simp_all add: int_chk_type_def)

fun DEF_TASK_CHK_TIME_INTERVAL :: "gvm_task_chk_type \<Rightarrow> int" where
  "DEF_TASK_CHK_TIME_INTERVAL GVM_TASK_CHK_TASK = 300"
| "DEF_TASK_CHK_TIME_INTERVAL GVM_TASK_CHK_REPORT = 120"
| "DEF_TASK_CHK_TIME_INTERVAL GVM_TASK_CHK_RESULT = 5"
| "DEF_TASK_CHK_TIME_INTERVAL GVM_TASK_CHK_DELETED = 300"

record gvm_target_info =
  tg_target_name :: string
  tg_target_id :: string
  tg_portlist_id :: string
  tg_hosts :: string

record gvm_task_info =
  ti_schedule_type :: int
  ti_config_created :: bool
  ti_schedule_created :: bool
  ti_create_time :: string
  ti_modify_time :: string
  ti_task_id :: string
  ti_task_name :: string
  ti_group_id :: string
  ti_group_name :: string
  ti_config_id :: string
  ti_schedule_id :: string
  ti_first_schedule_time :: string
  ti_schedule_list :: string

record ResultNvtInfo =
  res_id :: string
  res_name :: string
  res_host :: string
  res_port :: string
  res_threat :: string
  res_severity :: string
  res_create_time :: string
  res_cve :: string

text \<open>The results are not shared, so the queue holds the records themselves.  The type of list items
  with distinct addresses is a pair of a number and the record.\<close>

record gvm_result_info =
  rs_totalCnt :: int
  rs_first :: int
  rs_rows :: int
  rs_done :: bool
  rs_results :: "(nat \<times> ResultNvtInfo) lqueue"

record gvm_report_info =
  rp_report_cnt :: int
  rp_finish_cnt :: int
  rp_progress :: int
  rp_status :: gvm_task_status
  rp_start_time :: string
  rp_stop_time :: string
  rp_cur_report_id :: string
  rp_last_report_id :: string

text \<open>\<open>m_paths\<close> by its index.\<close>

record gvm_paths =
  OPENVAS_TASK_DIR :: string
  OPENVAS_STATUS_FILE :: string
  OPENVAS_STATUS_FILE_TMP :: string
  OPENVAS_RESULT_FILE :: string
  OPENVAS_RESULT_FILE_TMP :: string

text \<open>The two links \<open>m_mainlist\<close> and \<open>m_runlist\<close> are the queues of the data.\<close>

record gvm_task =
  m_task_info :: gvm_task_info
  m_target_info :: gvm_target_info
  m_report_info :: gvm_report_info
  m_result_info :: gvm_result_info
  m_chk_type :: gvm_task_chk_type
  m_chk_time :: int
  m_paths :: gvm_paths

definition cmpNvtHost :: "nat \<times> ResultNvtInfo \<Rightarrow> nat \<times> ResultNvtInfo \<Rightarrow> int" where
  "cmpNvtHost n1 n2 = strncmp (res_host (snd n1)) (res_host (snd n2)) MAX_COMM_SIZE"

definition initGvmResultInfo :: gvm_result_info where
  "initGvmResultInfo = \<lparr>rs_totalCnt = - 1, rs_first = 1, rs_rows = 10, rs_done = False, rs_results = lq_init\<rparr>"

text \<open>\<open>freeListQue\<close> empties the queue of results.\<close>

definition resetGvmResultInfo :: "gvm_result_info \<Rightarrow> gvm_result_info" where
  "resetGvmResultInfo r = r\<lparr>rs_totalCnt := - 1, rs_rows := 10, rs_first := 1, rs_results := lq_init,
     rs_done := False\<rparr>"

definition initGvmReportInfo :: gvm_report_info where
  "initGvmReportInfo = \<lparr>rp_report_cnt = 0, rp_finish_cnt = 0, rp_progress = 0, rp_status = GVM_TASK_CREATE,
     rp_start_time = [], rp_stop_time = [], rp_cur_report_id = [], rp_last_report_id = []\<rparr>"

definition initGvmTaskInfo :: gvm_task_info where
  "initGvmTaskInfo = \<lparr>ti_schedule_type = 0, ti_config_created = False, ti_schedule_created = False,
     ti_create_time = [], ti_modify_time = [], ti_task_id = [], ti_task_name = [], ti_group_id = [],
     ti_group_name = [], ti_config_id = [], ti_schedule_id = [], ti_first_schedule_time = [],
     ti_schedule_list = []\<rparr>"

text \<open>The object that \<open>newGvmTask\<close> allocates.\<close>

definition new_gvm_task :: gvm_task where
  "new_gvm_task = \<lparr>m_task_info = initGvmTaskInfo,
     m_target_info = \<lparr>tg_target_name = [], tg_target_id = [], tg_portlist_id = [], tg_hosts = []\<rparr>,
     m_report_info = initGvmReportInfo, m_result_info = initGvmResultInfo,
     m_chk_type = GVM_TASK_CHK_TASK, m_chk_time = 0,
     m_paths = \<lparr>OPENVAS_TASK_DIR = [], OPENVAS_STATUS_FILE = [], OPENVAS_STATUS_FILE_TMP = [],
       OPENVAS_RESULT_FILE = [], OPENVAS_RESULT_FILE_TMP = []\<rparr>\<rparr>"

abbreviation task_name :: "gvm_task \<Rightarrow> string" where "task_name t \<equiv> ti_task_name (m_task_info t)"
abbreviation task_id :: "gvm_task \<Rightarrow> string" where "task_id t \<equiv> ti_task_id (m_task_info t)"

definition upd_info :: "(gvm_task_info \<Rightarrow> gvm_task_info) \<Rightarrow> gvm_task \<Rightarrow> gvm_task" where
  "upd_info f t = t\<lparr>m_task_info := f (m_task_info t)\<rparr>"

definition upd_target :: "(gvm_target_info \<Rightarrow> gvm_target_info) \<Rightarrow> gvm_task \<Rightarrow> gvm_task" where
  "upd_target f t = t\<lparr>m_target_info := f (m_target_info t)\<rparr>"

definition upd_report :: "(gvm_report_info \<Rightarrow> gvm_report_info) \<Rightarrow> gvm_task \<Rightarrow> gvm_task" where
  "upd_report f t = t\<lparr>m_report_info := f (m_report_info t)\<rparr>"

definition setTaskStatus :: "gvm_task_status \<Rightarrow> gvm_task \<Rightarrow> gvm_task" where
  "setTaskStatus s t = upd_report (\<lambda>r. r\<lparr>rp_status := s\<rparr>) t"

definition getTaskStatus :: "gvm_task \<Rightarrow> gvm_task_status" where
  "getTaskStatus t = rp_status (m_report_info t)"

definition setTaskProgress :: "int \<Rightarrow> gvm_task \<Rightarrow> gvm_task" where
  "setTaskProgress p t = upd_report (\<lambda>r. r\<lparr>rp_progress := p\<rparr>) t"

definition setTaskChkType :: "gvm_task_chk_type \<Rightarrow> gvm_task \<Rightarrow> gvm_task" where
  "setTaskChkType c t = t\<lparr>m_chk_type := c\<rparr>"

definition getTaskChkType :: "gvm_task \<Rightarrow> gvm_task_chk_type" where
  "getTaskChkType t = m_chk_type t"

definition setTaskStartTime :: "string \<Rightarrow> gvm_task \<Rightarrow> gvm_task" where
  "setTaskStartTime s t = upd_report (\<lambda>r. r\<lparr>rp_start_time := (if length s < MAX_TIMESTAMP_SIZE then s else [])\<rparr>) t"

definition setTaskStopTime :: "string \<Rightarrow> gvm_task \<Rightarrow> gvm_task" where
  "setTaskStopTime s t = upd_report (\<lambda>r. r\<lparr>rp_stop_time := (if length s < MAX_TIMESTAMP_SIZE then s else [])\<rparr>) t"

definition chkTaskRunning :: "gvm_task \<Rightarrow> bool" where
  "chkTaskRunning t \<longleftrightarrow> getTaskStatus t = GVM_TASK_WAITING \<or> getTaskStatus t = GVM_TASK_RUNNING"

definition chkTaskDone :: "gvm_task \<Rightarrow> bool" where
  "chkTaskDone t \<longleftrightarrow> getTaskStatus t = GVM_TASK_DONE \<or> getTaskStatus t = GVM_TASK_STOP \<or>
     getTaskStatus t = GVM_TASK_INTERRUPT"

definition chkTaskBusy :: "gvm_task \<Rightarrow> bool" where
  "chkTaskBusy t \<longleftrightarrow> chkTaskRunning t \<or> GVM_TASK_CHK_TASK \<noteq> getTaskChkType t"

subsection \<open>Brute-force tasks\<close>

record hydra_paths =
  HYDRA_TASK_DIR :: string
  HYDRA_LOGIN_FILE :: string
  HYDRA_LOGIN_FILE_TMP :: string
  HYDRA_PASSWD_FILE :: string
  HYDRA_PASSWD_FILE_TMP :: string
  HYDRA_IP_LIST_FILE :: string
  HYDRA_IP_LIST_FILE_TMP :: string
  HYDRA_CRON_FILE_NORM :: string
  HYDRA_TASK_GRP_PID_FILE :: string

definition HOSTS_IP_LIST :: int where "HOSTS_IP_LIST = 0"
definition HOSTS_IP_BLOCK :: int where "HOSTS_IP_BLOCK = 1"

record hydra_task =
  h_create_time :: string
  h_modify_time :: string
  h_task_id :: string
  h_task_name :: string
  h_hosts :: string
  h_services :: string
  h_opts :: string
  h_login_list :: string
  h_passwd_list :: string
  h_first_schedule_time :: string
  h_schedule_list :: string
  h_paths :: hydra_paths
  h_schedule_type :: int
  h_hosts_type :: int
  h_pid :: int

end
