(* ===== verification/Requests.thy ===== *)
theory Requests imports Model begin

text \<open>
  How a request travels: the client side (\<^verbatim>\<open>php_*\<close> of \<^verbatim>\<open>task_openvas.c\<close>, \<open>openvas_cmd_entry\<close>) checks the
  parameters, joins them with a delimiter and waits for the answer; the daemon side (\<open>getKeyTaskParam\<close>,
  \<open>getCreateTaskParam\<close> of \<^verbatim>\<open>openvas_business.c\<close>, \<open>getKeyHydraParam\<close>, \<open>getCreateHydraParam\<close> of
  \<^verbatim>\<open>hydra_business.c\<close>) splits and checks them again.
\<close>

subsection \<open>The client\<close>

text \<open>Every field is followed by the delimiter.\<close>

definition kb_fields :: "string list \<Rightarrow> string" where
  "kb_fields flds = concat (map (\<lambda>f. f @ [SOH]) flds)"

definition sendKbMsg :: "env \<Rightarrow> string \<Rightarrow> string \<Rightarrow> string \<Rightarrow> nat \<Rightarrow> ('a rworld_scheme, int) state" where
  "sendKbMsg env key uuid cmd len = do {
     kb \<leftarrow> redis_conn env;
     if \<not> kb then ret GVM_ERR_REDIS_CONN
     else do {
       p \<leftarrow> redis_push_str env key cmd len;
       r \<leftarrow> (if p \<noteq> 0 then ret GVM_ERR_FAIL
             else do {
               (r, v) \<leftarrow> redis_bpop_int env uuid MAX_REDIS_WAIT_TIMEOUT;
               ret (if r = 1 then the v else if r = 0 then GVM_ERR_WAIT_TIMEOUT else GVM_ERR_FAIL)
             });
       _ \<leftarrow> redis_delete;
       ret r
     }
   }"

text \<open>What the eight functions share: an identifier for the answer, the message, the answer.  The buffer
  is the one that \<open>openvas_cmd_entry\<close> allocates.\<close>

definition php_send :: "env \<Rightarrow> string \<Rightarrow> string list \<Rightarrow> ('a rworld_scheme, int) state" where
  "php_send env cmd flds = do {
     (r, uuid) \<leftarrow> genUUID env MAX_UUID_SIZE;
     if r \<noteq> 0 then ret GVM_ERR_INTERNAL_FAIL
     else do {
       let m = snprintf MAX_CACHE_SIZE (kb_fields (uuid # cmd # flds));
       sendKbMsg env OPENVAS_MSG_NAME uuid (fst m) (nat (snd m))
     }
   }"

definition php_key_task :: "env \<Rightarrow> string \<Rightarrow> string \<Rightarrow> ('a rworld_scheme, int) state" where
  "php_key_task env cmd input =
     (case getPhpKeyTaskParam input of
        (r, Some p) \<Rightarrow> if r = 0 then php_send env cmd [pk_task_name p, pk_task_id p, pk_target_id p] else ret GVM_ERR_PARAM_INVALID
      | _ \<Rightarrow> ret GVM_ERR_PARAM_INVALID)"

definition php_start_task :: "env \<Rightarrow> string \<Rightarrow> ('a rworld_scheme, int) state" where
  "php_start_task env input = php_key_task env ''start_task'' input"

definition php_stop_task :: "env \<Rightarrow> string \<Rightarrow> ('a rworld_scheme, int) state" where
  "php_stop_task env input = php_key_task env ''stop_task'' input"

definition php_delete_task :: "env \<Rightarrow> string \<Rightarrow> ('a rworld_scheme, int) state" where
  "php_delete_task env input = php_key_task env ''delete_task'' input"

definition create_task_fields :: "php_create_task_param \<Rightarrow> string list" where
  "create_task_fields p = [pc_task_name p, pc_group_id p, pc_group_name p, pc_hosts p,
     pc_schedule_type p, pc_schedule_time p, pc_schedule_list p]"

definition php_create_task :: "env \<Rightarrow> string \<Rightarrow> ('a rworld_scheme, int) state" where
  "php_create_task env input = do {
     nomem \<leftarrow> fails env;
     if nomem then ret GVM_ERR_INTERNAL_FAIL
     else case getPhpCreateTaskParam input of
            (r, Some p) \<Rightarrow> if r = 0 then php_send env ''create_task'' (create_task_fields p) else ret GVM_ERR_PARAM_INVALID
          | _ \<Rightarrow> ret GVM_ERR_PARAM_INVALID
   }"

definition php_key_hydra :: "env \<Rightarrow> string \<Rightarrow> string \<Rightarrow> ('a rworld_scheme, int) state" where
  "php_key_hydra env cmd input =
     (case getPhpKeyHydraParam input of
        (r, Some p) \<Rightarrow> if r = 0 then php_send env cmd [hk_task_name p, hk_task_id p] else ret GVM_ERR_PARAM_INVALID
      | _ \<Rightarrow> ret GVM_ERR_PARAM_INVALID)"

definition php_start_hydra :: "env \<Rightarrow> string \<Rightarrow> ('a rworld_scheme, int) state" where
  "php_start_hydra env input = php_key_hydra env ''start_hydra'' input"

definition php_stop_hydra :: "env \<Rightarrow> string \<Rightarrow> ('a rworld_scheme, int) state" where
  "php_stop_hydra env input = php_key_hydra env ''stop_hydra'' input"

definition php_delete_hydra :: "env \<Rightarrow> string \<Rightarrow> ('a rworld_scheme, int) state" where
  "php_delete_hydra env input = php_key_hydra env ''delete_hydra'' input"

definition create_hydra_fields :: "php_create_hydra_param \<Rightarrow> string list" where
  "create_hydra_fields p = [hc_task_name p, dec (hc_hosts_type p), hc_hosts p, hc_services p,
     hc_opts p, hc_login_list p, hc_passwd_list p, hc_schedule_type p, hc_schedule_time p, hc_schedule_list p]"

definition php_create_hydra :: "env \<Rightarrow> string \<Rightarrow> ('a rworld_scheme, int) state" where
  "php_create_hydra env input = do {
     nomem \<leftarrow> fails env;
     if nomem then ret GVM_ERR_INTERNAL_FAIL
     else case getPhpCreateHydraParam input of
            (r, Some p) \<Rightarrow> if r = 0 then php_send env ''create_hydra'' (create_hydra_fields p) else ret GVM_ERR_PARAM_INVALID
          | _ \<Rightarrow> ret GVM_ERR_PARAM_INVALID
   }"

definition php_handlers :: "(string \<times> (env \<Rightarrow> string \<Rightarrow> ('a rworld_scheme, int) state)) list" where
  "php_handlers =
     [(''start_task'', php_start_task), (''stop_task'', php_stop_task),
      (''delete_task'', php_delete_task), (''create_task'', php_create_task),
      (''start_hydra'', php_start_hydra), (''stop_hydra'', php_stop_hydra),
      (''delete_hydra'', php_delete_hydra), (''create_hydra'', php_create_hydra)]"

definition openvas_cmd_entry :: "env \<Rightarrow> string \<Rightarrow> string \<Rightarrow> ('a rworld_scheme, int) state" where
  "openvas_cmd_entry env cmd param =
     (case find (\<lambda>(nm, _). strcasecmp nm cmd = 0) php_handlers of
        None \<Rightarrow> ret GVM_ERR_PARAM_INVALID
      | Some (_, h) \<Rightarrow> do {
          nomem \<leftarrow> fails env;
          if nomem then ret GVM_ERR_INTERNAL_FAIL else h env param
        })"

text \<open>The command line client of \<^verbatim>\<open>main.c\<close>.\<close>

definition cliHydra :: "env \<Rightarrow> string \<Rightarrow> string \<Rightarrow> string \<Rightarrow> ('a rworld_scheme, int) state" where
  "cliHydra env cmd taskname taskid = do {
     nomem \<leftarrow> fails env;
     if nomem then ret (- 1)
     else openvas_cmd_entry env cmd
       (fst (snprintf MAX_CACHE_SIZE
          (''taskname='' @ DQS @ taskname @ DQS @ ''&taskid='' @ DQS @ taskid @ DQS)))
   }"

subsection \<open>The daemon\<close>

definition getKeyTaskParam :: "string \<Rightarrow> gvm_task \<Rightarrow> int \<times> gvm_task" where
  "getKeyTaskParam input t =
     (case getNextToken input [SOH] (task_name t) MAX_NAME_SIZE of (r1, nm, s1) \<Rightarrow>
      let t1 = upd_info (\<lambda>i. i\<lparr>ti_task_name := nm\<rparr>) t in
      if r1 \<noteq> 0 then (r1, t1) else
      case getNextToken s1 [SOH] (task_id t1) MAX_UUID_SIZE of (r2, tid, s2) \<Rightarrow>
      let t2 = upd_info (\<lambda>i. i\<lparr>ti_task_id := tid\<rparr>) t1 in
      if r2 \<noteq> 0 then (r2, t2) else
      case getNextToken s2 [SOH] (tg_target_id (m_target_info t2)) MAX_UUID_SIZE of (r3, target, s3) \<Rightarrow>
      let t3 = upd_target (\<lambda>g. g\<lparr>tg_target_id := target\<rparr>) t2 in
      if r3 \<noteq> 0 then (r3, t3) else
      if chkName nm \<noteq> 0 then (chkName nm, t3) else
      let t4 = upd_target (\<lambda>g. g\<lparr>tg_target_name := nm\<rparr>) t3 in
      (first_fail [chkUuid tid, chkUuid target], t4))"

definition getCreateTaskParam :: "string \<Rightarrow> gvm_task \<Rightarrow> int \<times> gvm_task" where
  "getCreateTaskParam input t =
     (case getNextToken input [SOH] (task_name t) MAX_NAME_SIZE of (r1, nm, s1) \<Rightarrow>
      let t1 = upd_info (\<lambda>i. i\<lparr>ti_task_name := nm\<rparr>) t in
      if r1 \<noteq> 0 then (r1, t1) else
      case getNextToken s1 [SOH] (ti_group_id (m_task_info t1)) MAX_MEM_LIST_SIZE of (r2, gid, s2) \<Rightarrow>
      let t2 = upd_info (\<lambda>i. i\<lparr>ti_group_id := gid\<rparr>) t1 in
      if r2 \<noteq> 0 then (r2, t2) else
      case getNextToken s2 [SOH] (ti_group_name (m_task_info t2)) MAX_MEM_LIST_SIZE of (r3, gname, s3) \<Rightarrow>
      let t3 = upd_info (\<lambda>i. i\<lparr>ti_group_name := gname\<rparr>) t2 in
      if r3 \<noteq> 0 then (r3, t3) else
      case getNextToken s3 [SOH] (tg_hosts (m_target_info t3)) MAX_MEM_LIST_SIZE of (r4, hosts, s4) \<Rightarrow>
      let t4 = upd_target (\<lambda>g. g\<lparr>tg_hosts := hosts\<rparr>) t3 in
      if r4 \<noteq> 0 then (r4, t4) else
      case getNextTokenInt s4 [SOH] of (r5, n, s5) \<Rightarrow>
      if r5 \<noteq> 0 then (r5, t4) else
      let t5 = upd_info (\<lambda>i. i\<lparr>ti_schedule_type := n\<rparr>) t4 in
      case getNextToken s5 [SOH] (ti_first_schedule_time (m_task_info t5)) MAX_TIMESTAMP_SIZE of (r6, stime, s6) \<Rightarrow>
      let t6 = upd_info (\<lambda>i. i\<lparr>ti_first_schedule_time := stime\<rparr>) t5 in
      if r6 \<noteq> 0 then (r6, t6) else
      case getNextToken s6 [SOH] (ti_schedule_list (m_task_info t6)) MAX_SCHEDULE_LIST_SIZE of (r7, slist, s7) \<Rightarrow>
      let t7 = upd_info (\<lambda>i. i\<lparr>ti_schedule_list := slist\<rparr>) t6 in
      if r7 \<noteq> 0 then (r7, t7) else
      if chkName nm \<noteq> 0 then (chkName nm, t7) else
      let t8 = upd_target (\<lambda>g. g\<lparr>tg_target_name := nm\<rparr>) t7;
          ret = first_fail [chkConfigInfo gid gname, chkHosts hosts, chkScheduleParam n stime slist] in
      if ret \<noteq> 0 then (ret, t8)
      else (0, upd_target (\<lambda>g. g\<lparr>tg_portlist_id := DEF_OPENVAS_PORT_LIST_ID\<rparr>) t8))"

definition getKeyHydraParam :: "string \<Rightarrow> hydra_task \<Rightarrow> int \<times> hydra_task" where
  "getKeyHydraParam input t =
     (case getNextToken input [SOH] (h_task_name t) MAX_NAME_SIZE of (r1, nm, s1) \<Rightarrow>
      let t1 = t\<lparr>h_task_name := nm\<rparr> in
      if r1 \<noteq> 0 then (r1, t1) else
      case getNextToken s1 [SOH] (h_task_id t1) MAX_UUID_SIZE of (r2, tid, s2) \<Rightarrow>
      let t2 = t1\<lparr>h_task_id := tid\<rparr> in
      if r2 \<noteq> 0 then (r2, t2) else (first_fail [chkName nm, chkUuid tid], t2))"

text \<open>The tokens of a request to create a brute-force task; then the checks, with the type of the hosts
  stored after its check; then a new identifier.\<close>

definition hydra_tokens :: "string \<Rightarrow> hydra_task \<Rightarrow> int \<times> int \<times> hydra_task" where
  "hydra_tokens input t =
     (case getNextToken input [SOH] (h_task_name t) MAX_NAME_SIZE of (r1, nm, s1) \<Rightarrow>
      let t1 = t\<lparr>h_task_name := nm\<rparr> in
      if r1 \<noteq> 0 then (r1, 0, t1) else
      case getNextTokenInt s1 [SOH] of (r2, htype, s2) \<Rightarrow>
      if r2 \<noteq> 0 then (r2, 0, t1) else
      case getNextToken s2 [SOH] (h_hosts t1) MAX_MEM_LIST_SIZE of (r3, hosts, s3) \<Rightarrow>
      let t3 = t1\<lparr>h_hosts := hosts\<rparr> in
      if r3 \<noteq> 0 then (r3, htype, t3) else
      case getNextToken s3 [SOH] (h_services t3) MAX_MEM_LIST_SIZE of (r4, services, s4) \<Rightarrow>
      let t4 = t3\<lparr>h_services := services\<rparr> in
      if r4 \<noteq> 0 then (r4, htype, t4) else
      case getNextToken s4 [SOH] (h_opts t4) MAX_MEM_LIST_SIZE of (r5, opts, s5) \<Rightarrow>
      let t5 = t4\<lparr>h_opts := opts\<rparr> in
      if r5 \<noteq> 0 then (r5, htype, t5) else
      case getNextToken s5 [SOH] (h_login_list t5) MAX_MEM_LIST_SIZE of (r6, login, s6) \<Rightarrow>
      let t6 = t5\<lparr>h_login_list := login\<rparr> in
      if r6 \<noteq> 0 then (r6, htype, t6) else
      case getNextToken s6 [SOH] (h_passwd_list t6) MAX_MEM_LIST_SIZE of (r7, passwd, s7) \<Rightarrow>
      let t7 = t6\<lparr>h_passwd_list := passwd\<rparr> in
      if r7 \<noteq> 0 then (r7, htype, t7) else
      case getNextTokenInt s7 [SOH] of (r8, n, s8) \<Rightarrow>
      if r8 \<noteq> 0 then (r8, htype, t7) else
      let t8 = t7\<lparr>h_schedule_type := n\<rparr> in
      case getNextToken s8 [SOH] (h_first_schedule_time t8) MAX_TIMESTAMP_SIZE of (r9, stime, s9) \<Rightarrow>
      let t9 = t8\<lparr>h_first_schedule_time := stime\<rparr> in
      if r9 \<noteq> 0 then (r9, htype, t9) else
      case getNextToken s9 [SOH] (h_schedule_list t9) MAX_SCHEDULE_LIST_SIZE of (r10, slist, s10) \<Rightarrow>
      (r10, htype, t9\<lparr>h_schedule_list := slist\<rparr>))"

definition getCreateHydraParam :: "env \<Rightarrow> string \<Rightarrow> hydra_task \<Rightarrow> ('a world_scheme, int \<times> hydra_task) state" where
  "getCreateHydraParam env input t0 =
     (case hydra_tokens input t0 of (r, htype, t) \<Rightarrow>
        if r \<noteq> 0 then ret (r, t)
        else if first_fail [chkName (h_task_name t), chkHydraHostsIntern htype (h_hosts t)] \<noteq> 0
        then ret (first_fail [chkName (h_task_name t), chkHydraHostsIntern htype (h_hosts t)], t)
        else
          let t1 = t\<lparr>h_hosts_type := htype\<rparr>;
              r1 = first_fail [chkLoginList (h_login_list t), chkPasswdList (h_passwd_list t),
                chkServices (h_services t),
                chkScheduleParam (h_schedule_type t) (h_first_schedule_time t) (h_schedule_list t)]
          in if r1 \<noteq> 0 then ret (r1, t1)
             else do {
               (r2, uuid) \<leftarrow> genUUID env MAX_UUID_SIZE;
               ret (if r2 \<noteq> 0 then r2 else 0, t1\<lparr>h_task_id := uuid\<rparr>)
             })"

end
