(* ===== verification/RequestProps.thy ===== *)
theory RequestProps imports Requests begin

text \<open>
  What the daemons get from what a client accepted: every field arrives unchanged and passes the
  checks of the daemon, unless the kind of schedule does not start with a digit.
\<close>

subsection \<open>Fields of a message\<close>

lemma kb_fields_simps [simp]: "kb_fields [] = []" "kb_fields (f # fl) = f @ SOH # kb_fields fl"
  by (simp_all add: kb_fields_def)

lemma token_field [simp]:
  "SOH \<notin> set f \<Longrightarrow> length f < n \<Longrightarrow> getNextToken (f @ SOH # r) [SOH] b n = (0, f, r)"
  by (rule getNextToken_field)

text \<open>A number is a field whose first character is a digit.\<close>

definition number_field :: "string \<Rightarrow> bool" where
  "number_field f \<longleftrightarrow> f \<noteq> [] \<and> isdigit (hd f)"

lemma tokenInt_field:
  "SOH \<notin> set f \<Longrightarrow> length f < MAX_COMM_MIN_SIZE \<Longrightarrow>
    getNextTokenInt (f @ SOH # r) [SOH] = (if number_field f then (0, atoi f, r) else (- 2, - 1, r))"
  by (simp add: getNextTokenInt_def number_field_def)

text \<open>The delimiter in the strings of the patterns.\<close>

abbreviation "no_soh \<equiv> \<lambda>c. c \<noteq> SOH"

lemma SOH_facts [simp]:
  "\<not> isdigit SOH" "\<not> isxdigit SOH" "\<not> isalnum SOH" "byte SOH = 1"
  by (simp_all add: SOH_def isdigit_def isxdigit_def isalnum_def byte_def of_char_def)

lemma SOH_neq [simp]:
  "CHR '','' \<noteq> SOH" "CHR ''-'' \<noteq> SOH" "CHR '':'' \<noteq> SOH" "CHR '' '' \<noteq> SOH" "CHR ''/'' \<noteq> SOH" "CHR ''.'' \<noteq> SOH"
  by (simp_all add: SOH_def)

declare SOH_neq [symmetric, simp]

lemma over_digit [simp]: "over no_soh DIGIT" "over no_soh XDIGIT"
  by (auto simp: DIGIT_def XDIGIT_def)

lemma over_mono: "over p r \<Longrightarrow> (\<And>c. p c \<Longrightarrow> q c) \<Longrightarrow> over q r"
  by (induction r) auto

lemma over_no_soh:
  "over no_soh (OR_REPEAT UUID_REG_PATTERN)" "over no_soh UUID_REG_PATTERN"
  "over no_soh (OR_REPEAT CUSTOM_IP_RANGE_PATTERN)" "over no_soh (OR_REPEAT CUSTOM_IP_OR_PORT)"
  "over no_soh CUSTOM_IP_BLOCK_OR_PORT" "over no_soh CUSTOM_TIME_STAMP_PATTERN"
proof -
  have k: "over no_soh r" if "over host_char r \<or> over hydra_host_char r" for r
    using that by (auto elim!: over_mono simp: host_char_def hydra_host_char_def one_of_def)
  show u: "over no_soh UUID_REG_PATTERN"
    unfolding UUID_REG_PATTERN_def Seqs.simps by (simp add: over_Rep del: Rep.simps)
  show "over no_soh CUSTOM_TIME_STAMP_PATTERN"
    unfolding CUSTOM_TIME_STAMP_PATTERN_def Seqs.simps by (simp add: over_Rep del: Rep.simps)
  show "over no_soh CUSTOM_IP_BLOCK_OR_PORT"
    by (intro k disjI2 over_IP_BLOCK_OR_PORT)
  show "over no_soh (OR_REPEAT UUID_REG_PATTERN)" using u by (intro over_OR_REPEAT) simp_all
  show "over no_soh (OR_REPEAT CUSTOM_IP_RANGE_PATTERN)"
    using k over_IP_RANGE by (intro over_OR_REPEAT) auto
  show "over no_soh (OR_REPEAT CUSTOM_IP_OR_PORT)"
    using k over_IP_OR_PORT by (intro over_OR_REPEAT) auto
qed

lemma no_soh_lang: "over no_soh r \<Longrightarrow> s \<in> lang r \<Longrightarrow> SOH \<notin> set s"
  using over_lang by blast

subsection \<open>What the client accepted\<close>

lemma create_task_accepted:
  assumes "getPhpCreateTaskParam input = (0, Some p)"
  shows "length (pc_task_name p) < MAX_NAME_SIZE \<and> length (pc_group_id p) < MAX_MEM_LIST_SIZE \<and>
    length (pc_group_name p) < MAX_MEM_LIST_SIZE \<and> length (pc_hosts p) < MAX_MEM_LIST_SIZE \<and>
    length (pc_schedule_type p) < MAX_COMM_MIN_SIZE \<and> length (pc_schedule_time p) < MAX_TIMESTAMP_SIZE \<and>
    length (pc_schedule_list p) < MAX_SCHEDULE_LIST_SIZE \<and>
    chkName (pc_task_name p) = 0 \<and> chkConfigInfo (pc_group_id p) (pc_group_name p) = 0 \<and>
    chkHosts (pc_hosts p) = 0 \<and>
    chkScheduleParam (atoi (pc_schedule_type p)) (pc_schedule_time p) (pc_schedule_list p) = 0 \<and>
    (\<exists>hosts. tmatch True create_task_template input =
       Some [pc_task_name p, pc_group_id p, pc_group_name p, hosts, pc_schedule_type p, pc_schedule_time p,
         pc_schedule_list p] \<and> pc_hosts p = join (host_entries hosts))"
proof -
  obtain nm gid gname hosts stype stime slist where m:
    "tmatch True create_task_template input = Some [nm, gid, gname, hosts, stype, stime, slist]"
    using assms unfolding getPhpCreateTaskParam_def by (auto split: option.splits list.splits)
  have rs: "chkHostsExt hosts = 0 \<Longrightarrow> escapeHosts hosts = (0, join (host_entries hosts)) \<and>
      join (host_entries hosts) \<in> lang (OR_REPEAT CUSTOM_IP_RANGE_PATTERN)"
    using escapeHosts_list [of hosts] unfolding OR_REPEAT_iff by blast
  have "length (snd (escapeHosts hosts)) \<le> length hosts" by (rule escape_length)
  then show ?thesis
    using assms rs unfolding getPhpCreateTaskParam_def m
    by (auto simp: Let_def first_fail_0 chkHosts_def split: if_splits)
qed

lemma schedule_time_no_soh: "chkScheduleParam n tm ds = 0 \<Longrightarrow> SOH \<notin> set tm"
  using no_soh_lang [OF over_no_soh(6), of tm]
  by (auto simp: chkScheduleParam_def chkTimeStamp_def split: if_splits)

text \<open>C10: a request to create a scan task that the client accepts, in which no free text contains the
  delimiter of the message, arrives at the daemon with the fields of the request, the hosts as the plain list
  of their entries.  If the kind of schedule starts with a digit, the daemon accepts the request, reads every
  field as it was, gives the target the name of the task and takes the default ports.  If the kind of schedule
  is empty or starts with something else, which the client lets through, the daemon refuses the request.\<close>

theorem create_task_roundtrip:
  assumes "getPhpCreateTaskParam input = (0, Some p)"
    and "SOH \<notin> set (pc_task_name p @ pc_group_name p @ pc_schedule_type p @ pc_schedule_list p)"
  shows "(\<exists>hosts. tmatch True create_task_template input =
       Some [pc_task_name p, pc_group_id p, pc_group_name p, hosts, pc_schedule_type p, pc_schedule_time p,
         pc_schedule_list p] \<and> pc_hosts p = join (host_entries hosts)) \<and>
    (if number_field (pc_schedule_type p)
     then \<exists>t. getCreateTaskParam (kb_fields (create_task_fields p)) new_gvm_task = (0, t) \<and>
       task_name t = pc_task_name p \<and> tg_target_name (m_target_info t) = pc_task_name p \<and>
       ti_group_id (m_task_info t) = pc_group_id p \<and> ti_group_name (m_task_info t) = pc_group_name p \<and>
       tg_hosts (m_target_info t) = pc_hosts p \<and>
       ti_schedule_type (m_task_info t) = atoi (pc_schedule_type p) \<and>
       ti_first_schedule_time (m_task_info t) = pc_schedule_time p \<and>
       ti_schedule_list (m_task_info t) = pc_schedule_list p \<and>
       tg_portlist_id (m_target_info t) = DEF_OPENVAS_PORT_LIST_ID
     else fst (getCreateTaskParam (kb_fields (create_task_fields p)) new_gvm_task) = - 2)"
proof -
  note a = create_task_accepted [OF assms(1)]
  have "SOH \<notin> set (pc_group_id p)"
    using a no_soh_lang [OF over_no_soh(1)] by (auto simp: chkConfigInfo_def Let_def split: if_splits)
  moreover have "SOH \<notin> set (pc_hosts p)"
    using a no_soh_lang [OF over_no_soh(3)] by (simp add: chkHosts_def)
  moreover have "SOH \<notin> set (pc_schedule_time p)"
    using a schedule_time_no_soh by blast
  ultimately show ?thesis
    using a assms(2)
    by (simp add: getCreateTaskParam_def create_task_fields_def tokenInt_field Let_def upd_info_def upd_target_def)
qed

definition demo_request :: string where
  "demo_request = ''taskname='' @ DQS @ ''web_1'' @ DQS @ ''&group='' @ DQS @
     ''0000000a-0000-0000-0000-000000000000'' @ DQS @ ''&groupname='' @ DQS @ ''base'' @ DQS @ ''&hosts='' @ DQS @
     ''10.0.0.1, 10.0.0.7'' @ DQS @ ''&schdule_type='' @ DQS @ ''1'' @ DQS @ ''&schedule_time='' @ DQS @
     ''2021-05-06 07:08:09'' @ DQS @ ''&schedule_list='' @ DQS @ DQS"

text \<open>The same request without a kind of schedule.\<close>

definition demo_request_none :: string where
  "demo_request_none = ''taskname='' @ DQS @ ''web_1'' @ DQS @ ''&group='' @ DQS @
     ''0000000a-0000-0000-0000-000000000000'' @ DQS @ ''&groupname='' @ DQS @ ''base'' @ DQS @ ''&hosts='' @ DQS @
     ''10.0.0.1, 10.0.0.7'' @ DQS @ ''&schdule_type='' @ DQS @ DQS @ ''&schedule_time='' @ DQS @
     DQS @ ''&schedule_list='' @ DQS @ DQS"

lemma create_task_roundtrip_witness:
  "\<exists>p t q. getPhpCreateTaskParam demo_request = (0, Some p) \<and>
    getCreateTaskParam (kb_fields (create_task_fields p)) new_gvm_task = (0, t) \<and>
    tg_hosts (m_target_info t) = ''10.0.0.1,10.0.0.7'' \<and>
    getPhpCreateTaskParam demo_request_none = (0, Some q) \<and>
    fst (getCreateTaskParam (kb_fields (create_task_fields q)) new_gvm_task) = - 2"
proof -
  define p where "p = \<lparr>pc_task_name = ''web_1'', pc_group_name = ''base'',
    pc_group_id = ''0000000a-0000-0000-0000-000000000000'', pc_hosts = ''10.0.0.1,10.0.0.7'',
    pc_schedule_type = ''1'', pc_schedule_time = ''2021-05-06 07:08:09'', pc_schedule_list = []\<rparr>"
  define q where "q = p\<lparr>pc_schedule_type := [], pc_schedule_time := []\<rparr>"
  have g: "getPhpCreateTaskParam demo_request = (0, Some p)" "getPhpCreateTaskParam demo_request_none = (0, Some q)"
    unfolding q_def p_def by code_simp+
  have f: "number_field (pc_schedule_type p)" "\<not> number_field (pc_schedule_type q)"
    "SOH \<notin> set (pc_task_name p @ pc_group_name p @ pc_schedule_type p @ pc_schedule_list p)"
    "SOH \<notin> set (pc_task_name q @ pc_group_name q @ pc_schedule_type q @ pc_schedule_list q)"
    by (simp_all add: p_def q_def number_field_def SOH_def)
  show ?thesis
    using create_task_roundtrip [OF g(1) f(3)] create_task_roundtrip [OF g(2) f(4)] g f(1,2)
    by (auto simp: p_def)
qed

lemma hydra_groups:
  assumes "getPhpCreateHydraParam input = (0, Some p)"
  shows "\<exists>xs. length xs = 10 \<and> tmatch True create_hydra_template input = Some xs"
proof (cases "tmatch True create_hydra_template input")
  case (Some xs)
  then show ?thesis
    using assms unfolding getPhpCreateHydraParam_def by (simp only: option.case) (auto split: list.splits)
qed (use assms in \<open>simp add: getPhpCreateHydraParam_def\<close>)

lemma length_10: "length xs = 10 \<Longrightarrow> \<exists>a b c d e f g h i j. xs = [a, b, c, d, e, f, g, h, i, j]"
  by (clarsimp simp: numeral_eq_Suc length_Suc_conv)

lemma hydra_hosts_intern:
  assumes "chkHydraHosts t hosts = 0"
  shows "chkHydraHostsIntern t (snd (escapeHydraHosts hosts)) = 0 \<and> (t = 0 \<or> t = 1) \<and>
    snd (escapeHydraHosts hosts) = (if t = 0 then join (host_entries hosts) else hosts)"
proof (cases "t = 0")
  case True
  then show ?thesis
    using assms escapeHydraHosts_list [of hosts] unfolding chkHydraHostsIntern_def
    by (auto simp: OR_REPEAT_iff)
next
  case False
  then have "t = 1" "hosts \<in> lang CUSTOM_IP_BLOCK_OR_PORT"
    using assms by (auto simp: chkHydraHosts_def split: if_splits)
  then show ?thesis by (simp add: chkHydraHostsIntern_def escapeHydraHosts_block)
qed

lemma create_hydra_accepted:
  assumes "getPhpCreateHydraParam input = (0, Some p)"
  shows "length (hc_task_name p) < MAX_NAME_SIZE \<and> length (hc_hosts p) < MAX_MEM_LIST_SIZE \<and>
    length (hc_services p) < MAX_MEM_LIST_SIZE \<and> length (hc_opts p) < MAX_MEM_LIST_SIZE \<and>
    length (hc_login_list p) < MAX_MEM_LIST_SIZE \<and> length (hc_passwd_list p) < MAX_MEM_LIST_SIZE \<and>
    length (hc_schedule_type p) < MAX_COMM_MIN_SIZE \<and> length (hc_schedule_time p) < MAX_TIMESTAMP_SIZE \<and>
    length (hc_schedule_list p) < MAX_SCHEDULE_LIST_SIZE \<and>
    chkName (hc_task_name p) = 0 \<and> (hc_hosts_type p = 0 \<or> hc_hosts_type p = 1) \<and>
    chkHydraHostsIntern (hc_hosts_type p) (hc_hosts p) = 0 \<and>
    chkLoginList (hc_login_list p) = 0 \<and> chkPasswdList (hc_passwd_list p) = 0 \<and>
    chkServices (hc_services p) = 0 \<and>
    chkScheduleParam (atoi (hc_schedule_type p)) (hc_schedule_time p) (hc_schedule_list p) = 0 \<and>
    (\<exists>htype hosts. tmatch True create_hydra_template input =
       Some [hc_task_name p, htype, hosts, hc_services p, hc_opts p, hc_login_list p, hc_passwd_list p,
         hc_schedule_type p, hc_schedule_time p, hc_schedule_list p] \<and> hc_hosts_type p = atoi htype \<and>
       hc_hosts p = (if hc_hosts_type p = 0 then join (host_entries hosts) else hosts))"
proof -
  obtain xs where xs: "length xs = 10" "tmatch True create_hydra_template input = Some xs"
    using hydra_groups [OF assms] by blast
  from length_10 [OF xs(1)] obtain nm htype hosts services opts login passwd stype stime slist where
    "xs = [nm, htype, hosts, services, opts, login, passwd, stype, stime, slist]"
    by (elim exE)
  then have m: "tmatch True create_hydra_template input =
      Some [nm, htype, hosts, services, opts, login, passwd, stype, stime, slist]"
    using xs(2) by simp
  have "length (snd (escapeHydraHosts hosts)) \<le> length hosts" by (rule escape_length)
  then show ?thesis
    using assms hydra_hosts_intern [of "atoi htype" hosts] unfolding getPhpCreateHydraParam_def m option.case list.case Let_def
    by (simp_all only: first_fail_0 split: if_splits) auto
qed

lemma services_no_soh: "chkServices s = 0 \<Longrightarrow> SOH \<notin> set s"
proof -
  assume "chkServices s = 0"
  then obtain svs b where s: "set svs \<subseteq> set SYS_SERVICE_LIST" "s = tokens_of svs b"
    using chkServices_loop_sound [of s False] unfolding chkServices_def by blast
  have "\<forall>v\<in>set SYS_SERVICE_LIST. SOH \<notin> set v" by (simp add: SYS_SERVICE_LIST_def SOH_def)
  then have "\<forall>v\<in>set svs. SOH \<notin> set v" using s(1) by blast
  then show ?thesis
    unfolding s(2) by (induction svs b rule: tokens_of.induct) auto
qed

text \<open>C21: the same for requests to create a brute-force task.  If the kind of schedule starts with a digit,
  the daemon adds a new identifier, and the task it stores has the fields of the request; if the kind of
  schedule is empty or starts with something else, the daemon refuses the request that the client accepted.\<close>

theorem create_hydra_roundtrip:
  assumes "getPhpCreateHydraParam input = (0, Some p)"
    and "SOH \<notin> set (hc_task_name p @ hc_opts p @ hc_login_list p @ hc_passwd_list p @ hc_schedule_type p @
      hc_schedule_list p)"
    and "\<forall>t. broken_down (localtime env t)"
    and "run_state (getCreateHydraParam env (kb_fields (create_hydra_fields p)) t0) (w :: 'a world_scheme) = ((r, t), w')"
  shows "(\<exists>htype hosts. tmatch True create_hydra_template input =
       Some [hc_task_name p, htype, hosts, hc_services p, hc_opts p, hc_login_list p, hc_passwd_list p,
         hc_schedule_type p, hc_schedule_time p, hc_schedule_list p] \<and> hc_hosts_type p = atoi htype \<and>
       hc_hosts p = (if hc_hosts_type p = 0 then join (host_entries hosts) else hosts)) \<and>
    (if number_field (hc_schedule_type p)
     then r = 0 \<and> chkUuid (h_task_id t) = 0 \<and> h_task_name t = hc_task_name p \<and>
       h_hosts_type t = hc_hosts_type p \<and> h_hosts t = hc_hosts p \<and> h_services t = hc_services p \<and>
       h_opts t = hc_opts p \<and> h_login_list t = hc_login_list p \<and> h_passwd_list t = hc_passwd_list p \<and>
       h_schedule_type t = atoi (hc_schedule_type p) \<and> h_first_schedule_time t = hc_schedule_time p \<and>
       h_schedule_list t = hc_schedule_list p
     else r = - 2)"
proof -
  note a = create_hydra_accepted [OF assms(1)]
  have s: "SOH \<notin> set (hc_hosts p)" "SOH \<notin> set (hc_schedule_time p)" "SOH \<notin> set (hc_services p)"
    using a no_soh_lang [OF over_no_soh(4)] no_soh_lang [OF over_no_soh(5)] schedule_time_no_soh services_no_soh
    by (auto simp: chkHydraHostsIntern_def)
  have d: "getNextTokenInt (dec (hc_hosts_type p) @ SOH # rest) [SOH] = (0, hc_hosts_type p, rest)" for rest
    using a by (intro getNextTokenInt_dec) auto
  show ?thesis
  proof (cases "number_field (hc_schedule_type p)")
    case True
    let ?t = "t0\<lparr>h_task_name := hc_task_name p, h_hosts := hc_hosts p, h_services := hc_services p,
      h_opts := hc_opts p, h_login_list := hc_login_list p, h_passwd_list := hc_passwd_list p,
      h_schedule_type := atoi (hc_schedule_type p), h_first_schedule_time := hc_schedule_time p,
      h_schedule_list := hc_schedule_list p\<rparr>"
    have "hydra_tokens (kb_fields (create_hydra_fields p)) t0 = (0, hc_hosts_type p, ?t)"
      using a s assms(2) True
      by (simp add: hydra_tokens_def create_hydra_fields_def tokenInt_field d Let_def)
    then have e: "(getCreateHydraParam env (kb_fields (create_hydra_fields p)) t0 :: ('a world_scheme, _) state) = do {
        (r2, uuid) \<leftarrow> genUUID env MAX_UUID_SIZE;
        ret (if r2 \<noteq> 0 then r2 else 0, ?t\<lparr>h_hosts_type := hc_hosts_type p, h_task_id := uuid\<rparr>) }"
      using a by (simp add: getCreateHydraParam_def Let_def)
    have "36 < MAX_UUID_SIZE" by (simp add: max_defs)
    note g = wp_genUUID [OF assms(3) this, of w]
    have "wp (genUUID env MAX_UUID_SIZE) (\<lambda>r _. fst r = 0 \<and> chkUuid (snd r) = 0) w"
      using g by (rule wp_mono) simp
    then have "wp (getCreateHydraParam env (kb_fields (create_hydra_fields p)) t0)
        (\<lambda>(r, t) _. r = 0 \<and> (\<exists>u. chkUuid u = 0 \<and> t = ?t\<lparr>h_hosts_type := hc_hosts_type p, h_task_id := u\<rparr>)) w"
      unfolding e wp_bind by (rule wp_mono) (force split: prod.splits)
    from wp_run [OF this assms(4)] show ?thesis using a True by auto
  next
    case False
    then have "fst (hydra_tokens (kb_fields (create_hydra_fields p)) t0) = - 2"
      using a s assms(2)
      by (simp add: hydra_tokens_def create_hydra_fields_def tokenInt_field d Let_def)
    then have "r = - 2"
      using assms(4) by (auto simp: getCreateHydraParam_def split: prod.splits)
    then show ?thesis using a False by simp
  qed
qed

definition new_hydra_task :: hydra_task where
  "new_hydra_task = \<lparr>h_create_time = [], h_modify_time = [], h_task_id = [], h_task_name = [], h_hosts = [],
     h_services = [], h_opts = [], h_login_list = [], h_passwd_list = [], h_first_schedule_time = [],
     h_schedule_list = [],
     h_paths = \<lparr>HYDRA_TASK_DIR = [], HYDRA_LOGIN_FILE = [], HYDRA_LOGIN_FILE_TMP = [],
       HYDRA_PASSWD_FILE = [], HYDRA_PASSWD_FILE_TMP = [], HYDRA_IP_LIST_FILE = [],
       HYDRA_IP_LIST_FILE_TMP = [], HYDRA_CRON_FILE_NORM = [], HYDRA_TASK_GRP_PID_FILE = []\<rparr>,
     h_schedule_type = 0, h_hosts_type = 0, h_pid = 0\<rparr>"

definition demo_hydra_request :: string where
  "demo_hydra_request = ''taskname='' @ DQS @ ''brute'' @ DQS @ ''&hosts_type='' @ DQS @ ''0'' @ DQS @
     ''&hosts='' @ DQS @ ''10.0.0.1:22 10.0.0.7'' @ DQS @ ''&services='' @ DQS @ ''ssh,ftp'' @ DQS @
     ''&opts='' @ DQS @ ''x'' @ DQS @ ''&login_list='' @ DQS @ ''users'' @ DQS @ ''&passwd_list='' @ DQS @
     ''words'' @ DQS @ ''&schdule_type='' @ DQS @ ''0'' @ DQS @ ''&schedule_time='' @ DQS @ DQS @
     ''&schedule_list='' @ DQS @ DQS"

lemma create_hydra_roundtrip_witness:
  "\<exists>p. getPhpCreateHydraParam demo_hydra_request = (0, Some p) \<and>
    h_hosts (snd (fst (run_state (getCreateHydraParam demo_env (kb_fields (create_hydra_fields p)) new_hydra_task)
      demo_world))) = ''10.0.0.1:22,10.0.0.7''"
proof -
  define p where "p = \<lparr>hc_hosts_type = 0, hc_task_name = ''brute'', hc_hosts = ''10.0.0.1:22,10.0.0.7'',
    hc_services = ''ssh,ftp'', hc_opts = ''x'', hc_login_list = ''users'', hc_passwd_list = ''words'',
    hc_schedule_type = ''0'', hc_schedule_time = [], hc_schedule_list = []\<rparr>"
  have g: "getPhpCreateHydraParam demo_hydra_request = (0, Some p)"
    unfolding p_def by code_simp
  let ?m = "run_state (getCreateHydraParam demo_env (kb_fields (create_hydra_fields p)) new_hydra_task) demo_world"
  have b: "\<forall>t. broken_down (localtime demo_env t)" by (simp add: demo_env_def broken_down_def)
  have "h_hosts (snd (fst ?m)) = hc_hosts p"
    using create_hydra_roundtrip [OF g _ b, of new_hydra_task demo_world "fst (fst ?m)" "snd (fst ?m)" "snd ?m"]
    by (simp add: p_def SOH_def number_field_def)
  then show ?thesis using g by (auto simp: p_def)
qed

end
