(* ===== verification/Gvm.thy ===== *)
theory Gvm imports RequestProps begin

text \<open>
  The commands to the scanner (\<open>procGvmTask\<close> and \<open>gvm_*\<close> of \<^verbatim>\<open>openvas_business.c\<close> and
  \<^verbatim>\<open>openvas_opts.c\<close>): an XML request, escaped, becomes an argument of a shell command whose output is
  the reply.  What the shell command prints is a parameter; every command given to the shell is kept in
  the state.
\<close>

subsection \<open>Shell commands\<close>

record gworld = rworld +
  ran :: "string list"
  kills :: "(int \<times> int) list"      \<comment> \<open>process and signal\<close>

definition GVM_CMD_PREFIX :: string where
  "GVM_CMD_PREFIX = ''/usr/local/openvas/python/bin/gvm-cli --timeout 5 --gmp-username admin --gmp-password 123456 tls --xml ''"

definition GVM_CMD_SUFFIX :: string where
  "GVM_CMD_SUFFIX = '' 2>&1 </dev/null''"

definition GVM_CMD_MARK :: "string \<Rightarrow> string" where
  "GVM_CMD_MARK xml = GVM_CMD_PREFIX @ DQS @ xml @ DQS @ GVM_CMD_SUFFIX"

text \<open>\<open>popen\<close> and the loop that reads up to the capacity of the buffer.\<close>

definition exeCmd :: "env \<Rightarrow> string \<Rightarrow> nat \<Rightarrow> ('a gworld_scheme, int \<times> string) state" where
  "exeCmd env cmd cap = do {
     t \<leftarrow> now;
     modify (\<lambda>w. w\<lparr>ran := ran w @ [cmd]\<rparr>);
     ret (case popen env t cmd of None \<Rightarrow> (- 1, []) | Some out \<Rightarrow> (0, take cap out))
   }"

text \<open>The buffers of the daemon all have the capacity \<open>MAX_CACHE_SIZE\<close>.\<close>

definition procGvmTask :: "env \<Rightarrow> string \<Rightarrow> string \<Rightarrow> ('a gworld_scheme, int \<times> string) state" where
  "procGvmTask env cmd xml =
     (case escapeXml xml MAX_CACHE_SIZE of (n, esc) \<Rightarrow>
        if n = 0 then ret (- 1, [])
        else
          let line = snprintf MAX_CACHE_SIZE (GVM_CMD_MARK esc)
          in if 0 < snd line \<and> snd line < int MAX_CACHE_SIZE
             then do {
               (r, out) \<leftarrow> exeCmd env (fst line) MAX_CACHE_SIZE;
               ret (if r = 0 then chkRspStatusOk cmd (c_str out) else r, out)
             }
             else ret (- 1, []))"

text \<open>A request printed into the buffer and processed.\<close>

definition gvm_request :: "env \<Rightarrow> string \<Rightarrow> string \<Rightarrow> ('a gworld_scheme, int \<times> string) state" where
  "gvm_request env cmd xml = procGvmTask env cmd (fst (snprintf MAX_CACHE_SIZE xml))"

subsection \<open>Requests\<close>

definition attr :: "string \<Rightarrow> string \<Rightarrow> string" where
  "attr nm v = nm @ ''='' @ DQS @ v @ DQS"

definition CRLF :: string where "CRLF = [CHR 0x0D, CHR 0x0A]"

definition REQ_GVM_START_TASK_MARK :: "string \<Rightarrow> string" where
  "REQ_GVM_START_TASK_MARK u = ''<start_task '' @ attr ''task_id'' u @ ''/>''"

definition REQ_GVM_STOP_TASK_MARK :: "string \<Rightarrow> string" where
  "REQ_GVM_STOP_TASK_MARK u = ''<stop_task '' @ attr ''task_id'' u @ ''/>''"

definition REQ_GVM_DELETE_TASK_MARK :: "string \<Rightarrow> string" where
  "REQ_GVM_DELETE_TASK_MARK u = ''<delete_task '' @ attr ''task_id'' u @ ''/>''"

definition REQ_GVM_DELETE_TARGET_MARK :: "string \<Rightarrow> string" where
  "REQ_GVM_DELETE_TARGET_MARK u = ''<delete_target '' @ attr ''target_id'' u @ ''/>''"

definition REQ_GVM_DELETE_SCHEDULE_MARK :: "string \<Rightarrow> string" where
  "REQ_GVM_DELETE_SCHEDULE_MARK u = ''<delete_schedule '' @ attr ''schedule_id'' u @ ''/>''"

definition REQ_GVM_DELETE_CONFIG_MARK :: "string \<Rightarrow> string" where
  "REQ_GVM_DELETE_CONFIG_MARK u = ''<delete_config '' @ attr ''config_id'' u @ ''/>''"

definition task_preferences :: string where
  "task_preferences =
     ''<preferences><preference><scanner_name>auto_delete</scanner_name><value>keep</value></preference>'' @
     ''<preference><scanner_name>auto_delete_data</scanner_name><value>5</value></preference></preferences></create_task>''"

definition REQ_GVM_CREATE_TASK_MARK :: "string \<Rightarrow> string \<Rightarrow> string \<Rightarrow> string" where
  "REQ_GVM_CREATE_TASK_MARK nm target config =
     ''<create_task><name>wEb_'' @ nm @ ''</name><target '' @ attr ''id'' target @ ''/><config '' @
     attr ''id'' config @ ''/>'' @ task_preferences"

definition REQ_GVM_CREATE_TASK_WITH_SCHEDULE_MARK :: "string \<Rightarrow> string \<Rightarrow> string \<Rightarrow> string \<Rightarrow> string" where
  "REQ_GVM_CREATE_TASK_WITH_SCHEDULE_MARK nm target config schedule =
     ''<create_task><name>wEb_'' @ nm @ ''</name><target '' @ attr ''id'' target @ ''/><config '' @
     attr ''id'' config @ ''/><schedule '' @ attr ''id'' schedule @ ''/>'' @ task_preferences"

definition REQ_GVM_CREATE_TARGET_MARK :: "string \<Rightarrow> string \<Rightarrow> string \<Rightarrow> string" where
  "REQ_GVM_CREATE_TARGET_MARK nm hosts portlist =
     ''<create_target><name>wEb_'' @ nm @ ''</name><hosts>'' @ hosts @ ''</hosts><port_list '' @
     attr ''id'' portlist @ ''/></create_target>''"

definition REQ_GVM_QUERY_REPORT_MARK :: "string \<Rightarrow> string" where
  "REQ_GVM_QUERY_REPORT_MARK u = ''<get_reports '' @ attr ''report_id'' u @ '' '' @ attr ''details'' ''0'' @ ''/>''"

definition REQ_GVM_QUERY_TASK_MARK :: "string \<Rightarrow> string" where
  "REQ_GVM_QUERY_TASK_MARK u =
     ''<get_tasks '' @ attr ''task_id'' u @ '' '' @ attr ''details'' ''0'' @ '' '' @ attr ''usage_type'' ''scan'' @ ''/>''"

definition REQ_GVM_QUERY_RESULT_MARK :: "string \<Rightarrow> string \<Rightarrow> int \<Rightarrow> int \<Rightarrow> string" where
  "REQ_GVM_QUERY_RESULT_MARK task report first rows =
     ''<get_results '' @ attr ''task_id'' task @ '' '' @
     attr ''filter'' (''report_id='' @ report @ '' levels=hml first='' @ dec first @ '' rows='' @ dec rows) @ ''/>''"

definition REQ_GVM_CREAT_SCHEDULE_MARK :: "string \<Rightarrow> string \<Rightarrow> string \<Rightarrow> string \<Rightarrow> string \<Rightarrow> string" where
  "REQ_GVM_CREAT_SCHEDULE_MARK nm firstRun rule days eol =
     ''<create_schedule><name>wEb_'' @ nm @ ''</name><timezone>UTC</timezone><icalendar>BEGIN:VCALENDAR'' @ CRLF @
     ''VERSION:2.0'' @ CRLF @
     ''PRODID:-//Greenbone.net//NONSGML Greenbone Security Manager 21.4.3//EN'' @ CRLF @
     ''BEGIN:VEVENT'' @ CRLF @ ''DTSTART;TZID=UTC:'' @ firstRun @ CRLF @ ''DURATION:PT0S'' @ CRLF @
     rule @ days @ eol @ ''END:VEVENT'' @ CRLF @ ''END:VCALENDAR'' @ CRLF @ ''</icalendar></create_schedule>''"

definition REQ_GVM_CREAT_CONFIG_EX_MARK :: "string \<Rightarrow> string \<Rightarrow> string \<Rightarrow> string" where
  "REQ_GVM_CREAT_CONFIG_EX_MARK nm gname gid =
     ''<create_config><name>wEb_'' @ nm @ ''</name><comment>'' @ gname @
     ''</comment><usage_type>scan</usage_type><multi_copy>'' @ gid @ ''</multi_copy></create_config>''"

lemmas req_defs = REQ_GVM_START_TASK_MARK_def REQ_GVM_STOP_TASK_MARK_def REQ_GVM_DELETE_TASK_MARK_def
  REQ_GVM_DELETE_TARGET_MARK_def REQ_GVM_DELETE_SCHEDULE_MARK_def REQ_GVM_DELETE_CONFIG_MARK_def
  task_preferences_def REQ_GVM_CREATE_TASK_MARK_def REQ_GVM_CREATE_TASK_WITH_SCHEDULE_MARK_def
  REQ_GVM_CREATE_TARGET_MARK_def REQ_GVM_QUERY_REPORT_MARK_def REQ_GVM_QUERY_TASK_MARK_def
  REQ_GVM_QUERY_RESULT_MARK_def REQ_GVM_CREAT_SCHEDULE_MARK_def REQ_GVM_CREAT_CONFIG_EX_MARK_def attr_def

subsection \<open>Operations on tasks and targets\<close>

text \<open>A request about one object: the identifier is checked first, and any failure is -1.\<close>

definition gvm_simple ::
  "env \<Rightarrow> string \<Rightarrow> string \<Rightarrow> string \<Rightarrow> ('a gworld_scheme, int \<times> string) state" where
  "gvm_simple env uuid cmd xml =
     (if chkUuid uuid \<noteq> 0 then ret (- 1, [])
      else do {
        (r, out) \<leftarrow> gvm_request env cmd xml;
        ret (if r = 0 then (0, out) else (- 1, out))
      })"

definition gvm_start_task :: "env \<Rightarrow> string \<Rightarrow> nat \<Rightarrow> ('a gworld_scheme, int \<times> string) state" where
  "gvm_start_task env uuid maxlen = do {
     (r, out) \<leftarrow> gvm_simple env uuid ''start_task'' (REQ_GVM_START_TASK_MARK uuid);
     ret (if r \<noteq> 0 then (- 1, [])
          else case extractTagUuid (c_str out) ''report_id'' maxlen of
                 (e, report_id) \<Rightarrow> (if e = 0 then 0 else - 1, report_id))
   }"

definition gvm_stop_task :: "env \<Rightarrow> string \<Rightarrow> ('a gworld_scheme, int) state" where
  "gvm_stop_task env uuid = do {
     (r, _) \<leftarrow> gvm_simple env uuid ''stop_task'' (REQ_GVM_STOP_TASK_MARK uuid);
     ret r
   }"

definition gvm_query_report :: "env \<Rightarrow> string \<Rightarrow> ('a gworld_scheme, int \<times> string) state" where
  "gvm_query_report env uuid = gvm_simple env uuid ''get_reports'' (REQ_GVM_QUERY_REPORT_MARK uuid)"

definition gvm_query_task :: "env \<Rightarrow> string \<Rightarrow> ('a gworld_scheme, int \<times> string) state" where
  "gvm_query_task env uuid = gvm_simple env uuid ''get_tasks'' (REQ_GVM_QUERY_TASK_MARK uuid)"

definition gvm_query_result ::
  "env \<Rightarrow> string \<Rightarrow> string \<Rightarrow> int \<Rightarrow> int \<Rightarrow> ('a gworld_scheme, int \<times> string) state" where
  "gvm_query_result env taskid reportid first rows =
     (if chkUuid taskid \<noteq> 0 then ret (- 1, [])
      else gvm_simple env reportid ''get_results'' (REQ_GVM_QUERY_RESULT_MARK taskid reportid first rows))"

definition gvm_option_delete_task :: "env \<Rightarrow> string \<Rightarrow> ('a gworld_scheme, int) state" where
  "gvm_option_delete_task env uuid =
     (if uuid = [] then ret 0
      else do {
        (r, _) \<leftarrow> gvm_simple env uuid ''delete_task'' (REQ_GVM_DELETE_TASK_MARK uuid);
        ret r
      })"

definition gvm_option_delete_target :: "env \<Rightarrow> string \<Rightarrow> ('a gworld_scheme, int) state" where
  "gvm_option_delete_target env uuid =
     (if uuid = [] then ret 0
      else do {
        (r, _) \<leftarrow> gvm_simple env uuid ''delete_target'' (REQ_GVM_DELETE_TARGET_MARK uuid);
        ret r
      })"

text \<open>The identifier in the reply to a request that creates something; \<open>old\<close> is what the buffer holds.\<close>

definition gvm_create ::
  "env \<Rightarrow> string \<Rightarrow> string \<Rightarrow> string \<Rightarrow> nat \<Rightarrow> ('a gworld_scheme, int \<times> string) state" where
  "gvm_create env cmd xml old maxlen = do {
     (r, out) \<leftarrow> gvm_request env cmd xml;
     ret (if r \<noteq> 0 then (r, old) else extractAttrUuid (c_str out) (cmd @ ''_response'') maxlen)
   }"

definition gvm_create_target ::
  "env \<Rightarrow> string \<Rightarrow> string \<Rightarrow> string \<Rightarrow> string \<Rightarrow> nat \<Rightarrow> ('a gworld_scheme, int \<times> string) state" where
  "gvm_create_target env nm hosts portlist old maxlen =
     (if first_fail [chkUuid portlist, chkHosts hosts, chkName nm] \<noteq> 0 then ret (- 1, old)
      else do {
        (r, uuid) \<leftarrow> gvm_create env ''create_target'' (REQ_GVM_CREATE_TARGET_MARK nm hosts portlist) old maxlen;
        ret (if r = 0 then 0 else - 1, uuid)
      })"

definition gvm_create_task ::
  "env \<Rightarrow> string \<Rightarrow> string \<Rightarrow> string \<Rightarrow> string \<Rightarrow> string \<Rightarrow> nat \<Rightarrow> ('a gworld_scheme, int \<times> string) state" where
  "gvm_create_task env nm target config schedule old maxlen =
     (if first_fail [chkUuid target, chkUuid config, chkName nm] \<noteq> 0 then ret (- 1, old)
      else do {
        (r, uuid) \<leftarrow> gvm_create env ''create_task''
          (if schedule = [] then REQ_GVM_CREATE_TASK_MARK nm target config
           else REQ_GVM_CREATE_TASK_WITH_SCHEDULE_MARK nm target config schedule) old maxlen;
        ret (if r = 0 then 0 else - 1, uuid)
      })"

definition gvm_get_version :: "env \<Rightarrow> nat option \<Rightarrow> ('a gworld_scheme, int \<times> string) state" where
  "gvm_get_version env ver = do {
     (r, out) \<leftarrow> gvm_request env ''get_version'' ''<get_version/>'';
     ret (r, case ver of
               Some maxlen \<Rightarrow> if r = 0 then snd (getXmlTagVal (c_str out) ''version'' maxlen) else []
             | None \<Rightarrow> [])
   }"

subsection \<open>Schedules and scan configurations\<close>

definition gvm_create_schedule ::
  "env \<Rightarrow> string \<Rightarrow> int \<Rightarrow> string \<Rightarrow> string \<Rightarrow> nat \<Rightarrow> ('a gworld_scheme, int \<times> string) state" where
  "gvm_create_schedule env nm type firstRun days maxlen =
     (if type = ICAL_DATE_ONCE
      then gvm_create env ''create_schedule'' (REQ_GVM_CREAT_SCHEDULE_MARK nm firstRun [] [] []) [] maxlen
      else if type = ICAL_DATE_DAILY
      then gvm_create env ''create_schedule''
        (REQ_GVM_CREAT_SCHEDULE_MARK nm firstRun ''RRULE:FREQ=DAILY'' [] CRLF) [] maxlen
      else if type = ICAL_DATE_WEEKLY
      then gvm_create env ''create_schedule''
        (REQ_GVM_CREAT_SCHEDULE_MARK nm firstRun ''RRULE:FREQ=WEEKLY;BYDAY='' days CRLF) [] maxlen
      else if type = ICAL_DATE_MONTHLY
      then gvm_create env ''create_schedule''
        (REQ_GVM_CREAT_SCHEDULE_MARK nm firstRun ''RRULE:FREQ=MONTHLY;BYMONTHDAY='' days CRLF) [] maxlen
      else ret (- 1, []))"

definition gvm_option_create_schedule ::
  "env \<Rightarrow> gvm_task_info \<Rightarrow> ('a gworld_scheme, int \<times> gvm_task_info) state" where
  "gvm_option_create_schedule env info =
     (let info1 = info\<lparr>ti_schedule_id := [], ti_schedule_created := False\<rparr>
      in if ti_schedule_type info = ICAL_DATE_NONE then ret (0, info1)
         else do {
           (r, utc) \<leftarrow> local2SchedTime env MAX_TIMESTAMP_SIZE (ti_first_schedule_time info)
             (ti_schedule_type info = ICAL_DATE_ONCE);
           if r \<noteq> 0 then ret (GVM_ERR_PARAM_INVALID, info1)
           else do {
             (c, uuid) \<leftarrow> gvm_create_schedule env (ti_task_name info) (ti_schedule_type info) utc
               (ti_schedule_list info) MAX_UUID_SIZE;
             ret (if c = 0 then (0, info1\<lparr>ti_schedule_id := uuid, ti_schedule_created := True\<rparr>)
                  else (GVM_ERR_OPENVAS_PROC_FAIL, info1\<lparr>ti_schedule_id := uuid\<rparr>))
           }
         })"

definition gvm_delete_schedule :: "env \<Rightarrow> string \<Rightarrow> ('a gworld_scheme, int) state" where
  "gvm_delete_schedule env uuid =
     (if chkUuid uuid \<noteq> 0 then ret (chkUuid uuid)
      else do {
        (r, _) \<leftarrow> gvm_request env ''delete_schedule'' (REQ_GVM_DELETE_SCHEDULE_MARK uuid);
        ret r
      })"

definition gvm_option_delete_schedule ::
  "env \<Rightarrow> gvm_task_info \<Rightarrow> ('a gworld_scheme, int \<times> gvm_task_info) state" where
  "gvm_option_delete_schedule env info =
     (if ti_schedule_created info
      then do {
        r \<leftarrow> gvm_delete_schedule env (ti_schedule_id info);
        ret (r, if r = 0 then info\<lparr>ti_schedule_created := False\<rparr> else info)
      }
      else ret (0, info))"

definition gvm_create_config_ex ::
  "env \<Rightarrow> string \<Rightarrow> string \<Rightarrow> string \<Rightarrow> string \<Rightarrow> nat \<Rightarrow> ('a gworld_scheme, int \<times> string) state" where
  "gvm_create_config_ex env nm gid gname old maxlen =
     gvm_create env ''create_config'' (REQ_GVM_CREAT_CONFIG_EX_MARK nm gname gid) old maxlen"

definition gvm_delete_config :: "env \<Rightarrow> string \<Rightarrow> ('a gworld_scheme, int) state" where
  "gvm_delete_config env uuid =
     (if chkUuid uuid \<noteq> 0 then ret (chkUuid uuid)
      else do {
        (r, _) \<leftarrow> gvm_request env ''delete_config'' (REQ_GVM_DELETE_CONFIG_MARK uuid);
        ret r
      })"

definition gvm_option_delete_config ::
  "env \<Rightarrow> gvm_task_info \<Rightarrow> ('a gworld_scheme, int \<times> gvm_task_info) state" where
  "gvm_option_delete_config env info =
     (if ti_config_created info
      then do {
        r \<leftarrow> gvm_delete_config env (ti_config_id info);
        ret (r, if r = 0 then info\<lparr>ti_config_created := False\<rparr> else info)
      }
      else ret (0, info))"

text \<open>The copy of a group into the identifier is bounded by \<open>strncpy\<close>.\<close>

definition gvm_option_create_config ::
  "env \<Rightarrow> gvm_task_info \<Rightarrow> ('a gworld_scheme, int \<times> gvm_task_info) state" where
  "gvm_option_create_config env info =
     (if isMultiUuid (ti_group_id info) = 0
      then ret (0, info\<lparr>ti_config_id := take MAX_UUID_SIZE (ti_group_id info), ti_config_created := False\<rparr>)
      else do {
        (r, uuid) \<leftarrow> gvm_create_config_ex env (ti_task_name info) (ti_group_id info) (ti_group_name info)
          (ti_config_id info) MAX_UUID_SIZE;
        ret (r, info\<lparr>ti_config_id := uuid, ti_config_created := (r = 0)\<rparr>)
      })"

end
