(* ===== verification/GvmProps.thy ===== *)
theory GvmProps imports Gvm begin

text \<open>
  What reaches the shell.  A request is put between double quotes in a command line; \<open>sh_dq\<close> is how a
  POSIX shell reads such a text, and \<open>emits\<close> collects what an operation gives to the shell.
\<close>

subsection \<open>Double quotes\<close>

text \<open>The text up to the closing quote, and what follows it; \<open>None\<close> when the quote is not closed or the
  shell would expand something.\<close>

fun sh_dq :: "string \<Rightarrow> (string \<times> string) option" where
  "sh_dq [] = None"
| "sh_dq (c # s) =
     (if c = DQ then Some ([], s)
      else if c = BSL
      then (case s of
              [] \<Rightarrow> None
            | d # t \<Rightarrow>
                if d \<in> {DQ, BSL, BQ, CHR ''$''} then map_option (apfst ((#) d)) (sh_dq t)
                else if d = NL then sh_dq t
                else map_option (apfst ((#) c)) (sh_dq s))
      else if c = BQ \<or> c = CHR ''$'' then None
      else map_option (apfst ((#) c)) (sh_dq s))"

definition plain_char :: "char \<Rightarrow> bool" where
  "plain_char c \<longleftrightarrow> c \<noteq> BSL \<and> c \<noteq> BQ \<and> c \<noteq> CHR ''$''"

definition plain :: "string \<Rightarrow> bool" where
  "plain s \<longleftrightarrow> (\<forall>c\<in>set s. plain_char c)"

lemma plain_simps [simp]:
  "plain []" "plain (a @ b) \<longleftrightarrow> plain a \<and> plain b" "plain (c # s) \<longleftrightarrow> plain_char c \<and> plain s"
  by (auto simp: plain_def)

definition esc_char :: "char \<Rightarrow> string" where
  "esc_char c = (if c = DQ then [BSL, DQ] else [c])"

lemma escapeXml_loop_done:
  "escapeXml_loop s cnt n = (out, []) \<Longrightarrow> out = concat (map esc_char s)"
proof (induction s cnt n arbitrary: out rule: escapeXml_loop.induct)
  case (2 c cs cnt n)
  then show ?case by (auto simp: esc_char_def split: if_splits prod.splits)
qed simp

lemma escapeXml_done: "escapeXml s n = (k, out) \<Longrightarrow> k \<noteq> 0 \<Longrightarrow> out = concat (map esc_char s)"
  by (auto simp: escapeXml_def escapeXml_loop_done split: prod.splits if_splits)

lemma sh_dq_escaped: "plain s \<Longrightarrow> sh_dq (concat (map esc_char s) @ DQ # rest) = Some (s, rest)"
proof (induction s)
  case (Cons c s)
  have "DQ \<noteq> BSL" by (simp add: DQ_def BSL_def)
  then show ?case using Cons by (auto simp: esc_char_def plain_char_def)
qed simp

text \<open>The command passes exactly the XML text as its last argument.\<close>

definition passes :: "string \<Rightarrow> string \<Rightarrow> bool" where
  "passes xml cmd \<longleftrightarrow> (\<exists>body. cmd = GVM_CMD_PREFIX @ DQ # body \<and> sh_dq body = Some (xml, GVM_CMD_SUFFIX))"

subsection \<open>What an operation gives to the shell\<close>

definition emits :: "(string \<Rightarrow> bool) \<Rightarrow> ('a gworld_scheme, 'b) state \<Rightarrow> bool" where
  "emits Q m \<longleftrightarrow> (\<forall>w. wp m (\<lambda>_ w'. \<exists>cs. ran w' = ran w @ cs \<and> (\<forall>c\<in>set cs. Q c)) w)"

lemma emits_run:
  assumes "emits Q m" "run_state m w = (a, w')"
  shows "\<exists>cs. ran w' = ran w @ cs \<and> (\<forall>c\<in>set cs. Q c)"
proof -
  have "wp m (\<lambda>_ w'. \<exists>cs. ran w' = ran w @ cs \<and> (\<forall>c\<in>set cs. Q c)) w"
    using assms(1) unfolding emits_def by (rule spec)
  then show ?thesis using assms(2) by (rule wp_run)
qed

lemma emits_return: "emits Q (ret a)"
  by (simp add: emits_def)

lemma emits_bind:
  assumes "emits Q m" "\<And>a. emits Q (f a)"
  shows "emits Q (State_Monad.bind m f)"
  unfolding emits_def
proof (intro allI wpI)
  fix w b w2
  assume "run_state (State_Monad.bind m f) w = (b, w2)"
  then obtain a w1 where "run_state m w = (a, w1)" "run_state (f a) w1 = (b, w2)"
    by (auto split: prod.splits)
  then obtain cs ds where "ran w1 = ran w @ cs" "\<forall>c\<in>set cs. Q c" "ran w2 = ran w1 @ ds" "\<forall>c\<in>set ds. Q c"
    using emits_run [OF assms(1)] emits_run [OF assms(2)] by metis
  then show "\<exists>cs. ran w2 = ran w @ cs \<and> (\<forall>c\<in>set cs. Q c)"
    by (intro exI [of _ "cs @ ds"]) auto
qed

lemma emits_if: "(c \<Longrightarrow> emits Q m) \<Longrightarrow> (\<not> c \<Longrightarrow> emits Q n) \<Longrightarrow> emits Q (if c then m else n)"
  by simp

lemma emits_option: "emits Q m \<Longrightarrow> (\<And>y. emits Q (f y)) \<Longrightarrow> emits Q (case x of None \<Rightarrow> m | Some y \<Rightarrow> f y)"
  by (cases x) simp_all

lemma emits_prod: "(\<And>a b. emits Q (f a b)) \<Longrightarrow> emits Q (case x of (a, b) \<Rightarrow> f a b)"
  by (cases x) simp

lemma emits_sum:
  "(\<And>a. emits Q (f a)) \<Longrightarrow> (\<And>b. emits Q (g b)) \<Longrightarrow> emits Q (case x of Inl a \<Rightarrow> f a | Inr b \<Rightarrow> g b)"
  by (cases x) simp_all

text \<open>An operation that keeps everything above the file system keeps the commands.\<close>

lemma emits_touches:
  assumes "touches P m"
  shows "emits Q m"
  unfolding emits_def
proof (intro allI wpI)
  fix w a w'
  assume "run_state m w = (a, w')"
  then have "world.more w' = world.more w"
    using touches_run [OF assms] by (simp add: same_rest_def)
  then have "ran w' = ran w"
    by (cases w; cases w') simp
  then show "\<exists>cs. ran w' = ran w @ cs \<and> (\<forall>c\<in>set cs. Q c)" by simp
qed

lemma touches_local2SchedTime: "touches P (local2SchedTime env n s once)"
  unfolding local2SchedTime_def getTime_def
  by (intro touches_if touches_return touches_option touches_bind touches_now)

lemma emits_procGvmTask:
  assumes "plain xml"
  shows "emits (passes xml) (procGvmTask env cmd xml)"
proof -
  have "passes xml (GVM_CMD_MARK (concat (map esc_char xml)))"
    using sh_dq_escaped [OF assms] by (simp add: passes_def GVM_CMD_MARK_def DQS_def)
  then have x: "emits (passes xml) (exeCmd env (GVM_CMD_MARK (concat (map esc_char xml))) cap)" for cap
    by (simp add: emits_def exeCmd_def)
  obtain n esc where e: "escapeXml xml MAX_CACHE_SIZE = (n, esc)" by (cases "escapeXml xml MAX_CACHE_SIZE")
  show ?thesis
    unfolding procGvmTask_def e prod.case Let_def
  proof (intro emits_if emits_return emits_bind emits_prod)
    assume "n \<noteq> 0" and l: "0 < snd (snprintf MAX_CACHE_SIZE (GVM_CMD_MARK esc)) \<and>
        snd (snprintf MAX_CACHE_SIZE (GVM_CMD_MARK esc)) < int MAX_CACHE_SIZE"
    moreover from l have "length (GVM_CMD_MARK esc) < MAX_CACHE_SIZE"
      by (simp add: snprintf_def)
    ultimately have "esc = concat (map esc_char xml)"
      "fst (snprintf MAX_CACHE_SIZE (GVM_CMD_MARK esc)) = GVM_CMD_MARK esc"
      using escapeXml_done [OF e] by auto
    then show "emits (passes xml) (exeCmd env (fst (snprintf MAX_CACHE_SIZE (GVM_CMD_MARK esc))) MAX_CACHE_SIZE)"
      using x by simp
  qed
qed

definition safe_cmd :: "string \<Rightarrow> bool" where
  "safe_cmd cmd \<longleftrightarrow> (\<exists>xml. plain xml \<and> passes xml cmd)"

lemma emits_weaken: "emits P m \<Longrightarrow> (\<And>c. P c \<Longrightarrow> Q c) \<Longrightarrow> emits Q m"
  unfolding emits_def wp_def by (fastforce split: prod.splits)

lemma plain_take: "plain s \<Longrightarrow> plain (take n s)"
  by (auto simp: plain_def dest: in_set_takeD)

lemma emits_gvm_request: "plain xml \<Longrightarrow> emits safe_cmd (gvm_request env cmd xml)"
  unfolding gvm_request_def safe_cmd_def snprintf_def fst_conv
  using plain_take by (intro emits_weaken [OF emits_procGvmTask]) blast+

lemmas emits_intros = emits_return emits_bind emits_if emits_option emits_prod emits_sum

lemma emits_gvm_simple:
  "(chkUuid u = 0 \<Longrightarrow> plain xml) \<Longrightarrow> emits safe_cmd (gvm_simple env u cmd xml)"
  unfolding gvm_simple_def by (intro emits_intros emits_gvm_request) auto

lemma emits_gvm_create: "plain xml \<Longrightarrow> emits safe_cmd (gvm_create env cmd xml old n)"
  unfolding gvm_create_def by (intro emits_intros emits_gvm_request)

subsection \<open>Checked texts are plain\<close>

lemma plain_chars [simp]: "isdigit c \<Longrightarrow> plain_char c" "isxdigit c \<Longrightarrow> plain_char c" "plain_char DQ"
  by (auto simp: plain_char_def isdigit_def isxdigit_def byte_def of_char_def BSL_def BQ_def DQ_def)

lemma plain_lits [simp]: "plain_char CHR '',''" "plain_char CHR ''-''"
  by (simp_all add: plain_char_def BSL_def BQ_def)

lemma plain_lang: "over plain_char r \<Longrightarrow> s \<in> lang r \<Longrightarrow> plain s"
  using over_lang by (auto simp: plain_def)

lemma over_plain_UUID: "over plain_char UUID_REG_PATTERN"
  unfolding UUID_REG_PATTERN_def Seqs.simps by (auto simp: over_Rep XDIGIT_def)

lemma plain_uuid: "chkUuid s = 0 \<Longrightarrow> plain s"
  using plain_lang [OF over_plain_UUID] by (simp add: chkUuid_def)

lemma plain_hosts: "chkHosts s = 0 \<Longrightarrow> plain s"
proof -
  have "plain_char c" if "host_char c" for c
    using that by (auto simp: host_char_def one_of_def plain_char_def isdigit_def byte_def of_char_def BSL_def BQ_def)
  then show "chkHosts s = 0 \<Longrightarrow> plain s"
    using plain_lang [OF over_OR_REPEAT [OF over_mono [OF over_IP_RANGE]]] by (simp add: chkHosts_def)
qed

lemma name_char_plain: "name_char c \<Longrightarrow> plain_char c"
  by (auto simp: name_char_def plain_char_def one_of_def)

lemma over_plain_name: "over plain_char GVM_NAME_PATTERN"
  unfolding GVM_NAME_PATTERN_def by (rule over_Range) (simp add: name_char_plain)

lemma plain_name: "chkName s = 0 \<Longrightarrow> plain s"
  using plain_lang [OF over_plain_name] by (simp add: chkName_def)

lemma plain_config:
  assumes "chkConfigInfo ids names = 0"
  shows "plain ids \<and> plain names"
  using assms plain_lang [OF over_OR_REPEAT [OF over_plain_UUID]] plain_lang [OF over_OR_REPEAT [OF over_plain_name]]
  by (auto simp: chkConfigInfo_def Let_def split: if_splits)

lemma plain_week: "regmatch_whole (OR_REPEAT CUSTOM_WEEK_DAY_PATTERN) s = 0 \<Longrightarrow> plain s"
proof -
  have "over plain_char CUSTOM_WEEK_DAY_PATTERN"
    by (simp add: CUSTOM_WEEK_DAY_PATTERN_def plain_char_def BSL_def BQ_def)
  then show "regmatch_whole (OR_REPEAT CUSTOM_WEEK_DAY_PATTERN) s = 0 \<Longrightarrow> plain s"
    using plain_lang [OF over_OR_REPEAT] by simp
qed

lemma plain_month: "regmatch_whole (OR_REPEAT CUSTOM_MONTH_DAY_PATTERN) s = 0 \<Longrightarrow> plain s"
proof -
  have "over plain_char CUSTOM_MONTH_DAY_PATTERN"
    by (auto simp: CUSTOM_MONTH_DAY_PATTERN_def DIGIT_def one_of_def dest!: between_isdigit [rotated 2])
  then show "regmatch_whole (OR_REPEAT CUSTOM_MONTH_DAY_PATTERN) s = 0 \<Longrightarrow> plain s"
    using plain_lang [OF over_OR_REPEAT] by simp
qed

text \<open>The fixed parts of the requests.\<close>

lemma plain_dec [simp]: "plain (dec x)"
  using digits_isdigit by (auto simp: dec_def plain_def)

lemma plain_fixed [simp]: "plain CRLF" "plain DQS" "plain task_preferences"
  by (simp_all add: CRLF_def DQS_def task_preferences_def plain_char_def BSL_def BQ_def DQ_def)

lemma plain_attr [simp]: "plain (attr nm v) \<longleftrightarrow> plain nm \<and> plain v"
  by (auto simp: attr_def plain_char_def BSL_def BQ_def)

end
