(* ===== verification/Records.thy ===== *)
theory Records imports GvmProps begin

text \<open>
  The text records of the task files: lines \<^verbatim>\<open>key="value"\<close> between a begin and an end mark.  A record
  type is a table of fields, read one after the other; \<open>parseTaskRecord\<close>, \<open>parseTaskStatusRecord\<close> and
  \<open>parseHydraRecord\<close> are such tables.
\<close>

subsection \<open>Reading and printing fields\<close>

definition TASK_INFO_BEG_MARK :: string where
  "TASK_INFO_BEG_MARK = NL # ''==========begin========'' @ [NL]"

definition TASK_INFO_END_MARK :: string where
  "TASK_INFO_END_MARK = NL # ''==========end=========='' @ [NL]"

text \<open>A field read by \<open>getPatternKey\<close> with the size of its buffer, or by \<open>getPatternKeyInt\<close>; storing a
  value may fail when a check follows.\<close>

datatype 'a rfield =
  RText string rx nat "string \<Rightarrow> 'a \<Rightarrow> 'a option"
| RNum string rx "int \<Rightarrow> 'a \<Rightarrow> 'a option"

fun read_fields :: "string \<Rightarrow> 'a rfield list \<Rightarrow> 'a \<Rightarrow> int \<times> 'a" where
  "read_fields rec [] t = (0, t)"
| "read_fields rec (RText key pat n st # fl) t =
     (case getPatternKey rec key pat n of (r, v) \<Rightarrow>
        if r \<noteq> 0 then (r, case st v t of None \<Rightarrow> t | Some t' \<Rightarrow> t')
        else case st v t of None \<Rightarrow> (- 1, t) | Some t' \<Rightarrow> read_fields rec fl t')"
| "read_fields rec (RNum key pat st # fl) t =
     (case getPatternKeyInt rec key pat of (r, n) \<Rightarrow>
        if r \<noteq> 0 then (r, t) else case st n t of None \<Rightarrow> (- 1, t) | Some t' \<Rightarrow> read_fields rec fl t')"

definition field_line :: "string \<times> string \<Rightarrow> string" where
  "field_line kv = fst kv @ ''='' @ DQS @ snd kv @ DQS"

definition record_text :: "(string \<times> string) list \<Rightarrow> string" where
  "record_text kvs = TASK_INFO_BEG_MARK @ concat (map (\<lambda>kv. field_line kv @ [NL]) kvs) @ TASK_INFO_END_MARK"

text \<open>The record at the front of a file: the text between the marks and what follows.\<close>

definition next_record :: "string \<Rightarrow> (string \<times> string) option" where
  "next_record s =
     (case strstr s TASK_INFO_BEG_MARK of
        None \<Rightarrow> None
      | Some p \<Rightarrow>
          (let start = drop (length TASK_INFO_BEG_MARK) p
           in case strstr start TASK_INFO_END_MARK of
                None \<Rightarrow> None
              | Some stop \<Rightarrow>
                  Some (take (length start - length stop) start, drop (length TASK_INFO_END_MARK) stop)))"

lemma strstr_length: "strstr s n = Some t \<Longrightarrow> length t \<le> length s"
  by (induction s) (auto split: if_splits)

lemma next_record_shorter: "next_record s = Some (r, rest) \<Longrightarrow> length rest < length s"
proof -
  assume "next_record s = Some (r, rest)"
  then obtain p stop where p: "strstr s TASK_INFO_BEG_MARK = Some p"
    "strstr (drop (length TASK_INFO_BEG_MARK) p) TASK_INFO_END_MARK = Some stop"
    "rest = drop (length TASK_INFO_END_MARK) stop"
    by (auto simp: next_record_def Let_def split: option.splits)
  have "prefix TASK_INFO_BEG_MARK p" using strstr_Some [OF p(1)] by auto
  then have "p \<noteq> []" by (auto simp: TASK_INFO_BEG_MARK_def)
  moreover have "0 < length TASK_INFO_BEG_MARK" by (simp add: TASK_INFO_BEG_MARK_def)
  ultimately have "length (drop (length TASK_INFO_BEG_MARK) p) < length p"
    by (simp add: Suc_le_eq)
  then show "length rest < length s"
    using strstr_length [OF p(1)] strstr_length [OF p(2)] p(3) by simp
qed

subsection \<open>Lines\<close>

lemma lines_of_ne [simp]: "lines_of s \<noteq> []"
  by (cases s) simp_all

lemma lines_of_line: "NL \<notin> set l \<Longrightarrow> lines_of (l @ NL # s) = l # lines_of s"
  by (induction l) auto

lemma lines_of_records:
  "\<forall>l\<in>set ls. NL \<notin> set l \<Longrightarrow> lines_of (concat (map (\<lambda>l. l @ [NL]) ls)) = ls @ [[]]"
  by (induction ls) (auto simp: lines_of_line)

lemma first_some_unique:
  assumes "x \<in> set xs" "f x = Some y" "\<And>z. z \<in> set xs \<Longrightarrow> f z \<noteq> None \<Longrightarrow> z = x"
  shows "first_some f xs = Some y"
proof (cases "first_some f xs")
  case None
  then show ?thesis using assms(1,2) by (auto simp: first_some_None)
next
  case (Some u)
  then obtain z where "z \<in> set xs" "f z = Some u" by (auto dest: first_some_Some)
  then show ?thesis using assms(2) assms(3) [of z] Some by simp
qed

text \<open>A record that can be read back: the keys are distinct words, and no value has a line break.\<close>

definition good_key :: "string \<Rightarrow> bool" where
  "good_key k \<longleftrightarrow> k \<noteq> [] \<and> CHR ''='' \<notin> set k \<and> NL \<notin> set k"

definition good_record :: "(string \<times> string) list \<Rightarrow> bool" where
  "good_record kvs \<longleftrightarrow> distinct (map fst kvs) \<and> (\<forall>(k, v)\<in>set kvs. good_key k \<and> NL \<notin> set v)"

lemma good_record_Nil [simp]: "good_record []"
  by (simp add: good_record_def)

lemma good_record_Cons [simp]:
  "good_record ((k, v) # kvs) \<longleftrightarrow> k \<notin> fst ` set kvs \<and> good_key k \<and> NL \<notin> set v \<and> good_record kvs"
  by (auto simp: good_record_def)

definition record_body :: "(string \<times> string) list \<Rightarrow> string" where
  "record_body kvs = concat (map (\<lambda>kv. field_line kv @ [NL]) kvs)"

lemma field_line_simp: "field_line (k, v) = k @ CHR ''='' # DQ # v @ [DQ]"
  by (simp add: field_line_def DQS_def)

lemma takeWhile_eq: "CHR ''='' \<notin> set k \<Longrightarrow> takeWhile (\<lambda>c. c \<noteq> CHR ''='') (k @ CHR ''='' # s) = k"
  by (induction k) auto

lemma field_line_NL: "good_key k \<Longrightarrow> NL \<notin> set v \<Longrightarrow> NL \<notin> set (field_line (k, v))"
  by (auto simp: field_line_simp good_key_def NL_def DQ_def)

lemma line_parse:
  assumes "good_key k" "good_key k'"
  shows "tparse [Lit (k @ ''='' @ DQS), Grp pat, Lit DQS] gs (field_line (k', v)) \<longleftrightarrow>
    k = k' \<and> gs = [v] \<and> v \<in> lang pat"
proof -
  have "k = k'" if "k' @ CHR ''='' # s = k @ CHR ''='' # s'" for s s'
    using that assms by (metis good_key_def takeWhile_eq)
  then show ?thesis by (auto simp: field_line_simp DQS_def)
qed

lemma getPatternKey_record:
  assumes "good_record kvs" "(k, v) \<in> set kvs" "v \<in> lang pat" "length v < n"
  shows "getPatternKey (record_body kvs) k pat n = (0, v)"
proof -
  let ?f = "tmatch True [Lit (k @ ''='' @ DQS), Grp pat, Lit DQS]"
  have k: "good_key k'" "NL \<notin> set v'" if "(k', v') \<in> set kvs" for k' v'
    using assms(1) that by (auto simp: good_record_def)
  have "lines_of (concat (map (\<lambda>l. l @ [NL]) (map field_line kvs))) = map field_line kvs @ [[]]"
    using k by (intro lines_of_records) (auto simp: field_line_NL)
  then have l: "lines_of (record_body kvs) = map field_line kvs @ [[]]"
    by (simp add: record_body_def comp_def)
  have "first_some ?f (map field_line kvs @ [[]]) = Some [v]"
  proof (rule first_some_unique [of "field_line (k, v)"])
    show "field_line (k, v) \<in> set (map field_line kvs @ [[]])" using assms(2) by force
    show "?f (field_line (k, v)) = Some [v]"
      using assms(3) line_parse [OF k(1) [OF assms(2)] k(1) [OF assms(2)]]
      by (intro tmatch_whole_unique) blast+
    fix z
    assume z: "z \<in> set (map field_line kvs @ [[]])" "?f z \<noteq> None"
    then obtain gs where gs: "tparse [Lit (k @ ''='' @ DQS), Grp pat, Lit DQS] gs z"
      using tmatch_whole_iff by blast
    then have "z \<noteq> []" by auto
    then obtain k' v' where "(k', v') \<in> set kvs" "z = field_line (k', v')" using z(1) by auto
    moreover from this have "k' = k" using gs k(1) assms(2) line_parse by blast
    ultimately show "z = field_line (k, v)"
      using assms(1,2) by (auto simp: good_record_def dest: eq_key_imp_eq_value)
  qed
  then show ?thesis using assms(4) by (simp add: getPatternKey_def l take_group_def)
qed

lemma getPatternKeyInt_record:
  assumes "good_record kvs" "(k, dec n) \<in> set kvs" "dec n \<in> lang pat" "0 \<le> n" "n < 1000000000"
  shows "getPatternKeyInt (record_body kvs) k pat = (0, n)"
proof -
  have "length (dec n) \<le> 9"
    using assms(4,5) digits_length [of 10 "nat n" 9] by (simp add: dec_def nat_less_iff)
  then show ?thesis
    using getPatternKey_record [OF assms(1-3), of MAX_COMM_MIN_SIZE] assms(4,5) atoi_dec [of n "[]"]
      dec_hd_isdigit [of n]
    by (simp add: getPatternKeyInt_def max_defs)
qed

lemma strstr_skip: "hd n \<notin> set l \<Longrightarrow> n \<noteq> [] \<Longrightarrow> strstr (l @ s) n = strstr s n"
  by (induction l) (auto simp: neq_Nil_conv)

lemma strstr_end:
  assumes "good_record kvs"
  shows "strstr (record_body kvs @ TASK_INFO_END_MARK @ rest) TASK_INFO_END_MARK = Some (TASK_INFO_END_MARK @ rest)"
  using assms
proof (induction kvs)
  case Nil
  have "strstr (n @ rest) n = Some (n @ rest)" if "n \<noteq> []" for n :: string
    using that by (cases n) simp_all
  then show ?case by (simp add: record_body_def TASK_INFO_END_MARK_def)
next
  case (Cons kv kvs)
  obtain k v where kv: "kv = (k, v)" by (cases kv)
  have g: "good_key k" "NL \<notin> set v" "good_record kvs" using Cons.prems kv by auto
  let ?s = "record_body kvs @ TASK_INFO_END_MARK @ rest"
  have "hd ?s \<noteq> CHR ''=''"
  proof (cases kvs)
    case Nil
    then show ?thesis by (simp add: record_body_def TASK_INFO_END_MARK_def NL_def)
  next
    case (Cons kv' kvs')
    then show ?thesis using g(3)
      by (cases kv') (auto simp: record_body_def field_line_simp good_key_def hd_append dest: list.set_sel(1))
  qed
  moreover have "hd s \<noteq> CHR ''='' \<Longrightarrow> \<not> prefix TASK_INFO_END_MARK (NL # s)" for s
    by (cases s) (auto simp: TASK_INFO_END_MARK_def)
  ultimately have "\<not> prefix TASK_INFO_END_MARK (NL # ?s)" by blast
  moreover have "strstr (field_line (k, v) @ NL # ?s) TASK_INFO_END_MARK = strstr (NL # ?s) TASK_INFO_END_MARK"
    using field_line_NL [OF g(1,2)] by (intro strstr_skip) (auto simp: TASK_INFO_END_MARK_def)
  ultimately have "strstr (field_line (k, v) @ NL # ?s) TASK_INFO_END_MARK = strstr ?s TASK_INFO_END_MARK"
    by simp
  then show ?case using Cons.IH g(3) by (simp add: record_body_def kv)
qed

text \<open>A printed record is found and split off again.\<close>

lemma next_record_text:
  assumes "good_record kvs"
  shows "next_record (record_text kvs @ rest) = Some (record_body kvs, rest)"
proof -
  have "strstr (n @ s) n = Some (n @ s)" if "n \<noteq> []" for n s :: string
    using that by (cases n) simp_all
  then have "strstr (TASK_INFO_BEG_MARK @ s) TASK_INFO_BEG_MARK = Some (TASK_INFO_BEG_MARK @ s)" for s
    by (simp add: TASK_INFO_BEG_MARK_def)
  then show ?thesis
    using strstr_end [OF assms, of rest] by (simp add: next_record_def record_text_def record_body_def Let_def)
qed

end
