(* ===== verification/Tasks.thy ===== *)
theory Tasks imports Records begin

text \<open>
  The store of scan tasks of \<^verbatim>\<open>openvas_business.c\<close>: task objects on a heap, linked in a queue by creation
  time, a queue by the time of the next check and an array by name, with the functions of
  \<open>DEFAULT_TASK_OPS\<close> and the files that keep tasks over a restart.
\<close>

subsection \<open>State\<close>

text \<open>\<open>struct GvmDataList\<close> and the objects it points to; an address is a number, and \<open>nxt\<close> is the first
  that was never used.\<close>

record dworld = gworld +
  tasks :: "nat \<Rightarrow> gvm_task option"
  nxt :: nat
  m_createque :: "nat lqueue"
  m_runque :: "nat lqueue"
  m_nameset :: "nat list"
  m_name_cap :: nat              \<comment> \<open>capacity of the array\<close>
  m_task_file_name :: string
  m_task_priv_dir :: string
  m_is_gvm_conn_ok :: bool

definition task_at :: "'a dworld_scheme \<Rightarrow> nat \<Rightarrow> gvm_task" where
  "task_at w p = the (tasks w p)"

definition get_task :: "nat \<Rightarrow> ('a dworld_scheme, gvm_task) state" where
  "get_task p = gets (\<lambda>w. task_at w p)"

definition upd_task :: "nat \<Rightarrow> (gvm_task \<Rightarrow> gvm_task) \<Rightarrow> ('a dworld_scheme, unit) state" where
  "upd_task p f = modify (\<lambda>w. w\<lparr>tasks := (tasks w)(p := map_option f (tasks w p))\<rparr>)"

text \<open>\<open>newGvmTask\<close> and \<open>freeGvmTask\<close>; the latter frees the results too.\<close>

definition newGvmTask :: "env \<Rightarrow> ('a dworld_scheme, nat option) state" where
  "newGvmTask env = do {
     nomem \<leftarrow> fails env;
     if nomem then ret None
     else do {
       p \<leftarrow> gets nxt;
       modify (\<lambda>w. w\<lparr>tasks := (tasks w)(p \<mapsto> new_gvm_task), nxt := p + 1\<rparr>);
       ret (Some p)
     }
   }"

definition freeGvmTask :: "nat \<Rightarrow> ('a dworld_scheme, unit) state" where
  "freeGvmTask p = modify (\<lambda>w. w\<lparr>tasks := (tasks w)(p := None)\<rparr>)"

subsection \<open>The containers\<close>

definition cmpGvmName :: "gvm_task \<Rightarrow> gvm_task \<Rightarrow> int" where
  "cmpGvmName t1 t2 = strncmp (task_name t1) (task_name t2) MAX_NAME_SIZE"

definition cmpGvmCreateTime :: "gvm_task \<Rightarrow> gvm_task \<Rightarrow> int" where
  "cmpGvmCreateTime t1 t2 =
     strncmp (ti_create_time (m_task_info t1)) (ti_create_time (m_task_info t2)) MAX_TIMESTAMP_SIZE"

definition cmpGvmRunChkTime :: "gvm_task \<Rightarrow> gvm_task \<Rightarrow> int" where
  "cmpGvmRunChkTime t1 t2 = c_int (m_chk_time t1 - m_chk_time t2)"

definition addGvmTask :: "env \<Rightarrow> nat \<Rightarrow> ('a dworld_scheme, int) state" where
  "addGvmTask env p = do {
     w \<leftarrow> gets (\<lambda>w. w);
     let full = (length (m_nameset w) = m_name_cap w);
     nomem \<leftarrow> (if full then fails env else ret False);
     let r = ls_add (\<lambda>a b. cmpGvmName (task_at w a) (task_at w b)) (\<not> nomem) (m_nameset w) p;
     if fst r = 0
     then do {
       modify (\<lambda>w. w\<lparr>m_nameset := snd r,
         m_name_cap := (if full then m_name_cap w + DEF_LIST_ARRAY_SIZE else m_name_cap w),
         m_createque := lq_push (\<lambda>a b. cmpGvmCreateTime (task_at w a) (task_at w b)) (m_createque w) p\<rparr>);
       ret 0
     }
     else ret (- 1)
   }"

definition addGvmRunTask :: "nat \<Rightarrow> ('a dworld_scheme, int) state" where
  "addGvmRunTask p = do {
     modify (\<lambda>w. if p \<in> set (lq_items (m_runque w)) then w
       else w\<lparr>m_runque := lq_push (\<lambda>a b. cmpGvmRunChkTime (task_at w a) (task_at w b)) (m_runque w) p\<rparr>);
     ret 0
   }"

definition delGvmRunTask :: "nat \<Rightarrow> ('a dworld_scheme, int) state" where
  "delGvmRunTask p = do {
     modify (\<lambda>w. w\<lparr>m_runque := snd (lq_del (m_runque w) p)\<rparr>);
     ret 0
   }"

definition queGvmRunTask :: "nat \<Rightarrow> ('a dworld_scheme, int) state" where
  "queGvmRunTask p = do {
     modify (\<lambda>w. w\<lparr>m_runque := lq_reque (\<lambda>a b. cmpGvmRunChkTime (task_at w a) (task_at w b)) (m_runque w) p\<rparr>);
     ret 0
   }"

definition delGvmTask :: "nat \<Rightarrow> ('a dworld_scheme, int) state" where
  "delGvmTask key = do {
     w \<leftarrow> gets (\<lambda>w. w);
     case ls_del (\<lambda>a k. cmpGvmName (task_at w a) k) (m_nameset w) (task_at w key) of
       (None, _) \<Rightarrow> ret (- 1)
     | (Some p, ns) \<Rightarrow> do {
         modify (\<lambda>w. w\<lparr>m_nameset := ns, m_createque := snd (lq_del (m_createque w) p)\<rparr>);
         ret 0
       }
   }"

definition findGvmTask :: "nat \<Rightarrow> ('a dworld_scheme, nat option) state" where
  "findGvmTask key =
     gets (\<lambda>w. ls_find (\<lambda>a k. cmpGvmName (task_at w a) k) (m_nameset w) (task_at w key))"

text \<open>\<open>for_each\<close> over a queue whose items the callback does not move.\<close>

definition for_items :: "(nat \<Rightarrow> ('s, int) state) \<Rightarrow> nat list \<Rightarrow> ('s, int) state" where
  "for_items work xs = State (\<lambda>s. each (\<lambda>x s. run_state (work x) s) xs s)"

subsection \<open>Paths\<close>

definition path_fits :: "string \<Rightarrow> bool" where
  "path_fits s \<longleftrightarrow> length s < MAX_FILENAME_PATH_SIZE"

definition path_buf :: "string \<Rightarrow> string" where
  "path_buf s = fst (snprintf MAX_FILENAME_PATH_SIZE s)"

definition prepareGvmPaths :: "string \<Rightarrow> gvm_task \<Rightarrow> int \<times> gvm_task" where
  "prepareGvmPaths priv_dir t =
     (let dir = priv_dir @ ''/task_'' @ task_id t;
          p1 = (m_paths t)\<lparr>OPENVAS_TASK_DIR := path_buf dir\<rparr>;
          status = dir @ ''/gvm_status_file'';
          p2 = p1\<lparr>OPENVAS_STATUS_FILE := path_buf status\<rparr>;
          status_tmp = dir @ ''/.gvm_status_file'';
          p3 = p2\<lparr>OPENVAS_STATUS_FILE_TMP := path_buf status_tmp\<rparr>;
          res = dir @ ''/gvm_result_file'';
          p4 = p3\<lparr>OPENVAS_RESULT_FILE := path_buf res\<rparr>;
          res_tmp = dir @ ''/.gvm_result_file'';
          p5 = p4\<lparr>OPENVAS_RESULT_FILE_TMP := path_buf res_tmp\<rparr>
      in if \<not> path_fits dir then (- 1, t\<lparr>m_paths := p1\<rparr>)
         else if \<not> path_fits status then (- 1, t\<lparr>m_paths := p2\<rparr>)
         else if \<not> path_fits status_tmp then (- 1, t\<lparr>m_paths := p3\<rparr>)
         else if \<not> path_fits res then (- 1, t\<lparr>m_paths := p4\<rparr>)
         else if \<not> path_fits res_tmp then (- 1, t\<lparr>m_paths := p5\<rparr>)
         else (0, t\<lparr>m_paths := p5\<rparr>))"

definition prepare_paths :: "nat \<Rightarrow> ('a dworld_scheme, int) state" where
  "prepare_paths p = do {
     dir \<leftarrow> gets m_task_priv_dir;
     t \<leftarrow> get_task p;
     upd_task p (\<lambda>t. snd (prepareGvmPaths dir t));
     ret (fst (prepareGvmPaths dir t))
   }"

subsection \<open>The task file\<close>

definition task_fields :: "gvm_task \<Rightarrow> (string \<times> string) list" where
  "task_fields t = (let i = m_task_info t; g = m_target_info t in
     [(''task_id'', ti_task_id i), (''task_name'', ti_task_name i), (''group_id'', ti_group_id i),
      (''group_name'', ti_group_name i), (''config_id'', ti_config_id i),
      (''config_created'', dec (of_bool (ti_config_created i))),
      (''target_id'', tg_target_id g), (''portlist_id'', tg_portlist_id g), (''hosts'', tg_hosts g),
      (''schedule_type'', dec (ti_schedule_type i)), (''schedule_id'', ti_schedule_id i),
      (''schedule_created'', dec (of_bool (ti_schedule_created i))),
      (''schedule_time'', ti_first_schedule_time i), (''schedule_list'', ti_schedule_list i),
      (''create_time'', ti_create_time i)])"

text \<open>The callback of \<open>writeTaskFile\<close>.  When the text fits with no room for its terminator, the last
  byte counted is the terminator.\<close>

definition append_record :: "string \<Rightarrow> string \<Rightarrow> int \<times> string" where
  "append_record txt buf =
     (let left = MAX_CACHE_SIZE - length buf; out = snprintf left txt
      in if 0 < snd out \<and> snd out \<le> int left
         then (0, buf @ fst out @ (if snd out = int left then [NUL] else []))
         else (- 1, buf))"

definition writeTaskRecord :: "gvm_task \<Rightarrow> string \<Rightarrow> int \<times> string" where
  "writeTaskRecord t buf = append_record (record_text (task_fields t)) buf"

definition writeTaskFile :: "env \<Rightarrow> ('a dworld_scheme, int) state" where
  "writeTaskFile env = do {
     w \<leftarrow> gets (\<lambda>w. w);
     let tmpFile = path_buf (m_task_priv_dir w @ ''/.'' @ m_task_file_name w);
     let normalFile = path_buf (m_task_priv_dir w @ ''/'' @ m_task_file_name w);
     let r = each (\<lambda>p. writeTaskRecord (task_at w p)) (lq_items (m_createque w)) [];
     if fst r = 0 then writeFileSafe env (snd r) normalFile tmpFile else ret (fst r)
   }"

text \<open>The fields of a record, with the type of the schedule kept apart until it is checked.\<close>

definition set_info :: "(string \<Rightarrow> gvm_task_info \<Rightarrow> gvm_task_info) \<Rightarrow> string \<Rightarrow> int \<times> gvm_task \<Rightarrow> (int \<times> gvm_task) option" where
  "set_info f v s = Some (fst s, upd_info (f v) (snd s))"

definition set_target ::
  "(string \<Rightarrow> gvm_target_info \<Rightarrow> gvm_target_info) \<Rightarrow> string \<Rightarrow> int \<times> gvm_task \<Rightarrow> (int \<times> gvm_task) option" where
  "set_target f v s = Some (fst s, upd_target (f v) (snd s))"

definition task_readers :: "(int \<times> gvm_task) rfield list" where
  "task_readers =
     [RText ''task_id'' UUID_REG_PATTERN MAX_UUID_SIZE (set_info (\<lambda>v i. i\<lparr>ti_task_id := v\<rparr>)),
      RText ''task_name'' GVM_NAME_PATTERN MAX_NAME_SIZE (set_info (\<lambda>v i. i\<lparr>ti_task_name := v\<rparr>)),
      RText ''group_id'' CUSTOM_COMM_PATTERN MAX_MEM_LIST_SIZE (set_info (\<lambda>v i. i\<lparr>ti_group_id := v\<rparr>)),
      RText ''group_name'' CUSTOM_COMM_PATTERN MAX_MEM_LIST_SIZE (set_info (\<lambda>v i. i\<lparr>ti_group_name := v\<rparr>)),
      RText ''config_id'' UUID_REG_PATTERN MAX_UUID_SIZE (set_info (\<lambda>v i. i\<lparr>ti_config_id := v\<rparr>)),
      RNum ''config_created'' CUSTOM_ON_OFF_PATTERN
        (\<lambda>n s. Some (fst s, upd_info (\<lambda>i. i\<lparr>ti_config_created := (n \<noteq> 0)\<rparr>) (snd s))),
      RText ''target_id'' UUID_REG_PATTERN MAX_UUID_SIZE (set_target (\<lambda>v g. g\<lparr>tg_target_id := v\<rparr>)),
      RText ''portlist_id'' UUID_REG_PATTERN MAX_UUID_SIZE (set_target (\<lambda>v g. g\<lparr>tg_portlist_id := v\<rparr>)),
      RText ''hosts'' CUSTOM_COMM_PATTERN MAX_MEM_LIST_SIZE (set_target (\<lambda>v g. g\<lparr>tg_hosts := v\<rparr>)),
      RNum ''schedule_type'' CUSTOM_SCHEDULE_TYPE_PATTERN (\<lambda>n s. Some (n, snd s)),
      RText ''schedule_id'' (Opt UUID_REG_PATTERN) MAX_UUID_SIZE (set_info (\<lambda>v i. i\<lparr>ti_schedule_id := v\<rparr>)),
      RNum ''schedule_created'' CUSTOM_ON_OFF_PATTERN
        (\<lambda>n s. Some (fst s, upd_info (\<lambda>i. i\<lparr>ti_schedule_created := (n \<noteq> 0)\<rparr>) (snd s))),
      RText ''schedule_time'' (Opt CUSTOM_TIME_STAMP_PATTERN) MAX_TIMESTAMP_SIZE
        (set_info (\<lambda>v i. i\<lparr>ti_first_schedule_time := v\<rparr>)),
      RText ''schedule_list'' CUSTOM_COMM_PATTERN MAX_SCHEDULE_LIST_SIZE
        (set_info (\<lambda>v i. i\<lparr>ti_schedule_list := v\<rparr>)),
      RText ''create_time'' CUSTOM_TIME_STAMP_PATTERN MAX_TIMESTAMP_SIZE
        (set_info (\<lambda>v i. i\<lparr>ti_create_time := v\<rparr>))]"

definition read_task :: "string \<Rightarrow> gvm_task \<Rightarrow> int \<times> gvm_task" where
  "read_task rec t0 =
     (case read_fields rec task_readers (0, t0) of (r, type, t) \<Rightarrow>
        if r \<noteq> 0 then (r, t)
        else
          let i = m_task_info t;
              ret = first_fail [chkHosts (tg_hosts (m_target_info t)),
                chkScheduleParam type (ti_first_schedule_time i) (ti_schedule_list i)]
          in if ret \<noteq> 0 then (ret, t)
             else (0, upd_target (\<lambda>g. g\<lparr>tg_target_name := ti_task_name i\<rparr>)
                       (upd_info (\<lambda>i. i\<lparr>ti_schedule_type := type, ti_modify_time := ti_create_time i\<rparr>) t)))"

text \<open>One record per step; every record makes the text shorter, so its length is fuel enough.\<close>

primrec parse_records :: "nat \<Rightarrow> env \<Rightarrow> string \<Rightarrow> ('a dworld_scheme, int) state" where
  "parse_records 0 env s = ret 0"
| "parse_records (Suc n) env s =
     (if s = [] then ret 0
      else case next_record s of
        None \<Rightarrow> ret 0
      | Some (rec, rest) \<Rightarrow> do {
          a \<leftarrow> newGvmTask env;
          case a of
            None \<Rightarrow> ret (- 1)
          | Some p \<Rightarrow> do {
              t \<leftarrow> get_task p;
              upd_task p (\<lambda>t. snd (read_task rec t));
              r \<leftarrow> (if fst (read_task rec t) = 0 then addGvmTask env p else ret (fst (read_task rec t)));
              (if r \<noteq> 0 then freeGvmTask p else ret ());
              if r = 0 then parse_records n env rest else ret r
            }
        })"

definition parseTaskRecord :: "env \<Rightarrow> string \<Rightarrow> ('a dworld_scheme, int) state" where
  "parseTaskRecord env cache = parse_records (Suc (length (c_str cache))) env (c_str cache)"

definition readTaskFile :: "env \<Rightarrow> ('a dworld_scheme, int) state" where
  "readTaskFile env = do {
     w \<leftarrow> gets (\<lambda>w. w);
     (r, buf) \<leftarrow> readTotalFile env (path_buf (m_task_priv_dir w @ ''/'' @ m_task_file_name w));
     if r = 0 then parseTaskRecord env buf
     else ret (if 0 < r then 0 else - 1)
   }"

subsection \<open>Status and result files\<close>

definition status_fields :: "gvm_task \<Rightarrow> (string \<times> string) list" where
  "status_fields t = (let r = m_report_info t in
     [(''task_id'', task_id t), (''start_time'', rp_start_time r), (''stop_time'', rp_stop_time r),
      (''status'', dec (status_int (getTaskStatus t))), (''chk_type'', dec (chk_type_int (getTaskChkType t))),
      (''progress'', dec (rp_progress r)), (''report_id'', rp_cur_report_id r),
      (''last_report_id'', rp_last_report_id r), (''results'', [])])"

definition set_report :: "(string \<Rightarrow> gvm_report_info \<Rightarrow> gvm_report_info) \<Rightarrow> string \<Rightarrow> gvm_task \<Rightarrow> gvm_task option" where
  "set_report f v t = Some (upd_report (f v) t)"

definition status_readers :: "gvm_task rfield list" where
  "status_readers =
     [RText ''task_id'' UUID_REG_PATTERN MAX_UUID_SIZE
        (\<lambda>v t. if strncmp v (task_id t) MAX_UUID_SIZE = 0 then Some t else None),
      RText ''start_time'' (Opt CUSTOM_TIME_STAMP_PATTERN) MAX_TIMESTAMP_SIZE (set_report (\<lambda>v r. r\<lparr>rp_start_time := v\<rparr>)),
      RText ''stop_time'' (Opt CUSTOM_TIME_STAMP_PATTERN) MAX_TIMESTAMP_SIZE (set_report (\<lambda>v r. r\<lparr>rp_stop_time := v\<rparr>)),
      RNum ''status'' CUSTOM_DIGIT_NUM_PATTERN
        (\<lambda>n t. if 0 \<le> n \<and> n < status_int GVM_TASK_ERROR then Some (setTaskStatus (int_status n) t) else None),
      RNum ''chk_type'' CUSTOM_DIGIT_NUM_PATTERN
        (\<lambda>n t. if 0 \<le> n \<and> n < 4 then Some (setTaskChkType (int_chk_type n) t) else None),
      RNum ''progress'' CUSTOM_DIGIT_NUM_PATTERN
        (\<lambda>n t. if 0 \<le> n \<and> n \<le> 100 then Some (setTaskProgress n t) else None),
      RText ''report_id'' UUID_REG_PATTERN MAX_UUID_SIZE (set_report (\<lambda>v r. r\<lparr>rp_cur_report_id := v\<rparr>)),
      RText ''last_report_id'' (Opt UUID_REG_PATTERN) MAX_UUID_SIZE (set_report (\<lambda>v r. r\<lparr>rp_last_report_id := v\<rparr>))]"

definition parseTaskStatusRecord :: "string \<Rightarrow> gvm_task \<Rightarrow> int \<times> gvm_task" where
  "parseTaskStatusRecord cache t =
     (case next_record (c_str cache) of
        None \<Rightarrow> (0, t)
      | Some (rec, _) \<Rightarrow> read_fields rec status_readers t)"

definition readTaskStatusFile :: "env \<Rightarrow> nat \<Rightarrow> ('a dworld_scheme, int) state" where
  "readTaskStatusFile env p = do {
     r \<leftarrow> prepare_paths p;
     if r \<noteq> 0 then ret (- 1)
     else do {
       t \<leftarrow> get_task p;
       (k, buf) \<leftarrow> readTotalFile env (OPENVAS_STATUS_FILE (m_paths t));
       if k = 0
       then do {
         upd_task p (\<lambda>t. snd (parseTaskStatusRecord buf t));
         ret (fst (parseTaskStatusRecord buf t))
       }
       else ret (if 0 < k then 0 else - 1)
     }
   }"

definition readAllTaskStatusRecs :: "env \<Rightarrow> ('a dworld_scheme, int) state" where
  "readAllTaskStatusRecs env = do {
     q \<leftarrow> gets m_createque;
     for_items (readTaskStatusFile env) (lq_items q)
   }"

definition writeTaskStatusFile :: "env \<Rightarrow> nat \<Rightarrow> ('a dworld_scheme, int) state" where
  "writeTaskStatusFile env p = do {
     r \<leftarrow> prepare_paths p;
     if r \<noteq> 0 then ret (- 1)
     else do {
       t \<leftarrow> get_task p;
       writeFileSafe env (fst (snprintf MAX_CACHE_SIZE (record_text (status_fields t))))
         (OPENVAS_STATUS_FILE (m_paths t)) (OPENVAS_STATUS_FILE_TMP (m_paths t))
     }
   }"

definition writeTaskResult :: "env \<Rightarrow> nat \<Rightarrow> string \<Rightarrow> ('a dworld_scheme, int) state" where
  "writeTaskResult env p outbuf = do {
     r \<leftarrow> prepare_paths p;
     if r \<noteq> 0 then ret (- 1)
     else do {
       t \<leftarrow> get_task p;
       writeFileSafe env outbuf (OPENVAS_RESULT_FILE (m_paths t)) (OPENVAS_RESULT_FILE_TMP (m_paths t))
     }
   }"

subsection \<open>Adding and deleting a task with its files\<close>

text \<open>The second half of \<open>createTaskRelationFiles\<close>: the task enters the containers and the task file, or
  its directory goes away again.\<close>

definition record_task :: "env \<Rightarrow> nat \<Rightarrow> string \<Rightarrow> ('a dworld_scheme, int) state" where
  "record_task env p dir = do {
     a \<leftarrow> addGvmTask env p;
     if a = 0
     then do {
       k \<leftarrow> writeTaskFile env;
       (if k = 0 then do { _ \<leftarrow> addGvmRunTask p; ret () }
        else do {
          _ \<leftarrow> delGvmTask p;
          _ \<leftarrow> deleteDir env dir;
          ret ()
        });
       ret k
     }
     else do {
       _ \<leftarrow> deleteDir env dir;
       ret a
     }
   }"

definition createTaskRelationFiles :: "env \<Rightarrow> nat \<Rightarrow> ('a dworld_scheme, int) state" where
  "createTaskRelationFiles env p = do {
     r \<leftarrow> prepare_paths p;
     if r \<noteq> 0 then ret (- 1)
     else do {
       t \<leftarrow> get_task p;
       c \<leftarrow> createDir env (OPENVAS_TASK_DIR (m_paths t));
       if c < 0 then ret (- 1) else record_task env p (OPENVAS_TASK_DIR (m_paths t))
     }
   }"

text \<open>The second half of \<open>delTaskRelationFiles\<close>.\<close>

definition forget_task :: "env \<Rightarrow> nat \<Rightarrow> string \<Rightarrow> ('a dworld_scheme, int) state" where
  "forget_task env p dir = do {
     d \<leftarrow> delGvmTask p;
     if d = 0
     then do {
       k \<leftarrow> writeTaskFile env;
       (if k = 0
        then do {
          _ \<leftarrow> delGvmRunTask p;
          _ \<leftarrow> deleteDir env dir;
          ret ()
        }
        else do { _ \<leftarrow> addGvmTask env p; ret () });
       ret k
     }
     else ret (- 1)
   }"

definition delTaskRelationFiles :: "env \<Rightarrow> nat \<Rightarrow> ('a dworld_scheme, int) state" where
  "delTaskRelationFiles env p = do {
     r \<leftarrow> prepare_paths p;
     if r \<noteq> 0 then ret (- 1)
     else do {
       t \<leftarrow> get_task p;
       forget_task env p (OPENVAS_TASK_DIR (m_paths t))
     }
   }"

end
