(* ===== verification/TaskInv.thy ===== *)
theory TaskInv imports Tasks begin

text \<open>
  The invariant of the task store and that its operations keep it: every object is linked in the queue
  by creation time and in the array by name, or is one of the loose objects a handler holds; names are
  unique; the containers are ordered; the queue of checks links only live objects.
\<close>

subsection \<open>Frames\<close>

definition keeps :: "('s \<Rightarrow> 'x) \<Rightarrow> ('s, 'b) state \<Rightarrow> bool" where
  "keeps f m \<longleftrightarrow> (\<forall>w. wp m (\<lambda>_ w'. f w' = f w) w)"

lemma keeps_return: "keeps f (ret a)"
  by (simp add: keeps_def)

lemma keeps_gets: "keeps f (gets g)"
  by (simp add: keeps_def)

lemma keeps_run:
  assumes "keeps f m" "run_state m w = (a, w')"
  shows "f w' = f w"
proof -
  have "wp m (\<lambda>_ w'. f w' = f w) w" using assms(1) unfolding keeps_def by (rule spec)
  then show ?thesis using assms(2) by (rule wp_run)
qed

lemma keeps_bind:
  assumes "keeps f m" "\<And>a. keeps f (g a)"
  shows "keeps f (State_Monad.bind m g)"
  unfolding keeps_def
proof (intro allI wpI)
  fix w b w2
  assume "run_state (State_Monad.bind m g) w = (b, w2)"
  then obtain a w1 where "run_state m w = (a, w1)" "run_state (g a) w1 = (b, w2)"
    by (auto split: prod.splits)
  then show "f w2 = f w" using keeps_run [OF assms(1)] keeps_run [OF assms(2)] by metis
qed

lemma keeps_if: "(c \<Longrightarrow> keeps f m) \<Longrightarrow> (\<not> c \<Longrightarrow> keeps f n) \<Longrightarrow> keeps f (if c then m else n)"
  by simp

lemma keeps_option: "keeps f m \<Longrightarrow> (\<And>y. keeps f (g y)) \<Longrightarrow> keeps f (case x of None \<Rightarrow> m | Some y \<Rightarrow> g y)"
  by (cases x) simp_all

lemma keeps_prod: "(\<And>a b. keeps f (g a b)) \<Longrightarrow> keeps f (case x of (a, b) \<Rightarrow> g a b)"
  by (cases x) simp

lemma keeps_let: "(\<And>y. keeps f (g y)) \<Longrightarrow> keeps f (let y = x in g y)"
  by simp

lemma keeps_wp: "keeps f m \<Longrightarrow> (\<And>a w'. f w' = f w \<Longrightarrow> Q a w') \<Longrightarrow> wp m Q w"
  by (rule wpI) (drule (1) keeps_run, simp)

lemmas keeps_intros = keeps_return keeps_gets keeps_bind keeps_if keeps_option keeps_prod keeps_let

text \<open>Everything below the task store: files, Redis and the shell.\<close>

abbreviation frame :: "('a gworld_scheme, 'b) state \<Rightarrow> bool" where
  "frame m \<equiv> keeps gworld.more m"

lemma frame_touches: "touches P m \<Longrightarrow> frame (m :: ('a gworld_scheme, 'b) state)"
proof -
  assume t: "touches P m"
  show "frame m"
    unfolding keeps_def
  proof (intro allI wpI)
    fix w w' :: "'a gworld_scheme" and a
    assume "run_state m w = (a, w')"
    then have "world.more w' = world.more w"
      using touches_run [OF t] by (simp add: same_rest_def)
    then show "gworld.more w' = gworld.more w" by (cases w; cases w') simp
  qed
qed

lemma frame_exeCmd: "frame (exeCmd env cmd n)"
  by (simp add: keeps_def exeCmd_def)

lemma frame_procGvmTask: "frame (procGvmTask env cmd xml)"
  unfolding procGvmTask_def by (intro keeps_intros frame_exeCmd)

lemma frame_request: "frame (gvm_request env cmd xml)"
  unfolding gvm_request_def by (rule frame_procGvmTask)

lemma frame_simple: "frame (gvm_simple env u cmd xml)"
  unfolding gvm_simple_def by (intro keeps_intros frame_request)

lemma frame_create: "frame (gvm_create env cmd xml old n)"
  unfolding gvm_create_def by (intro keeps_intros frame_request)

lemmas frame_gvm0 = frame_request frame_simple frame_create frame_touches [OF touches_local2SchedTime]

lemma frame_gvm:
  "frame (gvm_start_task env u n)" "frame (gvm_stop_task env u)" "frame (gvm_query_report env u)"
  "frame (gvm_query_task env u)" "frame (gvm_query_result env u r i j)"
  "frame (gvm_option_delete_task env u)" "frame (gvm_option_delete_target env u)"
  "frame (gvm_create_target env nm h pl old n)" "frame (gvm_create_task env nm tg cf sc old n)"
  "frame (gvm_get_version env v)" "frame (gvm_option_create_schedule env info)"
  "frame (gvm_option_delete_schedule env info)" "frame (gvm_option_delete_config env info)"
  "frame (gvm_option_create_config env info)"
  unfolding gvm_start_task_def gvm_stop_task_def gvm_query_report_def gvm_query_task_def gvm_query_result_def
    gvm_option_delete_task_def gvm_option_delete_target_def gvm_create_target_def gvm_create_task_def
    gvm_get_version_def gvm_option_create_schedule_def gvm_create_schedule_def gvm_option_delete_schedule_def
    gvm_delete_schedule_def gvm_option_delete_config_def gvm_delete_config_def gvm_option_create_config_def
    gvm_create_config_ex_def
  by (intro keeps_intros frame_gvm0)+

subsection \<open>The invariant\<close>

abbreviation cmp_name :: "'a dworld_scheme \<Rightarrow> nat \<Rightarrow> nat \<Rightarrow> int" where
  "cmp_name w \<equiv> \<lambda>a b. cmpGvmName (task_at w a) (task_at w b)"

abbreviation cmp_create :: "'a dworld_scheme \<Rightarrow> nat \<Rightarrow> nat \<Rightarrow> int" where
  "cmp_create w \<equiv> \<lambda>a b. cmpGvmCreateTime (task_at w a) (task_at w b)"

abbreviation cmp_run :: "'a dworld_scheme \<Rightarrow> nat \<Rightarrow> nat \<Rightarrow> int" where
  "cmp_run w \<equiv> \<lambda>a b. cmpGvmRunChkTime (task_at w a) (task_at w b)"

definition key_ok :: "gvm_task \<Rightarrow> bool" where
  "key_ok t \<longleftrightarrow> cstring (task_name t) \<and> length (task_name t) < MAX_NAME_SIZE \<and>
     cstring (ti_create_time (m_task_info t))"

definition time_ok :: "gvm_task \<Rightarrow> bool" where
  "time_ok t \<longleftrightarrow> 0 \<le> m_chk_time t \<and> m_chk_time t < 2147483648"

definition created :: "'a dworld_scheme \<Rightarrow> nat set" where
  "created w = set (lq_items (m_createque w))"

definition running :: "'a dworld_scheme \<Rightarrow> nat set" where
  "running w = set (lq_items (m_runque w))"

definition tasks_inv :: "nat set \<Rightarrow> 'a dworld_scheme \<Rightarrow> bool" where
  "tasks_inv K w \<longleftrightarrow>
     lq_inv (m_createque w) \<and> lq_inv (m_runque w) \<and> distinct (m_nameset w) \<and>
     set (m_nameset w) = created w \<and> running w \<subseteq> dom (tasks w) \<and>
     dom (tasks w) = created w \<union> K \<and> K \<inter> created w = {} \<and> (\<forall>p\<in>dom (tasks w). p < nxt w) \<and>
     (\<forall>p\<in>created w. key_ok (task_at w p)) \<and> inj_on (\<lambda>p. task_name (task_at w p)) (created w) \<and>
     ordered (cmp_name w) (m_nameset w) \<and> ordered (cmp_create w) (lq_items (m_createque w)) \<and>
     (\<forall>p\<in>running w. time_ok (task_at w p)) \<and> ordered (cmp_run w) (lq_items (m_runque w)) \<and>
     length (m_nameset w) \<le> m_name_cap w"

text \<open>Between requests no object is loose and every task waits for its next check.\<close>

definition store_ok :: "'a dworld_scheme \<Rightarrow> bool" where
  "store_ok w \<longleftrightarrow> tasks_inv {} w \<and> running w = created w"

lemma frame_fields:
  assumes "gworld.more w' = gworld.more w"
  shows "tasks w' = tasks w" "nxt w' = nxt w" "m_createque w' = m_createque w" "m_runque w' = m_runque w"
    "m_nameset w' = m_nameset w" "m_name_cap w' = m_name_cap w" "m_is_gvm_conn_ok w' = m_is_gvm_conn_ok w"
    "m_task_file_name w' = m_task_file_name w" "m_task_priv_dir w' = m_task_priv_dir w"
    "dworld.more w' = dworld.more w"
  using assms by (cases w; cases w'; simp)+

lemma frame_inv:
  assumes "gworld.more w' = gworld.more w"
  shows "tasks_inv K w' = tasks_inv K w" "created w' = created w" "running w' = running w"
    "task_at w' = task_at w"
proof -
  show a: "task_at w' = task_at w" using frame_fields(1) [OF assms] by (simp add: task_at_def fun_eq_iff)
  show c: "created w' = created w" "running w' = running w"
    using frame_fields [OF assms] by (simp_all add: created_def running_def)
  show "tasks_inv K w' = tasks_inv K w"
    unfolding tasks_inv_def a c frame_fields [OF assms] by (rule refl)
qed

subsection \<open>The comparisons\<close>

lemma comparator_name:
  assumes "\<And>p. p \<in> A \<Longrightarrow> key_ok (task_at w p)"
  shows "comparator (cmp_name w) A"
  unfolding cmpGvmName_def using assms by (intro comparator_strncmp) (simp add: key_ok_def)

lemma comparator_create:
  assumes "\<And>p. p \<in> A \<Longrightarrow> key_ok (task_at w p)"
  shows "comparator (cmp_create w) A"
  unfolding cmpGvmCreateTime_def using assms by (intro comparator_strncmp) (simp add: key_ok_def)

lemma cmpGvmRunChkTime_diff:
  "time_ok s \<Longrightarrow> time_ok t \<Longrightarrow> cmpGvmRunChkTime s t = m_chk_time s - m_chk_time t"
  by (simp add: cmpGvmRunChkTime_def time_ok_def)

lemma comparator_run:
  assumes "\<And>p. p \<in> A \<Longrightarrow> time_ok (task_at w p)"
  shows "comparator (cmp_run w) A"
  by unfold_locales (use assms in \<open>auto simp: cmpGvmRunChkTime_diff\<close>)

lemma cmpGvmName_0: "key_ok s \<Longrightarrow> key_ok t \<Longrightarrow> cmpGvmName s t = 0 \<longleftrightarrow> task_name s = task_name t"
  by (simp add: cmpGvmName_def key_ok_def strncmp_eq_0)


subsection \<open>Changes of the heap\<close>

text \<open>The containers only look at the name and the two times of an object.\<close>

definition same_keys :: "gvm_task \<Rightarrow> gvm_task \<Rightarrow> bool" where
  "same_keys s t \<longleftrightarrow> task_name s = task_name t \<and> m_chk_time s = m_chk_time t \<and>
     ti_create_time (m_task_info s) = ti_create_time (m_task_info t)"

lemma same_keys_refl [simp]: "same_keys t t"
  by (simp add: same_keys_def)

definition same_containers :: "'a dworld_scheme \<Rightarrow> 'a dworld_scheme \<Rightarrow> bool" where
  "same_containers w w' \<longleftrightarrow> m_createque w' = m_createque w \<and> m_runque w' = m_runque w \<and>
     m_nameset w' = m_nameset w \<and> m_name_cap w' = m_name_cap w"

lemma same_containers_sets:
  "same_containers w w' \<Longrightarrow> created w' = created w \<and> running w' = running w"
  by (simp add: same_containers_def created_def running_def)

lemma tasks_inv_change:
  assumes i: "tasks_inv K w" and c: "same_containers w w'"
    and k: "\<And>p. p \<in> created w \<union> running w \<Longrightarrow> same_keys (task_at w' p) (task_at w p)"
    and d: "dom (tasks w') = created w \<union> K'" "K' \<inter> created w = {}" "running w \<subseteq> dom (tasks w')"
    and n: "\<And>p. p \<in> dom (tasks w') \<Longrightarrow> p < nxt w'"
  shows "tasks_inv K' w'"
proof -
  have s: "created w' = created w" "running w' = running w"
    using same_containers_sets [OF c] by simp_all
  have eq: "task_name (task_at w' p) = task_name (task_at w p)"
    "ti_create_time (m_task_info (task_at w' p)) = ti_create_time (m_task_info (task_at w p))"
    "m_chk_time (task_at w' p) = m_chk_time (task_at w p)" if "p \<in> created w \<union> running w" for p
    using k [OF that] by (auto simp: same_keys_def)
  have "ordered (cmp_name w') (m_nameset w) = ordered (cmp_name w) (m_nameset w)"
    using i eq by (intro ordered_cong) (simp add: tasks_inv_def cmpGvmName_def)
  moreover have "ordered (cmp_create w') (lq_items (m_createque w)) = ordered (cmp_create w) (lq_items (m_createque w))"
    using eq by (intro ordered_cong) (simp add: cmpGvmCreateTime_def created_def)
  moreover have "ordered (cmp_run w') (lq_items (m_runque w)) = ordered (cmp_run w) (lq_items (m_runque w))"
    using eq by (intro ordered_cong) (simp add: cmpGvmRunChkTime_def running_def)
  moreover have "inj_on (\<lambda>p. task_name (task_at w' p)) (created w) = inj_on (\<lambda>p. task_name (task_at w p)) (created w)"
    using eq by (intro inj_on_cong) simp
  moreover have "\<forall>p\<in>created w. key_ok (task_at w' p) = key_ok (task_at w p)"
    "\<forall>p\<in>running w. time_ok (task_at w' p) = time_ok (task_at w p)"
    using eq by (simp_all add: key_ok_def time_ok_def)
  ultimately show ?thesis
    using i c d n unfolding tasks_inv_def s same_containers_def by simp
qed

lemma newGvmTask_inv:
  assumes "tasks_inv K w"
  shows "wp (newGvmTask env) (\<lambda>r w'. created w' = created w \<and> running w' = running w \<and>
    m_is_gvm_conn_ok w' = m_is_gvm_conn_ok w \<and>
    (case r of
       None \<Rightarrow> tasks_inv K w' \<and> tasks w' = tasks w
     | Some p \<Rightarrow> tasks_inv (insert p K) w' \<and> p \<notin> created w \<and> p \<notin> K \<and> p \<notin> running w \<and>
         tasks w' = (tasks w)(p \<mapsto> new_gvm_task))) w"
proof -
  let ?p = "nxt w"
  have f: "?p \<notin> dom (tasks w)" using assms by (auto simp: tasks_inv_def)
  have sub: "created w \<union> running w \<union> K = dom (tasks w)" using assms by (auto simp: tasks_inv_def)
  have a: "tasks_inv K (w\<lparr>tick := n\<rparr>)" for n
    using assms frame_inv(1) [of "w\<lparr>tick := n\<rparr>" w] by simp
  have b: "tasks_inv (insert ?p K) (w\<lparr>tick := n, tasks := (tasks w)(?p \<mapsto> new_gvm_task), nxt := Suc ?p\<rparr>)" for n
  proof (rule tasks_inv_change [OF assms])
    fix p
    assume "p \<in> created w \<union> running w"
    then have "p \<noteq> ?p" using f sub by auto
    then show "same_keys (task_at (w\<lparr>tick := n, tasks := (tasks w)(?p \<mapsto> new_gvm_task), nxt := Suc ?p\<rparr>) p) (task_at w p)"
      by (simp add: task_at_def)
  next
    show "insert ?p K \<inter> created w = {}" using assms f sub by (auto simp: tasks_inv_def)
  qed (use assms f sub in \<open>auto simp: same_containers_def tasks_inv_def less_Suc_eq\<close>)
  have "?p \<notin> created w" "?p \<notin> K" "?p \<notin> running w" using f sub by auto
  then show ?thesis
    using a b by (simp add: newGvmTask_def created_def running_def)
qed

lemma freeGvmTask_inv:
  assumes "tasks_inv K w" "p \<in> K" "p \<notin> running w"
  shows "wp (freeGvmTask p) (\<lambda>_ w'. tasks_inv (K - {p}) w' \<and> created w' = created w \<and> running w' = running w \<and>
    m_is_gvm_conn_ok w' = m_is_gvm_conn_ok w \<and> tasks w' = (tasks w)(p := None)) w"
proof -
  have "tasks_inv (K - {p}) (w\<lparr>tasks := (tasks w)(p := None)\<rparr>)"
  proof (rule tasks_inv_change [OF assms(1)])
    fix q
    assume "q \<in> created w \<union> running w"
    then have "q \<noteq> p" using assms by (auto simp: tasks_inv_def)
    then show "same_keys (task_at (w\<lparr>tasks := (tasks w)(p := None)\<rparr>) q) (task_at w q)" by (simp add: task_at_def)
  qed (use assms in \<open>auto simp: same_containers_def tasks_inv_def\<close>)
  then show ?thesis by (simp add: freeGvmTask_def created_def running_def)
qed

lemma upd_task_inv:
  assumes "tasks_inv K w" "p \<in> created w \<union> running w \<Longrightarrow> same_keys (f (task_at w p)) (task_at w p)"
  shows "wp (upd_task p f) (\<lambda>_ w'. tasks_inv K w' \<and> created w' = created w \<and> running w' = running w \<and>
    m_is_gvm_conn_ok w' = m_is_gvm_conn_ok w \<and> tasks w' = (tasks w)(p := map_option f (tasks w p))) w"
proof -
  have dm: "dom ((tasks w)(p := map_option f (tasks w p))) = dom (tasks w)"
    by auto
  have "tasks_inv K (w\<lparr>tasks := (tasks w)(p := map_option f (tasks w p))\<rparr>)"
  proof (rule tasks_inv_change [OF assms(1)])
    fix q
    assume q: "q \<in> created w \<union> running w"
    then have "q \<in> dom (tasks w)" using assms(1) by (auto simp: tasks_inv_def)
    then show "same_keys (task_at (w\<lparr>tasks := (tasks w)(p := map_option f (tasks w p))\<rparr>) q) (task_at w q)"
      using assms(2) q by (auto simp: task_at_def)
  qed (use assms(1) dm in \<open>auto simp: same_containers_def tasks_inv_def\<close>)
  then show ?thesis by (simp add: upd_task_def created_def running_def)
qed

subsection \<open>The operations on the containers\<close>

lemma task_at_tick [simp]: "task_at (w\<lparr>tick := n\<rparr>) = task_at w"
  by (simp add: task_at_def fun_eq_iff)

lemma find_Some_unique:
  assumes "y \<in> set xs" "P y" "\<And>z. z \<in> set xs \<Longrightarrow> P z \<Longrightarrow> z = y"
  shows "find P xs = Some y"
proof (cases "find P xs")
  case None
  then show ?thesis using assms(1,2) by (simp add: find_None_iff)
next
  case (Some z)
  then have "z \<in> set xs" "P z" by (auto simp: find_Some_iff)
  then show ?thesis using assms(3) Some by simp
qed

lemma inv_facts:
  assumes "tasks_inv K w"
  shows "p \<in> created w \<Longrightarrow> key_ok (task_at w p)" "p \<in> created w \<Longrightarrow> tasks w p = Some (task_at w p)"
    "p \<in> K \<Longrightarrow> tasks w p = Some (task_at w p)" "p \<in> K \<Longrightarrow> p \<notin> created w"
    "p \<in> running w \<Longrightarrow> tasks w p = Some (task_at w p)"
proof -
  have d: "tasks w p = Some (task_at w p)" if "p \<in> dom (tasks w)" for p
    using that by (auto simp: task_at_def)
  have s: "dom (tasks w) = created w \<union> K" "K \<inter> created w = {}" "running w \<subseteq> dom (tasks w)"
    "\<forall>p\<in>created w. key_ok (task_at w p)"
    using assms unfolding tasks_inv_def by blast+
  show "p \<in> created w \<Longrightarrow> key_ok (task_at w p)" "p \<in> created w \<Longrightarrow> tasks w p = Some (task_at w p)"
    "p \<in> K \<Longrightarrow> tasks w p = Some (task_at w p)" "p \<in> K \<Longrightarrow> p \<notin> created w"
    "p \<in> running w \<Longrightarrow> tasks w p = Some (task_at w p)"
    using d s by blast+
qed

lemma inv_sets:
  assumes "tasks_inv K w"
  shows "set (m_nameset w) = created w" "set (lq_items (m_createque w)) = created w"
    "set (lq_items (m_runque w)) = running w" "distinct (m_nameset w)" "distinct (lq_items (m_createque w))"
    "distinct (lq_items (m_runque w))" "dom (tasks w) = created w \<union> K" "K \<inter> created w = {}"
    "running w \<subseteq> dom (tasks w)" "length (m_nameset w) \<le> m_name_cap w"
    "inj_on (\<lambda>p. task_name (task_at w p)) (created w)"
  using assms unfolding tasks_inv_def created_def running_def lq_inv_def by blast+

lemma inv_ordered:
  assumes "tasks_inv K w"
  shows "ordered (cmp_name w) (m_nameset w)" "ordered (cmp_create w) (lq_items (m_createque w))"
    "ordered (cmp_run w) (lq_items (m_runque w))"
  using assms unfolding tasks_inv_def by blast+

lemma findGvmTask_inv:
  assumes i: "tasks_inv K w" and k: "key_ok (task_at w key)"
  shows "wp (findGvmTask key) (\<lambda>r w'. w' = w \<and>
    (case r of
       None \<Rightarrow> \<forall>q\<in>created w. task_name (task_at w q) \<noteq> task_name (task_at w key)
     | Some p \<Rightarrow> p \<in> created w \<and> task_name (task_at w p) = task_name (task_at w key))) w"
proof -
  have s: "set (m_nameset w) = created w" using i by (simp add: tasks_inv_def)
  have eq: "cmpGvmName (task_at w q) (task_at w key) = 0 \<longleftrightarrow> task_name (task_at w q) = task_name (task_at w key)"
    if "q \<in> created w" for q
    using cmpGvmName_0 [OF inv_facts(1) [OF i that] k] .
  show ?thesis
    unfolding findGvmTask_def ls_find_def wp_gets s [symmetric]
    using eq by (auto simp: find_None_iff find_Some_iff s [symmetric] split: option.splits)
qed

lemma addGvmTask_inv:
  assumes i: "tasks_inv K w" and p: "p \<in> K" "key_ok (task_at w p)"
    and u: "\<And>q. q \<in> created w \<Longrightarrow> task_name (task_at w q) \<noteq> task_name (task_at w p)"
  shows "wp (addGvmTask env p) (\<lambda>r w'. tasks w' = tasks w \<and> running w' = running w \<and>
    m_is_gvm_conn_ok w' = m_is_gvm_conn_ok w \<and>
    (if r = 0 then tasks_inv (K - {p}) w' \<and> created w' = insert p (created w)
     else r = - 1 \<and> tasks_inv K w' \<and> created w' = created w \<and> length (m_nameset w) = m_name_cap w)) w"
proof -
  let ?full = "length (m_nameset w) = m_name_cap w"
  let ?w = "\<lambda>n. w\<lparr>tick := n, m_nameset := q_insert (cmp_name w) p (m_nameset w),
      m_name_cap := (if ?full then m_name_cap w + DEF_LIST_ARRAY_SIZE else m_name_cap w),
      m_createque := lq_push (cmp_create w) (m_createque w) p\<rparr>"
  have f: "p \<notin> created w" and d: "tasks w p = Some (task_at w p)"
    using p inv_facts [OF i] by auto
  note s = inv_sets(1,2) [OF i]
  have k: "\<And>q. q \<in> insert p (created w) \<Longrightarrow> key_ok (task_at w q)"
    using p(2) inv_facts(1) [OF i] by auto
  have cc: "comparator (cmp_name w) (insert p (created w))" "comparator (cmp_create w) (insert p (created w))"
    by (rule comparator_name comparator_create, rule k, assumption)+
  have o1: "ordered (cmp_name w) (q_insert (cmp_name w) p (m_nameset w))"
    using comparator.q_insert_ordered [OF cc(1), of "m_nameset w" p] s inv_ordered(1) [OF i] by blast
  have o2: "ordered (cmp_create w) (q_insert (cmp_create w) p (lq_items (m_createque w)))"
    using comparator.q_insert_ordered [OF cc(2), of "lq_items (m_createque w)" p] s inv_ordered(2) [OF i] by blast
  have t: "task_at (?w n) = task_at w" for n by (simp add: task_at_def fun_eq_iff)
  have c: "created (?w n) = insert p (created w)" "running (?w n) = running w" for n
    by (auto simp: created_def running_def)
  have r: "tasks_inv (K - {p}) (?w n)" for n
    unfolding tasks_inv_def t c
  proof (intro conjI)
    show "inj_on (\<lambda>q. task_name (task_at w q)) (insert p (created w))"
      using inv_sets(11) [OF i] f u [THEN not_sym] u by (auto simp: inj_on_def)
    show "length (m_nameset (?w n)) \<le> m_name_cap (?w n)"
      using inv_sets(10) [OF i] by (auto simp: DEF_LIST_ARRAY_SIZE_def)
    show "lq_inv (m_createque (?w n))" using i f s by (simp add: tasks_inv_def lq_inv_push)
    show "dom (tasks (?w n)) = insert p (created w) \<union> (K - {p})" using inv_sets(7) [OF i] p by auto
    show "running w \<subseteq> dom (tasks (?w n))" using inv_sets(9) [OF i] by simp
  qed (use i o1 o2 f s p k inv_sets [OF i] in \<open>simp_all add: tasks_inv_def, blast\<close>)
  have nt: "tasks_inv K (w\<lparr>tick := n\<rparr>)" "created (w\<lparr>tick := n\<rparr>) = created w"
    "running (w\<lparr>tick := n\<rparr>) = running w" for n
    using i frame_inv [of "w\<lparr>tick := n\<rparr>" w] by simp_all
  show ?thesis
    unfolding addGvmTask_def
    using r [of "tick w"] r [of "Suc (tick w)"] c [of "tick w"] c [of "Suc (tick w)"] nt
    by (cases ?full) (simp_all add: ls_add_def Let_def)
qed

lemma delGvmTask_inv:
  assumes i: "tasks_inv K w" and p: "p \<in> created w"
  shows "wp (delGvmTask p) (\<lambda>r w'. r = 0 \<and> tasks_inv (insert p K) w' \<and> created w' = created w - {p} \<and>
    running w' = running w \<and> tasks w' = tasks w \<and> m_is_gvm_conn_ok w' = m_is_gvm_conn_ok w \<and>
    length (m_nameset w') < m_name_cap w') w"
proof -
  let ?w = "w\<lparr>m_nameset := remove1 p (m_nameset w), m_createque := snd (lq_del (m_createque w) p)\<rparr>"
  note s = inv_sets(1,2) [OF i] and d = inv_sets(4,5) [OF i] and l = inv_sets(10) [OF i]
  have eq: "cmpGvmName (task_at w q) (task_at w p) = 0 \<longleftrightarrow> q = p" if "q \<in> created w" for q
    using inj_on_eq_iff [OF inv_sets(11) [OF i] that p] cmpGvmName_0 [OF inv_facts(1) [OF i that] inv_facts(1) [OF i p]]
    by simp
  have f: "find (\<lambda>a. cmpGvmName (task_at w a) (task_at w p) = 0) (m_nameset w) = Some p"
    by (rule find_Some_unique) (use p s eq in auto)
  have t: "task_at ?w = task_at w" by (simp add: task_at_def fun_eq_iff)
  have c: "created ?w = created w - {p}" "running ?w = running w"
    using d by (simp_all add: created_def running_def)
  have "length (remove1 p (m_nameset w)) < length (m_nameset w)"
    using p s length_pos_if_in_set [of p "m_nameset w"] by (simp add: length_remove1)
  then have n: "length (remove1 p (m_nameset w)) < m_name_cap w" using l by linarith
  have "tasks_inv (insert p K) ?w"
    unfolding tasks_inv_def t c
  proof (intro conjI)
    have "lq_inv (m_createque w)" using i unfolding tasks_inv_def by blast
    then show "lq_inv (m_createque ?w)" by (simp add: lq_inv_del)
    show "distinct (m_nameset ?w)" "set (m_nameset ?w) = created w - {p}" using d s by simp_all
    show "ordered (cmp_name w) (m_nameset ?w)" using ordered_remove1 [OF inv_ordered(1) [OF i]] by simp
    show "ordered (cmp_create w) (lq_items (m_createque ?w))"
      using ordered_remove1 [OF inv_ordered(2) [OF i]] by simp
    show "inj_on (\<lambda>q. task_name (task_at w q)) (created w - {p})"
      using inv_sets(11) [OF i] by (rule inj_on_subset) blast
    show "dom (tasks ?w) = created w - {p} \<union> insert p K" "insert p K \<inter> (created w - {p}) = {}"
      using inv_sets(7,8) [OF i] p by auto
    show "\<forall>q\<in>created w - {p}. key_ok (task_at w q)" using inv_facts(1) [OF i] by blast
    show "length (m_nameset ?w) \<le> m_name_cap ?w" using n by simp
    show "running w \<subseteq> dom (tasks ?w)" using inv_sets(9) [OF i] by simp
  qed (use i in \<open>simp_all add: tasks_inv_def\<close>)
  then show ?thesis
    unfolding delGvmTask_def ls_del_def wp_bind wp_gets f using c n by simp
qed

lemma addGvmRunTask_inv:
  assumes i: "tasks_inv K w" and p: "p \<in> dom (tasks w)" "time_ok (task_at w p)"
  shows "wp (addGvmRunTask p) (\<lambda>r w'. tasks_inv K w' \<and> created w' = created w \<and>
    running w' = insert p (running w) \<and> tasks w' = tasks w \<and> m_is_gvm_conn_ok w' = m_is_gvm_conn_ok w) w"
proof (cases "p \<in> running w")
  case True
  then show ?thesis using i by (auto simp: addGvmRunTask_def running_def)
next
  case False
  let ?w = "w\<lparr>m_runque := lq_push (cmp_run w) (m_runque w) p\<rparr>"
  have k: "\<And>q. q \<in> insert p (running w) \<Longrightarrow> time_ok (task_at w q)"
    using i p(2) by (auto simp: tasks_inv_def)
  have o: "ordered (cmp_run w) (q_insert (cmp_run w) p (lq_items (m_runque w)))"
    using comparator.q_insert_ordered [OF comparator_run, of "insert p (running w)" w "lq_items (m_runque w)" p]
      k inv_sets(3) [OF i] inv_ordered(3) [OF i] by blast
  have t: "task_at ?w = task_at w" by (simp add: task_at_def fun_eq_iff)
  have c: "created ?w = created w" "running ?w = insert p (running w)" by (auto simp: created_def running_def)
  have n: "p \<notin> set (lq_items (m_runque w))" using False by (simp add: running_def)
  have "tasks_inv K ?w"
    unfolding tasks_inv_def t c using i n k o p inv_sets(9) [OF i]
    by (intro conjI) (simp_all add: tasks_inv_def lq_inv_push domI)
  then show ?thesis using False c by (simp add: addGvmRunTask_def running_def)
qed

lemma delGvmRunTask_inv:
  assumes i: "tasks_inv K w"
  shows "wp (delGvmRunTask p) (\<lambda>r w'. tasks_inv K w' \<and> created w' = created w \<and>
    running w' = running w - {p} \<and> tasks w' = tasks w \<and> m_is_gvm_conn_ok w' = m_is_gvm_conn_ok w) w"
proof -
  let ?w = "w\<lparr>m_runque := snd (lq_del (m_runque w) p)\<rparr>"
  have t: "task_at ?w = task_at w" by (simp add: task_at_def fun_eq_iff)
  have c: "created ?w = created w" "running ?w = running w - {p}"
    using i by (auto simp: created_def running_def tasks_inv_def lq_inv_def)
  have "tasks_inv K ?w"
    unfolding tasks_inv_def t c using i by (auto simp: tasks_inv_def lq_inv_del ordered_remove1)
  then show ?thesis using c by (simp add: delGvmRunTask_def)
qed

end
