(* ===== verification/Sched.thy ===== *)
theory Sched imports TaskInv begin

text \<open>
  When a task is checked next (\<open>setTaskNextChkTime\<close>, \<open>isTaskChkTimeExpired\<close>, \<open>addTaskChecks\<close> and
  \<open>addGvmChecks\<close> of \<^verbatim>\<open>openvas_opts.c\<close>), and the operations on the store that keep its invariant
  whatever happens in the files, in Redis and in the shell.
\<close>

definition setTaskNextChkTime :: "env \<Rightarrow> nat \<Rightarrow> int \<Rightarrow> ('a dworld_scheme, unit) state" where
  "setTaskNextChkTime env p time =
     (if 0 < time
      then do {
        c \<leftarrow> getClkTime env;
        upd_task p (\<lambda>t. t\<lparr>m_chk_time := c + time\<rparr>)
      }
      else upd_task p (\<lambda>t. t\<lparr>m_chk_time := 0\<rparr>))"

definition isTaskChkTimeExpired :: "env \<Rightarrow> nat \<Rightarrow> ('a dworld_scheme, bool) state" where
  "isTaskChkTimeExpired env p = do {
     c \<leftarrow> getClkTime env;
     t \<leftarrow> get_task p;
     ret (m_chk_time t \<le> c)
   }"

definition addTaskChecks :: "env \<Rightarrow> nat \<Rightarrow> ('a dworld_scheme, int) state" where
  "addTaskChecks env p = do {
     setTaskNextChkTime env p (DEF_TASK_CHK_TIME_INTERVAL GVM_TASK_CHK_TASK);
     _ \<leftarrow> addGvmRunTask p;
     ret 0
   }"

definition addGvmChecks :: "env \<Rightarrow> ('a dworld_scheme, int) state" where
  "addGvmChecks env = do {
     q \<leftarrow> gets m_createque;
     for_items (addTaskChecks env) (lq_items q)
   }"

text \<open>The clock of a system that has been up for less than sixty-eight years, so that the \<open>int\<close> into
  which \<open>cmpGvmRunChkTime\<close> puts the difference of two times holds it.\<close>

definition clock_ok :: "env \<Rightarrow> bool" where
  "clock_ok env \<longleftrightarrow> (\<forall>t. 0 \<le> clk env t \<and> clk env t < 2147483348)"

subsection \<open>Operations that keep the store as it is\<close>

text \<open>What identifies a task never changes.\<close>

definition same_ident :: "gvm_task \<Rightarrow> gvm_task \<Rightarrow> bool" where
  "same_ident s t \<longleftrightarrow> task_name s = task_name t \<and> task_id s = task_id t \<and>
     ti_create_time (m_task_info s) = ti_create_time (m_task_info t) \<and> m_target_info s = m_target_info t"

lemma same_ident_refl [simp]: "same_ident t t"
  by (simp add: same_ident_def)

lemma same_ident_trans: "same_ident r s \<Longrightarrow> same_ident s t \<Longrightarrow> same_ident r t"
  by (simp add: same_ident_def)

lemma same_identI: "m_task_info s = m_task_info t \<Longrightarrow> m_target_info s = m_target_info t \<Longrightarrow> same_ident s t"
  by (simp add: same_ident_def)

definition stays :: "'a dworld_scheme \<Rightarrow> 'a dworld_scheme \<Rightarrow> bool" where
  "stays w w' \<longleftrightarrow> (\<forall>K. tasks_inv K w \<longrightarrow> tasks_inv K w' \<and> created w' = created w \<and> running w' = running w \<and>
     dom (tasks w') = dom (tasks w) \<and> m_is_gvm_conn_ok w' = m_is_gvm_conn_ok w \<and>
     (\<forall>p. same_ident (task_at w' p) (task_at w p)))"

definition calm :: "('a dworld_scheme, 'b) state \<Rightarrow> bool" where
  "calm m \<longleftrightarrow> (\<forall>w. wp m (\<lambda>_ w'. stays w w') w)"

lemma stays_refl: "stays w w"
  by (simp add: stays_def)

lemma stays_trans: "stays u v \<Longrightarrow> stays v w \<Longrightarrow> stays u w"
  unfolding stays_def by (metis (no_types, lifting) same_ident_trans)

lemma calm_run: "calm m \<Longrightarrow> run_state m w = (a, w') \<Longrightarrow> stays w w'"
  unfolding calm_def wp_def by (metis (mono_tags, lifting) case_prod_conv)

lemma calm_wp: "calm m \<Longrightarrow> (\<And>a w'. stays w w' \<Longrightarrow> Q a w') \<Longrightarrow> wp m Q w"
  by (rule wpI) (drule (1) calm_run, simp)

lemma calm_return: "calm (ret a)"
  by (simp add: calm_def stays_refl)

lemma calm_gets: "calm (gets f)"
  by (simp add: calm_def stays_refl)

lemma calm_get_task: "calm (get_task p)"
  unfolding get_task_def by (rule calm_gets)

lemma calm_bind:
  assumes "calm m" "\<And>a. calm (f a)"
  shows "calm (State_Monad.bind m f)"
  unfolding calm_def
proof (intro allI wpI)
  fix w b w2
  assume "run_state (State_Monad.bind m f) w = (b, w2)"
  then obtain a w1 where "run_state m w = (a, w1)" "run_state (f a) w1 = (b, w2)"
    by (auto split: prod.splits)
  with assms show "stays w w2" by (blast intro: stays_trans calm_run)
qed

lemma calm_if: "(c \<Longrightarrow> calm m) \<Longrightarrow> (\<not> c \<Longrightarrow> calm n) \<Longrightarrow> calm (if c then m else n)"
  by simp

lemma calm_option: "calm m \<Longrightarrow> (\<And>y. calm (f y)) \<Longrightarrow> calm (case x of None \<Rightarrow> m | Some y \<Rightarrow> f y)"
  by (cases x) simp_all

lemma calm_prod: "(\<And>a b. calm (f a b)) \<Longrightarrow> calm (case x of (a, b) \<Rightarrow> f a b)"
  by (cases x) simp

lemma calm_let: "(\<And>y. calm (f y)) \<Longrightarrow> calm (let y = x in f y)"
  by simp

lemma calm_frame: "frame m \<Longrightarrow> calm m"
  unfolding calm_def
proof (intro allI wpI)
  fix w w' :: "'a dworld_scheme" and a
  assume "frame m" "run_state m w = (a, w')"
  then have e: "gworld.more w' = gworld.more w" by (rule keeps_run)
  show "stays w w'"
    unfolding stays_def frame_inv [OF e] frame_fields [OF e] by simp
qed

lemma stays_upd:
  assumes "same_ident (f (task_at w p)) (task_at w p)" "m_chk_time (f (task_at w p)) = m_chk_time (task_at w p)"
    and r: "run_state (upd_task p f) w = (a, w')"
  shows "stays w w'"
proof -
  have k: "same_keys (f (task_at w p)) (task_at w p)" using assms by (simp add: same_keys_def same_ident_def)
  have w': "w' = w\<lparr>tasks := (tasks w)(p := map_option f (tasks w p))\<rparr>"
    using r by (simp add: upd_task_def)
  have "tasks_inv K w'" if "tasks_inv K w" for K
    using wp_run [OF upd_task_inv [OF that, of p f] r] k by simp
  moreover have "task_at w' q = (if q = p \<and> tasks w p \<noteq> None then f (task_at w p) else task_at w q)" for q
    by (auto simp: w' task_at_def)
  ultimately show "stays w w'"
    using assms by (simp add: stays_def) (auto simp: w' created_def running_def)
qed

lemma calm_upd:
  assumes "\<And>t. same_ident (f t) t \<and> m_chk_time (f t) = m_chk_time t"
  shows "calm (upd_task p f)"
  unfolding calm_def by (intro allI wpI stays_upd) (use assms in auto)

lemmas calm_intros = calm_return calm_gets calm_get_task calm_bind calm_if calm_option calm_prod calm_let

lemma prepareGvmPaths_same:
  "m_task_info (snd (prepareGvmPaths d t)) = m_task_info t"
  "m_target_info (snd (prepareGvmPaths d t)) = m_target_info t"
  "m_chk_time (snd (prepareGvmPaths d t)) = m_chk_time t"
  "m_report_info (snd (prepareGvmPaths d t)) = m_report_info t"
  "m_chk_type (snd (prepareGvmPaths d t)) = m_chk_type t"
  "m_result_info (snd (prepareGvmPaths d t)) = m_result_info t"
  by (simp_all add: prepareGvmPaths_def Let_def)

lemma calm_prepare_paths: "calm (prepare_paths p)"
  unfolding prepare_paths_def by (intro calm_intros calm_upd) (simp add: prepareGvmPaths_same same_identI)

lemma touches_deleteDir: "touches (below (strip_slashes d)) (deleteDir env d)"
  unfolding deleteDir_def by (intro touches_deleteDir_fuel)

lemma frame_files:
  "frame (writeFileSafe env b p t)" "frame (readTotalFile env p)" "frame (createDir env p)" "frame (deleteDir env p)"
  by (rule frame_touches, rule touches_writeFileSafe [of "\<lambda>_. True"] touches_readTotalFile [of "\<lambda>_. True"]
      touches_createDir [of "\<lambda>_. True"] touches_deleteDir; simp)+

lemmas calm_files = frame_files [THEN calm_frame]

lemma calm_writeTaskFile: "calm (writeTaskFile env)"
  unfolding writeTaskFile_def by (intro calm_intros calm_files)

lemma calm_writeTaskStatusFile: "calm (writeTaskStatusFile env p)"
  unfolding writeTaskStatusFile_def by (intro calm_intros calm_prepare_paths calm_files)

lemma calm_writeTaskResult: "calm (writeTaskResult env p out)"
  unfolding writeTaskResult_def by (intro calm_intros calm_prepare_paths calm_files)


subsection \<open>Setting the time of the next check\<close>

lemma next_time_ok:
  assumes "clock_ok env" "time \<le> 300"
  shows "wp (setTaskNextChkTime env p time) (\<lambda>_ w'. \<exists>c n. 0 \<le> c \<and> c < 2147483648 \<and> (time \<le> 0 \<longrightarrow> c = 0) \<and>
    w' = w\<lparr>tick := n, tasks := (tasks w)(p := map_option (\<lambda>t. t\<lparr>m_chk_time := c\<rparr>) (tasks w p))\<rparr>) w"
proof (cases "0 < time")
  case True
  have "0 \<le> clk env (tick w)" "clk env (tick w) < 2147483348" using assms by (auto simp: clock_ok_def)
  then show ?thesis
    using True assms(2) unfolding setTaskNextChkTime_def
    by (auto simp: upd_task_def intro!: exI [of _ "clk env (tick w) + time"] exI [of _ "Suc (tick w)"])
next
  case False
  then show ?thesis
    unfolding setTaskNextChkTime_def by (auto simp: upd_task_def intro!: exI [of _ "tick w"])
qed

lemma requeue_keeps:
  assumes i: "tasks_inv K w" and c: "0 \<le> c" "c < 2147483648"
    and w1: "w1 = w\<lparr>tick := n, tasks := (tasks w)(p := map_option (\<lambda>t. t\<lparr>m_chk_time := c\<rparr>) (tasks w p))\<rparr>"
  shows "wp (queGvmRunTask p) (\<lambda>_ w'. tasks_inv K w' \<and> created w' = created w \<and> running w' = running w \<and>
    dom (tasks w') = dom (tasks w) \<and> m_is_gvm_conn_ok w' = m_is_gvm_conn_ok w \<and> tasks w' = tasks w1) w1"
proof -
  let ?q = "lq_reque (cmp_run w1) (m_runque w) p"
  let ?w = "w1\<lparr>m_runque := ?q\<rparr>"
  have at: "task_at w1 q = (if q = p \<and> tasks w p \<noteq> None then (task_at w p)\<lparr>m_chk_time := c\<rparr> else task_at w q)" for q
    by (auto simp: w1 task_at_def)
  have e: "task_at ?w = task_at w1" "created ?w = created w" "running ?w = running w"
    using inv_sets(6) [OF i] by (simp_all add: w1 task_at_def fun_eq_iff created_def running_def)
  have eq: "m_task_info (task_at w1 q) = m_task_info (task_at w q)" for q by (simp add: at)
  have tm: "time_ok (task_at w1 q)" if "q \<in> running w" for q
    using that i c by (auto simp: at tasks_inv_def time_ok_def)
  have d: "dom (tasks ?w) = dom (tasks w)" by (auto simp: w1)
  have o: "ordered (cmp_run w1) (lq_items ?q)"
  proof (cases "p \<in> running w")
    case True
    show ?thesis
    proof (rule lq_reque_ordered [of _ "running w" _ "cmp_run w"])
      show "comparator (cmp_run w1) (running w)" by (rule comparator_run) (rule tm)
      show "cmpGvmRunChkTime (task_at w1 y) (task_at w1 z) = cmpGvmRunChkTime (task_at w y) (task_at w z)"
        if "y \<in> running w - {p}" "z \<in> running w - {p}" for y z
        using that by (simp add: at)
    qed (use i True in \<open>auto simp: tasks_inv_def running_def\<close>)
  next
    case False
    then have "lq_items ?q = lq_items (m_runque w)" by (simp add: lq_reque_def running_def)
    moreover have "ordered (cmp_run w1) (lq_items (m_runque w)) = ordered (cmp_run w) (lq_items (m_runque w))"
      using False inv_sets(3) [OF i] by (intro ordered_cong) (auto simp: at)
    ultimately show ?thesis using inv_ordered(3) [OF i] by simp
  qed
  have "tasks_inv K ?w"
    unfolding tasks_inv_def e d
  proof (intro conjI)
    show "lq_inv (m_runque ?w)" using i by (simp add: tasks_inv_def lq_inv_reque)
    show "\<forall>q\<in>created w. key_ok (task_at w1 q)" using i by (simp add: tasks_inv_def key_ok_def eq)
    show "inj_on (\<lambda>q. task_name (task_at w1 q)) (created w)" using inv_sets(11) [OF i] by (simp add: eq)
    show "ordered (cmp_name w1) (m_nameset ?w)" "ordered (cmp_create w1) (lq_items (m_createque ?w))"
      using inv_ordered(1,2) [OF i] by (simp_all add: w1 [symmetric] cmpGvmName_def cmpGvmCreateTime_def eq) (simp_all add: w1)
    show "\<forall>q\<in>running w. time_ok (task_at w1 q)" using tm by blast
    show "ordered (cmp_run w1) (lq_items (m_runque ?w))" using o by simp
    show "running w \<subseteq> dom (tasks w)" using inv_sets(9) [OF i] .
  qed (use i in \<open>simp_all add: tasks_inv_def w1\<close>)
  then show ?thesis
    using e d by (simp add: queGvmRunTask_def) (simp add: w1)
qed


lemma calm_requeue:
  fixes m :: "('a dworld_scheme, 'b) state"
  assumes "clock_ok env" "time \<le> 300" "calm m"
  shows "calm (do { setTaskNextChkTime env p time; _ \<leftarrow> queGvmRunTask p; m })"
proof -
  let ?m = "do { setTaskNextChkTime env p time; queGvmRunTask p }"
  have "calm (do { _ \<leftarrow> ?m; m })"
  proof (rule calm_bind)
    show "calm (?m :: ('a dworld_scheme, int) state)"
      unfolding calm_def
    proof (rule allI, simp only: wp_bind, rule wp_mono [OF next_time_ok [OF assms(1,2)]])
      fix w w1 :: "'a dworld_scheme"
      assume "\<exists>c n. 0 \<le> c \<and> c < 2147483648 \<and> (time \<le> 0 \<longrightarrow> c = 0) \<and>
        w1 = w\<lparr>tick := n, tasks := (tasks w)(p := map_option (\<lambda>t. t\<lparr>m_chk_time := c\<rparr>) (tasks w p))\<rparr>"
      then obtain c n where c: "0 \<le> c" "c < 2147483648"
        and w1: "w1 = w\<lparr>tick := n, tasks := (tasks w)(p := map_option (\<lambda>t. t\<lparr>m_chk_time := c\<rparr>) (tasks w p))\<rparr>"
        by blast
      show "wp (queGvmRunTask p) (\<lambda>_ w'. stays w w') w1"
      proof (rule wpI)
        fix r w' assume rs: "run_state (queGvmRunTask p) w1 = (r, w')"
        have k: "tasks_inv K w' \<and> created w' = created w \<and> running w' = running w \<and>
            dom (tasks w') = dom (tasks w) \<and> m_is_gvm_conn_ok w' = m_is_gvm_conn_ok w" if "tasks_inv K w" for K
          using wp_run [OF requeue_keeps [OF that c w1] rs] by blast
        have "tasks w' = tasks w1" using rs by (auto simp: queGvmRunTask_def)
        then have "same_ident (task_at w' q) (task_at w q)" for q
          by (cases "tasks w p") (auto simp: task_at_def w1 same_ident_def)
        with k show "stays w w'" unfolding stays_def by blast
      qed
    qed
  qed (rule assms(3))
  then show ?thesis by (simp add: State_Monad.bind_assoc)
qed

end
