(* ===== verification/Xml.thy ===== *)
theory Xml imports Sched begin

text \<open>
  The replies of the scanner (\<^verbatim>\<open>openvas_opts.c\<close>): access to nodes, and \<open>parseResult\<close>, \<open>parseReport\<close>
  and \<open>parseTask\<close>.  The XML library itself is a parameter: what it reads, what a path selects, an
  attribute and the text of a node are fields of \<open>env\<close>.
\<close>

subsection \<open>Nodes\<close>

definition parseXmlDoc :: "env \<Rightarrow> string \<Rightarrow> ('a world_scheme, xnode option) state" where
  "parseXmlDoc env buffer = do {
     nomem \<leftarrow> fails env;
     ret (if nomem then None else xml_read env buffer)
   }"

text \<open>A document and the context of path expressions over it.\<close>

definition open_doc :: "env \<Rightarrow> string \<Rightarrow> ('a world_scheme, xnode option) state" where
  "open_doc env buffer = do {
     d \<leftarrow> parseXmlDoc env buffer;
     case d of
       None \<Rightarrow> ret None
     | Some doc \<Rightarrow> do { noctx \<leftarrow> fails env; ret (if noctx then None else Some doc) }
   }"

fun is_elem :: "xnode \<Rightarrow> bool" where
  "is_elem (XElem _ _ _) = True"
| "is_elem (XOther _) = False"

definition getNodeAttr :: "env \<Rightarrow> xnode \<Rightarrow> string \<Rightarrow> nat \<Rightarrow> int \<times> string" where
  "getNodeAttr env node name maxlen =
     (case xml_prop env node name of
        None \<Rightarrow> (- 1, [])
      | Some psz \<Rightarrow> if length psz < maxlen then (0, psz) else (- 2, []))"

definition findPathNode :: "env \<Rightarrow> xnode \<Rightarrow> string \<Rightarrow> xnode list option" where
  "findPathNode env doc path =
     (case xml_xpath env doc path of None \<Rightarrow> None | Some ns \<Rightarrow> if ns = [] then None else Some ns)"

fun named :: "string \<Rightarrow> xnode \<Rightarrow> bool" where
  "named nm (XElem n _ _) = (n = nm)"
| "named nm (XOther _) = False"

fun findChildNode :: "xnode \<Rightarrow> string \<Rightarrow> xnode option" where
  "findChildNode (XElem _ _ children) name = find (named name) children"
| "findChildNode (XOther _) name = None"

text \<open>The loop over the parts of a path; every part shortens it, so its length is fuel enough.\<close>

fun walk_path :: "nat \<Rightarrow> xnode \<Rightarrow> string \<Rightarrow> string \<Rightarrow> xnode option" where
  "walk_path 0 node saveptr buf = None"
| "walk_path (Suc n) node saveptr buf =
     (case getNextToken saveptr ''/'' buf MAX_COMM_SIZE of (r, tok, save) \<Rightarrow>
        if r = 0
        then (case findChildNode node tok of None \<Rightarrow> None | Some child \<Rightarrow> walk_path n child save tok)
        else if r = 1 then Some node
        else None)"

definition findSimpleNode :: "xnode \<Rightarrow> string \<Rightarrow> xnode option" where
  "findSimpleNode node path =
     (case path of [] \<Rightarrow> None
      | c # saveptr \<Rightarrow> if c = CHR ''/'' then walk_path (Suc (length saveptr)) node saveptr [] else None)"

definition getNodeText :: "env \<Rightarrow> xnode \<Rightarrow> nat \<Rightarrow> int \<times> string" where
  "getNodeText env node maxlen =
     (if is_elem node
      then case xml_text env node of
             None \<Rightarrow> (0, [])
           | Some psz \<Rightarrow> if length psz < maxlen then (0, psz) else (- 2, [])
      else (- 1, []))"

definition findPathObjText :: "env \<Rightarrow> xnode \<Rightarrow> string \<Rightarrow> nat \<Rightarrow> int \<times> string" where
  "findPathObjText env doc path maxlen =
     (case findPathNode env doc path of
        None \<Rightarrow> (1, [])
      | Some ns \<Rightarrow> if length ns \<noteq> 1 then (- 1, []) else getNodeText env (hd ns) maxlen)"

definition findChildNodeText :: "env \<Rightarrow> xnode \<Rightarrow> string \<Rightarrow> nat \<Rightarrow> int \<times> string" where
  "findChildNodeText env node name maxlen =
     (case findChildNode node name of None \<Rightarrow> (1, []) | Some child \<Rightarrow> getNodeText env child maxlen)"

definition findSimpleNodeText :: "env \<Rightarrow> xnode \<Rightarrow> string \<Rightarrow> nat \<Rightarrow> int \<times> string" where
  "findSimpleNodeText env node path maxlen =
     (case findSimpleNode node path of None \<Rightarrow> (1, []) | Some sub \<Rightarrow> getNodeText env sub maxlen)"

definition findSimpleNodeAttr :: "env \<Rightarrow> xnode \<Rightarrow> string \<Rightarrow> string \<Rightarrow> nat \<Rightarrow> int \<times> string" where
  "findSimpleNodeAttr env node path attrName maxlen =
     (case findSimpleNode node path of
        None \<Rightarrow> (1, [])
      | Some sub \<Rightarrow> (case getNodeAttr env sub attrName maxlen of (r, s) \<Rightarrow> (if r \<noteq> 0 then - 1 else 0, s)))"

definition convRunStatusName :: "string \<Rightarrow> gvm_task_status" where
  "convRunStatusName val =
     (if val = ''Running'' then GVM_TASK_RUNNING
      else if val = ''Queued'' \<or> val = ''Requested'' \<or> val = ''Delete Requested'' \<or>
        val = ''Ultimate Delete Requested'' then GVM_TASK_WAITING
      else if val = ''New'' then GVM_TASK_READY
      else if val = ''Done'' then GVM_TASK_DONE
      else if val = ''Stopped'' \<or> val = ''Stop Requested'' then GVM_TASK_STOP
      else GVM_TASK_INTERRUPT)"

subsection \<open>Results\<close>

text \<open>One result: the code of the first part that is missing, or the record.\<close>

definition parse_nvt :: "env \<Rightarrow> xnode \<Rightarrow> int + ResultNvtInfo" where
  "parse_nvt env cur =
     (let id = getNodeAttr env cur ''id'' MAX_UUID_SIZE;
          nm = findChildNodeText env cur ''name'' MAX_NVT_NAME_SIZE;
          threat = findChildNodeText env cur ''threat'' MAX_COMM_MIN_SIZE;
          severity = findChildNodeText env cur ''severity'' MAX_COMM_MIN_SIZE;
          port = findChildNodeText env cur ''port'' MAX_COMM_SIZE;
          host = findChildNodeText env cur ''host'' MAX_COMM_SIZE;
          val = findChildNodeText env cur ''creation_time'' MAX_COMM_SIZE;
          time = utc2LocalTime env MAX_TIMESTAMP_SIZE (snd val)
      in if fst id \<noteq> 0 then Inl (- 6)
         else if fst nm \<noteq> 0 then Inl (- 7)
         else if fst threat \<noteq> 0 then Inl (- 8)
         else if fst severity \<noteq> 0 then Inl (- 9)
         else if fst port \<noteq> 0 then Inl (- 10)
         else if fst host \<noteq> 0 then Inl (- 11)
         else if fst val \<noteq> 0 then Inl (- 12)
         else if fst time \<noteq> 0 then Inl (- 13)
         else case findChildNode cur ''nvt'' of
                None \<Rightarrow> Inl (- 14)
              | Some child \<Rightarrow>
                  (case findChildNodeText env child ''cvss_base'' MAX_COMM_MIN_SIZE of (r, cve) \<Rightarrow>
                     if r \<noteq> 0 then Inl (- 15)
                     else Inr \<lparr>res_id = snd id, res_name = snd nm, res_host = snd host, res_port = snd port,
                       res_threat = snd threat, res_severity = snd severity, res_create_time = snd time,
                       res_cve = cve\<rparr>))"

text \<open>\<open>push_back\<close> of a new item; the number of results is an address no earlier item has.\<close>

definition push_nvt :: "ResultNvtInfo \<Rightarrow> gvm_result_info \<Rightarrow> gvm_result_info" where
  "push_nvt n info = info\<lparr>rs_results :=
     lq_push cmpNvtHost (rs_results info) (length (lq_items (rs_results info)), n)\<rparr>"

fun parse_nvts :: "env \<Rightarrow> xnode list \<Rightarrow> gvm_result_info \<Rightarrow> ('a world_scheme, int \<times> gvm_result_info) state" where
  "parse_nvts env [] info = ret (0, info)"
| "parse_nvts env (cur # ns) info =
     (if \<not> is_elem cur then parse_nvts env ns info
      else do {
        nomem \<leftarrow> fails env;
        if nomem then ret (- 5, info)
        else case parse_nvt env cur of
               Inl e \<Rightarrow> ret (e, info)
             | Inr n \<Rightarrow> parse_nvts env ns (push_nvt n info)
      })"

definition total_count :: "env \<Rightarrow> xnode \<Rightarrow> gvm_result_info \<Rightarrow> int \<times> gvm_result_info" where
  "total_count env doc info =
     (if rs_totalCnt info < 0
      then case findPathObjText env doc ''/get_results_response/result_count/filtered'' MAX_COMM_SIZE of
             (r, val) \<Rightarrow>
               if r \<noteq> 0 then (- 2, info)
               else (if atoi val < 0 then - 3 else 0, info\<lparr>rs_totalCnt := atoi val\<rparr>)
      else (0, info))"

definition parseResult :: "env \<Rightarrow> string \<Rightarrow> gvm_result_info \<Rightarrow> ('a world_scheme, int \<times> gvm_result_info) state" where
  "parseResult env buffer info = do {
     d \<leftarrow> open_doc env buffer;
     case d of
       None \<Rightarrow> ret (- 1, info)
     | Some doc \<Rightarrow> do {
         (r, info) \<leftarrow>
           (case total_count env doc info of (r, info) \<Rightarrow>
              if r \<noteq> 0 then ret (r, info)
              else if rs_totalCnt info = 0 then ret (0, info\<lparr>rs_done := True\<rparr>)
              else case findPathNode env doc ''/get_results_response/result'' of
                     None \<Rightarrow> ret (- 4, info)
                   | Some ns \<Rightarrow> do {
                       (r, info) \<leftarrow> parse_nvts env ns info;
                       ret (r, if r = 0 \<and> rs_totalCnt info = lq_cnt (rs_results info)
                               then info\<lparr>rs_done := True\<rparr> else info)
                     });
         ret (if r = 0 then 0 else - 1, info\<lparr>rs_first := lq_cnt (rs_results info) + 1\<rparr>)
       }
   }"

subsection \<open>Reports and tasks\<close>

definition report_progress :: "string \<Rightarrow> int" where
  "report_progress val = (if atoi val < 0 \<or> 100 < atoi val then 0 else atoi val)"

definition parse_report_node :: "env \<Rightarrow> xnode \<Rightarrow> gvm_report_info \<Rightarrow> int \<times> gvm_report_info" where
  "parse_report_node env child info =
     (let id = getNodeAttr env child ''id'' MAX_UUID_SIZE;
          i1 = info\<lparr>rp_cur_report_id := snd id\<rparr>;
          v1 = findChildNodeText env child ''scan_start'' MAX_COMM_SIZE;
          t1 = utc2LocalTime env MAX_TIMESTAMP_SIZE (snd v1);
          i2 = i1\<lparr>rp_start_time := snd t1\<rparr>;
          v2 = findChildNodeText env child ''scan_end'' MAX_COMM_SIZE;
          t2 = utc2LocalTime env MAX_TIMESTAMP_SIZE (snd v2);
          i3 = i2\<lparr>rp_stop_time := snd t2\<rparr>;
          v3 = findChildNodeText env child ''scan_run_status'' MAX_COMM_SIZE;
          i4 = i3\<lparr>rp_status := convRunStatusName (snd v3)\<rparr>;
          v4 = findSimpleNodeText env child ''/task/progress'' MAX_COMM_SIZE
      in if fst id \<noteq> 0 then (fst id, i1)
         else if fst v1 \<noteq> 0 then (fst v1, i1)
         else if fst t1 \<noteq> 0 then (fst t1, i2)
         else if fst v2 \<noteq> 0 then (fst v2, i2)
         else if fst t2 \<noteq> 0 then (fst t2, i3)
         else if fst v3 \<noteq> 0 then (fst v3, i3)
         else if fst v4 \<noteq> 0 then (fst v4, i4)
         else (0, i4\<lparr>rp_progress := report_progress (snd v4)\<rparr>))"

definition parseReport :: "env \<Rightarrow> string \<Rightarrow> gvm_report_info \<Rightarrow> ('a world_scheme, int \<times> gvm_report_info) state" where
  "parseReport env buffer info = do {
     d \<leftarrow> open_doc env buffer;
     ret (case d of
            None \<Rightarrow> (- 1, info)
          | Some doc \<Rightarrow>
              (case findPathNode env doc ''/get_reports_response/report'' of
                 None \<Rightarrow> (- 1, info)
               | Some ns \<Rightarrow>
                   if length ns \<noteq> 1 \<or> \<not> is_elem (hd ns) then (- 1, info)
                   else case findChildNode (hd ns) ''report'' of
                          None \<Rightarrow> (- 1, info)
                        | Some child \<Rightarrow>
                            (case parse_report_node env child info of (r, info) \<Rightarrow>
                               (if r = 0 then 0 else - 1, info))))
   }"

definition parse_task_node :: "env \<Rightarrow> xnode \<Rightarrow> gvm_report_info \<Rightarrow> int \<times> gvm_report_info" where
  "parse_task_node env cur info =
     (let id = getNodeAttr env cur ''id'' MAX_UUID_SIZE;
          v1 = findSimpleNodeText env cur ''/report_count'' MAX_COMM_SIZE;
          i1 = info\<lparr>rp_report_cnt := atoi (snd v1)\<rparr>;
          v2 = findSimpleNodeText env cur ''/report_count/finished'' MAX_COMM_SIZE;
          i2 = i1\<lparr>rp_finish_cnt := atoi (snd v2)\<rparr>;
          c = findSimpleNodeAttr env cur ''/current_report/report'' ''id'' MAX_UUID_SIZE;
          i3 = i2\<lparr>rp_cur_report_id := snd c\<rparr>;
          l = findSimpleNodeAttr env cur ''/last_report/report'' ''id'' MAX_UUID_SIZE;
          i4 = i3\<lparr>rp_last_report_id := snd l\<rparr>
      in if fst id = - 1 then (- 1, info)
         else if fst v1 \<noteq> 0 then (fst v1, info)
         else if fst v2 \<noteq> 0 then (fst v2, i1)
         else if fst c = - 1 then (- 1, i3)
         else if fst l = - 1 then (- 1, i4)
         else (0, i4))"

definition parseTask :: "env \<Rightarrow> string \<Rightarrow> gvm_report_info \<Rightarrow> ('a world_scheme, int \<times> gvm_report_info) state" where
  "parseTask env buffer info = do {
     d \<leftarrow> open_doc env buffer;
     ret (case d of
            None \<Rightarrow> (- 1, info)
          | Some doc \<Rightarrow>
              (case findPathNode env doc ''/get_tasks_response/task'' of
                 None \<Rightarrow> (1, info)
               | Some ns \<Rightarrow>
                   if length ns \<noteq> 1 \<or> \<not> is_elem (hd ns) then (- 1, info)
                   else case parse_task_node env (hd ns) info of (r, info) \<Rightarrow> (if r = 0 then 0 else - 1, info)))
   }"

subsection \<open>The text of the results\<close>

definition BAR :: string where "BAR = ''|''"

definition RESULT_NVT_INFO_FORMAT :: "ResultNvtInfo \<Rightarrow> string" where
  "RESULT_NVT_INFO_FORMAT n =
     BAR @ res_host n @ BAR @ res_name n @ BAR @ res_threat n @ BAR @ res_severity n @ BAR @ res_port n @
     BAR @ res_cve n @ BAR @ res_create_time n @ BAR @ [NL]"

definition printNvtInfo :: "nat \<times> ResultNvtInfo \<Rightarrow> string \<Rightarrow> int \<times> string" where
  "printNvtInfo nvt buf =
     (let size = MAX_CACHE_SIZE - length buf
      in if MAX_COMM_SIZE < size
         then let out = snprintf size (RESULT_NVT_INFO_FORMAT (snd nvt))
              in if 0 < snd out \<and> snd out < int size then (0, buf @ fst out) else (- 1, buf)
         else (- 1, buf))"

definition printNvts :: "gvm_result_info \<Rightarrow> int \<times> string" where
  "printNvts info = each printNvtInfo (lq_items (rs_results info)) []"

end
