(* ===== verification/Backend.thy ===== *)
theory Backend imports Xml begin

text \<open>
  The checks that follow a scan (\<^verbatim>\<open>openvas_opts.c\<close>): a task waits for a new report, a report is followed
  until its scan has ended, and then its results are fetched page by page; \<open>runGvmChecks\<close> does one check
  of the task that is due first.  \<open>validateGvmConn\<close> watches the connection to the scanner.
\<close>

text \<open>The static variable of \<open>validateGvmConn\<close>.\<close>

record bworld = dworld +
  is_last_status_ok :: bool

subsection \<open>Queries\<close>

definition query_results :: "env \<Rightarrow> nat \<Rightarrow> ('a dworld_scheme, int) state" where
  "query_results env p = do {
     t \<leftarrow> get_task p;
     if rs_done (m_result_info t) then ret 0
     else do {
       (r, out) \<leftarrow> gvm_query_result env (task_id t) (rp_cur_report_id (m_report_info t))
         (rs_first (m_result_info t)) (rs_rows (m_result_info t));
       if r \<noteq> 0 then ret r
       else do {
         (k, info) \<leftarrow> parseResult env out (m_result_info t);
         upd_task p (\<lambda>t. t\<lparr>m_result_info := info\<rparr>);
         ret k
       }
     }
   }"

text \<open>The result and the interval to the next check.\<close>

definition finish_results :: "env \<Rightarrow> nat \<Rightarrow> ('a dworld_scheme, int \<times> int) state" where
  "finish_results env p = do {
     t \<leftarrow> get_task p;
     if rs_done (m_result_info t)
     then if fst (printNvts (m_result_info t)) \<noteq> 0
          then ret (fst (printNvts (m_result_info t)), DEF_TASK_CHK_TIME_INTERVAL GVM_TASK_CHK_RESULT)
          else do {
            _ \<leftarrow> writeTaskResult env p (snd (printNvts (m_result_info t)));
            upd_task p (setTaskChkType GVM_TASK_CHK_TASK);
            _ \<leftarrow> writeTaskStatusFile env p;
            upd_task p (\<lambda>t. t\<lparr>m_result_info := resetGvmResultInfo (m_result_info t)\<rparr>);
            ret (0, DEF_TASK_CHK_TIME_INTERVAL GVM_TASK_CHK_TASK)
          }
     else ret (0, DEF_TASK_CHK_TIME_INTERVAL GVM_TASK_CHK_RESULT)
   }"

definition backend_query_result :: "env \<Rightarrow> nat \<Rightarrow> ('a dworld_scheme, int) state" where
  "backend_query_result env p = do {
     r \<leftarrow> query_results env p;
     (r, interval) \<leftarrow> (if r \<noteq> 0 then ret (r, DEF_TASK_CHK_TIME_INTERVAL GVM_TASK_CHK_RESULT)
       else finish_results env p);
     setTaskNextChkTime env p interval;
     _ \<leftarrow> queGvmRunTask p;
     ret r
   }"

definition take_report :: "env \<Rightarrow> nat \<Rightarrow> gvm_report_info \<Rightarrow> ('a dworld_scheme, int) state" where
  "take_report env p info = do {
     upd_task p (setTaskStartTime (rp_start_time info));
     upd_task p (setTaskStopTime (rp_stop_time info));
     upd_task p (setTaskStatus (rp_status info));
     upd_task p (setTaskProgress (rp_progress info));
     t \<leftarrow> get_task p;
     interval \<leftarrow>
       (if chkTaskRunning t then ret (DEF_TASK_CHK_TIME_INTERVAL GVM_TASK_CHK_REPORT)
        else if chkTaskDone t
        then do { upd_task p (setTaskChkType GVM_TASK_CHK_RESULT); ret 0 }
        else do {
          upd_task p (setTaskChkType GVM_TASK_CHK_TASK);
          ret (DEF_TASK_CHK_TIME_INTERVAL GVM_TASK_CHK_TASK)
        });
     _ \<leftarrow> writeTaskStatusFile env p;
     ret interval
   }"

definition backend_query_report :: "env \<Rightarrow> nat \<Rightarrow> ('a dworld_scheme, int) state" where
  "backend_query_report env p = do {
     t \<leftarrow> get_task p;
     (r, out) \<leftarrow> gvm_query_report env (rp_cur_report_id (m_report_info t));
     (r, info) \<leftarrow> (if r \<noteq> 0 then ret (r, initGvmReportInfo) else parseReport env out initGvmReportInfo);
     interval \<leftarrow>
       (if r = 0 \<and> (rp_status info \<noteq> rp_status (m_report_info t) \<or> rp_progress info \<noteq> rp_progress (m_report_info t))
        then take_report env p info else ret (DEF_TASK_CHK_TIME_INTERVAL GVM_TASK_CHK_REPORT));
     setTaskNextChkTime env p interval;
     _ \<leftarrow> queGvmRunTask p;
     ret r
   }"

definition updateTaskReport :: "gvm_report_info \<Rightarrow> gvm_task \<Rightarrow> bool \<times> gvm_task" where
  "updateTaskReport info t =
     (let cur = rp_cur_report_id (m_report_info t);
          move = (\<lambda>u. (True, upd_report (\<lambda>r. r\<lparr>rp_last_report_id := cur, rp_cur_report_id := u\<rparr>) t))
      in if rp_cur_report_id info \<noteq> []
         then if cur \<noteq> rp_cur_report_id info then move (rp_cur_report_id info) else (False, t)
         else if rp_last_report_id info \<noteq> []
         then if cur \<noteq> rp_last_report_id info then move (rp_last_report_id info) else (False, t)
         else (False, t))"

definition new_report :: "env \<Rightarrow> nat \<Rightarrow> gvm_report_info \<Rightarrow> ('a dworld_scheme, int) state" where
  "new_report env p info = do {
     upd_task p (upd_report (\<lambda>r. r\<lparr>rp_report_cnt := rp_report_cnt info, rp_finish_cnt := rp_finish_cnt info\<rparr>));
     upd_task p (setTaskStartTime (rp_start_time info));
     upd_task p (setTaskStopTime (rp_stop_time info));
     upd_task p (setTaskStatus GVM_TASK_READY);
     upd_task p (setTaskProgress 0);
     upd_task p (setTaskChkType GVM_TASK_CHK_REPORT);
     _ \<leftarrow> writeTaskStatusFile env p;
     ret 0
   }"

definition backend_query_task :: "env \<Rightarrow> nat \<Rightarrow> ('a dworld_scheme, int) state" where
  "backend_query_task env p = do {
     t \<leftarrow> get_task p;
     (r, out) \<leftarrow> gvm_query_task env (task_id t);
     (r, info) \<leftarrow> (if r \<noteq> 0 then ret (r, initGvmReportInfo) else parseTask env out initGvmReportInfo);
     interval \<leftarrow>
       (if r = 0
        then do {
          upd_task p (\<lambda>t. snd (updateTaskReport info t));
          if fst (updateTaskReport info t) then new_report env p info
          else ret (DEF_TASK_CHK_TIME_INTERVAL GVM_TASK_CHK_TASK)
        }
        else ret (DEF_TASK_CHK_TIME_INTERVAL GVM_TASK_CHK_TASK));
     setTaskNextChkTime env p interval;
     _ \<leftarrow> queGvmRunTask p;
     ret r
   }"

subsection \<open>The check that is due\<close>

definition delete_check :: "env \<Rightarrow> nat \<Rightarrow> ('a dworld_scheme, int) state" where
  "delete_check env p = do {
     r \<leftarrow> delTaskRelationFiles env p;
     (if r = 0 then freeGvmTask p
      else do {
        setTaskNextChkTime env p (DEF_TASK_CHK_TIME_INTERVAL GVM_TASK_CHK_DELETED);
        _ \<leftarrow> queGvmRunTask p;
        ret ()
      });
     ret r
   }"

definition check_task :: "env \<Rightarrow> nat \<Rightarrow> ('a dworld_scheme, int) state" where
  "check_task env p = do {
     t \<leftarrow> get_task p;
     case m_chk_type t of
       GVM_TASK_CHK_TASK \<Rightarrow> backend_query_task env p
     | GVM_TASK_CHK_REPORT \<Rightarrow> backend_query_report env p
     | GVM_TASK_CHK_RESULT \<Rightarrow> backend_query_result env p
     | GVM_TASK_CHK_DELETED \<Rightarrow> delete_check env p
   }"

definition runGvmChecks :: "env \<Rightarrow> ('a dworld_scheme, bool) state" where
  "runGvmChecks env = do {
     w \<leftarrow> gets (\<lambda>w. w);
     if \<not> m_is_gvm_conn_ok w then ret False
     else case lq_head (m_runque w) of
            None \<Rightarrow> ret False
          | Some p \<Rightarrow> do {
              due \<leftarrow> isTaskChkTimeExpired env p;
              if \<not> due then ret False
              else do { _ \<leftarrow> check_task env p; ret True }
            }
   }"

subsection \<open>The connection to the scanner\<close>

definition validateGvmConn :: "env \<Rightarrow> ('a bworld_scheme, int) state" where
  "validateGvmConn env = do {
     (r, _) \<leftarrow> gvm_get_version env None;
     modify (\<lambda>w. if r = 0 then w\<lparr>is_last_status_ok := True, m_is_gvm_conn_ok := True\<rparr>
       else if is_last_status_ok w then w\<lparr>is_last_status_ok := False\<rparr>
       else w\<lparr>m_is_gvm_conn_ok := False\<rparr>);
     ret r
   }"

subsection \<open>The store keeps its invariant\<close>

lemma frame_xml:
  "frame (open_doc env buf)" "frame (parseXmlDoc env buf)"
  unfolding open_doc_def parseXmlDoc_def
  by (rule frame_touches [of "\<lambda>_. True"], (intro touches_bind touches_option touches_return touches_fails))+

lemma touches_parse_nvts: "touches P (parse_nvts env ns info)"
proof (induction ns arbitrary: info)
  case (Cons n ns)
  show ?case
    unfolding parse_nvts.simps
    by (intro touches_if touches_bind touches_return touches_fails touches_sum Cons.IH)
qed (simp add: touches_return)

lemma touches_open_doc: "touches P (open_doc env buf)"
  unfolding open_doc_def parseXmlDoc_def by (intro touches_bind touches_option touches_return touches_fails)

lemma touches_parse:
  "touches P (parseResult env buf r)" "touches P (parseReport env buf i)" "touches P (parseTask env buf i)"
  unfolding parseResult_def parseReport_def parseTask_def
  by (intro touches_bind touches_return touches_open_doc touches_option touches_prod touches_if touches_parse_nvts)+

lemmas frame_parse = touches_parse [of "\<lambda>_. True", THEN frame_touches]

lemmas calm_gvm = frame_gvm [THEN calm_frame] frame_parse [THEN calm_frame]

lemma upd_report_same [simp]:
  "m_task_info (upd_report f t) = m_task_info t" "m_target_info (upd_report f t) = m_target_info t"
  "m_chk_time (upd_report f t) = m_chk_time t" "m_chk_type (upd_report f t) = m_chk_type t"
  "m_result_info (upd_report f t) = m_result_info t" "m_paths (upd_report f t) = m_paths t"
  "m_report_info (upd_report f t) = f (m_report_info t)"
  by (simp_all add: upd_report_def)

lemmas task_setters = setTaskStatus_def setTaskProgress_def setTaskChkType_def setTaskStartTime_def
  setTaskStopTime_def

lemma calm_take_report: "calm (take_report env p info)"
  unfolding take_report_def by (intro calm_intros calm_upd calm_writeTaskStatusFile) (simp_all add: task_setters same_identI)

lemma calm_new_report: "calm (new_report env p info)"
  unfolding new_report_def by (intro calm_intros calm_upd calm_writeTaskStatusFile) (simp_all add: task_setters same_identI)

lemma calm_query_results: "calm (query_results env p)"
  unfolding query_results_def by (intro calm_intros calm_gvm calm_upd) (simp add: same_identI)

lemma calm_finish_results: "calm (finish_results env p)"
  unfolding finish_results_def
  by (intro calm_intros calm_upd calm_writeTaskStatusFile calm_writeTaskResult) (simp_all add: task_setters same_identI)


lemma updateTaskReport_same:
  "m_task_info (snd (updateTaskReport info t)) = m_task_info t"
  "m_target_info (snd (updateTaskReport info t)) = m_target_info t"
  "m_chk_time (snd (updateTaskReport info t)) = m_chk_time t"
  "m_chk_type (snd (updateTaskReport info t)) = m_chk_type t"
  by (simp_all add: updateTaskReport_def Let_def)

lemma interval_le: "DEF_TASK_CHK_TIME_INTERVAL c \<le> 300"
  by (cases c) simp_all

lemma wp_const: "wp m (\<lambda>_ _. c) s = c"
  by (simp add: wp_def split: prod.splits)

lemma wp_fun:
  "wp (ret a) Q = Q a" "wp (modify g) U = (\<lambda>s. U () (g s))"
  "wp (State_Monad.bind m f) R = wp m (\<lambda>a. wp (f a) R)"
  "wp (if c then m1 else m2) S = (if c then wp m1 S else wp m2 S)"
  by (simp_all add: fun_eq_iff)

lemma calm_prod_eq: "(\<And>a b. x = (a, b) \<Longrightarrow> calm (f a b)) \<Longrightarrow> calm (case x of (a, b) \<Rightarrow> f a b)"
  by (cases x) simp

lemma calm_bind_wp:
  assumes "calm m" "\<And>s. wp m (\<lambda>a _. P a) s" "\<And>a. P a \<Longrightarrow> calm (f a)"
  shows "calm (State_Monad.bind m f)"
  unfolding calm_def
proof (intro allI wpI)
  fix w b w2
  assume "run_state (State_Monad.bind m f) w = (b, w2)"
  then obtain a w1 where r: "run_state m w = (a, w1)" "run_state (f a) w1 = (b, w2)"
    by (auto split: prod.splits)
  have "P a" using wp_run [OF assms(2) r(1)] .
  then show "stays w w2" using stays_trans [OF calm_run [OF assms(1) r(1)] calm_run [OF assms(3) r(2)]] by blast
qed

text \<open>Every check asks for an interval of the table, or for none.\<close>

lemma take_report_wait: "wp (take_report env p info) (\<lambda>i _. i \<le> 300) s"
  unfolding take_report_def by (simp add: wp_const wp_fun upd_task_def get_task_def)

lemma new_report_wait: "wp (new_report env p info) (\<lambda>i _. i \<le> 300) s"
  unfolding new_report_def by (simp add: wp_const wp_fun upd_task_def)

lemma finish_results_wait: "wp (finish_results env p) (\<lambda>ri _. snd ri \<le> 300) s"
  unfolding finish_results_def by (simp add: wp_const wp_fun upd_task_def get_task_def)

lemma calm_backend_query_task: "clock_ok env \<Longrightarrow> calm (backend_query_task env p)"
  unfolding backend_query_task_def
  by (intro calm_intros calm_gvm calm_bind_wp [where P = "\<lambda>i. i \<le> 300"] calm_upd calm_new_report
      calm_requeue) 
    (auto simp: upd_task_def new_report_wait updateTaskReport_same same_identI)

lemma calm_backend_query_report: "clock_ok env \<Longrightarrow> calm (backend_query_report env p)"
  unfolding backend_query_report_def
  by (intro calm_intros calm_gvm calm_bind_wp [where P = "\<lambda>i. i \<le> 300"] calm_take_report calm_requeue)
    (auto simp: take_report_wait)

lemma calm_backend_query_result: "clock_ok env \<Longrightarrow> calm (backend_query_result env p)"
  unfolding backend_query_result_def
  by (intro calm_bind [OF calm_query_results] calm_bind_wp [where P = "\<lambda>ri. snd ri \<le> 300"] calm_if calm_return
      calm_finish_results calm_prod_eq calm_requeue)
    (auto simp: finish_results_wait)

end
