(* ===== verification/StoreOps.thy ===== *)
theory StoreOps imports Backend begin

text \<open>
  The operations that add a task to the store or take it out (\<open>createTaskRelationFiles\<close>,
  \<open>delTaskRelationFiles\<close>, \<open>parseTaskRecord\<close>), and that every check keeps the store consistent.
\<close>

text \<open>\<open>K\<close> are the objects that a handler holds; every task of the store waits for its next check.\<close>

definition held :: "nat set \<Rightarrow> 'a dworld_scheme \<Rightarrow> bool" where
  "held K w \<longleftrightarrow> tasks_inv K w \<and> running w = created w"

lemma store_ok_held: "store_ok w \<longleftrightarrow> held {} w"
  by (simp add: store_ok_def held_def)

lemma held_stays: "held K w \<Longrightarrow> stays w w' \<Longrightarrow> held K w' \<and> created w' = created w"
  unfolding held_def stays_def by metis

lemma stays_info:
  "tasks_inv K w \<Longrightarrow> stays w w' \<Longrightarrow> same_ident (task_at w' p) (task_at w p)"
  unfolding stays_def by blast

lemma key_ok_cong: "same_ident t s \<Longrightarrow> key_ok t = key_ok s"
  by (simp add: key_ok_def same_ident_def)

lemma frame_writeTaskFile: "frame (writeTaskFile env)"
  unfolding writeTaskFile_def by (intro keeps_intros frame_files)

subsection \<open>Deleting\<close>

lemma run_bindE:
  assumes "run_state (State_Monad.bind m f) w = (b, w2)"
  obtains a w1 where "run_state m w = (a, w1)" "run_state (f a) w1 = (b, w2)"
  using assms by (auto split: prod.splits)

lemma forget_task_inv:
  assumes h1: "held K w1" and p1: "p \<in> created w1" and rn: "run_state (forget_task env p dir) w1 = (r, w')"
  shows "if r = 0 then held (insert p K) w' \<and> created w' = created w1 - {p} else held K w' \<and> created w' = created w1"
proof -
  have i1: "tasks_inv K w1" using h1 by (simp add: held_def)
  obtain d w2 where r2: "run_state (delGvmTask p) w1 = (d, w2)" by fastforce
  have d: "d = 0" "tasks_inv (insert p K) w2" "created w2 = created w1 - {p}" "running w2 = running w1"
    "tasks w2 = tasks w1" "length (m_nameset w2) < m_name_cap w2"
    using wp_run [OF delGvmTask_inv [OF i1 p1] r2] by simp_all
  obtain k w3 where r3: "run_state (writeTaskFile env) w2 = (k, w3)" by fastforce
  have e3: "gworld.more w3 = gworld.more w2" using keeps_run [OF frame_writeTaskFile r3] .
  note f3 = frame_inv [OF e3] and g3 = frame_fields [OF e3]
  have i3: "tasks_inv (insert p K) w3" using d(2) f3(1) by simp
  show ?thesis
  proof (cases "k = 0")
    case k: True
    obtain x w4 where r4: "run_state (delGvmRunTask p) w3 = (x, w4)" by fastforce
    have d4: "tasks_inv (insert p K) w4" "created w4 = created w3" "running w4 = running w3 - {p}"
      using wp_run [OF delGvmRunTask_inv [OF i3] r4] by simp_all
    obtain y w5 where r5: "run_state (deleteDir env dir) w4 = (y, w5)" by fastforce
    have h4: "held (insert p K) w4" using d d4 f3 h1 by (auto simp: held_def)
    have "r = 0" "w' = w5" using rn d(1) k r2 r3 r4 r5 by (auto simp: forget_task_def)
    then show ?thesis
      using held_stays [OF h4 calm_run [OF calm_files(4) r5]] d d4 f3 h1 by auto
  next
    case k: False
    obtain x w4 where r4: "run_state (addGvmTask env p) w3 = (x, w4)" by fastforce
    have kp: "key_ok (task_at w3 p)" using inv_facts(1) [OF i1 p1] d(5) f3(4) by (simp add: task_at_def)
    have u: "task_name (task_at w3 q) \<noteq> task_name (task_at w3 p)" if "q \<in> created w3" for q
    proof -
      have q: "q \<in> created w1" "q \<noteq> p" using that f3(2) d(3) by auto
      then have "task_name (task_at w1 q) \<noteq> task_name (task_at w1 p)"
        using inj_onD [OF inv_sets(11) [OF i1] _ q(1) p1] by blast
      then show ?thesis using d(5) f3(4) by (simp add: task_at_def)
    qed
    have "x = 0" "tasks_inv (insert p K - {p}) w4" "created w4 = insert p (created w3)" "running w4 = running w3"
      using wp_run [OF addGvmTask_inv [OF i3 _ kp u] r4] d(6) g3 by (auto split: if_splits)
    moreover have "insert p K - {p} = K" using inv_sets(8) [OF i1] p1 by auto
    moreover have "r = k" "w' = w4" using rn d(1) k r2 r3 r4 by (auto simp: forget_task_def)
    ultimately show ?thesis using k d f3 h1 p1 by (auto simp: held_def)
  qed
qed

lemma delTaskRelationFiles_inv:
  assumes h: "held K w" and p: "p \<in> created w" and rn: "run_state (delTaskRelationFiles env p) w = (r, w')"
  shows "if r = 0 then held (insert p K) w' \<and> created w' = created w - {p} else held K w' \<and> created w' = created w"
proof -
  obtain e w1 where r1: "run_state (prepare_paths p) w = (e, w1)"
    and rn1: "run_state (if e \<noteq> 0 then ret (- 1) else do {
       t \<leftarrow> get_task p;
       forget_task env p (OPENVAS_TASK_DIR (m_paths t))
     }) w1 = (r, w')"
    using rn unfolding delTaskRelationFiles_def by (rule run_bindE)
  note h1 = held_stays [OF h calm_run [OF calm_prepare_paths r1]]
  show ?thesis
  proof (cases "e = 0")
    case True
    then have "run_state (forget_task env p (OPENVAS_TASK_DIR (m_paths (task_at w1 p)))) w1 = (r, w')"
      using rn1 by (simp add: get_task_def)
    then show ?thesis using forget_task_inv [of K w1 p] h1 p by simp
  qed (use rn1 h1 in auto)
qed

subsection \<open>Creating\<close>

lemma prepare_paths_chk_time:
  "run_state (prepare_paths p) w = (e, w1) \<Longrightarrow> p \<in> dom (tasks w) \<Longrightarrow>
    m_chk_time (task_at w1 p) = m_chk_time (task_at w p)"
  by (auto simp: prepare_paths_def get_task_def upd_task_def task_at_def prepareGvmPaths_same)

lemma record_task_inv:
  assumes h: "held K w" and p: "p \<in> K" "key_ok (task_at w p)" "time_ok (task_at w p)"
    and u: "\<And>q. q \<in> created w \<Longrightarrow> task_name (task_at w q) \<noteq> task_name (task_at w p)"
    and rn: "run_state (record_task env p dir) w = (r, w')"
  shows "if r = 0 then held (K - {p}) w' \<and> created w' = insert p (created w) else held K w' \<and> created w' = created w"
proof -
  have i: "tasks_inv K w" and ru: "running w = created w" using h by (auto simp: held_def)
  obtain a w3 where r3: "run_state (addGvmTask env p) w = (a, w3)" by fastforce
  have a: "tasks w3 = tasks w" "running w3 = running w"
    "if a = 0 then tasks_inv (K - {p}) w3 \<and> created w3 = insert p (created w)
     else tasks_inv K w3 \<and> created w3 = created w"
    using wp_run [OF addGvmTask_inv [OF i p(1,2) u] r3] by (auto split: if_splits)
  show ?thesis
  proof (cases "a = 0")
    case False
    obtain y w4 where r4: "run_state (deleteDir env dir) w3 = (y, w4)" by fastforce
    have h3: "held K w3" using a False ru by (simp add: held_def)
    have "r = a" "w' = w4" using rn False r3 r4 by (auto simp: record_task_def)
    then show ?thesis using False a held_stays [OF h3 calm_run [OF calm_files(4) r4]] by simp
  next
    case a0: True
    then have i3: "tasks_inv (K - {p}) w3" and c3: "created w3 = insert p (created w)" using a(3) by auto
    obtain k w4 where r4: "run_state (writeTaskFile env) w3 = (k, w4)" by fastforce
    have e4: "gworld.more w4 = gworld.more w3" using keeps_run [OF frame_writeTaskFile r4] .
    note f4 = frame_inv [OF e4]
    have i4: "tasks_inv (K - {p}) w4" and p4: "p \<in> created w4" using i3 f4 c3 by auto
    show ?thesis
    proof (cases "k = 0")
      case k: True
      obtain x w5 where r5: "run_state (addGvmRunTask p) w4 = (x, w5)" by fastforce
      have "time_ok (task_at w4 p)" using p(3) a(1) f4(4) by (simp add: task_at_def)
      moreover have "p \<in> dom (tasks w4)" using inv_sets(7) [OF i4] p4 by auto
      ultimately have "tasks_inv (K - {p}) w5" "created w5 = created w4" "running w5 = insert p (running w4)"
        using wp_run [OF addGvmRunTask_inv [OF i4] r5] by auto
      moreover have "r = 0" "w' = w5" using rn a0 k r3 r4 r5 by (auto simp: record_task_def)
      ultimately show ?thesis using f4 c3 a(2) ru by (auto simp: held_def)
    next
      case k: False
      obtain x w5 where r5: "run_state (delGvmTask p) w4 = (x, w5)" by fastforce
      have d: "tasks_inv (insert p (K - {p})) w5" "created w5 = created w4 - {p}" "running w5 = running w4"
        using wp_run [OF delGvmTask_inv [OF i4 p4] r5] by simp_all
      obtain y w6 where r6: "run_state (deleteDir env dir) w5 = (y, w6)" by fastforce
      have "p \<notin> created w" using inv_facts(4) [OF i p(1)] .
      then have h5: "held K w5" "created w5 = created w"
        using d f4 c3 a(2) ru p(1) by (auto simp: held_def insert_absorb)
      have "r = k" "w' = w6" using rn a0 k r3 r4 r5 r6 by (auto simp: record_task_def)
      then show ?thesis using k h5 held_stays [OF h5(1) calm_run [OF calm_files(4) r6]] by simp
    qed
  qed
qed

lemma createTaskRelationFiles_inv:
  assumes h: "held K w" and p: "p \<in> K" "key_ok (task_at w p)" "time_ok (task_at w p)"
    and u: "\<And>q. q \<in> created w \<Longrightarrow> task_name (task_at w q) \<noteq> task_name (task_at w p)"
    and rn: "run_state (createTaskRelationFiles env p) w = (r, w')"
  shows "if r = 0 then held (K - {p}) w' \<and> created w' = insert p (created w) else held K w' \<and> created w' = created w"
proof -
  obtain e w1 where r1: "run_state (prepare_paths p) w = (e, w1)"
    and rn1: "run_state (if e \<noteq> 0 then ret (- 1) else do {
       t \<leftarrow> get_task p;
       c \<leftarrow> createDir env (OPENVAS_TASK_DIR (m_paths t));
       if c < 0 then ret (- 1) else record_task env p (OPENVAS_TASK_DIR (m_paths t))
     }) w1 = (r, w')"
    using rn unfolding createTaskRelationFiles_def by (rule run_bindE)
  have s1: "stays w w1" using calm_run [OF calm_prepare_paths r1] .
  have i: "tasks_inv K w" using h by (simp add: held_def)
  note h1 = held_stays [OF h s1]
  have info: "same_ident (task_at w1 q) (task_at w q)" for q using stays_info [OF i s1] .
  have nm: "task_name (task_at w1 q) = task_name (task_at w q)" for q using info by (simp add: same_ident_def)
  have "p \<in> dom (tasks w)" using inv_sets(7) [OF i] p(1) by auto
  then have t1: "time_ok (task_at w1 p)"
    using p(3) prepare_paths_chk_time [OF r1] by (simp add: time_ok_def)
  show ?thesis
  proof (cases "e = 0")
    case True
    define dir where "dir = OPENVAS_TASK_DIR (m_paths (task_at w1 p))"
    obtain c w2 where r2: "run_state (createDir env dir) w1 = (c, w2)" by fastforce
    note h2 = held_stays [OF conjunct1 [OF h1] calm_run [OF calm_files(3) r2]]
    have at2: "task_at w2 = task_at w1" using keeps_run [OF frame_files(3) r2] by (rule frame_inv(4))
    have cr: "created w2 = created w" using h1 h2 by simp
    show ?thesis
    proof (cases "c < 0")
      case False
      have "run_state (record_task env p dir) w2 = (r, w')"
        using rn1 True False r2 by (simp add: get_task_def dir_def)
      then show ?thesis
        using record_task_inv [of K w2 p env dir r w'] h2 p t1 u nm cr key_ok_cong [OF info [of p]] at2 by auto
    qed (use rn1 True r2 h1 h2 in \<open>auto simp: get_task_def dir_def\<close>)
  qed (use rn1 h1 in auto)
qed


subsection \<open>Checks\<close>

lemma delete_check_inv:
  assumes c: "clock_ok env" and h: "held K w" and p: "p \<in> created w"
    and rn: "run_state (delete_check env p) w = (r, w')"
  shows "held K w' \<and> (if r = 0 then created w' = created w - {p} else created w' = created w)"
proof -
  obtain d w1 where r1: "run_state (delTaskRelationFiles env p) w = (d, w1)" by fastforce
  note h1 = delTaskRelationFiles_inv [OF h p r1]
  have i: "tasks_inv K w" using h by (simp add: held_def)
  show ?thesis
  proof (cases "d = 0")
    case True
    then have i1: "tasks_inv (insert p K) w1" "p \<notin> running w1" using h1 by (auto simp: held_def)
    obtain x w2 where r2: "run_state (freeGvmTask p) w1 = (x, w2)" by (metis surj_pair)
    have "tasks_inv (insert p K - {p}) w2" "created w2 = created w1" "running w2 = running w1"
      using wp_run [OF freeGvmTask_inv [OF i1(1) _ i1(2)] r2] by auto
    moreover have "insert p K - {p} = K" using inv_sets(8) [OF i] p by auto
    moreover have "r = 0" "w' = w2" using rn r1 r2 True by (auto simp: delete_check_def)
    ultimately show ?thesis using h1 True by (auto simp: held_def)
  next
    case False
    have q: "calm (do { setTaskNextChkTime env p (DEF_TASK_CHK_TIME_INTERVAL GVM_TASK_CHK_DELETED);
        _ \<leftarrow> queGvmRunTask p; ret () } :: ('a dworld_scheme, unit) state)"
      by (rule calm_requeue [OF c interval_le calm_return])
    obtain x w2 where r2: "run_state (do { setTaskNextChkTime env p (DEF_TASK_CHK_TIME_INTERVAL GVM_TASK_CHK_DELETED);
        _ \<leftarrow> queGvmRunTask p; ret () }) w1 = (x, w2)" by (metis surj_pair)
    have "r = d" "w' = w2" using rn r1 r2 False by (auto simp: delete_check_def split: prod.splits)
    then show ?thesis using False h1 held_stays [of K w1 w2] calm_run [OF q r2] by auto
  qed
qed

lemma check_task_inv:
  assumes c: "clock_ok env" and h: "held K w" and p: "p \<in> created w"
    and rn: "run_state (check_task env p) w = (r, w')"
  shows "held K w'" "created w' = created w \<or> m_chk_type (task_at w p) = GVM_TASK_CHK_DELETED \<and> created w' = created w - {p}"
proof -
  let ?k = "m_chk_type (task_at w p)"
  have "held K w' \<and> (created w' = created w \<or> ?k = GVM_TASK_CHK_DELETED \<and> created w' = created w - {p})"
  proof -
    have q: ?thesis if "calm m" "run_state m w = (r, w')" for m :: "('a dworld_scheme, int) state"
      using held_stays [OF h calm_run [OF that]] by simp
    show ?thesis
    proof (cases ?k)
      case GVM_TASK_CHK_TASK
      then show ?thesis
        using rn by (intro q [OF calm_backend_query_task [OF c]]) (simp add: check_task_def get_task_def)
    next
      case GVM_TASK_CHK_REPORT
      then show ?thesis
        using rn by (intro q [OF calm_backend_query_report [OF c]]) (simp add: check_task_def get_task_def)
    next
      case GVM_TASK_CHK_RESULT
      then show ?thesis
        using rn by (intro q [OF calm_backend_query_result [OF c]]) (simp add: check_task_def get_task_def)
    next
      case GVM_TASK_CHK_DELETED
      then have "run_state (delete_check env p) w = (r, w')" using rn by (simp add: check_task_def get_task_def)
      then show ?thesis using delete_check_inv [OF c h p] GVM_TASK_CHK_DELETED by (auto split: if_splits)
    qed
  qed
  then show "held K w'" "created w' = created w \<or> ?k = GVM_TASK_CHK_DELETED \<and> created w' = created w - {p}"
    by auto
qed

lemma runGvmChecks_inv:
  assumes c: "clock_ok env" and h: "held K w" and rn: "run_state (runGvmChecks env) w = (b, w')"
  shows "held K w'"
proof (cases "\<not> m_is_gvm_conn_ok w \<or> lq_head (m_runque w) = None")
  case True
  then show ?thesis using rn h by (auto simp: runGvmChecks_def split: option.splits)
next
  case False
  then obtain p where ok: "m_is_gvm_conn_ok w" and p: "lq_head (m_runque w) = Some p" by auto
  have "p \<in> running w" using p by (auto simp: lq_head_def running_def split: list.splits)
  then have pc: "p \<in> created w" using h by (simp add: held_def)
  let ?w = "w\<lparr>tick := Suc (tick w)\<rparr>"
  have e: "gworld.more ?w = gworld.more w" by simp
  have h1: "held K ?w" and pc1: "p \<in> created ?w"
    using h pc frame_inv [OF e] by (auto simp: held_def)
  show ?thesis
  proof (cases "m_chk_time (task_at w p) \<le> clk env (tick w)")
    case True
    then show ?thesis
      using rn ok p check_task_inv(1) [OF c h1 pc1]
      by (auto simp: runGvmChecks_def isTaskChkTimeExpired_def get_task_def getClkTime_def now_def
          split: prod.splits)
  next
    case False
    then show ?thesis
      using rn ok p h1
      by (auto simp: runGvmChecks_def isTaskChkTimeExpired_def get_task_def getClkTime_def now_def)
  qed
qed

end
