(* ===== verification/Daemon.thy ===== *)
theory Daemon imports StoreOps begin

text \<open>
  The requests about scans (\<open>daemon_start_task\<close>, \<open>daemon_stop_task\<close>, \<open>daemon_delete_task\<close> and
  \<open>daemon_create_task\<close> of \<^verbatim>\<open>openvas_business.c\<close>) and the start of the daemon (\<open>createData\<close>,
  \<open>finishData\<close>, \<open>initDaemon\<close>).
\<close>

subsection \<open>Requests about one task\<close>

text \<open>What \<open>start\<close>, \<open>stop\<close> and \<open>delete\<close> do first: read the request into the key object, look at the
  connection, and find the task by its name; \<open>Inl\<close> is the code of the refusal.\<close>

definition locate_task :: "env \<Rightarrow> nat \<Rightarrow> string \<Rightarrow> ('a dworld_scheme, int + nat) state" where
  "locate_task env key input = do {
     t \<leftarrow> get_task key;
     upd_task key (\<lambda>t. snd (getKeyTaskParam input t));
     if fst (getKeyTaskParam input t) \<noteq> 0 then ret (Inl GVM_ERR_PARAM_INVALID)
     else do {
       ok \<leftarrow> gets m_is_gvm_conn_ok;
       if \<not> ok then ret (Inl GVM_ERR_GVMD_CONN)
       else do {
         f \<leftarrow> findGvmTask key;
         ret (case f of None \<Rightarrow> Inl GVM_ERR_TASK_NOT_FOUND | Some p \<Rightarrow> Inr p)
       }
     }
   }"

text \<open>The key object is allocated first and freed last.\<close>

definition with_task ::
  "env \<Rightarrow> string \<Rightarrow> (nat \<Rightarrow> ('a dworld_scheme, int) state) \<Rightarrow> ('a dworld_scheme, int) state" where
  "with_task env input body = do {
     k \<leftarrow> newGvmTask env;
     case k of
       None \<Rightarrow> ret GVM_ERR_INTERNAL_FAIL
     | Some key \<Rightarrow> do {
         l \<leftarrow> locate_task env key input;
         r \<leftarrow> (case l of Inl e \<Rightarrow> ret e | Inr p \<Rightarrow> body p);
         freeGvmTask key;
         ret r
       }
   }"

definition start_found :: "env \<Rightarrow> nat \<Rightarrow> ('a dworld_scheme, int) state" where
  "start_found env p = do {
     t \<leftarrow> get_task p;
     if chkTaskBusy t then ret GVM_ERR_TASK_IS_BUSY
     else do {
       (r, report_id) \<leftarrow> gvm_start_task env (task_id t) MAX_UUID_SIZE;
       if r = 0
       then do {
         setTaskNextChkTime env p 0;
         _ \<leftarrow> queGvmRunTask p;
         ret 0
       }
       else ret GVM_ERR_OPENVAS_PROC_FAIL
     }
   }"

definition daemon_start_task :: "env \<Rightarrow> string \<Rightarrow> ('a dworld_scheme, int) state" where
  "daemon_start_task env input = with_task env input (start_found env)"

definition stop_found :: "env \<Rightarrow> nat \<Rightarrow> ('a dworld_scheme, int) state" where
  "stop_found env p = do {
     t \<leftarrow> get_task p;
     if \<not> chkTaskRunning t then ret GVM_ERR_TASK_IS_NOT_RUNNING
     else do {
       r \<leftarrow> gvm_stop_task env (task_id t);
       if r = 0
       then do {
         setTaskNextChkTime env p 0;
         _ \<leftarrow> queGvmRunTask p;
         ret 0
       }
       else ret GVM_ERR_OPENVAS_PROC_FAIL
     }
   }"

definition daemon_stop_task :: "env \<Rightarrow> string \<Rightarrow> ('a dworld_scheme, int) state" where
  "daemon_stop_task env input = with_task env input (stop_found env)"

text \<open>A schedule or configuration that was created for the task is deleted with it.\<close>

definition on_info ::
  "(gvm_task_info \<Rightarrow> ('a dworld_scheme, int \<times> gvm_task_info) state) \<Rightarrow> nat \<Rightarrow> ('a dworld_scheme, int) state" where
  "on_info f p = do {
     t \<leftarrow> get_task p;
     (r, info) \<leftarrow> f (m_task_info t);
     upd_task p (upd_info (\<lambda>_. info));
     ret r
   }"

text \<open>Once the scanner has deleted the task, failures of the rest are only logged; when the files cannot
  be changed the task is kept and deleted by a later check.\<close>

definition delete_found :: "env \<Rightarrow> nat \<Rightarrow> ('a dworld_scheme, int) state" where
  "delete_found env p = do {
     t \<leftarrow> get_task p;
     if chkTaskBusy t then ret GVM_ERR_TASK_IS_BUSY
     else do {
       r \<leftarrow> gvm_option_delete_task env (task_id t);
       if r \<noteq> 0 then ret GVM_ERR_OPENVAS_PROC_FAIL
       else do {
         _ \<leftarrow> gvm_option_delete_target env (tg_target_id (m_target_info t));
         _ \<leftarrow> on_info (gvm_option_delete_schedule env) p;
         _ \<leftarrow> on_info (gvm_option_delete_config env) p;
         d \<leftarrow> delTaskRelationFiles env p;
         (if d = 0 then freeGvmTask p else upd_task p (setTaskChkType GVM_TASK_CHK_DELETED));
         ret 0
       }
     }
   }"

definition daemon_delete_task :: "env \<Rightarrow> string \<Rightarrow> ('a dworld_scheme, int) state" where
  "daemon_delete_task env input = with_task env input (delete_found env)"

subsection \<open>Creating a task\<close>

text \<open>The four requests to the scanner in their order; the first that fails ends them.\<close>

definition create_parts :: "env \<Rightarrow> nat \<Rightarrow> ('a dworld_scheme, int) state" where
  "create_parts env p = do {
     t \<leftarrow> get_task p;
     (r, target) \<leftarrow> gvm_create_target env (tg_target_name (m_target_info t)) (tg_hosts (m_target_info t))
       (tg_portlist_id (m_target_info t)) (tg_target_id (m_target_info t)) MAX_UUID_SIZE;
     upd_task p (upd_target (\<lambda>g. g\<lparr>tg_target_id := target\<rparr>));
     if r \<noteq> 0 then ret GVM_ERR_OPENVAS_PROC_FAIL
     else do {
       r \<leftarrow> on_info (gvm_option_create_schedule env) p;
       if r \<noteq> 0 then ret GVM_ERR_OPENVAS_PROC_FAIL
       else do {
         r \<leftarrow> on_info (gvm_option_create_config env) p;
         if r \<noteq> 0 then ret GVM_ERR_OPENVAS_PROC_FAIL
         else do {
           t \<leftarrow> get_task p;
           (r, uuid) \<leftarrow> gvm_create_task env (task_name t) (tg_target_id (m_target_info t))
             (ti_config_id (m_task_info t)) (ti_schedule_id (m_task_info t)) (task_id t) MAX_UUID_SIZE;
           upd_task p (upd_info (\<lambda>i. i\<lparr>ti_task_id := uuid\<rparr>));
           ret (if r = 0 then 0 else GVM_ERR_OPENVAS_PROC_FAIL)
         }
       }
     }
   }"

text \<open>\<open>strncpy\<close> of a timestamp keeps its terminator, because both buffers have the same size.\<close>

definition store_created :: "env \<Rightarrow> nat \<Rightarrow> ('a dworld_scheme, int) state" where
  "store_created env p = do {
     (_, stamp) \<leftarrow> nowTimeStamp env MAX_TIMESTAMP_SIZE;
     upd_task p (upd_info (\<lambda>i. i\<lparr>ti_create_time := stamp, ti_modify_time := stamp\<rparr>));
     upd_task p (setTaskStatus GVM_TASK_CREATE);
     upd_task p (setTaskChkType GVM_TASK_CHK_TASK);
     setTaskNextChkTime env p (DEF_TASK_CHK_TIME_INTERVAL GVM_TASK_CHK_TASK);
     r \<leftarrow> createTaskRelationFiles env p;
     ret (if r \<noteq> 0 then GVM_ERR_INTERNAL_FAIL else 0)
   }"

definition create_checked :: "env \<Rightarrow> nat \<Rightarrow> string \<Rightarrow> ('a dworld_scheme, int) state" where
  "create_checked env p input = do {
     t \<leftarrow> get_task p;
     upd_task p (\<lambda>t. snd (getCreateTaskParam input t));
     if fst (getCreateTaskParam input t) \<noteq> 0 then ret GVM_ERR_PARAM_INVALID
     else do {
       ok \<leftarrow> gets m_is_gvm_conn_ok;
       if \<not> ok then ret GVM_ERR_GVMD_CONN
       else do {
         f \<leftarrow> findGvmTask p;
         if f \<noteq> None then ret GVM_ERR_TASK_ALREADY_EXISTS
         else do {
           r \<leftarrow> create_parts env p;
           if r \<noteq> 0 then ret r else store_created env p
         }
       }
     }
   }"

text \<open>When anything failed, what was created so far is deleted again.\<close>

definition undo_parts :: "env \<Rightarrow> nat \<Rightarrow> ('a dworld_scheme, int) state" where
  "undo_parts env p = do {
     t \<leftarrow> get_task p;
     _ \<leftarrow> gvm_option_delete_task env (task_id t);
     _ \<leftarrow> gvm_option_delete_target env (tg_target_id (m_target_info t));
     _ \<leftarrow> on_info (gvm_option_delete_schedule env) p;
     on_info (gvm_option_delete_config env) p
   }"

definition undo_create :: "env \<Rightarrow> nat \<Rightarrow> ('a dworld_scheme, unit) state" where
  "undo_create env p = do { _ \<leftarrow> undo_parts env p; freeGvmTask p }"

definition daemon_create_task :: "env \<Rightarrow> string \<Rightarrow> ('a dworld_scheme, int) state" where
  "daemon_create_task env input = do {
     k \<leftarrow> newGvmTask env;
     case k of
       None \<Rightarrow> ret GVM_ERR_INTERNAL_FAIL
     | Some p \<Rightarrow> do {
         r \<leftarrow> create_checked env p input;
         (if r = 0 then ret () else undo_create env p);
         ret r
       }
   }"

subsection \<open>Starting and ending\<close>

definition DEF_GVM_TASK_FILE_NAME :: string where "DEF_GVM_TASK_FILE_NAME = ''gvm_task_file''"
definition DEF_GVM_PRIV_DATA_DIR :: string where "DEF_GVM_PRIV_DATA_DIR = ''/usr/local/openvas/gvm/var/private''"

text \<open>\<open>createData\<close>: the containers are empty, and the connection is taken to be down until it was
  checked; the array of names needs memory.\<close>

definition createData :: "env \<Rightarrow> ('a dworld_scheme, bool) state" where
  "createData env = do {
     nomem \<leftarrow> fails env;
     modify (\<lambda>w. w\<lparr>m_createque := lq_init, m_runque := lq_init, m_nameset := [],
       m_name_cap := DEF_LIST_ARRAY_SIZE, m_task_file_name := DEF_GVM_TASK_FILE_NAME,
       m_task_priv_dir := DEF_GVM_PRIV_DATA_DIR, m_is_gvm_conn_ok := False\<rparr>);
     ret (\<not> nomem)
   }"

text \<open>\<open>finishData\<close>: the queues are reset and the objects of the array are freed.\<close>

definition finishData :: "('a dworld_scheme, unit) state" where
  "finishData = modify (\<lambda>w. w\<lparr>tasks := (\<lambda>p. if p \<in> set (m_nameset w) then None else tasks w p),
     m_runque := lq_init, m_createque := lq_init, m_nameset := [], m_name_cap := 0\<rparr>)"

definition init_steps :: "env \<Rightarrow> ('a dworld_scheme, int) state" where
  "init_steps env = do {
     dir \<leftarrow> gets m_task_priv_dir;
     r \<leftarrow> chkExists env dir False;
     if r \<noteq> 0 then ret r
     else do {
       r \<leftarrow> readTaskFile env;
       if r \<noteq> 0 then ret r
       else do {
         r \<leftarrow> readAllTaskStatusRecs env;
         if r \<noteq> 0 then ret r else addGvmChecks env
       }
     }
   }"

definition initDaemon :: "env \<Rightarrow> ('a dworld_scheme, int) state" where
  "initDaemon env = do {
     ok \<leftarrow> createData env;
     if \<not> ok then do { finishData; ret (- 1) }
     else do {
       r \<leftarrow> init_steps env;
       (if r = 0 then ret () else finishData);
       ret r
     }
   }"

end
