(* ===== verification/DaemonInv.thy ===== *)
theory DaemonInv imports Daemon begin

text \<open>
  Every request, check and timer keeps the store of tasks consistent, and what the requests answer.
\<close>

text \<open>Formatted times are C strings.\<close>

definition times_ok :: "env \<Rightarrow> bool" where
  "times_ok env \<longleftrightarrow> (\<forall>f l t s. strftime env f l t = Some s \<longrightarrow> cstring s)"

subsection \<open>The key object\<close>

lemma held_key:
  assumes h: "held K w" and p: "p \<in> K" and rn: "run_state (upd_task p f) w = (u, w')"
  shows "held K w'" "created w' = created w" "task_at w' p = f (task_at w p)"
    "\<And>q. q \<noteq> p \<Longrightarrow> task_at w' q = task_at w q" "m_is_gvm_conn_ok w' = m_is_gvm_conn_ok w"
proof -
  have i: "tasks_inv K w" using h by (simp add: held_def)
  have n: "p \<notin> created w \<union> running w" using inv_facts(4) [OF i p] h by (auto simp: held_def)
  note u = wp_run [OF upd_task_inv [OF i, of p f] rn]
  show "held K w'" "created w' = created w" using u n h by (auto simp: held_def)
  have t: "tasks w' = (tasks w)(p := map_option f (tasks w p))" using u n by simp
  show "task_at w' p = f (task_at w p)" using t inv_facts(3) [OF i p] by (metis task_at_def fun_upd_same option.map_sel option.sel option.distinct(1))
  show "\<And>q. q \<noteq> p \<Longrightarrow> task_at w' q = task_at w q" using t by (simp add: task_at_def)
  show "m_is_gvm_conn_ok w' = m_is_gvm_conn_ok w" using u n by simp
qed

lemma getNextToken_cstring:
  assumes "getNextToken s d b n = (0, tok, rest)" "cstring s"
  shows "length tok < n" "cstring tok" "cstring rest"
proof -
  have "cstring p" if "strstr s d = Some p" for p
    using strstr_Some [OF that] assms(2) by auto
  then show "length tok < n" "cstring tok" "cstring rest"
    using assms by (auto simp: getNextToken_def Let_def cstring_def dest!: in_set_takeD in_set_dropD
        split: if_splits option.splits)
qed

lemma upd_info_simps [simp]:
  "m_task_info (upd_info f t) = f (m_task_info t)" "m_target_info (upd_info f t) = m_target_info t"
  "m_chk_time (upd_info f t) = m_chk_time t" "m_task_info (upd_target g t) = m_task_info t"
  "m_target_info (upd_target g t) = g (m_target_info t)" "m_chk_time (upd_target g t) = m_chk_time t"
  "m_report_info (upd_info f t) = m_report_info t" "m_chk_type (upd_info f t) = m_chk_type t"
  "m_report_info (upd_target g t) = m_report_info t" "m_chk_type (upd_target g t) = m_chk_type t"
  by (simp_all add: upd_info_def upd_target_def)

lemma getKeyTaskParam_key:
  assumes "cstring input" "getKeyTaskParam input t = (0, t')" "cstring (ti_create_time (m_task_info t))"
  shows "key_ok t'"
proof -
  obtain r nm s where k: "getNextToken input [SOH] (task_name t) MAX_NAME_SIZE = (r, nm, s)"
    by (metis prod_cases3)
  then have "r = 0" using assms(2) by (auto simp: getKeyTaskParam_def Let_def split: if_splits)
  then have "length nm < MAX_NAME_SIZE" "cstring nm" using getNextToken_cstring [OF _ assms(1)] k by auto
  moreover have "task_name t' = nm" "ti_create_time (m_task_info t') = ti_create_time (m_task_info t)"
    using assms(2) k \<open>r = 0\<close> by (auto simp: getKeyTaskParam_def Let_def split: prod.splits if_splits)
  ultimately show ?thesis using assms(3) by (simp add: key_ok_def)
qed

lemma getCreateTaskParam_key:
  assumes "cstring input" "getCreateTaskParam input t = (0, t')" "cstring (ti_create_time (m_task_info t))"
  shows "key_ok t'"
proof -
  obtain r nm s where k: "getNextToken input [SOH] (task_name t) MAX_NAME_SIZE = (r, nm, s)"
    by (metis prod_cases3)
  then have "r = 0" using assms(2) by (auto simp: getCreateTaskParam_def Let_def split: if_splits)
  then have "length nm < MAX_NAME_SIZE" "cstring nm" using getNextToken_cstring [OF _ assms(1)] k by auto
  moreover have "task_name t' = nm" "ti_create_time (m_task_info t') = ti_create_time (m_task_info t)"
    using assms(2) k \<open>r = 0\<close> by (auto simp: getCreateTaskParam_def Let_def split: prod.splits if_splits)
  ultimately show ?thesis using assms(3) by (simp add: key_ok_def)
qed


lemma locate_task_inv:
  fixes w :: "'a dworld_scheme"
  assumes h: "held K w" and k: "key \<in> K" "task_at w key = new_gvm_task" and c: "cstring input"
    and rn: "run_state (locate_task env key input) w = (l, w')"
  defines "t \<equiv> getKeyTaskParam input new_gvm_task"
  shows "held K w'" "created w' = created w" "\<And>q. q \<noteq> key \<Longrightarrow> task_at w' q = task_at w q"
    and "case l of
      Inl e \<Rightarrow> e = (if fst t \<noteq> 0 then GVM_ERR_PARAM_INVALID else if \<not> m_is_gvm_conn_ok w then GVM_ERR_GVMD_CONN
          else GVM_ERR_TASK_NOT_FOUND) \<and>
        (fst t = 0 \<and> m_is_gvm_conn_ok w \<longrightarrow> task_name (snd t) \<notin> (\<lambda>q. task_name (task_at w q)) ` created w)
    | Inr p \<Rightarrow> fst t = 0 \<and> m_is_gvm_conn_ok w \<and> p \<in> created w \<and> task_name (task_at w p) = task_name (snd t)"
proof -
  obtain u w1 where r1: "run_state (upd_task key (\<lambda>t. snd (getKeyTaskParam input t))) w = (u, w1)"
    by (metis surj_pair)
  note h1 = held_key [OF h k(1) r1]
  have k1: "task_at w1 key = snd t" using h1(3) k(2) by (simp add: t_def)
  have i: "tasks_inv K w" and i1: "tasks_inv K w1" using h h1(1) by (auto simp: held_def)
  have n: "key \<notin> created w" using inv_facts(4) [OF i k(1)] .
  have out: "w' = w1 \<and> l = (if fst t \<noteq> 0 then Inl GVM_ERR_PARAM_INVALID
      else if \<not> m_is_gvm_conn_ok w then Inl GVM_ERR_GVMD_CONN
      else case ls_find (\<lambda>a k. cmpGvmName (task_at w1 a) k) (m_nameset w1) (task_at w1 key) of
        None \<Rightarrow> Inl GVM_ERR_TASK_NOT_FOUND | Some p \<Rightarrow> Inr p)"
    using rn r1 k(2) h1(5) unfolding locate_task_def get_task_def findGvmTask_def t_def
    by (cases "fst (getKeyTaskParam input new_gvm_task) = 0"; cases "m_is_gvm_conn_ok w") simp_all
  show "held K w'" "created w' = created w" "\<And>q. q \<noteq> key \<Longrightarrow> task_at w' q = task_at w q"
    using out h1 by simp_all
  have f: "case ls_find (\<lambda>a k. cmpGvmName (task_at w1 a) k) (m_nameset w1) (task_at w1 key) of
       None \<Rightarrow> \<forall>q\<in>created w. task_name (task_at w q) \<noteq> task_name (snd t)
     | Some p \<Rightarrow> p \<in> created w \<and> task_name (task_at w p) = task_name (snd t)" if "fst t = 0"
  proof -
    have "getKeyTaskParam input new_gvm_task = (0, snd t)" using that by (simp add: t_def prod_eq_iff)
    then have "key_ok (task_at w1 key)"
      unfolding k1 by (rule getKeyTaskParam_key [OF c]) (simp add: new_gvm_task_def initGvmTaskInfo_def)
    then have "case ls_find (\<lambda>a k. cmpGvmName (task_at w1 a) k) (m_nameset w1) (task_at w1 key) of
       None \<Rightarrow> \<forall>q\<in>created w1. task_name (task_at w1 q) \<noteq> task_name (task_at w1 key)
     | Some p \<Rightarrow> p \<in> created w1 \<and> task_name (task_at w1 p) = task_name (task_at w1 key)"
      using findGvmTask_inv [OF i1] by (simp add: findGvmTask_def)
    moreover have "task_at w1 q = task_at w q" if "q \<in> created w" for q using h1(4) that n by metis
    ultimately show ?thesis using k1 h1(2) by (auto split: option.splits)
  qed
  show "case l of
      Inl e \<Rightarrow> e = (if fst t \<noteq> 0 then GVM_ERR_PARAM_INVALID else if \<not> m_is_gvm_conn_ok w then GVM_ERR_GVMD_CONN
          else GVM_ERR_TASK_NOT_FOUND) \<and>
        (fst t = 0 \<and> m_is_gvm_conn_ok w \<longrightarrow> task_name (snd t) \<notin> (\<lambda>q. task_name (task_at w q)) ` created w)
    | Inr p \<Rightarrow> fst t = 0 \<and> m_is_gvm_conn_ok w \<and> p \<in> created w \<and> task_name (task_at w p) = task_name (snd t)"
    using out f
    by (cases "fst t = 0"; cases "m_is_gvm_conn_ok w";
        cases "ls_find (\<lambda>a k. cmpGvmName (task_at w1 a) k) (m_nameset w1) (task_at w1 key)") auto
qed

subsection \<open>Requests keep the store\<close>

text \<open>What the body of a request may do to the store.\<close>

definition safe_body :: "(nat \<Rightarrow> ('a dworld_scheme, int) state) \<Rightarrow> bool" where
  "safe_body m \<longleftrightarrow> (\<forall>K p w r w'. held K w \<and> p \<in> created w \<and> run_state (m p) w = (r, w') \<longrightarrow> held K w')"

lemma safe_bodyI:
  "(\<And>K p w r w'. held K w \<Longrightarrow> p \<in> created w \<Longrightarrow> run_state (m p) w = (r, w') \<Longrightarrow> held K w') \<Longrightarrow> safe_body m"
  unfolding safe_body_def by blast

lemma safe_calm: "(\<And>p. calm (m p)) \<Longrightarrow> safe_body m"
  by (rule safe_bodyI) (metis held_stays calm_run)

lemma newGvmTask_held:
  assumes h: "held K w" and rn: "run_state (newGvmTask env) w = (r, w')"
  shows "created w' = created w" "m_is_gvm_conn_ok w' = m_is_gvm_conn_ok w"
    "case r of None \<Rightarrow> held K w' \<and> task_at w' = task_at w
     | Some p \<Rightarrow> held (insert p K) w' \<and> p \<notin> K \<and> p \<notin> created w \<and> task_at w' p = new_gvm_task \<and>
         (\<forall>q. q \<noteq> p \<longrightarrow> task_at w' q = task_at w q)"
proof -
  have i: "tasks_inv K w" using h by (simp add: held_def)
  note n = wp_run [OF newGvmTask_inv [OF i, of env] rn]
  show "created w' = created w" "m_is_gvm_conn_ok w' = m_is_gvm_conn_ok w" using n by auto
  show "case r of None \<Rightarrow> held K w' \<and> task_at w' = task_at w
     | Some p \<Rightarrow> held (insert p K) w' \<and> p \<notin> K \<and> p \<notin> created w \<and> task_at w' p = new_gvm_task \<and>
         (\<forall>q. q \<noteq> p \<longrightarrow> task_at w' q = task_at w q)"
    using n h by (cases r) (simp_all add: held_def task_at_def [abs_def])
qed

lemma freeGvmTask_held:
  assumes h: "held K w" and p: "p \<in> K" and rn: "run_state (freeGvmTask p) w = (u, w')"
  shows "held (K - {p}) w'" "created w' = created w" "\<And>q. q \<noteq> p \<Longrightarrow> task_at w' q = task_at w q"
proof -
  have i: "tasks_inv K w" "p \<notin> running w" using h inv_facts(4) p by (auto simp: held_def)
  note n = wp_run [OF freeGvmTask_inv [OF i(1) p i(2)] rn]
  show "held (K - {p}) w'" "created w' = created w" "\<And>q. q \<noteq> p \<Longrightarrow> task_at w' q = task_at w q"
    using n h by (auto simp: held_def task_at_def)
qed

lemma with_task_inv:
  assumes b: "safe_body body" and h: "store_ok w" and c: "cstring input"
    and rn: "run_state (with_task env input body) w = (r, w')"
  shows "store_ok w'"
proof -
  have h0: "held {} w" using h by (simp add: store_ok_held)
  obtain k w1 where r1: "run_state (newGvmTask env) w = (k, w1)" by fastforce
  note n = newGvmTask_held [OF h0 r1]
  show ?thesis
  proof (cases k)
    case None
    then show ?thesis using rn r1 n(3) by (auto simp: with_task_def store_ok_held)
  next
    case (Some key)
    have h1: "held {key} w1" and k1: "task_at w1 key = new_gvm_task" using n(3) Some by auto
    obtain l w2 where r2: "run_state (locate_task env key input) w1 = (l, w2)" by fastforce
    note l = locate_task_inv [OF h1 _ k1 c r2, simplified]
    obtain x w3 where r3: "run_state (case l of Inl e \<Rightarrow> ret e | Inr p \<Rightarrow> body p) w2 = (x, w3)" by fastforce
    have h3: "held {key} w3"
    proof (cases l)
      case (Inl e)
      then show ?thesis using r3 l(1) by simp
    next
      case (Inr p)
      then have "p \<in> created w2" using l(2,4) by simp
      then show ?thesis using b l(1) r3 Inr unfolding safe_body_def by auto
    qed
    obtain u w4 where r4: "run_state (freeGvmTask key) w3 = (u, w4)" by (metis surj_pair)
    have "w' = w4" using rn r1 Some r2 r3 r4 by (auto simp: with_task_def)
    then show ?thesis using freeGvmTask_held(1) [OF h3 _ r4] by (simp add: store_ok_held)
  qed
qed

lemma safe_start_found: "clock_ok env \<Longrightarrow> safe_body (start_found env)"
  by (rule safe_calm)
    (unfold start_found_def, intro calm_get_task calm_bind [OF calm_get_task] calm_if calm_return
      calm_bind [OF calm_gvm(1)] calm_prod calm_requeue, auto)

lemma safe_stop_found: "clock_ok env \<Longrightarrow> safe_body (stop_found env)"
  by (rule safe_calm)
    (unfold stop_found_def, intro calm_get_task calm_bind [OF calm_get_task] calm_if calm_return
      calm_bind [OF calm_gvm(2)] calm_prod calm_requeue, auto)

lemma daemon_start_task_inv:
  "clock_ok env \<Longrightarrow> store_ok w \<Longrightarrow> cstring input \<Longrightarrow> run_state (daemon_start_task env input) w = (r, w') \<Longrightarrow> store_ok w'"
  unfolding daemon_start_task_def by (rule with_task_inv [OF safe_start_found])

lemma daemon_stop_task_inv:
  "clock_ok env \<Longrightarrow> store_ok w \<Longrightarrow> cstring input \<Longrightarrow> run_state (daemon_stop_task env input) w = (r, w') \<Longrightarrow> store_ok w'"
  unfolding daemon_stop_task_def by (rule with_task_inv [OF safe_stop_found])


subsection \<open>Deleting\<close>

lemma calm_on_info:
  assumes f: "\<And>i. frame (f i :: ('a dworld_scheme, int \<times> gvm_task_info) state)"
    and s: "\<And>i w. wp (f i) (\<lambda>ri _. ti_task_name (snd ri) = ti_task_name i \<and> ti_task_id (snd ri) = ti_task_id i \<and>
      ti_create_time (snd ri) = ti_create_time i) w"
  shows "calm (on_info f p :: ('a dworld_scheme, int) state)"
  unfolding calm_def
proof (intro allI wpI)
  fix w w' :: "'a dworld_scheme" and r
  assume rn: "run_state (on_info f p) w = (r, w')"
  obtain q info w1 where r1: "run_state (f (m_task_info (task_at w p))) w = ((q, info), w1)" by (metis surj_pair)
  have e: "gworld.more w1 = gworld.more w" using keeps_run [OF f r1] .
  have i: "ti_task_name info = task_name (task_at w p)" "ti_task_id info = task_id (task_at w p)"
    "ti_create_time info = ti_create_time (m_task_info (task_at w p))"
    using wp_run [OF s r1] by simp_all
  obtain u w2 where r2: "run_state (upd_task p (upd_info (\<lambda>_. info))) w1 = (u, w2)" by (metis surj_pair)
  have "stays w1 w2"
    by (rule stays_upd [OF _ _ r2]) (simp_all add: same_ident_def i frame_inv(4) [OF e])
  moreover have "w' = w2" using rn r1 r2 by (auto simp: on_info_def get_task_def)
  moreover have "stays w w1" using calm_run [OF calm_frame [OF f] r1] .
  ultimately show "stays w w'" using stays_trans by blast
qed

lemma wp_any: "(\<And>a s'. Q a s') \<Longrightarrow> wp m Q s"
  by (rule wpI)

lemma option_delete_ident:
  "wp (gvm_option_delete_schedule env i) (\<lambda>ri _. ti_task_name (snd ri) = ti_task_name i \<and>
    ti_task_id (snd ri) = ti_task_id i \<and> ti_create_time (snd ri) = ti_create_time i) w"
  "wp (gvm_option_delete_config env i) (\<lambda>ri _. ti_task_name (snd ri) = ti_task_name i \<and>
    ti_task_id (snd ri) = ti_task_id i \<and> ti_create_time (snd ri) = ti_create_time i) w"
  unfolding gvm_option_delete_schedule_def gvm_option_delete_config_def by (auto intro: wp_any)

lemma calm_on_info_delete:
  "calm (on_info (gvm_option_delete_schedule env) p)" "calm (on_info (gvm_option_delete_config env) p)"
  by (rule calm_on_info, rule frame_gvm, rule option_delete_ident)+

lemma delete_files_inv:
  assumes h: "held K w" and p: "p \<in> created w"
    and rn: "run_state (do { d \<leftarrow> delTaskRelationFiles env p;
      (if d = 0 then freeGvmTask p else upd_task p (setTaskChkType GVM_TASK_CHK_DELETED)); ret 0 }) w = (r, w')"
  shows "held K w' \<and> r = 0 \<and> (created w' = created w - {p} \<or>
    created w' = created w \<and> m_chk_type (task_at w' p) = GVM_TASK_CHK_DELETED)"
proof -
  obtain d w1 where r1: "run_state (delTaskRelationFiles env p) w = (d, w1)" by fastforce
  note h1 = delTaskRelationFiles_inv [OF h p r1]
  have i: "tasks_inv K w" using h by (simp add: held_def)
  obtain u w2 where r2: "run_state (if d = 0 then freeGvmTask p else upd_task p (setTaskChkType GVM_TASK_CHK_DELETED)) w1 = (u, w2)"
    by (metis surj_pair)
  have w': "r = 0" "w' = w2" using rn r1 r2 by auto
  show ?thesis
  proof (cases "d = 0")
    case True
    then have "held (insert p K) w1" using h1 by simp
    note n = freeGvmTask_held [OF this _ r2 [unfolded True if_P [OF refl]]]
    have "insert p K - {p} = K" using inv_sets(8) [OF i] p by auto
    then show ?thesis using n(1,2) h1 True w' by simp
  next
    case False
    then have h1': "held K w1" "created w1 = created w" using h1 by auto
    then have d: "tasks w1 p \<noteq> None" using inv_facts(2) [of K w1 p] p by (simp add: held_def)
    have r2': "run_state (upd_task p (setTaskChkType GVM_TASK_CHK_DELETED)) w1 = (u, w2)" using r2 False by simp
    have "stays w1 w2"
      by (rule stays_upd [OF _ _ r2']) (simp_all add: same_identI setTaskChkType_def)
    moreover have "m_chk_type (task_at w2 p) = GVM_TASK_CHK_DELETED"
      using r2' d by (auto simp: upd_task_def task_at_def setTaskChkType_def)
    ultimately show ?thesis using held_stays [OF h1'(1)] h1' w' by auto
  qed
qed

lemma delete_rest_inv:
  fixes w :: "'a dworld_scheme"
  assumes h: "held K w" and p: "p \<in> created w"
    and rn: "run_state (do { _ \<leftarrow> gvm_option_delete_target env u;
         _ \<leftarrow> on_info (gvm_option_delete_schedule env) p;
         _ \<leftarrow> on_info (gvm_option_delete_config env) p;
         d \<leftarrow> delTaskRelationFiles env p;
         (if d = 0 then freeGvmTask p else upd_task p (setTaskChkType GVM_TASK_CHK_DELETED));
         ret 0 }) w = (r, w')"
  shows "held K w' \<and> r = 0 \<and> (created w' = created w - {p} \<or>
    created w' = created w \<and> m_chk_type (task_at w' p) = GVM_TASK_CHK_DELETED)"
proof -
  let ?a = "do { _ \<leftarrow> gvm_option_delete_target env u; _ \<leftarrow> on_info (gvm_option_delete_schedule env) p;
    on_info (gvm_option_delete_config env) p } :: ('a dworld_scheme, int) state"
  obtain x w1 where r1: "run_state ?a w = (x, w1)" by (metis surj_pair)
  have "calm ?a" by (intro calm_bind calm_on_info_delete calm_gvm)
  from calm_run [OF this r1] have s: "stays w w1" .
  note h1 = held_stays [OF h s]
  have "run_state (do { d \<leftarrow> delTaskRelationFiles env p;
      (if d = 0 then freeGvmTask p else upd_task p (setTaskChkType GVM_TASK_CHK_DELETED)); ret 0 }) w1 = (r, w')"
    using rn r1 by (auto split: prod.splits)
  then show ?thesis using delete_files_inv [of K w1 p] h1 p by auto
qed

lemma safe_delete_found: "safe_body (delete_found env)"
proof (rule safe_bodyI)
  fix K p w r w'
  assume h: "held K w" "p \<in> created w" and rn: "run_state (delete_found env p) w = (r, w')"
  let ?t = "task_at w p"
  obtain d w1 where r1: "run_state (gvm_option_delete_task env (task_id ?t)) w = (d, w1)" by (metis surj_pair)
  note h1 = held_stays [OF h(1) calm_run [OF calm_gvm(6) r1]]
  show "held K w'"
  proof (cases "chkTaskBusy ?t \<or> d \<noteq> 0")
    case True
    then show ?thesis using rn r1 h h1 by (auto simp: delete_found_def get_task_def split: if_splits)
  next
    case False
    then have "run_state (do { _ \<leftarrow> gvm_option_delete_target env (tg_target_id (m_target_info ?t));
         _ \<leftarrow> on_info (gvm_option_delete_schedule env) p;
         _ \<leftarrow> on_info (gvm_option_delete_config env) p;
         d \<leftarrow> delTaskRelationFiles env p;
         (if d = 0 then freeGvmTask p else upd_task p (setTaskChkType GVM_TASK_CHK_DELETED));
         ret 0 }) w1 = (r, w')"
      using rn r1 by (simp add: delete_found_def get_task_def)
    then have "held K w' \<and> r = 0 \<and> (created w' = created w1 - {p} \<or>
        created w' = created w1 \<and> m_chk_type (task_at w' p) = GVM_TASK_CHK_DELETED)"
      by (rule delete_rest_inv [rotated 2]) (use h1 h(2) in auto)
    then show ?thesis by simp
  qed
qed

lemma daemon_delete_task_inv:
  "store_ok w \<Longrightarrow> cstring input \<Longrightarrow> run_state (daemon_delete_task env input) w = (r, w') \<Longrightarrow> store_ok w'"
  unfolding daemon_delete_task_def by (rule with_task_inv [OF safe_delete_found])


subsection \<open>Creating\<close>

text \<open>Operations on the object that is being created, which no container links yet.\<close>

definition loose_step :: "nat \<Rightarrow> 'a dworld_scheme \<Rightarrow> 'a dworld_scheme \<Rightarrow> bool" where
  "loose_step p w w' \<longleftrightarrow> (\<forall>K. p \<in> K \<longrightarrow> held K w \<longrightarrow> held K w' \<and> created w' = created w \<and>
     (\<forall>q. q \<noteq> p \<longrightarrow> task_at w' q = task_at w q) \<and> m_is_gvm_conn_ok w' = m_is_gvm_conn_ok w)"

definition loose :: "nat \<Rightarrow> ('a dworld_scheme, 'b) state \<Rightarrow> bool" where
  "loose p m \<longleftrightarrow> (\<forall>w. wp m (\<lambda>_ w'. loose_step p w w') w)"

lemma loose_step_refl: "loose_step p w w"
  by (simp add: loose_step_def)

lemma loose_step_trans: "loose_step p u v \<Longrightarrow> loose_step p v w \<Longrightarrow> loose_step p u w"
  unfolding loose_step_def by (metis (no_types, lifting))

lemma loose_run: "loose p m \<Longrightarrow> run_state m w = (a, w') \<Longrightarrow> loose_step p w w'"
  unfolding loose_def wp_def by (metis (mono_tags, lifting) case_prod_conv)

lemma loose_return: "loose p (ret a)"
  by (simp add: loose_def loose_step_refl)

lemma loose_gets: "loose p (gets f)"
  by (simp add: loose_def loose_step_refl)

lemma loose_get_task: "loose p (get_task q)"
  unfolding get_task_def by (rule loose_gets)

lemma loose_bind:
  assumes "loose p m" "\<And>a. loose p (f a)"
  shows "loose p (State_Monad.bind m f)"
  unfolding loose_def
proof (intro allI wpI)
  fix w b w2
  assume "run_state (State_Monad.bind m f) w = (b, w2)"
  then obtain a w1 where "run_state m w = (a, w1)" "run_state (f a) w1 = (b, w2)" by (rule run_bindE)
  with assms show "loose_step p w w2" by (blast intro: loose_step_trans loose_run)
qed

lemma loose_if: "(c \<Longrightarrow> loose p m) \<Longrightarrow> (\<not> c \<Longrightarrow> loose p n) \<Longrightarrow> loose p (if c then m else n)"
  by simp

lemma loose_prod: "(\<And>a b. loose p (f a b)) \<Longrightarrow> loose p (case x of (a, b) \<Rightarrow> f a b)"
  by (cases x) simp

lemma loose_upd: "loose p (upd_task p f)"
  unfolding loose_def loose_step_def
proof (intro allI wpI impI)
  fix w w' :: "'a dworld_scheme" and u K
  assume k: "p \<in> K" "held K w" and rn: "run_state (upd_task p f) w = (u, w')"
  note h = held_key [OF k(2,1) rn]
  show "held K w' \<and> created w' = created w \<and> (\<forall>q. q \<noteq> p \<longrightarrow> task_at w' q = task_at w q) \<and>
      m_is_gvm_conn_ok w' = m_is_gvm_conn_ok w"
    using h by simp
qed

lemma loose_frame: "frame m \<Longrightarrow> loose p m"
  unfolding loose_def loose_step_def
proof (intro allI wpI impI)
  fix w w' :: "'a dworld_scheme" and a K
  assume "frame m" "run_state m w = (a, w')" "held K w"
  then have e: "gworld.more w' = gworld.more w" "held K w" by (auto intro: keeps_run)
  then show "held K w' \<and> created w' = created w \<and> (\<forall>q. q \<noteq> p \<longrightarrow> task_at w' q = task_at w q) \<and>
      m_is_gvm_conn_ok w' = m_is_gvm_conn_ok w"
    by (simp add: held_def frame_inv [OF e(1)] frame_fields [OF e(1)])
qed

lemma loose_on_info: "(\<And>i. frame (f i)) \<Longrightarrow> loose p (on_info f p)"
  unfolding on_info_def by (intro loose_bind loose_get_task loose_prod loose_upd loose_return loose_frame)

lemmas loose_intros = loose_return loose_gets loose_get_task loose_bind loose_if loose_prod loose_upd

lemmas loose_gvm = frame_gvm [THEN loose_frame]

lemma loose_create_parts: "loose p (create_parts env p)"
  unfolding create_parts_def by (intro loose_intros loose_gvm loose_on_info frame_gvm)


text \<open>The name of the new task is never touched.\<close>

abbreviation name_of :: "nat \<Rightarrow> 'a dworld_scheme \<Rightarrow> string" where
  "name_of p \<equiv> \<lambda>w. task_name (task_at w p)"

lemma keeps_name_upd:
  assumes "\<And>t. task_name (f t) = task_name t"
  shows "keeps (name_of p) (upd_task q f)"
  unfolding keeps_def
proof
  fix w :: "'a dworld_scheme"
  show "wp (upd_task q f) (\<lambda>_ w'. name_of p w' = name_of p w) w"
    using assms by (cases "tasks w q") (auto simp: upd_task_def task_at_def)
qed

lemma keeps_name_frame:
  assumes "frame m"
  shows "keeps (name_of p) m"
  unfolding keeps_def
proof (intro allI wpI)
  fix w w' :: "'a dworld_scheme" and a
  assume "run_state m w = (a, w')"
  from frame_inv(4) [OF keeps_run [OF assms this]] show "name_of p w' = name_of p w" by simp
qed

lemma keeps_name_on_info:
  assumes f: "\<And>i. frame (f i :: ('a dworld_scheme, int \<times> gvm_task_info) state)"
    and s: "\<And>i w. wp (f i) (\<lambda>ri _. ti_task_name (snd ri) = ti_task_name i) w"
  shows "keeps (name_of p) (on_info f p :: ('a dworld_scheme, int) state)"
  unfolding keeps_def
proof (intro allI wpI)
  fix w w' :: "'a dworld_scheme" and r
  assume rn: "run_state (on_info f p) w = (r, w')"
  obtain q info w1 where r1: "run_state (f (m_task_info (task_at w p))) w = ((q, info), w1)" by (metis surj_pair)
  have e: "task_at w1 = task_at w" using keeps_run [OF f r1] by (rule frame_inv(4))
  have i: "ti_task_name info = task_name (task_at w p)" using wp_run [OF s r1] by simp
  have "w' = w1\<lparr>tasks := (tasks w1)(p := map_option (upd_info (\<lambda>_. info)) (tasks w1 p))\<rparr>"
    using rn r1 by (auto simp: on_info_def get_task_def upd_task_def)
  then show "name_of p w' = name_of p w"
    using i arg_cong [OF e, of "\<lambda>f. f p"] by (cases "tasks w1 p") (auto simp: task_at_def)
qed

lemma option_create_name:
  "wp (gvm_option_create_schedule env i) (\<lambda>ri _. ti_task_name (snd ri) = ti_task_name i) w"
  "wp (gvm_option_create_config env i) (\<lambda>ri _. ti_task_name (snd ri) = ti_task_name i) w"
  unfolding gvm_option_create_schedule_def gvm_option_create_config_def
  by (simp_all add: Let_def split_beta wp_const wp_fun if_distrib [of snd] if_distrib [of ti_task_name] cong: if_cong)
    (intro impI wp_any, simp add: wp_const)

lemma keeps_name_create_parts: "keeps (name_of p) (create_parts env p)"
  unfolding create_parts_def get_task_def
  by (intro keeps_intros keeps_name_upd keeps_name_on_info frame_gvm option_create_name
      frame_gvm [THEN keeps_name_frame]) simp_all

lemma stamp_cstring:
  "times_ok env \<Longrightarrow> wp (nowTimeStamp env n) (\<lambda>rs _. cstring (snd rs)) w"
  by (auto simp: nowTimeStamp_def time2asc_def times_ok_def split: option.splits)

lemma store_created_inv:
  fixes w :: "'a dworld_scheme"
  assumes c: "clock_ok env" "times_ok env" and h: "held K w" and p: "p \<in> K"
    and n: "cstring (name_of p w)" "length (name_of p w) < MAX_NAME_SIZE"
    and u: "\<And>q. q \<in> created w \<Longrightarrow> name_of q w \<noteq> name_of p w"
    and rn: "run_state (store_created env p) w = (r, w')"
  shows "if r = 0 then held (K - {p}) w' \<and> created w' = insert p (created w)
    else r = GVM_ERR_INTERNAL_FAIL \<and> held K w' \<and> created w' = created w"
proof -
  obtain e stamp w1 where r1: "run_state (nowTimeStamp env MAX_TIMESTAMP_SIZE) w = ((e, stamp), w1)"
    by (metis surj_pair)
  have s: "cstring stamp" using wp_run [OF stamp_cstring [OF c(2)] r1] by simp
  let ?u = "do { upd_task p (upd_info (\<lambda>i. i\<lparr>ti_create_time := stamp, ti_modify_time := stamp\<rparr>));
     upd_task p (setTaskStatus GVM_TASK_CREATE); upd_task p (setTaskChkType GVM_TASK_CHK_TASK);
     setTaskNextChkTime env p (DEF_TASK_CHK_TIME_INTERVAL GVM_TASK_CHK_TASK) } :: ('a dworld_scheme, unit) state"
  obtain x w2 where r2: "run_state ?u w1 = (x, w2)" by (metis surj_pair)
  have fr: "frame (nowTimeStamp env MAX_TIMESTAMP_SIZE :: ('a dworld_scheme, int \<times> string) state)"
    unfolding nowTimeStamp_def getTime_def
    by (rule frame_touches [of "\<lambda>_. True"]) (intro touches_bind touches_now touches_return)
  have l2: "loose p ?u"
    unfolding setTaskNextChkTime_def getClkTime_def
    by (intro loose_intros loose_frame frame_touches [of "\<lambda>_. True"] touches_bind touches_now touches_return)
  have k2: "keeps (name_of p) ?u"
    unfolding setTaskNextChkTime_def getClkTime_def
    by (intro keeps_intros keeps_name_upd keeps_name_frame frame_touches [of "\<lambda>_. True"] touches_bind
        touches_now touches_return) (simp_all add: task_setters)
  have "loose_step p w w2"
    using loose_step_trans [OF loose_run [OF loose_frame [OF fr] r1] loose_run [OF l2 r2]] .
  then have h2: "held K w2" "created w2 = created w" "\<And>q. q \<noteq> p \<Longrightarrow> task_at w2 q = task_at w q"
    using p h unfolding loose_step_def by blast+
  have "name_of p w1 = name_of p w" using keeps_run [OF keeps_name_frame [OF fr] r1] .
  then have nm: "name_of p w2 = name_of p w" using keeps_run [OF k2 r2] by simp
  have i2: "tasks_inv K w2" using h2(1) by (simp add: held_def)
  have d1: "p \<in> dom (tasks w1)"
    using held_def inv_facts(3) [of K w1 p] loose_run [OF loose_frame [OF fr] r1, unfolded loose_step_def] h p by blast
  have cs: "0 \<le> clk env (tick w1)" "clk env (tick w1) < 2147483348" using c(1) by (auto simp: clock_ok_def)
  have "time_ok (task_at w2 p)" "ti_create_time (m_task_info (task_at w2 p)) = stamp"
    using r2 d1 cs by (auto simp: upd_task_def task_at_def setTaskNextChkTime_def getClkTime_def now_def
        task_setters time_ok_def)
  then have t2: "time_ok (task_at w2 p)" "key_ok (task_at w2 p)" using nm n s by (auto simp: key_ok_def)
  have u2: "task_name (task_at w2 q) \<noteq> task_name (task_at w2 p)" if "q \<in> created w2" for q
  proof -
    have "q \<noteq> p" using inv_facts(4) [OF i2 p] that by auto
    then show ?thesis using u [of q] nm h2(2,3) that by simp
  qed
  obtain k w3 where r3: "run_state (createTaskRelationFiles env p) w2 = (k, w3)" by (metis surj_pair)
  have "r = (if k \<noteq> 0 then GVM_ERR_INTERNAL_FAIL else 0)" "w' = w3"
    using rn r1 r2 r3 by (auto simp: store_created_def split: prod.splits)
  then show ?thesis
    using createTaskRelationFiles_inv [OF h2(1) p t2(2,1) u2 r3] h2(2)
    by (auto simp: GVM_ERR_INTERNAL_FAIL_def split: if_splits)
qed


lemma create_checked_inv:
  fixes w :: "'a dworld_scheme"
  assumes c: "clock_ok env" "times_ok env" and h: "held K w" and p: "p \<in> K" "task_at w p = new_gvm_task"
    and i: "cstring input" and rn: "run_state (create_checked env p input) w = (r, w')"
  shows "if r = 0 then held (K - {p}) w' \<and> created w' = insert p (created w)
    else held K w' \<and> created w' = created w"
proof -
  let ?t = "getCreateTaskParam input new_gvm_task"
  obtain u w1 where r1: "run_state (upd_task p (\<lambda>t. snd (getCreateTaskParam input t))) w = (u, w1)"
    by (metis surj_pair)
  note h1 = held_key [OF h p(1) r1]
  obtain f w2 where r2: "run_state (findGvmTask p) w1 = (f, w2)" by (metis surj_pair)
  have w2: "w2 = w1" using r2 by (simp add: findGvmTask_def)
  show ?thesis
  proof (cases "fst ?t \<noteq> 0 \<or> \<not> m_is_gvm_conn_ok w \<or> f \<noteq> None")
    case True
    then have "r \<noteq> 0" "w' = w1"
      using rn r1 r2 w2 p(2) h1(5)
      by (auto simp: create_checked_def get_task_def gvm_err_defs split: if_splits)
    then show ?thesis using h1 by simp
  next
    case False
    then have "getCreateTaskParam input new_gvm_task = (0, snd ?t)" by (simp add: prod_eq_iff)
    then have "key_ok (snd ?t)"
      by (rule getCreateTaskParam_key [OF i]) (simp add: new_gvm_task_def initGvmTaskInfo_def)
    then have k: "key_ok (task_at w1 p)" using h1(3) p(2) by simp
    have i1: "tasks_inv K w1" using h1(1) by (simp add: held_def)
    have fr: "name_of q w1 \<noteq> name_of p w1" if "q \<in> created w1" for q
      using wp_run [OF findGvmTask_inv [OF i1 k] r2] False that by auto
    obtain d w3 where r3: "run_state (create_parts env p) w1 = (d, w3)" by (metis surj_pair)
    have h3: "held K w3" "created w3 = created w1" "\<And>q. q \<noteq> p \<Longrightarrow> task_at w3 q = task_at w1 q"
      using loose_run [OF loose_create_parts r3] h1(1) p(1) unfolding loose_step_def by blast+
    have n3: "name_of p w3 = name_of p w1" using keeps_run [OF keeps_name_create_parts r3] .
    show ?thesis
    proof (cases "d = 0")
      case True
      have fr3: "name_of q w3 \<noteq> name_of p w3" if "q \<in> created w3" for q
      proof -
        have "q \<noteq> p" using inv_facts(4) [OF i1 p(1)] that h3(2) by auto
        then show ?thesis using fr [of q] that h3 n3 by simp
      qed
      have n: "cstring (name_of p w3)" "length (name_of p w3) < MAX_NAME_SIZE"
        using k n3 by (auto simp: key_ok_def)
      have "run_state (store_created env p) w3 = (r, w')"
        using rn r1 r2 w2 p(2) h1(5) False r3 True
        by (simp add: create_checked_def get_task_def)
      then show ?thesis
        using store_created_inv [OF c h3(1) p(1) n fr3] h3(2) h1(2) by (simp split: if_splits)
    next
      case d: False
      then have "r = d" "w' = w3"
        using rn r1 r2 w2 p(2) h1(5) False r3 by (auto simp: create_checked_def get_task_def)
      then show ?thesis using d h3 h1(2) by simp
    qed
  qed
qed

lemma loose_undo_parts: "loose p (undo_parts env p)"
  unfolding undo_parts_def by (intro loose_intros loose_gvm loose_on_info frame_gvm)

lemma daemon_create_task_inv:
  fixes w :: "'a dworld_scheme"
  assumes c: "clock_ok env" "times_ok env" and h: "store_ok w" and i: "cstring input"
    and rn: "run_state (daemon_create_task env input) w = (r, w')"
  shows "store_ok w' \<and> (r \<noteq> 0 \<longrightarrow> created w' = created w)"
proof -
  have h0: "held {} w" using h by (simp add: store_ok_held)
  obtain k w1 where r1: "run_state (newGvmTask env) w = (k, w1)" by fastforce
  note n = newGvmTask_held [OF h0 r1]
  show ?thesis
  proof (cases k)
    case None
    then show ?thesis using rn r1 n by (auto simp: daemon_create_task_def store_ok_held)
  next
    case (Some p)
    have h1: "held {p} w1" and p1: "task_at w1 p = new_gvm_task" using n(3) Some by auto
    obtain e w2 where r2: "run_state (create_checked env p input) w1 = (e, w2)" by (metis surj_pair)
    note c2 = create_checked_inv [OF c h1 _ p1 i r2, simplified]
    show ?thesis
    proof (cases "e = 0")
      case True
      then have "w' = w2" "r = 0" using rn r1 Some r2 by (auto simp: daemon_create_task_def)
      then show ?thesis using c2 True by (simp add: store_ok_held)
    next
      case False
      obtain y w3 where r3: "run_state (undo_parts env p) w2 = (y, w3)" by (metis surj_pair)
      obtain z w4 where r4: "run_state (freeGvmTask p) w3 = (z, w4)" by (metis surj_pair)
      have h2: "held {p} w2" using c2 False by simp
      have h3: "held {p} w3" "created w3 = created w2"
        using loose_run [OF loose_undo_parts r3] h2 unfolding loose_step_def by (blast intro: singletonI)+
      have "w' = w4" "r = e"
        using rn r1 Some r2 r3 r4 False by (auto simp: daemon_create_task_def undo_create_def)
      then show ?thesis
        using freeGvmTask_held [OF h3(1) _ r4] h3(2) c2 False n(1) by (simp add: store_ok_held)
    qed
  qed
qed

end
