(* ===== verification/HydraTasks.thy ===== *)
theory HydraTasks imports DaemonInv begin

text \<open>
  The store of brute-force tasks of \<^verbatim>\<open>hydra_business.c\<close>: objects in a queue by creation time and an array
  by name, their files, and the records that keep them over a restart.
\<close>

subsection \<open>State\<close>

text \<open>\<open>struct HydraDataList\<close>, the objects, and the flag that the handler of \<open>SIGCHLD\<close> sets.\<close>

record hworld = bworld +
  htasks :: "nat \<Rightarrow> hydra_task option"
  hnxt :: nat
  h_createque :: "nat lqueue"
  h_nameset :: "nat list"
  h_name_cap :: nat
  h_task_file_name :: string
  h_task_priv_dir :: string
  h_task_templ_dir :: string
  g_has_child_exit :: bool
  g_prog_path :: string         \<comment> \<open>the path of the program itself\<close>

definition hydra_at :: "'a hworld_scheme \<Rightarrow> nat \<Rightarrow> hydra_task" where
  "hydra_at w p = the (htasks w p)"

definition get_hydra :: "nat \<Rightarrow> ('a hworld_scheme, hydra_task) state" where
  "get_hydra p = gets (\<lambda>w. hydra_at w p)"

definition upd_hydra :: "nat \<Rightarrow> (hydra_task \<Rightarrow> hydra_task) \<Rightarrow> ('a hworld_scheme, unit) state" where
  "upd_hydra p f = modify (\<lambda>w. w\<lparr>htasks := (htasks w)(p := map_option f (htasks w p))\<rparr>)"

definition newHydraTask :: "env \<Rightarrow> ('a hworld_scheme, nat option) state" where
  "newHydraTask env = do {
     nomem \<leftarrow> fails env;
     if nomem then ret None
     else do {
       p \<leftarrow> gets hnxt;
       modify (\<lambda>w. w\<lparr>htasks := (htasks w)(p \<mapsto> new_hydra_task), hnxt := p + 1\<rparr>);
       ret (Some p)
     }
   }"

definition freeHydraTask :: "nat \<Rightarrow> ('a hworld_scheme, unit) state" where
  "freeHydraTask p = modify (\<lambda>w. w\<lparr>htasks := (htasks w)(p := None)\<rparr>)"

subsection \<open>The containers\<close>

definition cmpHydraTime :: "hydra_task \<Rightarrow> hydra_task \<Rightarrow> int" where
  "cmpHydraTime t1 t2 = strncmp (h_create_time t1) (h_create_time t2) MAX_TIMESTAMP_SIZE"

definition cmpHydraName :: "hydra_task \<Rightarrow> hydra_task \<Rightarrow> int" where
  "cmpHydraName t1 t2 = strncmp (h_task_name t1) (h_task_name t2) MAX_NAME_SIZE"

definition addHydraTask :: "env \<Rightarrow> nat \<Rightarrow> ('a hworld_scheme, int) state" where
  "addHydraTask env p = do {
     w \<leftarrow> gets (\<lambda>w. w);
     let full = (length (h_nameset w) = h_name_cap w);
     nomem \<leftarrow> (if full then fails env else ret False);
     let r = ls_add (\<lambda>a b. cmpHydraName (hydra_at w a) (hydra_at w b)) (\<not> nomem) (h_nameset w) p;
     if fst r = 0
     then do {
       modify (\<lambda>w. w\<lparr>h_nameset := snd r,
         h_name_cap := (if full then h_name_cap w + DEF_LIST_ARRAY_SIZE else h_name_cap w),
         h_createque := lq_push (\<lambda>a b. cmpHydraTime (hydra_at w a) (hydra_at w b)) (h_createque w) p\<rparr>);
       ret 0
     }
     else ret (- 1)
   }"

definition delHydraTask :: "nat \<Rightarrow> ('a hworld_scheme, int) state" where
  "delHydraTask key = do {
     w \<leftarrow> gets (\<lambda>w. w);
     case ls_del (\<lambda>a k. cmpHydraName (hydra_at w a) k) (h_nameset w) (hydra_at w key) of
       (None, _) \<Rightarrow> ret (- 1)
     | (Some p, ns) \<Rightarrow> do {
         modify (\<lambda>w. w\<lparr>h_nameset := ns, h_createque := snd (lq_del (h_createque w) p)\<rparr>);
         ret 0
       }
   }"

definition findHydraTask :: "nat \<Rightarrow> ('a hworld_scheme, nat option) state" where
  "findHydraTask key =
     gets (\<lambda>w. ls_find (\<lambda>a k. cmpHydraName (hydra_at w a) k) (h_nameset w) (hydra_at w key))"

subsection \<open>The task file\<close>

definition hydra_fields :: "hydra_task \<Rightarrow> (string \<times> string) list" where
  "hydra_fields t =
     [(''task_id'', h_task_id t), (''task_name'', h_task_name t), (''hosts_type'', dec (h_hosts_type t)),
      (''hosts'', h_hosts t), (''services'', h_services t), (''opts'', h_opts t),
      (''schedule_type'', dec (h_schedule_type t)), (''schedule_time'', h_first_schedule_time t),
      (''schedule_list'', h_schedule_list t), (''create_time'', h_create_time t)]"

definition writeHydraRecord :: "hydra_task \<Rightarrow> string \<Rightarrow> int \<times> string" where
  "writeHydraRecord t buf = append_record (record_text (hydra_fields t)) buf"

definition writeHydraTaskFile :: "env \<Rightarrow> ('a hworld_scheme, int) state" where
  "writeHydraTaskFile env = do {
     w \<leftarrow> gets (\<lambda>w. w);
     let tmpFile = path_buf (h_task_priv_dir w @ ''/.'' @ h_task_file_name w);
     let normalFile = path_buf (h_task_priv_dir w @ ''/'' @ h_task_file_name w);
     let r = each (\<lambda>p. writeHydraRecord (hydra_at w p)) (lq_items (h_createque w)) [];
     if fst r = 0 then writeFileSafe env (snd r) normalFile tmpFile else ret (fst r)
   }"

text \<open>The fields of a record; the two types are kept apart until they are checked.\<close>

definition set_hydra :: "(string \<Rightarrow> hydra_task \<Rightarrow> hydra_task) \<Rightarrow> string \<Rightarrow> int \<times> int \<times> hydra_task \<Rightarrow>
  (int \<times> int \<times> hydra_task) option" where
  "set_hydra f v s = (case s of (ht, st, t) \<Rightarrow> Some (ht, st, f v t))"

definition hydra_readers :: "(int \<times> int \<times> hydra_task) rfield list" where
  "hydra_readers =
     [RText ''task_id'' UUID_REG_PATTERN MAX_UUID_SIZE (set_hydra (\<lambda>v t. t\<lparr>h_task_id := v\<rparr>)),
      RText ''task_name'' GVM_NAME_PATTERN MAX_NAME_SIZE (set_hydra (\<lambda>v t. t\<lparr>h_task_name := v\<rparr>)),
      RNum ''hosts_type'' CUSTOM_ON_OFF_PATTERN (\<lambda>n s. case s of (ht, st, t) \<Rightarrow> Some (n, st, t)),
      RText ''hosts'' CUSTOM_COMM_PATTERN MAX_MEM_LIST_SIZE (set_hydra (\<lambda>v t. t\<lparr>h_hosts := v\<rparr>)),
      RText ''services'' CUSTOM_SERVICES_PATTERN MAX_MEM_LIST_SIZE (set_hydra (\<lambda>v t. t\<lparr>h_services := v\<rparr>)),
      RText ''opts'' CUSTOM_COMM_PATTERN MAX_MEM_LIST_SIZE (set_hydra (\<lambda>v t. t\<lparr>h_opts := v\<rparr>)),
      RNum ''schedule_type'' CUSTOM_SCHEDULE_TYPE_PATTERN (\<lambda>n s. case s of (ht, st, t) \<Rightarrow> Some (ht, n, t)),
      RText ''schedule_time'' (Opt CUSTOM_TIME_STAMP_PATTERN) MAX_TIMESTAMP_SIZE
        (set_hydra (\<lambda>v t. t\<lparr>h_first_schedule_time := v\<rparr>)),
      RText ''schedule_list'' CUSTOM_COMM_PATTERN MAX_SCHEDULE_LIST_SIZE
        (set_hydra (\<lambda>v t. t\<lparr>h_schedule_list := v\<rparr>)),
      RText ''create_time'' CUSTOM_TIME_STAMP_PATTERN MAX_TIMESTAMP_SIZE
        (set_hydra (\<lambda>v t. t\<lparr>h_create_time := v\<rparr>))]"

definition read_hydra :: "string \<Rightarrow> hydra_task \<Rightarrow> int \<times> hydra_task" where
  "read_hydra rec t0 =
     (case read_fields rec hydra_readers (0, 0, t0) of (r, ht, st, t) \<Rightarrow>
        if r \<noteq> 0 then (r, t)
        else if chkName (h_task_name t) \<noteq> 0 then (chkName (h_task_name t), t)
        else if chkHydraHostsIntern ht (h_hosts t) \<noteq> 0 then (chkHydraHostsIntern ht (h_hosts t), t)
        else
          let t1 = t\<lparr>h_hosts_type := ht\<rparr>;
              k = chkScheduleParam st (h_first_schedule_time t) (h_schedule_list t)
          in if k \<noteq> 0 then (k, t1)
             else (0, t1\<lparr>h_schedule_type := st, h_modify_time := h_create_time t\<rparr>))"

primrec parse_hydra_records :: "nat \<Rightarrow> env \<Rightarrow> string \<Rightarrow> ('a hworld_scheme, int) state" where
  "parse_hydra_records 0 env s = ret 0"
| "parse_hydra_records (Suc n) env s =
     (if s = [] then ret 0
      else case next_record s of
        None \<Rightarrow> ret 0
      | Some (rec, rest) \<Rightarrow> do {
          a \<leftarrow> newHydraTask env;
          case a of
            None \<Rightarrow> ret (- 1)
          | Some p \<Rightarrow> do {
              t \<leftarrow> get_hydra p;
              upd_hydra p (\<lambda>t. snd (read_hydra rec t));
              r \<leftarrow> (if fst (read_hydra rec t) = 0 then addHydraTask env p else ret (fst (read_hydra rec t)));
              (if r \<noteq> 0 then freeHydraTask p else ret ());
              if r = 0 then parse_hydra_records n env rest else ret r
            }
        })"

definition parseHydraRecord :: "env \<Rightarrow> string \<Rightarrow> ('a hworld_scheme, int) state" where
  "parseHydraRecord env cache = parse_hydra_records (Suc (length (c_str cache))) env (c_str cache)"

definition readHydraTaskFile :: "env \<Rightarrow> ('a hworld_scheme, int) state" where
  "readHydraTaskFile env = do {
     w \<leftarrow> gets (\<lambda>w. w);
     (r, buf) \<leftarrow> readTotalFile env (path_buf (h_task_priv_dir w @ ''/'' @ h_task_file_name w));
     if r = 0 then parseHydraRecord env buf
     else ret (if 0 < r then 0 else - 1)
   }"

subsection \<open>Paths\<close>

definition DEF_SYSTEM_CRON_BASE_DIR :: string where "DEF_SYSTEM_CRON_BASE_DIR = ''/etc/cron.d''"

text \<open>The nine paths; the first that does not fit its buffer ends the computation.\<close>

definition hydra_path_list :: "string \<Rightarrow> hydra_task \<Rightarrow> (string \<times> (string \<Rightarrow> hydra_paths \<Rightarrow> hydra_paths)) list" where
  "hydra_path_list priv_dir t =
     (let dir = priv_dir @ ''/task_'' @ h_task_id t in
      [(dir, \<lambda>s p. p\<lparr>HYDRA_TASK_DIR := s\<rparr>),
       (dir @ ''/hydra_login'', \<lambda>s p. p\<lparr>HYDRA_LOGIN_FILE := s\<rparr>),
       (dir @ ''/.hydra_login'', \<lambda>s p. p\<lparr>HYDRA_LOGIN_FILE_TMP := s\<rparr>),
       (dir @ ''/hydra_passwd'', \<lambda>s p. p\<lparr>HYDRA_PASSWD_FILE := s\<rparr>),
       (dir @ ''/.hydra_passwd'', \<lambda>s p. p\<lparr>HYDRA_PASSWD_FILE_TMP := s\<rparr>),
       (dir @ ''/hydra_ip_list'', \<lambda>s p. p\<lparr>HYDRA_IP_LIST_FILE := s\<rparr>),
       (dir @ ''/.hydra_ip_list'', \<lambda>s p. p\<lparr>HYDRA_IP_LIST_FILE_TMP := s\<rparr>),
       (DEF_SYSTEM_CRON_BASE_DIR @ ''/hydra_cron_norm_'' @ h_task_id t, \<lambda>s p. p\<lparr>HYDRA_CRON_FILE_NORM := s\<rparr>),
       (dir @ ''/hydra_task_proc.pid'', \<lambda>s p. p\<lparr>HYDRA_TASK_GRP_PID_FILE := s\<rparr>)])"

fun set_paths :: "(string \<times> (string \<Rightarrow> 'p \<Rightarrow> 'p)) list \<Rightarrow> 'p \<Rightarrow> int \<times> 'p" where
  "set_paths [] p = (0, p)"
| "set_paths ((s, f) # fl) p = (if path_fits s then set_paths fl (f s p) else (- 1, f (path_buf s) p))"

definition prepareHydraPaths :: "string \<Rightarrow> hydra_task \<Rightarrow> int \<times> hydra_task" where
  "prepareHydraPaths priv_dir t =
     (case set_paths (hydra_path_list priv_dir t) (h_paths t) of (r, p) \<Rightarrow> (r, t\<lparr>h_paths := p\<rparr>))"

definition prepare_hydra :: "nat \<Rightarrow> ('a hworld_scheme, int) state" where
  "prepare_hydra p = do {
     dir \<leftarrow> gets h_task_priv_dir;
     t \<leftarrow> get_hydra p;
     upd_hydra p (\<lambda>t. snd (prepareHydraPaths dir t));
     ret (fst (prepareHydraPaths dir t))
   }"

end
