(* ===== verification/HydraFiles.thy ===== *)
theory HydraFiles imports HydraTasks begin

text \<open>
  The files of a brute-force task (\<^verbatim>\<open>hydra_business.c\<close>): the entry in the table of \<^verbatim>\<open>cron\<close> that starts
  it (\<open>formatCronTask\<close> with \<open>convWeekDay\<close> and \<open>convMonthDay\<close>), the list of addresses
  (\<open>convIPsByLine\<close>), and writing and deleting all of them.
\<close>

subsection \<open>Schedules for cron\<close>

definition WEEK_DAYS :: "string list" where
  "WEEK_DAYS = [''SUN'', ''MON'', ''TUS'', ''WED'', ''THU'', ''FRI'', ''SAT'']"

text \<open>The loop of \<open>convWeekDay\<close>: \<open>dst\<close> is what has been written.  Two characters choose a day.\<close>

function conv_week :: "nat \<Rightarrow> string \<Rightarrow> string \<Rightarrow> int \<times> string" where
  "conv_week maxlen dst psz =
     (if psz = [] then (0, dst)
      else case find (\<lambda>d. take 2 d = take 2 psz) WEEK_DAYS of
             None \<Rightarrow> (- 1, dst)
           | Some d \<Rightarrow>
               if length dst + 4 < maxlen
               then (case drop 2 psz of
                       [] \<Rightarrow> (0, dst @ d)
                     | c # rest \<Rightarrow> if c = CHR '','' then conv_week maxlen (dst @ d @ '','') rest else (- 1, dst @ d))
               else (- 1, dst))"
  by pat_completeness auto
termination
  by (relation "measure (\<lambda>(_, _, psz). length psz)") (auto dest!: arg_cong [of _ _ length])

declare conv_week.simps [simp del]

definition convWeekDay :: "string \<Rightarrow> nat \<Rightarrow> int \<times> string" where
  "convWeekDay src maxlen =
     (case conv_week maxlen [] src of (r, dst) \<Rightarrow>
        if r = 0 \<and> 0 < length dst \<and> length dst < maxlen then (0, dst) else (- 1, []))"

text \<open>The result, whether the last day of the month is asked for, and the other days.\<close>

definition convMonthDay :: "string \<Rightarrow> nat \<Rightarrow> int \<times> bool \<times> string" where
  "convMonthDay src maxlen =
     (case strstr src ''-1'' of
        Some psz \<Rightarrow>
          (let len = length src - length psz
           in if len < maxlen
              then (0, True, take (if 0 < len \<and> src ! (len - 1) = CHR '','' then len - 1 else len) src)
              else (- 1, False, []))
      | None \<Rightarrow> if 0 < length src \<and> length src < maxlen then (0, False, src) else (- 1, False, []))"

definition CRON_LAST_MONTHDAY_CMD_PATT :: string where
  "CRON_LAST_MONTHDAY_CMD_PATT = ''[ '' @ [BQ] @ ''date -d tomorrow +'' @ [BSL] @ ''%e'' @ [BQ] @ '' -eq 1 ]''"

definition CRON_USER_NAME :: string where "CRON_USER_NAME = ''root''"

abbreviation SP :: string where "SP \<equiv> '' ''"

definition cron_line :: "int \<Rightarrow> int \<Rightarrow> string \<Rightarrow> string \<Rightarrow> string \<Rightarrow> string \<Rightarrow> string \<Rightarrow> string" where
  "cron_line mn hr days mon wdays user cmd =
     dec mn @ SP @ dec hr @ SP @ days @ SP @ mon @ SP @ wdays @ SP @ user @ SP @ cmd @ '' >/dev/null&'' @ [NL]"

definition fits :: "nat \<Rightarrow> string \<Rightarrow> bool" where
  "fits left s \<longleftrightarrow> 0 < length s \<and> length s < left"

definition formatCronTask ::
  "env \<Rightarrow> nat \<Rightarrow> int \<Rightarrow> string \<Rightarrow> string \<Rightarrow> string \<Rightarrow> string \<Rightarrow> int \<times> string" where
  "formatCronTask env cap schedule_type timestamp schedule_list user cmd =
     (case strptime_tm env timestamp of
        None \<Rightarrow> (- 1, [])
      | Some (mn, hr, mday, mon) \<Rightarrow>
          if schedule_type = ICAL_DATE_ONCE
          then let s = cron_line mn hr (dec mday) (dec (mon + 1)) ''*'' user cmd
               in if fits cap s then (0, s) else (- 1, [])
          else if schedule_type = ICAL_DATE_DAILY
          then let s = cron_line mn hr ''*'' ''*'' ''*'' user cmd in if fits cap s then (0, s) else (- 1, [])
          else if schedule_type = ICAL_DATE_WEEKLY
          then case convWeekDay schedule_list MAX_COMM_SIZE of (r, days) \<Rightarrow>
                 if r \<noteq> 0 then (- 1, [])
                 else let s = cron_line mn hr ''*'' ''*'' days user cmd in if fits cap s then (0, s) else (- 1, [])
          else if schedule_type = ICAL_DATE_MONTHLY
          then case convMonthDay schedule_list MAX_COMM_SIZE of (r, hasLastDay, days) \<Rightarrow>
                 if r \<noteq> 0 then (- 1, [])
                 else
                   let s1 = (if days \<noteq> [] then cron_line mn hr days ''*'' ''*'' user cmd else []);
                       s2 = dec mn @ SP @ dec hr @ '' 28-31 * * '' @ user @ SP @ CRON_LAST_MONTHDAY_CMD_PATT @
                         '' && ('' @ cmd @ '' >/dev/null&)'' @ [NL]
                   in if days \<noteq> [] \<and> \<not> fits cap s1 then (- 1, [])
                      else if hasLastDay
                      then if fits (cap - length s1) s2 then (0, s1 @ s2) else (- 1, [])
                      else (0, s1)
          else (- 1, []))"

definition start_cmd :: "string \<Rightarrow> hydra_task \<Rightarrow> string" where
  "start_cmd prog t = prog @ '' 2 '' @ DQS @ ''start_hydra'' @ DQS @ SP @ DQS @ h_task_name t @ DQS @ SP @
     DQS @ h_task_id t @ DQS"

definition writeScheduleFiles :: "env \<Rightarrow> nat \<Rightarrow> ('a hworld_scheme, int) state" where
  "writeScheduleFiles env p = do {
     t \<leftarrow> get_hydra p;
     prog \<leftarrow> gets g_prog_path;
     if h_schedule_type t = ICAL_DATE_NONE then ret 0
     else if \<not> fits MAX_CACHE_SIZE (start_cmd prog t) then ret (- 1)
     else case formatCronTask env MAX_CACHE_SIZE (h_schedule_type t) (h_first_schedule_time t)
            (h_schedule_list t) CRON_USER_NAME (start_cmd prog t) of (r, txt) \<Rightarrow>
       if r = 0 then writeFile env txt (HYDRA_CRON_FILE_NORM (h_paths t)) else ret r
   }"

definition deleteScheduleFiles :: "env \<Rightarrow> nat \<Rightarrow> ('a hworld_scheme, int) state" where
  "deleteScheduleFiles env p = do {
     t \<leftarrow> get_hydra p;
     _ \<leftarrow> deleteFile env (HYDRA_CRON_FILE_NORM (h_paths t));
     ret 0
   }"

subsection \<open>The list of addresses\<close>

text \<open>The loop stops with the room of the buffer or at a character that no list of addresses has.\<close>

fun conv_ips :: "nat \<Rightarrow> string \<Rightarrow> string \<times> string" where
  "conv_ips n [] = ([], [])"
| "conv_ips 0 (c # ips) = ([], c # ips)"
| "conv_ips (Suc n) (c # ips) =
     (if isdigit c \<or> c = CHR ''.'' \<or> c = CHR '':'' then (case conv_ips n ips of (out, rest) \<Rightarrow> (c # out, rest))
      else if c = CHR '','' then (case conv_ips n ips of (out, rest) \<Rightarrow> (NL # out, rest))
      else ([], c # ips))"

definition convIPsByLine :: "string \<Rightarrow> nat \<Rightarrow> int \<times> string" where
  "convIPsByLine ips maxlen =
     (case conv_ips (maxlen - 2) ips of (out, rest) \<Rightarrow>
        if out \<noteq> [] \<and> rest = [] then (int (length out) + 1, out @ [NL]) else (0, []))"

subsection \<open>Writing and deleting\<close>

definition write_ip_list :: "env \<Rightarrow> hydra_task \<Rightarrow> ('a hworld_scheme, int) state" where
  "write_ip_list env t =
     (if h_hosts_type t = HOSTS_IP_LIST
      then case convIPsByLine (h_hosts t) MAX_CACHE_SIZE of (n, txt) \<Rightarrow>
             if n = 0 then ret (- 1)
             else writeFileSafe env txt (HYDRA_IP_LIST_FILE (h_paths t)) (HYDRA_IP_LIST_FILE_TMP (h_paths t))
      else ret 0)"

text \<open>The parts that are written, in their order, up to the first failure.\<close>

definition write_hydra_parts :: "env \<Rightarrow> nat \<Rightarrow> ('a hworld_scheme, int) state" where
  "write_hydra_parts env p = do {
     t \<leftarrow> get_hydra p;
     tmpl \<leftarrow> gets h_task_templ_dir;
     c \<leftarrow> createDir env (HYDRA_TASK_DIR (h_paths t));
     if c < 0 then ret (- 1)
     else do {
       r \<leftarrow> copyFileListSafe env tmpl (h_login_list t) (HYDRA_LOGIN_FILE (h_paths t))
         (HYDRA_LOGIN_FILE_TMP (h_paths t));
       if r \<noteq> 0 then ret r
       else do {
         r \<leftarrow> copyFileListSafe env tmpl (h_passwd_list t) (HYDRA_PASSWD_FILE (h_paths t))
           (HYDRA_PASSWD_FILE_TMP (h_paths t));
         if r \<noteq> 0 then ret r
         else do {
           r \<leftarrow> write_ip_list env t;
           if r \<noteq> 0 then ret r
           else do {
             r \<leftarrow> writeScheduleFiles env p;
             if r \<noteq> 0 then ret r else writeHydraTaskFile env
           }
         }
       }
     }
   }"

definition writeHydraRelationFile :: "env \<Rightarrow> nat \<Rightarrow> ('a hworld_scheme, int) state" where
  "writeHydraRelationFile env p = do {
     r \<leftarrow> prepare_hydra p;
     if r \<noteq> 0 then ret (- 1)
     else do {
       a \<leftarrow> addHydraTask env p;
       if a \<noteq> 0 then ret (- 1)
       else do {
         r \<leftarrow> write_hydra_parts env p;
         if r = 0 then ret 0
         else do {
           t \<leftarrow> get_hydra p;
           _ \<leftarrow> delHydraTask p;
           _ \<leftarrow> deleteScheduleFiles env p;
           _ \<leftarrow> deleteDir env (HYDRA_TASK_DIR (h_paths t));
           ret (- 1)
         }
       }
     }
   }"

definition delHydraRelationFiles :: "env \<Rightarrow> nat \<Rightarrow> ('a hworld_scheme, int) state" where
  "delHydraRelationFiles env p = do {
     r \<leftarrow> prepare_hydra p;
     if r \<noteq> 0 then ret (- 1)
     else do {
       t \<leftarrow> get_hydra p;
       d \<leftarrow> delHydraTask p;
       if d \<noteq> 0 then ret (- 1)
       else do {
         k \<leftarrow> writeHydraTaskFile env;
         (if k = 0
          then do {
            _ \<leftarrow> deleteScheduleFiles env p;
            _ \<leftarrow> deleteDir env (HYDRA_TASK_DIR (h_paths t));
            ret ()
          }
          else do { _ \<leftarrow> addHydraTask env p; ret () });
         ret k
       }
     }
   }"

end
