(* ===== verification/HydraRun.thy ===== *)
theory HydraRun imports HydraFiles begin

text \<open>
  Running a brute-force task (\<^verbatim>\<open>hydra_business.c\<close>): the argument vector (\<open>genCmdParams\<close>), the process of
  the task that runs one program per service (\<open>runHydraTask\<close>, \<open>waitExecTask\<close>, \<open>onStartTask\<close>,
  \<open>onEndTask\<close>), starting it from the daemon (\<open>runHydra\<close>) and the children that have ended
  (\<open>monitorHydraTask\<close>); and the signals of \<^verbatim>\<open>comm_misc.c\<close>.
\<close>

subsection \<open>Signals\<close>

definition SIGTERM :: int where "SIGTERM = 15"
definition SIGUSR1 :: int where "SIGUSR1 = 10"

definition killSafe :: "env \<Rightarrow> int \<Rightarrow> int \<Rightarrow> ('a gworld_scheme, int) state" where
  "killSafe env pid sig =
     (if 1 < pid
      then do {
        f \<leftarrow> fails env;
        if f then ret (- 1)
        else do { modify (\<lambda>w. w\<lparr>kills := kills w @ [(pid, sig)]\<rparr>); ret 0 }
      }
      else ret (- 1))"

definition killProc :: "env \<Rightarrow> int \<Rightarrow> ('a gworld_scheme, int) state" where
  "killProc env pid = (if pid \<noteq> 0 then killSafe env pid SIGTERM else ret 0)"

definition stopProc :: "env \<Rightarrow> int \<Rightarrow> ('a gworld_scheme, int) state" where
  "stopProc env pid = (if pid \<noteq> 0 then killSafe env pid SIGUSR1 else ret 0)"

text \<open>\<open>fork\<close>, seen from the parent.\<close>

definition forkSafe :: "env \<Rightarrow> ('a world_scheme, int) state" where
  "forkSafe env = do {
     f \<leftarrow> fails env;
     t \<leftarrow> now;
     ret (if f then - 1 else 2 + int (entropy env t mod 4194302))
   }"

subsection \<open>The argument vector\<close>

text \<open>An element of \<open>params\<close> is \<open>NULL\<close>, a text in the buffer, or one of the two arrays that every
  service fills anew.\<close>

datatype arg = Text string | Service | Outfile

record pvec =
  params :: "arg option list"
  pcnt :: nat
  pleft :: nat

text \<open>Printing a text into the buffer and storing its address at an index.\<close>

definition put_text :: "nat \<Rightarrow> string \<Rightarrow> pvec \<Rightarrow> pvec option" where
  "put_text i s v = (if fits (pleft v) s
     then Some (v\<lparr>params := (params v)[i := Some (Text s)], pleft := pleft v - (length s + 1)\<rparr>) else None)"

definition put :: "string \<Rightarrow> pvec \<Rightarrow> pvec option" where
  "put s v = map_option (\<lambda>v. v\<lparr>pcnt := pcnt v + 1\<rparr>) (put_text (pcnt v) s v)"

fun puts :: "string list \<Rightarrow> pvec \<Rightarrow> pvec option" where
  "puts [] v = Some v"
| "puts (s # ss) v = (case put s v of None \<Rightarrow> None | Some v' \<Rightarrow> puts ss v')"

definition put_arg :: "arg \<Rightarrow> pvec \<Rightarrow> pvec" where
  "put_arg a v = v\<lparr>params := (params v)[pcnt v := Some a], pcnt := pcnt v + 1\<rparr>"

definition DEF_HYDRA_PROGRAM_BIN :: string where "DEF_HYDRA_PROGRAM_BIN = ''/usr/bin/hydra''"

text \<open>A block of addresses: the counter is advanced before the store (\<open>++cnt\<close>).\<close>

definition put_block :: "string \<Rightarrow> pvec \<Rightarrow> pvec option" where
  "put_block hosts v =
     (case put_text (pcnt v + 1) ''-s'' v of
        None \<Rightarrow> None
      | Some v1 \<Rightarrow>
          let v2 = v1\<lparr>pcnt := pcnt v1 + 1\<rparr>
          in if \<not> fits (pleft v2) hosts then None
             else if CHR '':'' \<in> set hosts
             then let ip = takeWhile (\<lambda>c. c \<noteq> CHR '':'') hosts;
                      port = tl (dropWhile (\<lambda>c. c \<noteq> CHR '':'') hosts)
                  in Some (v2\<lparr>params := (params v2)[pcnt v2 + 1 := Some (Text port), pcnt v2 + 2 := Some (Text ip)],
                       pcnt := pcnt v2 + 2, pleft := pleft v2 - (length hosts + 1)\<rparr>)
             else Some (v2\<lparr>params := (params v2)[pcnt v2 - 1 := Some (Text hosts)],
                    pleft := pleft v2 - (length hosts + 1)\<rparr>))"

definition put_hosts :: "hydra_task \<Rightarrow> pvec \<Rightarrow> pvec option" where
  "put_hosts t v =
     (if h_hosts_type t = HOSTS_IP_LIST then puts [''-M'', HYDRA_IP_LIST_FILE (h_paths t)] v
      else if h_hosts_type t = HOSTS_IP_BLOCK then put_block (h_hosts t) v
      else None)"

definition genCmdParams :: "hydra_task \<Rightarrow> int \<times> arg option list" where
  "genCmdParams t =
     (let v0 = \<lparr>params = replicate MAX_CMD_PARAM_SIZE None, pcnt = 0, pleft = MAX_CACHE_SIZE\<rparr>;
          v1 = puts [DEF_HYDRA_PROGRAM_BIN, ''-I'', ''-t'', ''4'', ''-T'', ''8'', ''-w'', ''10'', ''-o''] v0;
          v2 = Option.bind v1 (\<lambda>v. puts [''-b'', ''json'', ''-L'', HYDRA_LOGIN_FILE (h_paths t), ''-P'',
                 HYDRA_PASSWD_FILE (h_paths t), ''-f''] (put_arg Outfile v));
          v3 = Option.bind v2 (put_hosts t);
          v4 = map_option (put_arg Service) v3;
          v5 = (if h_opts t \<noteq> [] then Option.bind v4 (put (h_opts t)) else v4)
      in case v5 of
           None \<Rightarrow> (- 1, [])
         | Some v \<Rightarrow> (0, (params v)[pcnt v := None]))"

text \<open>What \<open>execv\<close> sees: the elements up to the first \<open>NULL\<close>.\<close>

fun arg_text :: "string \<Rightarrow> string \<Rightarrow> arg option \<Rightarrow> string" where
  "arg_text service outfile (Some (Text s)) = s"
| "arg_text service outfile (Some Service) = service"
| "arg_text service outfile (Some Outfile) = outfile"
| "arg_text service outfile None = []"

definition argv :: "string \<Rightarrow> string \<Rightarrow> arg option list \<Rightarrow> string list" where
  "argv service outfile ps = map (arg_text service outfile) (takeWhile (\<lambda>a. a \<noteq> None) ps)"

subsection \<open>The process of a task\<close>

text \<open>\<open>g_curr_task->m_pid\<close>, \<open>g_has_stop_task\<close>, and the programs started so far.\<close>

record cworld = gworld +
  c_pid :: int
  g_has_stop_task :: bool
  execs :: "string list list"

datatype wait_result = Ended | Interrupted | WaitError

text \<open>The loop around \<open>waitpid\<close>: it goes on after a signal that does not ask to stop.\<close>

fun wait_loop :: "bool list \<Rightarrow> bool \<Rightarrow> bool \<Rightarrow> wait_result \<times> bool" where
  "wait_loop [] ok stop = (if ok then Ended else WaitError, stop)"
| "wait_loop (s # sigs) ok stop = (if stop \<or> s then (Interrupted, True) else wait_loop sigs ok stop)"

definition waitExecTask :: "env \<Rightarrow> arg option list \<Rightarrow> string \<Rightarrow> string \<Rightarrow> ('a cworld_scheme, int) state" where
  "waitExecTask env cmds service outfile = do {
     pid \<leftarrow> forkSafe env;
     if 0 < pid
     then do {
       t \<leftarrow> now;
       modify (\<lambda>w. w\<lparr>c_pid := pid, execs := execs w @ [argv service outfile cmds]\<rparr>);
       stop \<leftarrow> gets g_has_stop_task;
       case wait_loop (fst (waits env t)) (snd (waits env t)) stop of (res, stop') \<Rightarrow> do {
         modify (\<lambda>w. w\<lparr>g_has_stop_task := stop'\<rparr>);
         if res = Ended
         then do { modify (\<lambda>w. w\<lparr>c_pid := 0\<rparr>); ret 0 }
         else ret (if stop' then 0 else - 1)
       }
     }
     else ret (- 1)
   }"

text \<open>One program per service; every token shortens the list, so its length is fuel enough.\<close>

primrec run_services ::
  "nat \<Rightarrow> env \<Rightarrow> hydra_task \<Rightarrow> arg option list \<Rightarrow> string \<Rightarrow> string \<Rightarrow> ('a cworld_scheme, int) state" where
  "run_services 0 env t cmds saveptr service = ret 0"
| "run_services (Suc n) env t cmds saveptr service = do {
     stop \<leftarrow> gets g_has_stop_task;
     if stop then ret 0
     else case getNextToken saveptr '','' service MAX_NAME_SIZE of (r, service, save) \<Rightarrow>
       if r = 0
       then let outfile = HYDRA_TASK_DIR (h_paths t) @ ''/hydra_output_'' @ service
            in if fits MAX_FILENAME_PATH_SIZE outfile
               then do {
                 k \<leftarrow> waitExecTask env cmds service outfile;
                 if k \<noteq> 0 then ret k else run_services n env t cmds save service
               }
               else ret (- 1)
       else ret (if r = 1 then 0 else - 1)
   }"

definition runHydraTask :: "env \<Rightarrow> hydra_task \<Rightarrow> arg option list \<Rightarrow> ('a cworld_scheme, int) state" where
  "runHydraTask env t cmds = run_services (Suc (length (h_services t))) env t cmds (h_services t) []"

text \<open>The process group and the file with the number of the process.\<close>

definition onStartTask :: "env \<Rightarrow> hydra_task \<Rightarrow> ('a cworld_scheme, int) state" where
  "onStartTask env t = do {
     nogrp \<leftarrow> fails env;
     if nogrp then ret (- 1)
     else do {
       n \<leftarrow> now;
       createPidFile env (HYDRA_TASK_GRP_PID_FILE (h_paths t)) (2 + int (entropy env n mod 4194302))
     }
   }"

definition onEndTask :: "env \<Rightarrow> hydra_task \<Rightarrow> ('a cworld_scheme, int) state" where
  "onEndTask env t = do {
     pid \<leftarrow> gets c_pid;
     _ \<leftarrow> killProc env pid;
     stop \<leftarrow> gets g_has_stop_task;
     _ \<leftarrow> createPidFile env (HYDRA_TASK_GRP_PID_FILE (h_paths t)) (if \<not> stop then 0 else - 1);
     ret 0
   }"

text \<open>The child of \<open>runHydra\<close>; its result is the exit status.\<close>

definition runHydra_child :: "env \<Rightarrow> hydra_task \<Rightarrow> arg option list \<Rightarrow> ('a cworld_scheme, int) state" where
  "runHydra_child env t cmds = do {
     modify (\<lambda>w. w\<lparr>c_pid := 0, g_has_stop_task := False\<rparr>);
     r \<leftarrow> onStartTask env t;
     r \<leftarrow> (if r \<noteq> 0 then ret r else runHydraTask env t cmds);
     _ \<leftarrow> onEndTask env t;
     ret r
   }"

subsection \<open>The daemon\<close>

text \<open>The parent of \<open>runHydra\<close>.\<close>

definition runHydra :: "env \<Rightarrow> nat \<Rightarrow> ('a hworld_scheme, int) state" where
  "runHydra env p = do {
     r \<leftarrow> prepare_hydra p;
     if r \<noteq> 0 then ret (- 1)
     else do {
       t \<leftarrow> get_hydra p;
       if fst (genCmdParams t) \<noteq> 0 then ret (- 1)
       else do {
         pid \<leftarrow> forkSafe env;
         if 0 < pid then do { upd_hydra p (\<lambda>t. t\<lparr>h_pid := pid\<rparr>); ret 0 } else ret (- 1)
       }
     }
   }"

definition chgChildTask :: "int \<Rightarrow> nat \<Rightarrow> ('a hworld_scheme, int) state" where
  "chgChildTask pid p = do {
     t \<leftarrow> get_hydra p;
     if h_pid t \<noteq> pid then ret 0
     else do { upd_hydra p (\<lambda>t. t\<lparr>h_pid := 0\<rparr>); ret 1 }
   }"

text \<open>The loop around \<open>waitpid\<close> with \<open>WNOHANG\<close>, over the children that have ended.\<close>

fun reap :: "int list \<Rightarrow> ('a hworld_scheme, unit) state" where
  "reap [] = ret ()"
| "reap (pid # pids) =
     (if 0 < pid
      then do {
        q \<leftarrow> gets h_createque;
        _ \<leftarrow> for_items (chgChildTask pid) (lq_items q);
        reap pids
      }
      else ret ())"

definition monitorHydraTask :: "env \<Rightarrow> ('a hworld_scheme, int) state" where
  "monitorHydraTask env = do {
     t \<leftarrow> now;
     modify (\<lambda>w. w\<lparr>g_has_child_exit := g_has_child_exit w \<or> sigchld env t\<rparr>);
     f \<leftarrow> gets g_has_child_exit;
     (if f then do { reap (reaped env t); modify (\<lambda>w. w\<lparr>g_has_child_exit := False\<rparr>) } else ret ());
     ret 0
   }"

subsection \<open>Requests\<close>

definition locate_hydra :: "nat \<Rightarrow> string \<Rightarrow> ('a hworld_scheme, int + nat) state" where
  "locate_hydra key input = do {
     t \<leftarrow> get_hydra key;
     upd_hydra key (\<lambda>t. snd (getKeyHydraParam input t));
     if fst (getKeyHydraParam input t) \<noteq> 0 then ret (Inl GVM_ERR_PARAM_INVALID)
     else do {
       f \<leftarrow> findHydraTask key;
       ret (case f of None \<Rightarrow> Inl GVM_ERR_TASK_NOT_FOUND | Some p \<Rightarrow> Inr p)
     }
   }"

definition with_hydra ::
  "env \<Rightarrow> string \<Rightarrow> (nat \<Rightarrow> ('a hworld_scheme, int) state) \<Rightarrow> ('a hworld_scheme, int) state" where
  "with_hydra env input body = do {
     k \<leftarrow> newHydraTask env;
     case k of
       None \<Rightarrow> ret GVM_ERR_INTERNAL_FAIL
     | Some key \<Rightarrow> do {
         l \<leftarrow> locate_hydra key input;
         r \<leftarrow> (case l of Inl e \<Rightarrow> ret e | Inr p \<Rightarrow> body p);
         freeHydraTask key;
         ret r
       }
   }"

definition start_hydra_found :: "env \<Rightarrow> nat \<Rightarrow> ('a hworld_scheme, int) state" where
  "start_hydra_found env p = do {
     t \<leftarrow> get_hydra p;
     if h_pid t \<noteq> 0 then ret GVM_ERR_TASK_IS_BUSY
     else do { r \<leftarrow> runHydra env p; ret (if r = 0 then 0 else GVM_ERR_INTERNAL_FAIL) }
   }"

definition daemon_start_hydra :: "env \<Rightarrow> string \<Rightarrow> ('a hworld_scheme, int) state" where
  "daemon_start_hydra env input = with_hydra env input (start_hydra_found env)"

definition stop_hydra_found :: "env \<Rightarrow> nat \<Rightarrow> ('a hworld_scheme, int) state" where
  "stop_hydra_found env p = do {
     t \<leftarrow> get_hydra p;
     if h_pid t = 0 then ret GVM_ERR_TASK_IS_NOT_RUNNING
     else do {
       r \<leftarrow> stopProc env (h_pid t);
       if r = 0 then do { upd_hydra p (\<lambda>t. t\<lparr>h_pid := 0\<rparr>); ret 0 } else ret GVM_ERR_INTERNAL_FAIL
     }
   }"

definition daemon_stop_hydra :: "env \<Rightarrow> string \<Rightarrow> ('a hworld_scheme, int) state" where
  "daemon_stop_hydra env input = with_hydra env input (stop_hydra_found env)"

definition delete_hydra_found :: "env \<Rightarrow> nat \<Rightarrow> ('a hworld_scheme, int) state" where
  "delete_hydra_found env p = do {
     t \<leftarrow> get_hydra p;
     if h_pid t \<noteq> 0 then ret GVM_ERR_TASK_IS_BUSY
     else do {
       r \<leftarrow> delHydraRelationFiles env p;
       if r \<noteq> 0 then ret GVM_ERR_INTERNAL_FAIL else do { freeHydraTask p; ret 0 }
     }
   }"

definition daemon_delete_hydra :: "env \<Rightarrow> string \<Rightarrow> ('a hworld_scheme, int) state" where
  "daemon_delete_hydra env input = with_hydra env input (delete_hydra_found env)"

definition create_hydra_checked :: "env \<Rightarrow> nat \<Rightarrow> string \<Rightarrow> ('a hworld_scheme, int) state" where
  "create_hydra_checked env p input = do {
     t \<leftarrow> get_hydra p;
     (r, t) \<leftarrow> getCreateHydraParam env input t;
     upd_hydra p (\<lambda>_. t);
     if r \<noteq> 0 then ret GVM_ERR_PARAM_INVALID
     else do {
       f \<leftarrow> findHydraTask p;
       if f \<noteq> None then ret GVM_ERR_TASK_ALREADY_EXISTS
       else do {
         (_, stamp) \<leftarrow> nowTimeStamp env MAX_TIMESTAMP_SIZE;
         upd_hydra p (\<lambda>t. t\<lparr>h_create_time := stamp, h_modify_time := stamp\<rparr>);
         r \<leftarrow> writeHydraRelationFile env p;
         ret (if r \<noteq> 0 then GVM_ERR_INTERNAL_FAIL else 0)
       }
     }
   }"

definition daemon_create_hydra :: "env \<Rightarrow> string \<Rightarrow> ('a hworld_scheme, int) state" where
  "daemon_create_hydra env input = do {
     k \<leftarrow> newHydraTask env;
     case k of
       None \<Rightarrow> ret GVM_ERR_INTERNAL_FAIL
     | Some p \<Rightarrow> do {
         r \<leftarrow> create_hydra_checked env p input;
         (if r = 0 then ret () else freeHydraTask p);
         ret r
       }
   }"

subsection \<open>Starting and ending\<close>

definition DEF_HYDRA_TASK_FILE_NAME :: string where "DEF_HYDRA_TASK_FILE_NAME = ''hydra_task_file''"
definition DEF_HYDRA_PRIV_DATA_DIR :: string where "DEF_HYDRA_PRIV_DATA_DIR = ''/usr/local/openvas/gvm/var/hydra''"

definition createHydraData :: "env \<Rightarrow> ('a hworld_scheme, bool) state" where
  "createHydraData env = do {
     nomem \<leftarrow> fails env;
     modify (\<lambda>w. w\<lparr>h_createque := lq_init, h_nameset := [], h_name_cap := DEF_LIST_ARRAY_SIZE,
       h_task_file_name := DEF_HYDRA_TASK_FILE_NAME, h_task_priv_dir := DEF_HYDRA_PRIV_DATA_DIR,
       h_task_templ_dir := path_buf (DEF_HYDRA_PRIV_DATA_DIR @ ''/templates'')\<rparr>);
     ret (path_fits (DEF_HYDRA_PRIV_DATA_DIR @ ''/templates'') \<and> \<not> nomem)
   }"

definition finishHydraData :: "('a hworld_scheme, unit) state" where
  "finishHydraData = modify (\<lambda>w. w\<lparr>htasks := (\<lambda>p. if p \<in> set (h_nameset w) then None else htasks w p),
     h_createque := lq_init, h_nameset := [], h_name_cap := 0\<rparr>)"

definition initHydra :: "env \<Rightarrow> ('a hworld_scheme, int) state" where
  "initHydra env = do {
     ok \<leftarrow> createHydraData env;
     if \<not> ok then do { finishHydraData; ret (- 1) }
     else do {
       priv \<leftarrow> gets h_task_priv_dir;
       templ \<leftarrow> gets h_task_templ_dir;
       r \<leftarrow> chkExists env priv False;
       r \<leftarrow> (if r \<noteq> 0 then ret r else chkExists env templ False);
       r \<leftarrow> (if r \<noteq> 0 then ret r else readHydraTaskFile env);
       (if r = 0 then ret () else finishHydraData);
       ret r
     }
   }"

end
