(* ===== verification/Service.thy ===== *)
theory Service imports HydraRun begin

text \<open>
  The service itself (\<^verbatim>\<open>openvas_business.c\<close> and \<^verbatim>\<open>main.c\<close>): dispatching a message (\<open>processMsg\<close>), the
  main loop with its waiting times (\<open>startKbMsg\<close>), the timers, and the start of everything
  (\<open>serveGvm\<close>).
\<close>

text \<open>The static and local variables of the loop and of the timers.\<close>

record sworld = hworld +
  g_isRun :: bool
  loop_timeout :: int
  g_id :: nat
  g_min_cnt :: int
  g_last_time :: int

subsection \<open>Messages\<close>

definition g_hds :: "env \<Rightarrow> (string \<times> (string \<Rightarrow> ('a sworld_scheme, int) state)) list" where
  "g_hds env =
     [(''start_task'', daemon_start_task env), (''stop_task'', daemon_stop_task env),
      (''delete_task'', daemon_delete_task env), (''create_task'', daemon_create_task env),
      (''start_hydra'', daemon_start_hydra env), (''stop_hydra'', daemon_stop_hydra env),
      (''delete_hydra'', daemon_delete_hydra env), (''create_hydra'', daemon_create_hydra env)]"

definition processMsg :: "env \<Rightarrow> string \<Rightarrow> ('a sworld_scheme, int) state" where
  "processMsg env inbuf =
     (case getNextToken (c_str inbuf) [SOH] [] MAX_UUID_SIZE of (r1, uuid, s1) \<Rightarrow>
        if r1 \<noteq> 0 then ret GVM_ERR_PARAM_INVALID
        else case getNextToken s1 [SOH] [] MAX_COMM_SIZE of (r2, cmd, s2) \<Rightarrow>
          if r2 \<noteq> 0 then ret GVM_ERR_PARAM_INVALID
          else if chkUuid uuid \<noteq> 0 then ret GVM_ERR_PARAM_INVALID
          else do {
            r \<leftarrow> (case find (\<lambda>h. strncmp (fst h) cmd MAX_COMM_SIZE = 0) (g_hds env) of
                    None \<Rightarrow> ret GVM_ERR_PARAM_INVALID
                  | Some h \<Rightarrow> snd h s2);
            _ \<leftarrow> redis_push_int_ttl env uuid r MAX_REDIS_WAIT_TIMEOUT;
            ret r
          })"

definition recvKbMsg :: "env \<Rightarrow> string \<Rightarrow> ('a sworld_scheme, int \<times> string) state" where
  "recvKbMsg env key = redis_pop_str env key MAX_CACHE_SIZE"

definition clearKb :: "env \<Rightarrow> string \<Rightarrow> ('a sworld_scheme, int) state" where
  "clearKb env key = redis_del_items env key"

definition processIdle :: "env \<Rightarrow> ('a sworld_scheme, bool) state" where
  "processIdle env = runGvmChecks env"

subsection \<open>Timers\<close>

definition LOG_PATH_MARK :: "string \<Rightarrow> string" where
  "LOG_PATH_MARK date = ''/usr/local/openvas/gvm/var/log/gvm/gvm_util_'' @ date @ ''.log''"

definition getLogPath :: "env \<Rightarrow> int \<Rightarrow> nat \<Rightarrow> int \<times> string" where
  "getLogPath env time maxlen =
     (let out = snprintf maxlen (LOG_PATH_MARK (snd (time2asc env time ''%Y%m%d'' MAX_TIMESTAMP_SIZE True)))
      in if snd out < int maxlen then (0, fst out) else (- 1, []))"

definition clearLogFile :: "env \<Rightarrow> int \<Rightarrow> ('a sworld_scheme, int) state" where
  "clearLogFile env nday = do {
     time \<leftarrow> getTimeLastDays env nday;
     case getLogPath env time MAX_FILENAME_PATH_SIZE of (r, path) \<Rightarrow> do {
       (if r = 0 then do { _ \<leftarrow> deleteFile env path; ret () } else ret ());
       ret r
     }
   }"

definition timerPerMinute :: "env \<Rightarrow> ('a sworld_scheme, unit) state" where
  "timerPerMinute env = do {
     modify (\<lambda>w. w\<lparr>g_min_cnt := g_min_cnt w + 1\<rparr>);
     n \<leftarrow> gets g_min_cnt;
     (if n mod 512 = 0 then do { _ \<leftarrow> clearLogFile env 7; ret () } else ret ());
     _ \<leftarrow> validateGvmConn env;
     ret ()
   }"

definition triggerTimerPerMinute :: "env \<Rightarrow> ('a sworld_scheme, unit) state" where
  "triggerTimerPerMinute env = do {
     now \<leftarrow> getClkTime env;
     last \<leftarrow> gets g_last_time;
     if last + 60 \<le> now
     then do {
       timerPerMinute env;
       c \<leftarrow> getClkTime env;
       modify (\<lambda>w. w\<lparr>g_last_time := c\<rparr>)
     }
     else ret ()
   }"

definition doEveryLoop :: "env \<Rightarrow> ('a sworld_scheme, unit) state" where
  "doEveryLoop env = do {
     _ \<leftarrow> monitorHydraTask env;
     triggerTimerPerMinute env
   }"

subsection \<open>The loop\<close>

definition INTERVAL_TIME :: "int list" where "INTERVAL_TIME = [10, 20, 30, 60]"
definition MAX_INTERVAL_CNT :: nat where "MAX_INTERVAL_CNT = 3"

definition stopKbMsg :: "('a sworld_scheme, int) state" where
  "stopKbMsg = do { modify (\<lambda>w. w\<lparr>g_isRun := False\<rparr>); ret 0 }"

text \<open>A signal may arrive before each look at \<open>g_isRun\<close>; its handler calls \<open>stopKbMsg\<close>.\<close>

definition still_running :: "env \<Rightarrow> ('a sworld_scheme, bool) state" where
  "still_running env = do {
     t \<leftarrow> now;
     (if sigstop env t then do { _ \<leftarrow> stopKbMsg; ret () } else ret ());
     gets g_isRun
   }"

text \<open>What is done with what was received; the result is whether the iteration goes on to
  \<open>doEveryLoop\<close>.\<close>

definition handle_received :: "env \<Rightarrow> string \<Rightarrow> int \<Rightarrow> string \<Rightarrow> ('a sworld_scheme, bool) state" where
  "handle_received env key r msg =
     (if r = 0
      then do {
        modify (\<lambda>w. w\<lparr>g_id := 0\<rparr>);
        hasMore \<leftarrow> processIdle env;
        modify (\<lambda>w. w\<lparr>loop_timeout := (if hasMore then 0 else 1)\<rparr>);
        ret True
      }
      else if 0 < r
      then do {
        id \<leftarrow> gets g_id;
        modify (\<lambda>w. w\<lparr>g_id := 0\<rparr>);
        if id = 0 \<or> id < MAX_INTERVAL_CNT
        then do { _ \<leftarrow> processMsg env msg; ret True }
        else do { _ \<leftarrow> clearKb env key; ret False }
      }
      else do {
        modify (\<lambda>w. w\<lparr>loop_timeout := INTERVAL_TIME ! g_id w,
          g_id := (if g_id w < MAX_INTERVAL_CNT then g_id w + 1 else g_id w)\<rparr>);
        ret True
      })"

text \<open>One iteration of the loop.\<close>

definition loop_body :: "env \<Rightarrow> string \<Rightarrow> ('a sworld_scheme, unit) state" where
  "loop_body env key = do {
     timeout \<leftarrow> gets loop_timeout;
     go \<leftarrow> (if timeout \<le> 0
       then do { (r, msg) \<leftarrow> recvKbMsg env key; handle_received env key r msg }
       else do { modify (\<lambda>w. w\<lparr>loop_timeout := loop_timeout w - 1\<rparr>); ret True });
     if go
     then do {
       run \<leftarrow> still_running env;
       if run then doEveryLoop env else ret ()
     }
     else ret ()
   }"

text \<open>At most \<open>n\<close> iterations; the result is whether the loop has ended.\<close>

primrec main_loop :: "nat \<Rightarrow> env \<Rightarrow> string \<Rightarrow> ('a sworld_scheme, bool) state" where
  "main_loop 0 env key = ret False"
| "main_loop (Suc n) env key = do {
     run \<leftarrow> still_running env;
     if \<not> run then ret True
     else do { loop_body env key; main_loop n env key }
   }"

definition startKbMsg :: "nat \<Rightarrow> env \<Rightarrow> string \<Rightarrow> ('a sworld_scheme, int option) state" where
  "startKbMsg n env key = do {
     kb \<leftarrow> redis_new env;
     if \<not> kb then ret (Some (- 1))
     else do {
       _ \<leftarrow> clearKb env key;
       modify (\<lambda>w. w\<lparr>loop_timeout := 0\<rparr>);
       ended \<leftarrow> main_loop n env key;
       if ended then do { _ \<leftarrow> redis_delete; ret (Some 0) } else ret None
     }
   }"

subsection \<open>Starting the service\<close>

text \<open>\<open>readlink\<close> on the program itself, and the lock that keeps a second instance out; the path is the
  one the state holds.\<close>

definition getProgPath :: "env \<Rightarrow> ('a sworld_scheme, int) state" where
  "getProgPath env = do { f \<leftarrow> fails env; ret (if f then - 1 else 0) }"

definition lockFile :: "env \<Rightarrow> ('a sworld_scheme, int) state" where
  "lockFile env = do {
     noopen \<leftarrow> fails env;
     if noopen then ret (- 1)
     else do { locked \<leftarrow> fails env; ret (if locked then - 1 else 0) }
   }"

definition isRun :: "env \<Rightarrow> ('a sworld_scheme, int) state" where
  "isRun env = do {
     r \<leftarrow> getProgPath env;
     if r \<noteq> 0 then ret r else lockFile env
   }"

text \<open>\<open>None\<close>: the loop has not ended within \<open>n\<close> iterations.\<close>

definition serveGvm :: "nat \<Rightarrow> env \<Rightarrow> ('a sworld_scheme, int option) state" where
  "serveGvm n env = do {
     r \<leftarrow> isRun env;
     if r \<noteq> 0 then ret (Some r)
     else do {
       r \<leftarrow> initDaemon env;
       r \<leftarrow> (if r \<noteq> 0 then ret r else initHydra env);
       e \<leftarrow> (if r \<noteq> 0 then ret (Some r) else startKbMsg n env OPENVAS_MSG_NAME);
       case e of
         None \<Rightarrow> ret None
       | Some r \<Rightarrow> do { finishHydraData; finishData; ret (Some r) }
     }
   }"

end
