(* ===== verification/Steps.thy ===== *)
theory Steps imports Service begin

text \<open>
  Relations between the state before and after an operation.  A relation that holds of no change and
  composes is kept by a program when all its parts keep it; the locale \<open>stepping\<close> proves this once, and
  its interpretations follow the store of tasks, the clock of calls, the shell and the signals.
\<close>

definition rel :: "('s \<Rightarrow> 's \<Rightarrow> bool) \<Rightarrow> ('s, 'b) state \<Rightarrow> bool" where
  "rel R m \<longleftrightarrow> (\<forall>w. wp m (\<lambda>_ w'. R w w') w)"

lemma relI: "(\<And>w a w'. run_state m w = (a, w') \<Longrightarrow> R w w') \<Longrightarrow> rel R m"
  by (simp add: rel_def wpI)

lemma rel_run: "rel R m \<Longrightarrow> run_state m w = (a, w') \<Longrightarrow> R w w'"
  unfolding rel_def wp_def by (metis (mono_tags, lifting) case_prod_conv)

lemma rel_mono: "rel R m \<Longrightarrow> (\<And>w w'. R w w' \<Longrightarrow> Q w w') \<Longrightarrow> rel Q m"
  by (rule relI) (blast dest: rel_run)

lemma rel_modify: "(\<And>w. R w (f w)) \<Longrightarrow> rel R (modify f)"
  by (simp add: rel_def)

lemma rel_if: "(c \<Longrightarrow> rel R m) \<Longrightarrow> (\<not> c \<Longrightarrow> rel R n) \<Longrightarrow> rel R (if c then m else n)"
  by simp

lemma rel_option: "(x = None \<Longrightarrow> rel R m) \<Longrightarrow> (\<And>y. x = Some y \<Longrightarrow> rel R (f y)) \<Longrightarrow>
    rel R (case x of None \<Rightarrow> m | Some y \<Rightarrow> f y)"
  by (cases x) simp_all

lemma rel_prod: "(\<And>a b. x = (a, b) \<Longrightarrow> rel R (f a b)) \<Longrightarrow> rel R (case x of (a, b) \<Rightarrow> f a b)"
  by (cases x) simp

lemma rel_sum: "(\<And>a. x = Inl a \<Longrightarrow> rel R (f a)) \<Longrightarrow> (\<And>b. x = Inr b \<Longrightarrow> rel R (g b)) \<Longrightarrow>
    rel R (case x of Inl a \<Rightarrow> f a | Inr b \<Rightarrow> g b)"
  by (cases x) simp_all

lemma rel_let: "(\<And>y. y = x \<Longrightarrow> rel R (f y)) \<Longrightarrow> rel R (let y = x in f y)"
  by simp

lemma rel_chk:
  "(c = GVM_TASK_CHK_TASK \<Longrightarrow> rel R a) \<Longrightarrow> (c = GVM_TASK_CHK_REPORT \<Longrightarrow> rel R b) \<Longrightarrow>
   (c = GVM_TASK_CHK_RESULT \<Longrightarrow> rel R d) \<Longrightarrow> (c = GVM_TASK_CHK_DELETED \<Longrightarrow> rel R e) \<Longrightarrow>
   rel R (case c of GVM_TASK_CHK_TASK \<Rightarrow> a | GVM_TASK_CHK_REPORT \<Rightarrow> b | GVM_TASK_CHK_RESULT \<Rightarrow> d
     | GVM_TASK_CHK_DELETED \<Rightarrow> e)"
  by (cases c) simp_all

locale stepping =
  fixes R :: "'s \<Rightarrow> 's \<Rightarrow> bool"
  assumes R_refl: "R w w"
    and R_trans: "R u v \<Longrightarrow> R v w \<Longrightarrow> R u w"
begin

lemma rel_return: "rel R (ret a)"
  by (simp add: rel_def R_refl)

lemma rel_gets: "rel R (gets f)"
  by (simp add: rel_def R_refl)

lemma rel_bind:
  assumes "rel R m" "\<And>a. rel R (f a)"
  shows "rel R (State_Monad.bind m f)"
proof (rule relI)
  fix w b w2
  assume "run_state (State_Monad.bind m f) w = (b, w2)"
  then obtain a w1 where "run_state m w = (a, w1)" "run_state (f a) w1 = (b, w2)" by (rule run_bindE)
  then show "R w w2" using R_trans rel_run [OF assms(1)] rel_run [OF assms(2)] by blast
qed

text \<open>What the first part returns may be used by the second.\<close>

lemma rel_bind_wp:
  assumes "rel R m" "\<And>w. wp m (\<lambda>a _. P a) w" "\<And>a. P a \<Longrightarrow> rel R (f a)"
  shows "rel R (State_Monad.bind m f)"
proof (rule relI)
  fix w b w2
  assume "run_state (State_Monad.bind m f) w = (b, w2)"
  then obtain a w1 where r: "run_state m w = (a, w1)" "run_state (f a) w1 = (b, w2)" by (rule run_bindE)
  have "P a" using wp_run [OF assms(2) r(1)] .
  then show "R w w2" using R_trans [OF rel_run [OF assms(1) r(1)] rel_run [OF assms(3) r(2)]] by blast
qed

lemma rel_for_items: "(\<And>x. rel R (work x)) \<Longrightarrow> rel R (for_items work xs)"
proof (rule relI)
  fix w a w'
  assume w: "\<And>x. rel R (work x)" and r: "run_state (for_items work xs) w = (a, w')"
  have "each (\<lambda>x. run_state (work x)) xs w = (a, w')" using r by (simp add: for_items_def)
  then show "R w w'"
  proof (induction xs arbitrary: w)
    case Nil
    then show ?case by (simp add: R_refl)
  next
    case (Cons x xs)
    obtain b w1 where b: "run_state (work x) w = (b, w1)" by (metis surj_pair)
    have "R w w1" using rel_run [OF w b] .
    then show ?case using Cons b R_trans by (auto split: if_splits)
  qed
qed

lemmas rel_intros = rel_return rel_gets rel_bind rel_if rel_option rel_prod rel_sum rel_let rel_chk rel_for_items

end

subsection \<open>The clock of calls, the shell and the signals\<close>

text \<open>Every command given to the shell is safe, and no signal is sent to a group or to \<^verbatim>\<open>init\<close>.\<close>

definition follows :: "'a gworld_scheme \<Rightarrow> 'a gworld_scheme \<Rightarrow> bool" where
  "follows w w' \<longleftrightarrow> tick w \<le> tick w' \<and> (\<exists>cs. ran w' = ran w @ cs \<and> (\<forall>c\<in>set cs. safe_cmd c)) \<and>
     (\<exists>ks. kills w' = kills w @ ks \<and> (\<forall>(p, s)\<in>set ks. 1 < p))"

lemma follows_refl: "follows w w"
  by (simp add: follows_def)

lemma follows_trans:
  assumes "follows u v" "follows v w"
  shows "follows u w"
proof -
  obtain c1 c2 k1 k2 where "ran v = ran u @ c1" "ran w = ran v @ c2" "kills v = kills u @ k1" "kills w = kills v @ k2"
    and "\<forall>c\<in>set (c1 @ c2). safe_cmd c" "\<forall>(p, s)\<in>set (k1 @ k2). 1 < p"
    using assms unfolding follows_def by (metis (no_types, lifting) Un_iff set_append)
  then have "ran w = ran u @ (c1 @ c2)" "kills w = kills u @ (k1 @ k2)" by simp_all
  moreover have "tick u \<le> tick w" using assms by (auto simp: follows_def)
  ultimately show ?thesis
    using \<open>\<forall>c\<in>set (c1 @ c2). safe_cmd c\<close> \<open>\<forall>(p, s)\<in>set (k1 @ k2). 1 < p\<close> unfolding follows_def by blast
qed

interpretation fo: stepping follows
  by unfold_locales (rule follows_refl, rule follows_trans)

lemma followsI:
  "tick w \<le> tick w' \<Longrightarrow> ran w' = ran w \<Longrightarrow> kills w' = kills w \<Longrightarrow> follows w w'"
  by (simp add: follows_def)

lemma fo_touches:
  fixes m :: "('a gworld_scheme, 'b) state"
  assumes "touches P m"
  shows "rel follows m"
proof (rule relI)
  fix w w' :: "'a gworld_scheme" and a
  assume "run_state m w = (a, w')"
  then have "tick w \<le> tick w'" "world.more w' = world.more w"
    using touches_run [OF assms] by (auto simp: same_rest_def)
  then show "follows w w'" by (cases w; cases w') (simp add: followsI)
qed

text \<open>An update of the state above the shell.\<close>

lemma fo_modify:
  "(\<And>w. tick (f w) = tick w \<and> ran (f w) = ran w \<and> kills (f w) = kills w) \<Longrightarrow> rel follows (modify f)"
  by (rule rel_modify) (simp add: followsI)

end
