(* ===== verification/Effects.thy ===== *)
theory Effects imports Steps begin

text \<open>
  What the service does to its surroundings: every operation, request, check and timer only gives safe
  commands to the shell and only signals processes it started.
\<close>

subsection \<open>Requests to the scanner\<close>

definition ticking :: "'a gworld_scheme \<Rightarrow> 'a gworld_scheme \<Rightarrow> bool" where
  "ticking w w' \<longleftrightarrow> tick w \<le> tick w' \<and> kills w' = kills w"

interpretation ti: stepping ticking
  by unfold_locales (auto simp: ticking_def)

lemma ticking_exeCmd: "rel ticking (exeCmd env cmd n)"
  unfolding exeCmd_def by (auto simp: rel_def ticking_def)

lemma ticking_procGvmTask: "rel ticking (procGvmTask env cmd xml)"
  unfolding procGvmTask_def by (intro ti.rel_intros ticking_exeCmd)

lemma fo_request:
  assumes "plain xml"
  shows "rel follows (gvm_request env cmd xml)"
proof (rule relI)
  fix w w' :: "'a gworld_scheme" and a
  assume r: "run_state (gvm_request env cmd xml) w = (a, w')"
  have "ticking w w'" using rel_run [OF ticking_procGvmTask] r unfolding gvm_request_def by blast
  moreover obtain cs where "ran w' = ran w @ cs" "\<forall>c\<in>set cs. safe_cmd c"
    using emits_run [OF emits_gvm_request [OF assms] r] by blast
  ultimately show "follows w w'" by (auto simp: follows_def ticking_def)
qed

lemma fo_simple: "(chkUuid u = 0 \<Longrightarrow> plain xml) \<Longrightarrow> rel follows (gvm_simple env u cmd xml)"
  unfolding gvm_simple_def by (intro fo.rel_intros fo_request) auto

lemma fo_create: "plain xml \<Longrightarrow> rel follows (gvm_create env cmd xml old n)"
  unfolding gvm_create_def by (intro fo.rel_intros fo_request)

text \<open>These requests check what they are given.\<close>

lemma fo_gvm:
  "rel follows (gvm_start_task env u n)" "rel follows (gvm_stop_task env u)" "rel follows (gvm_query_report env u)"
  "rel follows (gvm_query_task env u)" "rel follows (gvm_option_delete_task env u)"
  "rel follows (gvm_option_delete_target env u)"
  unfolding gvm_start_task_def gvm_stop_task_def gvm_query_report_def gvm_query_task_def
    gvm_option_delete_task_def gvm_option_delete_target_def
  by (intro fo.rel_intros fo_simple; simp add: req_defs plain_uuid plain_char_def BSL_def BQ_def)+

lemma fo_query_result: "rel follows (gvm_query_result env u r i j)"
  unfolding gvm_query_result_def
  by (intro fo.rel_intros fo_simple; simp add: req_defs plain_uuid plain_char_def BSL_def BQ_def)

lemma fo_create_target: "rel follows (gvm_create_target env nm h pl old n)"
  unfolding gvm_create_target_def
  by (intro fo.rel_intros fo_create)
    (auto simp: req_defs plain_uuid plain_hosts GvmProps.plain_name plain_char_def BSL_def BQ_def split: if_splits)

lemma fo_create_task:
  assumes "plain sc"
  shows "rel follows (gvm_create_task env nm tg cf sc old n)"
  unfolding gvm_create_task_def
  by (intro fo.rel_intros fo_create)
    (auto simp: req_defs plain_uuid GvmProps.plain_name plain_char_def BSL_def BQ_def assms split: if_splits)

lemma fo_delete_option:
  "rel follows (gvm_option_delete_schedule env i)" "rel follows (gvm_option_delete_config env i)"
  unfolding gvm_option_delete_schedule_def gvm_delete_schedule_def gvm_option_delete_config_def gvm_delete_config_def
  by (intro fo.rel_intros fo_request; simp add: req_defs plain_uuid plain_char_def BSL_def BQ_def)+

lemma fo_get_version: "rel follows (gvm_get_version env v)"
  unfolding gvm_get_version_def by (intro fo.rel_intros fo_request) (simp add: plain_char_def BSL_def BQ_def)


subsection \<open>Creating\<close>

text \<open>The remaining requests use texts that the request of the client was checked for.\<close>

definition good_info :: "gvm_task_info \<Rightarrow> bool" where
  "good_info i \<longleftrightarrow> plain (ti_task_name i) \<and> plain (ti_group_id i) \<and> plain (ti_group_name i) \<and> plain (ti_schedule_id i) \<and>
     (ti_schedule_type i = ICAL_DATE_WEEKLY \<or> ti_schedule_type i = ICAL_DATE_MONTHLY \<longrightarrow> plain (ti_schedule_list i))"

text \<open>A time formatted for a schedule has nothing that a shell would expand.\<close>

definition sched_ok :: "env \<Rightarrow> bool" where
  "sched_ok env \<longleftrightarrow> (\<forall>l t s. strftime env CUSTOM_SCHEDULE_TIME_MARK l t = Some s \<longrightarrow> plain s)"

lemma tsearch_groups:
  "tsearch ts s = Some gs \<Longrightarrow> \<exists>t. tparse ts gs t"
proof (induction s)
  case Nil
  then show ?case using tmatch_sound by (fastforce split: option.splits)
next
  case (Cons c s)
  then show ?case using tmatch_sound by (fastforce split: option.splits)
qed

lemma plain_attr_uuid: "plain (snd (extractAttrUuid rsp tag n))"
  using plain_lang [OF over_plain_UUID] unfolding extractAttrUuid_def take_group_def
  by (auto dest!: tsearch_groups split: option.splits list.splits)

lemma gvm_create_plain: "plain old \<Longrightarrow> wp (gvm_create env cmd xml old n) (\<lambda>ru _. plain (snd ru)) w"
  unfolding gvm_create_def by (auto intro: wp_any simp: plain_attr_uuid)

lemma local2SchedTime_plain:
  "sched_ok env \<Longrightarrow> wp (local2SchedTime env n s once) (\<lambda>rs _. plain (snd rs)) w"
  by (auto simp: local2SchedTime_def time2asc_def sched_ok_def split: option.splits)


text \<open>While the object \<open>p\<close> has such texts, it keeps them.\<close>

definition guarded :: "nat \<Rightarrow> 'a dworld_scheme \<Rightarrow> 'a dworld_scheme \<Rightarrow> bool" where
  "guarded p w w' \<longleftrightarrow> (tasks w p \<noteq> None \<and> good_info (m_task_info (task_at w p)) \<longrightarrow>
     follows w w' \<and> tasks w' p \<noteq> None \<and> good_info (m_task_info (task_at w' p)))"

interpretation ga: stepping "guarded p" for p
  by unfold_locales (auto simp: guarded_def follows_refl intro: follows_trans)

lemma ga_frame:
  fixes m :: "('a dworld_scheme, 'b) state"
  assumes "frame m" "rel follows m"
  shows "rel (guarded p) m"
proof (rule relI)
  fix w w' :: "'a dworld_scheme" and a
  assume r: "run_state m w = (a, w')"
  have e: "gworld.more w' = gworld.more w" using keeps_run [OF assms(1) r] .
  show "guarded p w w'"
    using rel_run [OF assms(2) r] by (simp add: guarded_def frame_inv(4) [OF e] frame_fields(1) [OF e])
qed

lemma ga_upd:
  assumes "\<And>t. good_info (m_task_info t) \<Longrightarrow> good_info (m_task_info (f t))"
  shows "rel (guarded p) (upd_task p f)"
  using assms by (auto simp: rel_def upd_task_def guarded_def follows_def task_at_def)

lemma ga_get:
  assumes "\<And>t. good_info (m_task_info t) \<Longrightarrow> rel (guarded p) (f t)"
  shows "rel (guarded p) (State_Monad.bind (get_task p) f)"
proof (rule relI)
  fix w a w'
  assume "run_state (State_Monad.bind (get_task p) f) w = (a, w')"
  then have "run_state (f (task_at w p)) w = (a, w')" by (simp add: get_task_def)
  then show "guarded p w w'"
    using rel_run [OF assms] by (cases "good_info (m_task_info (task_at w p))") (auto simp: guarded_def)
qed

lemma ga_on_info:
  fixes g :: "gvm_task_info \<Rightarrow> ('a dworld_scheme, int \<times> gvm_task_info) state"
  assumes f: "\<And>i. frame (g i)" and e: "\<And>i. good_info i \<Longrightarrow> rel follows (g i)"
    and s: "\<And>i w. good_info i \<Longrightarrow> wp (g i) (\<lambda>ri _. good_info (snd ri)) w"
  shows "rel (guarded p) (on_info g p)"
  unfolding on_info_def
proof (rule ga_get)
  fix t
  assume t: "good_info (m_task_info t)"
  show "rel (guarded p) (do { (r, info) \<leftarrow> g (m_task_info t); upd_task p (upd_info (\<lambda>_. info)); ret r })"
    by (rule ga.rel_bind_wp [where P = "\<lambda>ri. good_info (snd ri)"], rule ga_frame [OF f e [OF t]], rule s [OF t],
        intro ga.rel_intros ga_upd) simp
qed

lemma create_schedule_effects:
  assumes "sched_ok env" "good_info i"
  shows "rel follows (gvm_option_create_schedule env i)"
    "wp (gvm_option_create_schedule env i) (\<lambda>ri _. good_info (snd ri)) w"
proof -
  have c: "rel follows (gvm_create_schedule env (ti_task_name i) (ti_schedule_type i) utc (ti_schedule_list i) n)"
    if "plain utc" for utc n
    unfolding gvm_create_schedule_def using that assms(2)
    by (intro fo.rel_intros fo_create) (auto simp: good_info_def req_defs plain_char_def BSL_def BQ_def)
  have p: "wp (gvm_create_schedule env nm ty utc ds n) (\<lambda>ru _. plain (snd ru)) w" for nm ty utc ds n w
    unfolding gvm_create_schedule_def by (auto intro: gvm_create_plain)
  have l: "rel follows (local2SchedTime env n s once)" for n s once
    by (rule fo_touches [OF touches_local2SchedTime])
  show "rel follows (gvm_option_create_schedule env i)"
    unfolding gvm_option_create_schedule_def Let_def
    by (intro rel_if fo.rel_return fo.rel_bind_wp [OF l local2SchedTime_plain [OF assms(1)]] rel_prod)
      (auto intro!: rel_if fo.rel_return fo.rel_bind rel_prod c)
  show "wp (gvm_option_create_schedule env i) (\<lambda>ri _. good_info (snd ri)) w"
  proof (cases "ti_schedule_type i = ICAL_DATE_NONE")
    case True
    then show ?thesis using assms(2) by (simp add: gvm_option_create_schedule_def good_info_def)
  next
    case False
    show ?thesis
    proof (rule wpI)
      fix ri w'
      assume rn: "run_state (gvm_option_create_schedule env i) w = (ri, w')"
      let ?l = "local2SchedTime env MAX_TIMESTAMP_SIZE (ti_first_schedule_time i) (ti_schedule_type i = ICAL_DATE_ONCE)"
      obtain e utc w1 where r1: "run_state ?l w = ((e, utc), w1)" by (metis surj_pair)
      obtain c u w2 where r2: "run_state (gvm_create_schedule env (ti_task_name i) (ti_schedule_type i) utc
          (ti_schedule_list i) MAX_UUID_SIZE) w1 = ((c, u), w2)" by (metis surj_pair)
      have "plain u" using wp_run [OF p r2] by simp
      then show "good_info (snd ri)"
        using rn False r1 r2 assms(2) by (auto simp: gvm_option_create_schedule_def good_info_def Let_def split: if_splits)
    qed
  qed
qed

lemma create_config_effects:
  assumes "good_info i"
  shows "rel follows (gvm_option_create_config env i)"
    "wp (gvm_option_create_config env i) (\<lambda>ri _. good_info (snd ri)) w"
proof -
  have "plain (REQ_GVM_CREAT_CONFIG_EX_MARK (ti_task_name i) (ti_group_name i) (ti_group_id i))"
    using assms by (simp add: good_info_def req_defs plain_char_def BSL_def BQ_def)
  then show "rel follows (gvm_option_create_config env i)"
    unfolding gvm_option_create_config_def gvm_create_config_ex_def by (intro fo.rel_intros fo_create)
  show "wp (gvm_option_create_config env i) (\<lambda>ri _. good_info (snd ri)) w"
  proof (rule wpI)
    fix ri w'
    assume rn: "run_state (gvm_option_create_config env i) w = (ri, w')"
    obtain c u w2 where "run_state (gvm_create_config_ex env (ti_task_name i) (ti_group_id i) (ti_group_name i)
        (ti_config_id i) MAX_UUID_SIZE) w = ((c, u), w2)" by (metis surj_pair)
    then show "good_info (snd ri)"
      using rn assms by (auto simp: gvm_option_create_config_def good_info_def split: if_splits)
  qed
qed

lemma ga_create_parts:
  assumes "sched_ok env"
  shows "rel (guarded p) (create_parts env p)"
proof -
  have u: "rel (guarded p) (upd_task p (upd_target f))" "rel (guarded p) (upd_task p (upd_info (\<lambda>i. i\<lparr>ti_task_id := u\<rparr>)))"
    for f u
    by (rule ga_upd, simp add: good_info_def)+
  have c: "rel (guarded p) (gvm_create_target env nm h pl old n)" for nm h pl old n
    by (rule ga_frame [OF frame_gvm(8) fo_create_target])
  have s: "rel (guarded p) (on_info (gvm_option_create_schedule env) p)" "rel (guarded p) (on_info (gvm_option_create_config env) p)"
    by (rule ga_on_info, rule frame_gvm, rule create_schedule_effects [OF assms], assumption,
        rule create_schedule_effects [OF assms], assumption)
      (rule ga_on_info, rule frame_gvm, rule create_config_effects, assumption, rule create_config_effects)
  have k: "rel (guarded p) (gvm_create_task env nm tg cf sc old n)" if "plain sc" for nm tg cf sc old n
    by (rule ga_frame [OF frame_gvm(9) fo_create_task [OF that]])
  have l: "rel (guarded p) (do { t \<leftarrow> get_task p;
      (r, uuid) \<leftarrow> gvm_create_task env (task_name t) (tg_target_id (m_target_info t))
             (ti_config_id (m_task_info t)) (ti_schedule_id (m_task_info t)) (task_id t) MAX_UUID_SIZE;
      upd_task p (upd_info (\<lambda>i. i\<lparr>ti_task_id := uuid\<rparr>));
      ret (if r = 0 then 0 else GVM_ERR_OPENVAS_PROC_FAIL) })"
    by (rule ga_get) (intro ga.rel_bind k rel_prod u ga.rel_return, simp add: good_info_def)
  show ?thesis
    unfolding create_parts_def
    by (rule ga_get) (intro ga.rel_bind c rel_prod u rel_if ga.rel_return s l)
qed

end
