(* ===== verification/EffectsAll.thy ===== *)
theory EffectsAll imports Effects begin

text \<open>
  The effects of the handlers, the checks, the timers and the loop, from those of their parts.
\<close>

subsection \<open>The store\<close>

lemma fo_upd: "rel follows (upd_task p f)"
  unfolding upd_task_def by (rule fo_modify) simp

lemma fo_get: "rel follows (get_task p)"
  unfolding get_task_def by (rule fo.rel_gets)

lemma fo_calls:
  "rel follows (fails env)" "rel follows now" "rel follows (getClkTime env)" "rel follows (getTime env)"
  unfolding getClkTime_def getTime_def
  by (rule fo_touches, intro touches_bind touches_fails touches_now touches_return)+

lemma touches_writeFile: "P p \<Longrightarrow> touches P (writeFile env b p)"
  unfolding writeFile_def by (rule touches_write_mode)

lemma fo_files:
  "rel follows (writeFileSafe env b p t)" "rel follows (readTotalFile env p)" "rel follows (createDir env p)"
  "rel follows (deleteDir env p)" "rel follows (chkExists env p d)" "rel follows (deleteFile env p)"
  "rel follows (writeFile env b p)" "rel follows (copyFileListSafe env bd fl p t)" "rel follows (genUUID env n)"
  by (rule fo_touches, rule touches_writeFileSafe [of "\<lambda>_. True"] touches_readTotalFile [of "\<lambda>_. True"]
      touches_createDir [of "\<lambda>_. True"] touches_deleteDir touches_chkExists [of "\<lambda>_. True"]
      touches_deleteFile [of "\<lambda>_. True"] touches_writeFile [of "\<lambda>_. True"]
      touches_copyFileListSafe [of "\<lambda>_. True"] touches_genUUID [of "\<lambda>_. True"]; simp)+

lemma fo_store:
  "rel follows (newGvmTask env)" "rel follows (freeGvmTask p)" "rel follows (addGvmTask env p)"
  "rel follows (delGvmTask p)" "rel follows (addGvmRunTask p)" "rel follows (delGvmRunTask p)"
  "rel follows (queGvmRunTask p)" "rel follows (findGvmTask p)"
  unfolding newGvmTask_def freeGvmTask_def addGvmTask_def delGvmTask_def addGvmRunTask_def delGvmRunTask_def
    queGvmRunTask_def findGvmTask_def
  by (intro fo.rel_intros fo_calls fo_modify; simp)+

lemma fo_paths: "rel follows (prepare_paths p)"
  unfolding prepare_paths_def by (intro fo.rel_intros fo_get fo_upd)

lemma fo_task_files:
  "rel follows (writeTaskFile env)" "rel follows (writeTaskStatusFile env p)" "rel follows (writeTaskResult env p s)"
  "rel follows (readTaskStatusFile env p)"
  unfolding writeTaskFile_def writeTaskStatusFile_def writeTaskResult_def readTaskStatusFile_def
  by (intro fo.rel_intros fo_get fo_upd fo_files fo_paths)+

lemma fo_relation_files:
  "rel follows (createTaskRelationFiles env p)" "rel follows (delTaskRelationFiles env p)"
  unfolding createTaskRelationFiles_def record_task_def delTaskRelationFiles_def forget_task_def
  by (intro fo.rel_intros fo_get fo_store fo_paths fo_files fo_task_files)+

lemma fo_sched:
  "rel follows (setTaskNextChkTime env p n)" "rel follows (isTaskChkTimeExpired env p)" "rel follows (addTaskChecks env p)"
  unfolding setTaskNextChkTime_def isTaskChkTimeExpired_def addTaskChecks_def
  by (intro fo.rel_intros fo_get fo_upd fo_calls fo_store)+

subsection \<open>Checks\<close>

lemma fo_parse:
  "rel follows (parseResult env buf r)" "rel follows (parseReport env buf i)" "rel follows (parseTask env buf i)"
  by (rule fo_touches, rule touches_parse [of "\<lambda>_. True"])+

lemma fo_check_task: "rel follows (check_task env p)"
  unfolding check_task_def backend_query_task_def backend_query_report_def backend_query_result_def query_results_def
    finish_results_def new_report_def take_report_def delete_check_def
  by (intro fo.rel_intros fo_get fo_upd fo_gvm fo_query_result fo_parse fo_sched fo_store fo_task_files fo_relation_files)

lemma fo_runGvmChecks: "rel follows (runGvmChecks env)"
  unfolding runGvmChecks_def by (intro fo.rel_intros fo_check_task fo_sched)

subsection \<open>Requests about scans\<close>

lemma fo_locate: "rel follows (locate_task env key input)"
  unfolding locate_task_def by (intro fo.rel_intros fo_get fo_upd fo_store)

lemma fo_with_task: "(\<And>p. rel follows (body p)) \<Longrightarrow> rel follows (with_task env input body)"
  unfolding with_task_def by (intro fo.rel_intros fo_store fo_locate)

lemma fo_on_delete:
  "rel follows (on_info (gvm_option_delete_schedule env) p)" "rel follows (on_info (gvm_option_delete_config env) p)"
  unfolding on_info_def by (intro fo.rel_intros fo_get fo_upd fo_delete_option)+

lemma fo_daemon_task:
  "rel follows (daemon_start_task env input)" "rel follows (daemon_stop_task env input)"
  "rel follows (daemon_delete_task env input)"
  unfolding daemon_start_task_def daemon_stop_task_def daemon_delete_task_def start_found_def stop_found_def delete_found_def
  by (intro fo_with_task fo.rel_intros fo_get fo_gvm fo_sched fo_store fo_on_delete fo_relation_files fo_upd)+

lemma fo_undo: "rel follows (undo_create env p)"
  unfolding undo_create_def undo_parts_def by (intro fo.rel_intros fo_get fo_gvm fo_on_delete fo_store)

lemma fo_stamp: "rel follows (nowTimeStamp env n)"
  unfolding nowTimeStamp_def by (intro fo.rel_intros fo_calls)

lemma fo_store_created: "rel follows (store_created env p)"
  unfolding store_created_def by (intro fo.rel_intros fo_stamp fo_upd fo_sched fo_relation_files)

lemma getCreateTaskParam_good:
  assumes "getCreateTaskParam input new_gvm_task = (0, t)"
  shows "good_info (m_task_info t)"
  using assms
  by (auto simp: getCreateTaskParam_def Let_def good_info_def new_gvm_task_def initGvmTaskInfo_def ical_defs
      chkScheduleParam_def GvmProps.plain_name plain_config plain_week plain_month split: prod.splits if_splits)

lemma fo_create_checked:
  assumes "sched_ok env" "run_state (create_checked env p input) w = (r, w')" "tasks w p = Some new_gvm_task"
  shows "follows w w'"
proof -
  let ?t = "getCreateTaskParam input new_gvm_task"
  let ?w = "w\<lparr>tasks := (tasks w)(p \<mapsto> snd ?t)\<rparr>"
  have f: "follows w ?w" by (simp add: followsI)
  show ?thesis
  proof (cases "fst ?t = 0")
    case False
    then show ?thesis
      using assms(2,3) f by (auto simp: create_checked_def get_task_def upd_task_def task_at_def)
  next
    case True
    then have "?t = (0, snd ?t)" by (simp add: prod_eq_iff)
    then have g: "good_info (m_task_info (snd ?t))" by (rule getCreateTaskParam_good)
    have rest: "rel follows (if r \<noteq> 0 then ret r else store_created env p)" for r
      by (intro fo.rel_intros fo_store_created)
    have "run_state (do { ok \<leftarrow> gets m_is_gvm_conn_ok;
       if \<not> ok then ret GVM_ERR_GVMD_CONN
       else do {
         f \<leftarrow> findGvmTask p;
         if f \<noteq> None then ret GVM_ERR_TASK_ALREADY_EXISTS
         else do {
           r \<leftarrow> create_parts env p;
           if r \<noteq> 0 then ret r else store_created env p
         }
       }}) ?w = (r, w')"
      using True assms(2,3) by (auto simp: create_checked_def get_task_def upd_task_def task_at_def)
    then consider "w' = ?w" | q w2 where "run_state (create_parts env p) ?w = (q, w2)"
        "run_state (if q \<noteq> 0 then ret q else store_created env p) w2 = (r, w')"
      by (auto simp: findGvmTask_def split: if_splits prod.splits)
    then show ?thesis
    proof cases
      case 1
      then show ?thesis using f by simp
    next
      case 2
      have "follows ?w w2"
        using rel_run [OF ga_create_parts [OF assms(1)] 2(1)] g by (simp add: guarded_def task_at_def)
      then show ?thesis using follows_trans [OF f] follows_trans [OF _ rel_run [OF rest 2(2)]] by blast
    qed
  qed
qed

lemma fo_daemon_create_task:
  assumes "sched_ok env"
  shows "rel follows (daemon_create_task env input)"
proof (rule relI)
  fix w w' :: "'a dworld_scheme" and r
  assume rn: "run_state (daemon_create_task env input) w = (r, w')"
  obtain k w1 where r1: "run_state (newGvmTask env) w = (k, w1)" by (metis surj_pair)
  have f1: "follows w w1" using rel_run [OF fo_store(1) r1] .
  show "follows w w'"
  proof (cases k)
    case None
    then show ?thesis using rn r1 f1 by (simp add: daemon_create_task_def)
  next
    case (Some p)
    obtain q w2 where r2: "run_state (create_checked env p input) w1 = (q, w2)" by (metis surj_pair)
    have "tasks w1 p = Some new_gvm_task" using r1 Some by (auto simp: newGvmTask_def fails_def now_def split: if_splits)
    then have f2: "follows w1 w2" using fo_create_checked [OF assms r2] by simp
    have "follows w2 w'"
      using rn r1 r2 Some follows_refl rel_run [OF fo_undo]
      by (auto simp: daemon_create_task_def split: if_splits prod.splits)
    then show ?thesis using f1 f2 follows_trans by blast
  qed
qed

subsection \<open>Requests about brute-force tasks\<close>

lemma fo_hydra_base:
  "rel follows (upd_hydra p g)" "rel follows (get_hydra p)" "rel follows (newHydraTask env)" "rel follows (freeHydraTask p)"
  "rel follows (addHydraTask env p)" "rel follows (delHydraTask key)" "rel follows (findHydraTask key)"
  unfolding upd_hydra_def get_hydra_def newHydraTask_def freeHydraTask_def addHydraTask_def delHydraTask_def
    findHydraTask_def
  by (intro fo.rel_intros fo_calls fo_modify; simp)+

lemma fo_hydra_files:
  "rel follows (prepare_hydra p)" "rel follows (writeHydraTaskFile env)" "rel follows (writeScheduleFiles env p)"
  "rel follows (deleteScheduleFiles env p)" "rel follows (write_ip_list env t)"
  unfolding prepare_hydra_def writeHydraTaskFile_def writeScheduleFiles_def deleteScheduleFiles_def write_ip_list_def
  by (intro fo.rel_intros fo_hydra_base fo_files)+

lemma fo_hydra_relation:
  "rel follows (writeHydraRelationFile env p)" "rel follows (delHydraRelationFiles env p)"
  unfolding writeHydraRelationFile_def write_hydra_parts_def delHydraRelationFiles_def
  by (intro fo.rel_intros fo_hydra_base fo_hydra_files fo_files)+

lemma fo_killSafe: "rel follows (killSafe env pid sig)"
  unfolding killSafe_def by (auto simp: rel_def follows_def)

lemma fo_stopProc: "rel follows (stopProc env pid)"
  unfolding stopProc_def by (intro fo.rel_intros fo_killSafe)

lemma fo_fork: "rel follows (forkSafe env)"
  unfolding forkSafe_def by (intro fo.rel_intros fo_calls)

lemma fo_runHydra: "rel follows (runHydra env p)"
  unfolding runHydra_def by (intro fo.rel_intros fo_hydra_base fo_hydra_files fo_fork)

lemma fo_with_hydra: "(\<And>p. rel follows (body p)) \<Longrightarrow> rel follows (with_hydra env input body)"
  unfolding with_hydra_def locate_hydra_def by (intro fo.rel_intros fo_hydra_base)

lemma fo_create_param: "rel follows (getCreateHydraParam env input t)"
  unfolding getCreateHydraParam_def by (intro fo.rel_intros fo_files)

lemma fo_daemon_hydra:
  "rel follows (daemon_start_hydra env input)" "rel follows (daemon_stop_hydra env input)"
  "rel follows (daemon_delete_hydra env input)" "rel follows (daemon_create_hydra env input)"
  unfolding daemon_start_hydra_def daemon_stop_hydra_def daemon_delete_hydra_def daemon_create_hydra_def
    start_hydra_found_def stop_hydra_found_def delete_hydra_found_def create_hydra_checked_def
  by (intro fo_with_hydra fo.rel_intros fo_hydra_base fo_runHydra fo_stopProc fo_hydra_relation fo_create_param fo_stamp)+

lemma fo_chgChildTask: "rel follows (chgChildTask pid p)"
  unfolding chgChildTask_def by (intro fo.rel_intros fo_hydra_base)

lemma fo_reap: "rel follows (reap pids)"
proof (induction pids)
  case Nil
  then show ?case by (simp add: fo.rel_return)
next
  case (Cons pid pids)
  then show ?case
    unfolding reap.simps by (intro fo.rel_intros fo_chgChildTask)
qed

lemma fo_monitor: "rel follows (monitorHydraTask env)"
  unfolding monitorHydraTask_def by (intro fo.rel_intros fo_calls fo_reap fo_modify) simp_all

subsection \<open>Redis\<close>

lemma fo_redis_cmd: "rel follows (redis_cmd env cmd)"
  unfolding redis_cmd_def redis_attempt_def get_redis_ctx_def redis_test_connection_def send_cmd_def set_link_def
  by (intro fo.rel_intros fo_calls fo_modify) (auto split: reply.splits option.splits)

lemma fo_redis:
  "rel follows (redis_push_int_ttl env nm v ttl)" "rel follows (redis_pop_str env nm cap)"
  "rel follows (redis_del_items env nm)" "rel follows (redis_new env)" "rel follows redis_delete"
  unfolding redis_push_int_ttl_def redis_push_str_ttl_def redis_push_str_def redis_expire_def redis_pop_str_def
    redis_del_items_def redis_new_def redis_delete_def set_link_def
  by (intro fo.rel_intros fo_redis_cmd fo_calls fo_modify; simp)+

subsection \<open>The service\<close>

lemma find_all: "find P xs = Some x \<Longrightarrow> (\<And>y. y \<in> set xs \<Longrightarrow> Q y) \<Longrightarrow> Q x"
  by (auto simp: find_Some_iff)

lemma fo_handlers:
  "sched_ok env \<Longrightarrow> h \<in> set (g_hds env) \<Longrightarrow> rel follows (snd h s)"
  by (auto simp: g_hds_def intro: fo_daemon_task fo_daemon_hydra fo_daemon_create_task)

lemma fo_processMsg: "sched_ok env \<Longrightarrow> rel follows (processMsg env buf)"
  unfolding processMsg_def
  by (intro fo.rel_intros fo_redis) (rule find_all, assumption, rule fo_handlers)

lemma fo_validate: "rel follows (validateGvmConn env)"
  unfolding validateGvmConn_def by (intro fo.rel_intros fo_get_version fo_modify) simp_all

lemma fo_timers: "rel follows (doEveryLoop env)"
  unfolding doEveryLoop_def triggerTimerPerMinute_def timerPerMinute_def clearLogFile_def getTimeLastDays_def
  by (intro fo.rel_intros fo_monitor fo_calls fo_modify fo_validate fo_files; simp)

lemma fo_running: "rel follows (still_running env)"
  unfolding still_running_def stopKbMsg_def by (intro fo.rel_intros fo_calls fo_modify) simp_all

lemma fo_received: "sched_ok env \<Longrightarrow> rel follows (handle_received env key r msg)"
  unfolding handle_received_def processIdle_def clearKb_def
  by (intro fo.rel_intros fo_processMsg fo_redis fo_runGvmChecks fo_modify; simp)

lemma fo_loop_body: "sched_ok env \<Longrightarrow> rel follows (loop_body env key)"
  unfolding loop_body_def recvKbMsg_def
  by (intro fo.rel_intros fo_received fo_redis fo_timers fo_running fo_modify; simp)

lemma fo_main_loop: "sched_ok env \<Longrightarrow> rel follows (main_loop n env key)"
proof (induction n)
  case 0
  then show ?case by (simp add: fo.rel_return)
next
  case (Suc n)
  then show ?case unfolding main_loop.simps by (intro fo.rel_intros fo_running fo_loop_body)
qed

lemma fo_startKbMsg: "sched_ok env \<Longrightarrow> rel follows (startKbMsg n env key)"
  unfolding startKbMsg_def clearKb_def
  by (intro fo.rel_intros fo_redis fo_main_loop fo_modify; simp)

lemma fo_parse_records: "rel follows (parse_records n env s)"
proof (induction n arbitrary: s)
  case 0
  then show ?case by (simp add: fo.rel_return)
next
  case (Suc n)
  then show ?case unfolding parse_records.simps by (intro fo.rel_intros fo_store fo_get fo_upd)
qed

lemma fo_initDaemon: "rel follows (initDaemon env)"
  unfolding initDaemon_def createData_def finishData_def init_steps_def readTaskFile_def parseTaskRecord_def
    readAllTaskStatusRecs_def addGvmChecks_def
  by (intro fo.rel_intros fo_calls fo_modify fo_files fo_parse_records fo_task_files fo_sched; simp)

lemma fo_parse_hydra: "rel follows (parse_hydra_records n env s)"
proof (induction n arbitrary: s)
  case 0
  then show ?case by (simp add: fo.rel_return)
next
  case (Suc n)
  then show ?case unfolding parse_hydra_records.simps by (intro fo.rel_intros fo_hydra_base)
qed

lemma fo_finishHydra: "rel follows finishHydraData"
  unfolding finishHydraData_def by (rule fo_modify) simp

lemma fo_finishData: "rel follows finishData"
  unfolding finishData_def by (rule fo_modify) simp

lemma fo_initHydra: "rel follows (initHydra env)"
  unfolding initHydra_def createHydraData_def readHydraTaskFile_def parseHydraRecord_def
  by (intro fo.rel_intros fo_finishHydra fo_calls fo_modify fo_files fo_parse_hydra; simp)

lemma fo_serveGvm: "sched_ok env \<Longrightarrow> rel follows (serveGvm n env)"
  unfolding serveGvm_def isRun_def getProgPath_def lockFile_def
  by (intro fo.rel_intros fo_calls fo_initDaemon fo_initHydra fo_startKbMsg fo_finishHydra fo_finishData)

end
