(* ===== verification/StoreLoop.thy ===== *)
theory StoreLoop imports EffectsAll begin

text \<open>
  The store of tasks through the life of the service: what does not concern scans leaves it alone, and
  the loop keeps it consistent.
\<close>

subsection \<open>Operations that leave the store alone\<close>

definition same_store :: "'a dworld_scheme \<Rightarrow> 'a dworld_scheme \<Rightarrow> bool" where
  "same_store w w' \<longleftrightarrow> tasks w' = tasks w \<and> nxt w' = nxt w \<and> m_createque w' = m_createque w \<and>
     m_runque w' = m_runque w \<and> m_nameset w' = m_nameset w \<and> m_name_cap w' = m_name_cap w"

interpretation ss: stepping same_store
  by unfold_locales (auto simp: same_store_def)

lemma same_store_at: "same_store w w' \<Longrightarrow> task_at w' = task_at w"
  by (simp add: same_store_def task_at_def fun_eq_iff)

lemma same_store_inv:
  assumes "same_store w w'"
  shows "tasks_inv K w' = tasks_inv K w" "created w' = created w" "running w' = running w" "store_ok w' = store_ok w"
proof -
  have s: "created w' = created w" "running w' = running w" using assms by (simp_all add: same_store_def created_def running_def)
  show "tasks_inv K w' = tasks_inv K w" for K
    unfolding tasks_inv_def s same_store_at [OF assms] using assms by (simp add: same_store_def)
  then show "store_ok w' = store_ok w" unfolding store_ok_def s by simp
  show "created w' = created w" "running w' = running w" by (rule s)+
qed

lemma ss_frame:
  fixes m :: "('a dworld_scheme, 'b) state"
  assumes "frame m"
  shows "rel same_store m"
proof (rule relI)
  fix w w' :: "'a dworld_scheme" and a
  assume "run_state m w = (a, w')"
  then have "gworld.more w' = gworld.more w" using keeps_run [OF assms] by blast
  then show "same_store w w'" using frame_fields [of w' w] by (simp add: same_store_def)
qed

lemmas ss_touches = frame_touches [THEN ss_frame]

lemma ss_modify:
  "(\<And>w. tasks (f w) = tasks w \<and> nxt (f w) = nxt w \<and> m_createque (f w) = m_createque w \<and> m_runque (f w) = m_runque w \<and>
    m_nameset (f w) = m_nameset w \<and> m_name_cap (f w) = m_name_cap w) \<Longrightarrow> rel same_store (modify f)"
  by (rule rel_modify) (simp add: same_store_def)

lemma ss_calls:
  "rel same_store (fails env)" "rel same_store now" "rel same_store (getClkTime env)" "rel same_store (getTime env)"
  unfolding getClkTime_def getTime_def
  by (rule ss_touches, intro touches_bind touches_fails touches_now touches_return)+

lemma ss_files:
  "rel same_store (writeFileSafe env b p t)" "rel same_store (readTotalFile env p)" "rel same_store (createDir env p)"
  "rel same_store (deleteDir env p)" "rel same_store (chkExists env p d)" "rel same_store (deleteFile env p)"
  "rel same_store (writeFile env b p)" "rel same_store (copyFileListSafe env bd fl p t)" "rel same_store (genUUID env n)"
  by (rule ss_touches, rule touches_writeFileSafe [of "\<lambda>_. True"] touches_readTotalFile [of "\<lambda>_. True"]
      touches_createDir [of "\<lambda>_. True"] touches_deleteDir touches_chkExists [of "\<lambda>_. True"]
      touches_deleteFile [of "\<lambda>_. True"] touches_writeFile [of "\<lambda>_. True"]
      touches_copyFileListSafe [of "\<lambda>_. True"] touches_genUUID [of "\<lambda>_. True"]; simp)+

lemma ss_hydra_base:
  "rel same_store (upd_hydra p g)" "rel same_store (get_hydra p)" "rel same_store (newHydraTask env)"
  "rel same_store (freeHydraTask p)" "rel same_store (addHydraTask env p)" "rel same_store (delHydraTask key)"
  "rel same_store (findHydraTask key)"
  unfolding upd_hydra_def get_hydra_def newHydraTask_def freeHydraTask_def addHydraTask_def delHydraTask_def
    findHydraTask_def
  by (intro ss.rel_intros ss_calls ss_modify; simp)+

lemma ss_hydra_files:
  "rel same_store (prepare_hydra p)" "rel same_store (writeHydraTaskFile env)" "rel same_store (writeScheduleFiles env p)"
  "rel same_store (deleteScheduleFiles env p)" "rel same_store (write_ip_list env t)"
  unfolding prepare_hydra_def writeHydraTaskFile_def writeScheduleFiles_def deleteScheduleFiles_def write_ip_list_def
  by (intro ss.rel_intros ss_hydra_base ss_files)+

lemma ss_hydra_relation:
  "rel same_store (writeHydraRelationFile env p)" "rel same_store (delHydraRelationFiles env p)"
  unfolding writeHydraRelationFile_def write_hydra_parts_def delHydraRelationFiles_def
  by (intro ss.rel_intros ss_hydra_base ss_hydra_files ss_files)+

lemma ss_processes:
  "rel same_store (stopProc env pid)" "rel same_store (runHydra env p)"
  unfolding stopProc_def killSafe_def runHydra_def forkSafe_def
  by (intro ss.rel_intros ss_calls ss_modify ss_hydra_base ss_hydra_files; simp)+

lemma ss_with_hydra: "(\<And>p. rel same_store (body p)) \<Longrightarrow> rel same_store (with_hydra env input body)"
  unfolding with_hydra_def locate_hydra_def by (intro ss.rel_intros ss_hydra_base)

lemma ss_create_param: "rel same_store (getCreateHydraParam env input t)"
  unfolding getCreateHydraParam_def by (intro ss.rel_intros ss_files)

lemma ss_stamp: "rel same_store (nowTimeStamp env n)"
  unfolding nowTimeStamp_def by (intro ss.rel_intros ss_calls)

lemma ss_daemon_hydra:
  "rel same_store (daemon_start_hydra env input)" "rel same_store (daemon_stop_hydra env input)"
  "rel same_store (daemon_delete_hydra env input)" "rel same_store (daemon_create_hydra env input)"
  unfolding daemon_start_hydra_def daemon_stop_hydra_def daemon_delete_hydra_def daemon_create_hydra_def
    start_hydra_found_def stop_hydra_found_def delete_hydra_found_def create_hydra_checked_def
  by (intro ss_with_hydra ss.rel_intros ss_hydra_base ss_processes ss_hydra_relation ss_create_param ss_stamp)+

lemma ss_chgChildTask: "rel same_store (chgChildTask pid p)"
  unfolding chgChildTask_def by (intro ss.rel_intros ss_hydra_base)

lemma ss_reap: "rel same_store (reap pids)"
proof (induction pids)
  case Nil
  then show ?case by (simp add: ss.rel_return)
next
  case (Cons pid pids)
  then show ?case
    unfolding reap.simps by (intro ss.rel_intros ss_chgChildTask)
qed

lemma ss_monitor: "rel same_store (monitorHydraTask env)"
  unfolding monitorHydraTask_def by (intro ss.rel_intros ss_calls ss_reap ss_modify) simp_all

lemma ss_redis_cmd: "rel same_store (redis_cmd env cmd)"
  unfolding redis_cmd_def redis_attempt_def get_redis_ctx_def redis_test_connection_def send_cmd_def set_link_def
  by (intro ss.rel_intros ss_calls ss_modify) simp_all

lemma ss_redis:
  "rel same_store (redis_push_int_ttl env nm v ttl)" "rel same_store (redis_pop_str env nm cap)"
  "rel same_store (redis_del_items env nm)" "rel same_store (redis_new env)" "rel same_store redis_delete"
  unfolding redis_push_int_ttl_def redis_push_str_ttl_def redis_push_str_def redis_expire_def redis_pop_str_def
    redis_del_items_def redis_new_def redis_delete_def set_link_def
  by (intro ss.rel_intros ss_redis_cmd ss_calls ss_modify; simp)+

lemma ss_timers: "rel same_store (doEveryLoop env)"
  unfolding doEveryLoop_def triggerTimerPerMinute_def timerPerMinute_def clearLogFile_def getTimeLastDays_def validateGvmConn_def
  by (intro ss.rel_intros ss_monitor ss_calls ss_modify ss_files ss_frame [OF frame_gvm(10)]; simp)

lemma ss_running: "rel same_store (still_running env)"
  unfolding still_running_def stopKbMsg_def by (intro ss.rel_intros ss_calls ss_modify) simp_all

subsection \<open>The loop keeps the store consistent\<close>

definition keeps_store :: "'a dworld_scheme \<Rightarrow> 'a dworld_scheme \<Rightarrow> bool" where
  "keeps_store w w' \<longleftrightarrow> (store_ok w \<longrightarrow> store_ok w')"

interpretation ks: stepping keeps_store
  by unfold_locales (auto simp: keeps_store_def)

lemma ks_same: "rel same_store m \<Longrightarrow> rel keeps_store m"
  by (erule rel_mono) (simp add: keeps_store_def same_store_inv)

lemma ks_handlers:
  assumes "clock_ok env" "times_ok env" "cstring s" "h \<in> set (g_hds env)"
  shows "rel keeps_store (snd h s)"
proof -
  note i = daemon_start_task_inv [OF assms(1) _ assms(3)] daemon_stop_task_inv [OF assms(1) _ assms(3)]
      daemon_delete_task_inv [OF _ assms(3)] daemon_create_task_inv [OF assms(1,2) _ assms(3)]
  have "rel keeps_store (daemon_start_task env s)" "rel keeps_store (daemon_stop_task env s)"
    "rel keeps_store (daemon_delete_task env s)" "rel keeps_store (daemon_create_task env s)"
    by (rule relI, simp add: keeps_store_def, blast dest: i)+
  then show ?thesis
    using assms(4) by (auto simp: g_hds_def intro: ss_daemon_hydra [THEN ks_same])
qed

lemma c_str_cstring: "cstring (c_str b)"
  by (auto simp: c_str_def cstring_def dest: set_takeWhileD)

lemma ks_processMsg:
  assumes "clock_ok env" "times_ok env"
  shows "rel keeps_store (processMsg env buf)"
proof -
  have f: "rel keeps_store (snd h s)" if "find P (g_hds env) = Some h" "cstring s" for P h and s
    by (rule find_all [OF that(1), of "\<lambda>h. rel keeps_store (snd h s)"]) (rule ks_handlers [OF assms that(2)])
  obtain r1 uuid s1 where t1: "getNextToken (c_str buf) [SOH] [] MAX_UUID_SIZE = (r1, uuid, s1)"
    by (metis prod_cases3)
  obtain r2 cmd s2 where t2: "getNextToken s1 [SOH] [] MAX_COMM_SIZE = (r2, cmd, s2)"
    by (metis prod_cases3)
  have c: "cstring s2" if "r1 = 0" "r2 = 0"
    using getNextToken_cstring(3) [OF t2 [unfolded that]] getNextToken_cstring(3) [OF t1 [unfolded that]]
      c_str_cstring by blast
  show ?thesis
    unfolding processMsg_def t1 t2 prod.case
    by (intro rel_if ks.rel_return ks.rel_bind rel_option ks_same [OF ss_redis(1)] f) (use c in simp_all)
qed

lemma ks_runGvmChecks: "clock_ok env \<Longrightarrow> rel keeps_store (runGvmChecks env)"
  by (rule relI) (simp add: keeps_store_def store_ok_held runGvmChecks_inv)

lemma ks_modify:
  "(\<And>w. tasks (f w) = tasks w \<and> nxt (f w) = nxt w \<and> m_createque (f w) = m_createque w \<and> m_runque (f w) = m_runque w \<and>
    m_nameset (f w) = m_nameset w \<and> m_name_cap (f w) = m_name_cap w) \<Longrightarrow> rel keeps_store (modify f)"
  by (rule ks_same, rule ss_modify)

lemma ks_received: "clock_ok env \<Longrightarrow> times_ok env \<Longrightarrow> rel keeps_store (handle_received env key r msg)"
  unfolding handle_received_def processIdle_def clearKb_def
  by (intro ks.rel_intros ks_processMsg ks_same [OF ss_redis(3)] ks_runGvmChecks ks_modify; simp)

lemma ks_loop_body: "clock_ok env \<Longrightarrow> times_ok env \<Longrightarrow> rel keeps_store (loop_body env key)"
  unfolding loop_body_def recvKbMsg_def
  by (intro ks.rel_intros ks_received ks_same [OF ss_redis(2)] ks_same [OF ss_timers] ks_same [OF ss_running] ks_modify; simp)

lemma ks_main_loop: "clock_ok env \<Longrightarrow> times_ok env \<Longrightarrow> rel keeps_store (main_loop n env key)"
proof (induction n)
  case 0
  then show ?case by (simp add: ks.rel_return)
next
  case (Suc n)
  then show ?case unfolding main_loop.simps by (intro ks.rel_intros ks_same [OF ss_running] ks_loop_body)
qed

end
