(* ===== verification/Restart.thy ===== *)
theory Restart imports StoreLoop begin

text \<open>
  The start of the daemon: what the task file says is what the store holds afterwards, and a store that
  was written is found again.
\<close>

subsection \<open>Values read from a record\<close>

lemma lines_of_chars: "l \<in> set (lines_of s) \<Longrightarrow> set l \<subseteq> set s"
proof (induction s arbitrary: l)
  case (Cons c s)
  have "hd (lines_of s) \<in> set (lines_of s)" "set (tl (lines_of s)) \<subseteq> set (lines_of s)"
    by (simp_all add: list.set_sel(2) subsetI)
  then have "set (hd (lines_of s)) \<subseteq> set s" "\<And>k. k \<in> set (tl (lines_of s)) \<Longrightarrow> set k \<subseteq> set s"
    using Cons.IH by blast+
  moreover have "l = [] \<or> l \<in> set (lines_of s) \<or> l = c # hd (lines_of s) \<or> l \<in> set (tl (lines_of s))"
    using Cons.prems by (auto split: if_splits)
  ultimately show ?case using Cons.IH [of l] by auto
qed simp

lemma getPatternKey_value:
  assumes "getPatternKey rec key pat n = (0, v)"
  shows "length v < n" "v \<in> lang pat" "set v \<subseteq> set rec"
proof -
  obtain g where g: "first_some (tmatch True [Lit (key @ ''='' @ DQS), Grp pat, Lit DQS]) (lines_of rec) = Some [g]"
    "g = v" "length g < n"
    using assms by (auto simp: getPatternKey_def take_group_def split: option.splits list.splits if_splits)
  then obtain l where l: "l \<in> set (lines_of rec)" "tmatch True [Lit (key @ ''='' @ DQS), Grp pat, Lit DQS] l = Some [v]"
    by (auto dest: first_some_Some)
  have "v \<in> lang pat" "set v \<subseteq> set l" using tmatch_whole_parse [OF l(2)] by auto
  then show "length v < n" "v \<in> lang pat" "set v \<subseteq> set rec" using g lines_of_chars [OF l(1)] by auto
qed

lemma cstring_sub: "cstring s \<Longrightarrow> set v \<subseteq> set s \<Longrightarrow> cstring v"
  by (auto simp: cstring_def)

text \<open>What every field that is read keeps, the whole record keeps.\<close>

fun keeps_field :: "('a \<Rightarrow> bool) \<Rightarrow> 'a rfield \<Rightarrow> bool" where
  "keeps_field Q (RText key pat n st) \<longleftrightarrow>
     (\<forall>v t t'. cstring v \<and> length v < n \<and> Q t \<and> st v t = Some t' \<longrightarrow> Q t')"
| "keeps_field Q (RNum key pat st) \<longleftrightarrow> (\<forall>k t t'. Q t \<and> st k t = Some t' \<longrightarrow> Q t')"

lemma read_fields_keeps:
  assumes "\<forall>f\<in>set fl. keeps_field Q f" "Q t" "cstring rec" "read_fields rec fl t = (0, t')"
  shows "Q t'"
  using assms
proof (induction rec fl t rule: read_fields.induct)
  case (2 rec key pat n st fl t)
  obtain r v where v: "getPatternKey rec key pat n = (r, v)" by (cases "getPatternKey rec key pat n")
  with "2.prems"(4) obtain s where s: "r = 0" "st v t = Some s" "read_fields rec fl s = (0, t')"
    by (auto split: if_splits option.splits)
  have "length v < n" "cstring v"
    using getPatternKey_value [of rec key pat n v] v s(1) cstring_sub [OF "2.prems"(3)] by auto
  then have "Q s" using "2.prems"(1,2) s(2) by auto
  then show ?case using "2.IH" [of r v s] v s "2.prems"(1,3) by auto
next
  case (3 rec key pat st fl t)
  obtain r n where n: "getPatternKeyInt rec key pat = (r, n)" by (cases "getPatternKeyInt rec key pat")
  with "3.prems"(4) obtain s where s: "r = 0" "st n t = Some s" "read_fields rec fl s = (0, t')"
    by (auto split: if_splits option.splits)
  then have "Q s" using "3.prems"(1,2) by auto
  then show ?case using "3.IH" [of r n s] n s "3.prems"(1,3) by auto
qed simp

text \<open>What stays whatever the record holds.\<close>

fun leaves_field :: "('a \<Rightarrow> bool) \<Rightarrow> 'a rfield \<Rightarrow> bool" where
  "leaves_field Q (RText key pat n st) \<longleftrightarrow> (\<forall>v t t'. Q t \<and> st v t = Some t' \<longrightarrow> Q t')"
| "leaves_field Q (RNum key pat st) \<longleftrightarrow> (\<forall>k t t'. Q t \<and> st k t = Some t' \<longrightarrow> Q t')"

lemma read_fields_leaves:
  assumes "\<forall>f\<in>set fl. leaves_field Q f" "Q t"
  shows "Q (snd (read_fields rec fl t))"
  using assms
  by (induction rec fl t rule: read_fields.induct) (auto split: prod.splits option.splits)

definition same_infos :: "gvm_task \<Rightarrow> gvm_task \<Rightarrow> bool" where
  "same_infos s t \<longleftrightarrow> m_task_info s = m_task_info t \<and> m_target_info s = m_target_info t \<and> m_chk_time s = m_chk_time t"

lemma status_same: "same_infos (snd (parseTaskStatusRecord cache t)) t"
proof -
  have "same_infos (snd (read_fields rec status_readers t)) t" for rec
    by (rule read_fields_leaves)
      (auto simp: status_readers_def same_infos_def set_report_def task_setters split: if_splits)
  then show ?thesis
    by (auto simp: parseTaskStatusRecord_def same_infos_def split: option.splits prod.splits)
qed

lemma read_task_key:
  assumes "cstring rec" "read_task rec new_gvm_task = (0, t)"
  shows "key_ok t" "m_chk_time t = 0"
proof -
  let ?Q = "\<lambda>s :: int \<times> gvm_task. key_ok (snd s)" and ?C = "\<lambda>s :: int \<times> gvm_task. m_chk_time (snd s) = 0"
  have n: "key_ok new_gvm_task" "m_chk_time new_gvm_task = 0"
    by (simp_all add: key_ok_def new_gvm_task_def initGvmTaskInfo_def max_defs)
  obtain ty s where r: "read_fields rec task_readers (0, new_gvm_task) = (0, ty, s)"
    and s: "task_name t = task_name s" "ti_create_time (m_task_info t) = ti_create_time (m_task_info s)"
      "m_chk_time t = m_chk_time s"
    using assms(2) by (auto simp: read_task_def Let_def split: prod.splits if_splits)
  have "?Q (ty, s)"
    by (rule read_fields_keeps [OF _ _ assms(1) r])
      (use n in \<open>auto simp: task_readers_def set_info_def set_target_def key_ok_def max_defs\<close>)
  then show "key_ok t" using s by (simp add: key_ok_def)
  have "?C (snd (read_fields rec task_readers (0, new_gvm_task)))"
    by (rule read_fields_leaves) (use n in \<open>auto simp: task_readers_def set_info_def set_target_def\<close>)
  then show "m_chk_time t = 0" using r s by simp
qed

subsection \<open>Reading the task file\<close>

definition info_of :: "gvm_task \<Rightarrow> gvm_task_info \<times> gvm_target_info" where
  "info_of t = (m_task_info t, m_target_info t)"

definition infos :: "'a dworld_scheme \<Rightarrow> (gvm_task_info \<times> gvm_target_info) set" where
  "infos w = (\<lambda>p. info_of (task_at w p)) ` created w"

text \<open>The tasks of a file: its records up to the first that cannot be read.\<close>

fun file_tasks :: "nat \<Rightarrow> string \<Rightarrow> gvm_task list" where
  "file_tasks 0 s = []"
| "file_tasks (Suc n) s =
     (if s = [] then []
      else case next_record s of
        None \<Rightarrow> []
      | Some (rec, rest) \<Rightarrow>
          (case read_task rec new_gvm_task of (r, t) \<Rightarrow> if r = 0 then t # file_tasks n rest else []))"

lemma next_record_cstring:
  assumes "next_record s = Some (rec, rest)" "cstring s"
  shows "cstring rec" "cstring rest"
proof -
  have c: "cstring p" if "strstr u d = Some p" "cstring u" for u d p
    using strstr_Some [OF that(1)] that(2) by auto
  have k: "cstring (drop n u)" if "cstring u" for n u
    using that by (auto simp: cstring_def dest: in_set_dropD)
  obtain p stop where p: "strstr s TASK_INFO_BEG_MARK = Some p"
    "strstr (drop (length TASK_INFO_BEG_MARK) p) TASK_INFO_END_MARK = Some stop"
    "rest = drop (length TASK_INFO_END_MARK) stop"
    "rec = take (length (drop (length TASK_INFO_BEG_MARK) p) - length stop) (drop (length TASK_INFO_BEG_MARK) p)"
    using assms(1) by (auto simp: next_record_def Let_def split: option.splits)
  have "cstring (drop (length TASK_INFO_BEG_MARK) p)" using c [OF p(1) assms(2)] by (rule k)
  then show "cstring rec" "cstring rest" using p(3,4) c [OF p(2)] k by auto
qed

lemma add_read_task:
  fixes w :: "'a dworld_scheme"
  assumes i: "tasks_inv {} w" "running w = {}" and rec: "cstring rec" "read_task rec new_gvm_task = (0, t)"
    and u: "task_name t \<notin> (\<lambda>i. ti_task_name (fst i)) ` infos w"
    and r1: "run_state (newGvmTask env) w = (Some p, w1)"
    and r2: "run_state (do { upd_task p (\<lambda>t. snd (read_task rec t)); addGvmTask env p }) w1 = (0, w3)"
  shows "tasks_inv {} w3 \<and> running w3 = {} \<and> infos w3 = insert (info_of t) (infos w)"
proof -
  have n: "tasks_inv {p} w1" "p \<notin> created w" "created w1 = created w" "running w1 = {}"
    "tasks w1 = (tasks w)(p \<mapsto> new_gvm_task)"
    using wp_run [OF newGvmTask_inv [OF i(1), of env] r1] i(2) by auto
  obtain x w2 where ru: "run_state (upd_task p (\<lambda>t. snd (read_task rec t))) w1 = (x, w2)"
    and ra: "run_state (addGvmTask env p) w2 = (0, w3)"
    using r2 by (rule run_bindE)
  have m: "tasks_inv {p} w2" "created w2 = created w" "running w2 = {}" "tasks w2 = (tasks w)(p \<mapsto> t)"
    using wp_run [OF upd_task_inv [OF n(1)] ru] n rec(2) by auto
  have at: "task_at w2 p = t" "\<And>q. q \<in> created w \<Longrightarrow> task_at w2 q = task_at w q"
    using m(4) n(2) by (auto simp: task_at_def)
  have f: "task_name (task_at w2 q) \<noteq> task_name (task_at w2 p)" if "q \<in> created w2" for q
  proof -
    have q: "q \<in> created w" using that m(2) by simp
    then have "name_of q w \<in> (\<lambda>i. ti_task_name (fst i)) ` infos w"
      by (simp add: infos_def info_of_def image_image)
    then show ?thesis using u at(1) at(2) [OF q] by metis
  qed
  have k: "key_ok (task_at w2 p)" using read_task_key(1) [OF rec] at by simp
  have a: "tasks_inv {} w3" "created w3 = insert p (created w2)" "running w3 = {}" "tasks w3 = tasks w2"
    using wp_run [OF addGvmTask_inv [OF m(1) _ k f] ra] m(3) by auto
  have "task_at w3 = task_at w2" using a(4) by (simp add: task_at_def fun_eq_iff)
  then show ?thesis using a m(2) at by (auto simp: infos_def)
qed

lemma parse_records_inv:
  fixes w :: "'a dworld_scheme"
  assumes "tasks_inv {} w" "running w = {}" "cstring s" "distinct (map task_name (file_tasks n s))"
    "\<forall>t\<in>set (file_tasks n s). task_name t \<notin> (\<lambda>i. ti_task_name (fst i)) ` infos w"
    "run_state (parse_records n env s) w = (0, w')"
  shows "tasks_inv {} w' \<and> running w' = {} \<and> infos w' = infos w \<union> info_of ` set (file_tasks n s)"
  using assms
proof (induction n arbitrary: s w)
  case 0
  then show ?case by simp
next
  case (Suc n)
  show ?case
  proof (cases "s = [] \<or> next_record s = None")
    case True
    then show ?thesis using Suc.prems by auto
  next
    case False
    then obtain rec rest where nr: "next_record s = Some (rec, rest)" by auto
    note cs = next_record_cstring [OF nr Suc.prems(3)]
    obtain a w1 where r1: "run_state (newGvmTask env) w = (a, w1)" by (metis surj_pair)
    show ?thesis
    proof (cases a)
      case None
      then show ?thesis using Suc.prems(6) False nr r1 by simp
    next
      case (Some p)
      have nt: "task_at w1 p = new_gvm_task"
        using r1 Some by (auto simp: newGvmTask_def fails_def now_def task_at_def split: if_splits)
      show ?thesis
      proof (cases "fst (read_task rec new_gvm_task) = 0")
        case f: False
        then show ?thesis
          using Suc.prems(6) False nr r1 Some nt by (auto simp: get_task_def split: prod.splits)
      next
        case True
        then obtain t where t: "read_task rec new_gvm_task = (0, t)" by (metis prod.collapse)
        obtain x w3 where r3: "run_state (do { upd_task p (\<lambda>t. snd (read_task rec t)); addGvmTask env p }) w1 = (x, w3)"
          by (metis surj_pair)
        have ft: "file_tasks (Suc n) s = t # file_tasks n rest" using False nr t by simp
        have x: "x = 0" "run_state (parse_records n env rest) w3 = (0, w')"
          using Suc.prems(6) False nr r1 Some nt t r3 by (auto simp: get_task_def split: prod.splits if_splits)
        have u: "task_name t \<notin> (\<lambda>i. ti_task_name (fst i)) ` infos w" using Suc.prems(5) ft by simp
        note h = add_read_task [OF Suc.prems(1,2) cs(1) t u r1 [unfolded Some] r3 [unfolded x(1)]]
        have "\<forall>t'\<in>set (file_tasks n rest). task_name t' \<notin> (\<lambda>i. ti_task_name (fst i)) ` infos w3"
        proof
          fix t'
          assume t': "t' \<in> set (file_tasks n rest)"
          have "task_name t \<notin> (\<lambda>t. task_name t) ` set (file_tasks n rest)"
            "\<forall>t\<in>set (file_tasks n rest). task_name t \<notin> (\<lambda>i. ti_task_name (fst i)) ` infos w"
            using Suc.prems(4,5) unfolding ft by auto
          then have "task_name t' \<noteq> task_name t" "task_name t' \<notin> (\<lambda>i. ti_task_name (fst i)) ` infos w"
            using t' imageI [OF t', of "\<lambda>t. task_name t"] by metis+
          then show "task_name t' \<notin> (\<lambda>i. ti_task_name (fst i)) ` infos w3"
            using h by (simp add: info_of_def)
        qed
        then show ?thesis
          using Suc.IH [of w3 rest] h cs(2) x(2) Suc.prems(4) unfolding ft by auto
      qed
    qed
  qed
qed

subsection \<open>Status files and checks\<close>

definition settled :: "'a dworld_scheme \<Rightarrow> 'a dworld_scheme \<Rightarrow> bool" where
  "settled w w' \<longleftrightarrow> stays w w' \<and> (\<forall>p. info_of (task_at w' p) = info_of (task_at w p))"

interpretation se: stepping settled
  by unfold_locales (auto simp: settled_def stays_refl intro: stays_trans)

lemma se_upd:
  assumes "\<And>t. same_infos (f t) t"
  shows "rel settled (upd_task p f)"
proof (rule relI)
  fix w w' :: "'a dworld_scheme" and a
  assume r: "run_state (upd_task p f) w = (a, w')"
  have "stays w w'"
    by (rule stays_upd [OF _ _ r]) (use assms in \<open>simp_all add: same_infos_def same_identI\<close>)
  moreover have "info_of (task_at w' q) = info_of (task_at w q)" for q
    using r assms by (cases "tasks w q") (auto simp: upd_task_def task_at_def same_infos_def info_of_def)
  ultimately show "settled w w'" by (simp add: settled_def)
qed

lemma se_frame:
  fixes m :: "('a dworld_scheme, 'b) state"
  assumes "frame m"
  shows "rel settled m"
proof (rule relI)
  fix w w' :: "'a dworld_scheme" and a
  assume r: "run_state m w = (a, w')"
  show "settled w w'"
    using calm_run [OF calm_frame [OF assms] r] frame_inv(4) [OF keeps_run [OF assms r]] by (simp add: settled_def)
qed

lemma se_status: "rel settled (readTaskStatusFile env p)"
  unfolding readTaskStatusFile_def prepare_paths_def get_task_def
  by (intro se.rel_intros se_upd se_frame [OF frame_files(2)])
    (simp_all add: status_same [unfolded same_infos_def] same_infos_def prepareGvmPaths_same)

lemma se_all_status: "rel settled (readAllTaskStatusRecs env)"
  unfolding readAllTaskStatusRecs_def by (intro se.rel_intros se_status)

lemma add_check_inv:
  fixes w :: "'a dworld_scheme"
  assumes c: "clock_ok env" and i: "tasks_inv {} w" and p: "p \<in> created w" "p \<notin> running w"
    and rn: "run_state (addTaskChecks env p) w = (r, w')"
  shows "r = 0 \<and> tasks_inv {} w' \<and> created w' = created w \<and> running w' = insert p (running w) \<and> infos w' = infos w"
proof -
  obtain x w1 where r1: "run_state (setTaskNextChkTime env p (DEF_TASK_CHK_TIME_INTERVAL GVM_TASK_CHK_TASK)) w = (x, w1)"
    by (metis surj_pair)
  obtain t n where t: "0 \<le> t" "t < 2147483648"
    and w1: "w1 = w\<lparr>tick := n, tasks := (tasks w)(p := map_option (\<lambda>s. s\<lparr>m_chk_time := t\<rparr>) (tasks w p))\<rparr>"
    using wp_run [OF next_time_ok [OF c, of 300] r1 [simplified]] by auto
  obtain y w2 where r2: "run_state (queGvmRunTask p) w1 = (y, w2)" by (metis surj_pair)
  have "w2 = w1" using r2 p(2) by (auto simp: w1 queGvmRunTask_def lq_reque_def running_def)
  then have k: "tasks_inv {} w1" "created w1 = created w" "running w1 = running w"
    using wp_run [OF requeue_keeps [OF i t w1] r2] by auto
  obtain s where s: "tasks w p = Some s" using inv_facts(2) [OF i p(1)] by blast
  obtain z w3 where r3: "run_state (addGvmRunTask p) w1 = (z, w3)" by (metis surj_pair)
  have "p \<in> dom (tasks w1)" "time_ok (task_at w1 p)" using s t by (auto simp: w1 task_at_def time_ok_def)
  note a = wp_run [OF addGvmRunTask_inv [OF k(1) this] r3]
  have at: "info_of (task_at w3 q) = info_of (task_at w q)" for q
    using a s by (auto simp: w1 task_at_def info_of_def)
  have "r = 0" "w' = w3" using rn r1 r3 by (auto simp: addTaskChecks_def)
  then show ?thesis using a k at by (simp add: infos_def)
qed

lemma add_checks_inv:
  fixes w :: "'a dworld_scheme"
  assumes c: "clock_ok env" and "tasks_inv {} w" "set xs \<subseteq> created w" "distinct xs" "set xs \<inter> running w = {}"
    and "run_state (for_items (addTaskChecks env) xs) w = (r, w')"
  shows "r = 0 \<and> tasks_inv {} w' \<and> created w' = created w \<and> running w' = running w \<union> set xs \<and> infos w' = infos w"
  using assms(2-)
proof (induction xs arbitrary: w)
  case Nil
  then show ?case by (simp add: for_items_def)
next
  case (Cons p xs)
  obtain a w1 where r1: "run_state (addTaskChecks env p) w = (a, w1)" by (metis surj_pair)
  have h: "a = 0" "tasks_inv {} w1" "created w1 = created w" "running w1 = insert p (running w)" "infos w1 = infos w"
    using add_check_inv [OF c Cons.prems(1) _ _ r1] Cons.prems(2,4) by auto
  have "run_state (for_items (addTaskChecks env) xs) w1 = (r, w')"
    using Cons.prems(5) r1 h(1) by (simp add: for_items_def)
  then show ?case using Cons.IH [of w1] h Cons.prems(2,3,4) by auto
qed

lemma addGvmChecks_inv:
  fixes w :: "'a dworld_scheme"
  assumes "clock_ok env" "tasks_inv {} w" "running w = {}" "run_state (addGvmChecks env) w = (r, w')"
  shows "store_ok w' \<and> infos w' = infos w \<and> r = 0"
  using add_checks_inv [OF assms(1,2), of "lq_items (m_createque w)" r w'] assms(3,4) inv_sets(2,5) [OF assms(2)]
  by (auto simp: addGvmChecks_def store_ok_def)

subsection \<open>Starting\<close>

lemma created_data:
  assumes "tasks w = Map.empty" "run_state (createData env) w = (b, w')"
  shows "tasks_inv {} w' \<and> running w' = {} \<and> infos w' = {} \<and> fs w' = fs w \<and>
    m_task_priv_dir w' = DEF_GVM_PRIV_DATA_DIR \<and> m_task_file_name w' = DEF_GVM_TASK_FILE_NAME"
  using assms
  by (auto simp: createData_def fails_def now_def tasks_inv_def created_def running_def infos_def lq_init_def lq_inv_def)

definition task_file :: string where
  "task_file = path_buf (DEF_GVM_PRIV_DATA_DIR @ ''/'' @ DEF_GVM_TASK_FILE_NAME)"

text \<open>What the task file of a file system says.\<close>

definition filed_tasks :: "'a world_scheme \<Rightarrow> gvm_task list" where
  "filed_tasks w = (case lookup task_file w of
     Some (Reg r c) \<Rightarrow> file_tasks (Suc (length (c_str c))) (c_str c) | _ \<Rightarrow> [])"

lemma read_task_file_inv:
  fixes w :: "'a dworld_scheme"
  assumes i: "tasks_inv {} w" "running w = {}" "infos w = {}"
    and f: "m_task_priv_dir w = DEF_GVM_PRIV_DATA_DIR" "m_task_file_name w = DEF_GVM_TASK_FILE_NAME"
    and d: "distinct (map task_name (filed_tasks w))"
    and rn: "run_state (readTaskFile env) w = (0, w')"
  shows "tasks_inv {} w' \<and> running w' = {} \<and> infos w' = info_of ` set (filed_tasks w)"
proof -
  obtain k buf w1 where r1: "run_state (readTotalFile env task_file) w = ((k, buf), w1)" by (metis surj_pair)
  have e: "gworld.more w1 = gworld.more w" using keeps_run [OF frame_files(2) r1] .
  have i1: "tasks_inv {} w1" "running w1 = {}" "infos w1 = {}" using i frame_inv [OF e] by (simp_all add: infos_def)
  have k: "(0 \<le> k \<longrightarrow> k = 0 \<and> (\<exists>r. lookup task_file w = Some (Reg r buf)) \<or>
      0 < k \<and> (lookup task_file w = None \<or> (\<exists>r. lookup task_file w = Some (Reg r []))))"
    using r1 by (auto simp: readTotalFile_def sys_stat_def fails_def now_def split: option.splits node.splits if_splits)
  have rd: "run_state (if k = 0 then parseTaskRecord env buf else ret (if 0 < k then 0 else - 1)) w1 = (0, w')"
    using rn r1 f by (simp add: readTaskFile_def task_file_def)
  show ?thesis
  proof (cases "k = 0")
    case True
    then have ft: "filed_tasks w = file_tasks (Suc (length (c_str buf))) (c_str buf)"
      using k by (auto simp: filed_tasks_def simp del: file_tasks.simps)
    have "run_state (parse_records (Suc (length (c_str buf))) env (c_str buf)) w1 = (0, w')"
      using rd True by (simp add: parseTaskRecord_def del: parse_records.simps)
    from parse_records_inv [OF i1(1,2) c_str_cstring _ _ this] show ?thesis
      using d i1(3) unfolding ft by simp
  next
    case False
    then have "0 < k" "w' = w1" using rd by (auto split: if_splits)
    moreover have "filed_tasks w = []"
      using k \<open>0 < k\<close> by (auto simp: filed_tasks_def c_str_def)
    ultimately show ?thesis using i1 by simp
  qed
qed

lemma initDaemon_inv:
  fixes w :: "'a dworld_scheme"
  assumes c: "clock_ok env" and e: "tasks w = Map.empty" and d: "distinct (map task_name (filed_tasks w))"
    and rn: "run_state (initDaemon env) w = (0, w')"
  shows "store_ok w' \<and> infos w' = info_of ` set (filed_tasks w)"
proof -
  obtain ok w1 where r1: "run_state (createData env) w = (ok, w1)" by (metis surj_pair)
  note i1 = created_data [OF e r1]
  have f1: "filed_tasks w1 = filed_tasks w" using i1 by (simp add: filed_tasks_def)
  have ok: "ok" "run_state (init_steps env) w1 = (0, w')"
    using rn r1 by (auto simp: initDaemon_def split: prod.splits if_splits)
  obtain k w2 where r2: "run_state (chkExists env (m_task_priv_dir w1) False) w1 = (k, w2)" by (metis surj_pair)
  have s2: "gworld.more w2 = gworld.more w1" "same_rest (\<lambda>_. False) w1 w2"
    using keeps_run [OF frame_touches [OF touches_chkExists] r2] touches_run [OF touches_chkExists r2] by auto
  have i2: "tasks_inv {} w2" "running w2 = {}" "infos w2 = {}" "m_task_priv_dir w2 = DEF_GVM_PRIV_DATA_DIR"
    "m_task_file_name w2 = DEF_GVM_TASK_FILE_NAME" "filed_tasks w2 = filed_tasks w"
    using i1 f1 frame_inv [OF s2(1)] frame_fields [OF s2(1)] s2(2)
    by (simp_all add: infos_def filed_tasks_def same_rest_def)
  obtain q w3 where r3: "run_state (readTaskFile env) w2 = (q, w3)" by (metis surj_pair)
  obtain u w4 where r4: "run_state (readAllTaskStatusRecs env) w3 = (u, w4)" by (metis surj_pair)
  have z: "k = 0" "q = 0" "u = 0" "run_state (addGvmChecks env) w4 = (0, w')"
    using ok(2) r2 r3 r4 by (auto simp: init_steps_def split: if_splits)
  note i3 = read_task_file_inv [OF i2(1-5) _ r3 [unfolded z(2)]]
  have i3: "tasks_inv {} w3" "running w3 = {}" "infos w3 = info_of ` set (filed_tasks w)"
    using i3 d i2(6) by simp_all
  have s4: "settled w3 w4" using rel_run [OF se_all_status r4] .
  then have i4: "tasks_inv {} w4" "running w4 = {}" "infos w4 = infos w3"
    using i3 unfolding settled_def stays_def infos_def by auto
  show ?thesis using addGvmChecks_inv [OF c i4(1,2) z(4)] i4(3) i3(3) by simp
qed

end
