(* ===== verification/Roundtrip.thy ===== *)
theory Roundtrip imports Restart begin

text \<open>
  Records written and read back: a task whose texts have the form that the checks of requests and the
  replies of the scanner give them is read from its record as it was.
\<close>

definition comm_text :: "nat \<Rightarrow> string \<Rightarrow> bool" where
  "comm_text n s \<longleftrightarrow> (\<forall>c\<in>set s. comm_char c \<and> c \<noteq> NL \<and> c \<noteq> NUL) \<and> length s < n"

definition uuid :: "string \<Rightarrow> bool" where "uuid s \<longleftrightarrow> s \<in> lang UUID_REG_PATTERN"
definition stamp :: "string \<Rightarrow> bool" where "stamp s \<longleftrightarrow> s \<in> lang CUSTOM_TIME_STAMP_PATTERN"

definition savable :: "gvm_task \<Rightarrow> bool" where
  "savable t \<longleftrightarrow> (let i = m_task_info t; g = m_target_info t in
     uuid (ti_task_id i) \<and> chkName (ti_task_name i) = 0 \<and> cstring (ti_task_name i) \<and> length (ti_task_name i) < MAX_NAME_SIZE \<and>
     comm_text MAX_MEM_LIST_SIZE (ti_group_id i) \<and> comm_text MAX_MEM_LIST_SIZE (ti_group_name i) \<and>
     uuid (ti_config_id i) \<and> uuid (tg_target_id g) \<and> uuid (tg_portlist_id g) \<and>
     chkHosts (tg_hosts g) = 0 \<and> length (tg_hosts g) < MAX_MEM_LIST_SIZE \<and>
     0 \<le> ti_schedule_type i \<and> ti_schedule_type i \<le> 9 \<and> (ti_schedule_id i = [] \<or> uuid (ti_schedule_id i)) \<and>
     (ti_first_schedule_time i = [] \<or> stamp (ti_first_schedule_time i)) \<and>
     comm_text MAX_SCHEDULE_LIST_SIZE (ti_schedule_list i) \<and> stamp (ti_create_time i) \<and>
     chkScheduleParam (ti_schedule_type i) (ti_first_schedule_time i) (ti_schedule_list i) = 0)"

text \<open>What reading gives: the modification time is not kept, and the target has the name of the task.\<close>

definition restored :: "gvm_task \<Rightarrow> gvm_task" where
  "restored t = upd_target (\<lambda>_. (m_target_info t)\<lparr>tg_target_name := task_name t\<rparr>)
     (upd_info (\<lambda>_. (m_task_info t)\<lparr>ti_modify_time := ti_create_time (m_task_info t)\<rparr>) new_gvm_task)"

lemma over_NL:
  "over (\<lambda>c. c \<noteq> NL \<and> c \<noteq> NUL) UUID_REG_PATTERN" "over (\<lambda>c. c \<noteq> NL \<and> c \<noteq> NUL) CUSTOM_TIME_STAMP_PATTERN"
  "over (\<lambda>c. c \<noteq> NL) GVM_NAME_PATTERN" "over (\<lambda>c. comm_char c \<and> c \<noteq> NL \<and> c \<noteq> NUL) (OR_REPEAT CUSTOM_IP_RANGE_PATTERN)"
proof -
  have n: "\<not> isxdigit NL" "\<not> isdigit NL" "isspace NL" "\<not> isxdigit NUL" "\<not> isdigit NUL"
    by (simp_all add: isxdigit_def isdigit_def isspace_def NL_def NUL_def byte_def of_char_def)
  then have d: "over (\<lambda>c. c \<noteq> NL \<and> c \<noteq> NUL) DIGIT" "over (\<lambda>c. c \<noteq> NL \<and> c \<noteq> NUL) XDIGIT"
    by (auto simp: DIGIT_def XDIGIT_def)
  show "over (\<lambda>c. c \<noteq> NL \<and> c \<noteq> NUL) UUID_REG_PATTERN"
    unfolding UUID_REG_PATTERN_def Seqs.simps using d by (simp add: over_Rep NL_def NUL_def)
  show "over (\<lambda>c. c \<noteq> NL \<and> c \<noteq> NUL) CUSTOM_TIME_STAMP_PATTERN"
    unfolding CUSTOM_TIME_STAMP_PATTERN_def Seqs.simps using d by (simp add: over_Rep NL_def NUL_def)
  show "over (\<lambda>c. c \<noteq> NL) GVM_NAME_PATTERN"
    unfolding GVM_NAME_PATTERN_def by (rule over_Range) (use n in \<open>auto simp: name_char_def\<close>)
  have "comm_char c \<and> c \<noteq> NL \<and> c \<noteq> NUL" if "host_char c" for c
    using that n(2,5) by (auto simp: host_char_def one_of_def comm_char_def isdigit_def byte_def of_char_def
        BSL_def BQ_def SQ_def DQ_def NL_def NUL_def)
  then show "over (\<lambda>c. comm_char c \<and> c \<noteq> NL \<and> c \<noteq> NUL) (OR_REPEAT CUSTOM_IP_RANGE_PATTERN)"
    by (intro over_OR_REPEAT over_mono [OF over_IP_RANGE])
      (auto simp: comm_char_def one_of_def BSL_def BQ_def SQ_def DQ_def NL_def NUL_def)
qed

lemma cstring_form:
  "uuid s \<Longrightarrow> cstring s" "stamp s \<Longrightarrow> cstring s" "comm_text n s \<Longrightarrow> cstring s" "cstring (dec k)"
  using over_lang [OF over_NL(1), of s NUL] over_lang [OF over_NL(2), of s NUL] digits_isdigit [of NUL]
  by (auto simp: uuid_def stamp_def comm_text_def cstring_def dec_def isdigit_def NUL_def byte_def of_char_def)

lemma NL_not:
  "uuid s \<Longrightarrow> NL \<notin> set s" "stamp s \<Longrightarrow> NL \<notin> set s" "chkName s = 0 \<Longrightarrow> NL \<notin> set s"
  "comm_text n s \<Longrightarrow> NL \<notin> set s" "NL \<notin> set (dec k)"
  using over_lang [OF over_NL(1), of s NL] over_lang [OF over_NL(2), of s NL] over_lang [OF over_NL(3), of s NL]
    digits_isdigit [of NL]
  by (auto simp: uuid_def stamp_def chkName_def comm_text_def dec_def isdigit_def NL_def byte_def of_char_def)

lemma hosts_comm: "chkHosts s = 0 \<Longrightarrow> length s < n \<Longrightarrow> comm_text n s"
  using over_lang [OF over_NL(4)] by (auto simp: chkHosts_def comm_text_def)

lemma good_keys: "good_key k \<longleftrightarrow> k \<noteq> [] \<and> CHR ''='' \<notin> set k \<and> CHR 0x0A \<notin> set k"
  by (simp add: good_key_def NL_def)

lemma savable_record: "savable t \<Longrightarrow> good_record (task_fields t)"
  unfolding savable_def Let_def task_fields_def
  by (simp add: good_keys, elim conjE disjE, simp_all add: NL_not hosts_comm [THEN NL_not(4)])

lemma dec_digit: "0 \<le> n \<Longrightarrow> n \<le> 9 \<Longrightarrow> dec n \<in> lang DIGIT"
  by (subst (1) dec_def, subst digits.simps) auto

lemma dec_bool: "dec (of_bool b) \<in> lang CUSTOM_ON_OFF_PATTERN"
proof -
  have "dec 0 = ''0''" "dec 1 = ''1''" by code_simp+
  then show ?thesis by (cases b) (simp_all add: CUSTOM_ON_OFF_PATTERN_def one_of_def)
qed

lemma comm_lang: "comm_text n s \<Longrightarrow> s \<in> lang CUSTOM_COMM_PATTERN"
  by (simp add: comm_text_def CUSTOM_COMM_iff)

lemma form_length: "uuid s \<Longrightarrow> length s < MAX_UUID_SIZE" "stamp s \<Longrightarrow> length s < MAX_TIMESTAMP_SIZE"
  by (simp_all add: uuid_def uuid_lang_iff stamp_def time_stamp_lang_iff max_defs)

lemma read_task_record:
  assumes s: "savable t"
  shows "read_task (record_body (task_fields t)) new_gvm_task = (0, restored t)"
proof -
  let ?r = "record_body (task_fields t)" and ?i = "m_task_info t" and ?g = "m_target_info t"
  have g: "good_record (task_fields t)" using savable_record [OF s] .
  have m: "(''task_id'', ti_task_id ?i) \<in> set (task_fields t)" "(''task_name'', ti_task_name ?i) \<in> set (task_fields t)"
    "(''group_id'', ti_group_id ?i) \<in> set (task_fields t)" "(''group_name'', ti_group_name ?i) \<in> set (task_fields t)"
    "(''config_id'', ti_config_id ?i) \<in> set (task_fields t)" "(''target_id'', tg_target_id ?g) \<in> set (task_fields t)"
    "(''portlist_id'', tg_portlist_id ?g) \<in> set (task_fields t)" "(''hosts'', tg_hosts ?g) \<in> set (task_fields t)"
    "(''schedule_id'', ti_schedule_id ?i) \<in> set (task_fields t)"
    "(''schedule_time'', ti_first_schedule_time ?i) \<in> set (task_fields t)"
    "(''schedule_list'', ti_schedule_list ?i) \<in> set (task_fields t)"
    "(''create_time'', ti_create_time ?i) \<in> set (task_fields t)"
    "(''config_created'', dec (of_bool (ti_config_created ?i))) \<in> set (task_fields t)"
    "(''schedule_created'', dec (of_bool (ti_schedule_created ?i))) \<in> set (task_fields t)"
    "(''schedule_type'', dec (ti_schedule_type ?i)) \<in> set (task_fields t)"
    by (simp_all add: task_fields_def Let_def)
  note v = s [unfolded savable_def Let_def]
  note k = getPatternKey_record [OF g] and n = getPatternKeyInt_record [OF g]
  have f: "ti_task_id ?i \<in> lang UUID_REG_PATTERN" "ti_task_name ?i \<in> lang GVM_NAME_PATTERN"
    "ti_group_id ?i \<in> lang CUSTOM_COMM_PATTERN" "ti_group_name ?i \<in> lang CUSTOM_COMM_PATTERN"
    "ti_config_id ?i \<in> lang UUID_REG_PATTERN" "tg_target_id ?g \<in> lang UUID_REG_PATTERN"
    "tg_portlist_id ?g \<in> lang UUID_REG_PATTERN" "tg_hosts ?g \<in> lang CUSTOM_COMM_PATTERN"
    "ti_schedule_id ?i \<in> lang (Opt UUID_REG_PATTERN)" "ti_first_schedule_time ?i \<in> lang (Opt CUSTOM_TIME_STAMP_PATTERN)"
    "ti_schedule_list ?i \<in> lang CUSTOM_COMM_PATTERN" "ti_create_time ?i \<in> lang CUSTOM_TIME_STAMP_PATTERN"
    "dec (ti_schedule_type ?i) \<in> lang CUSTOM_SCHEDULE_TYPE_PATTERN"
    using v hosts_comm [of "tg_hosts ?g" MAX_MEM_LIST_SIZE, THEN comm_lang]
    by (auto simp: uuid_def stamp_def chkName_def CUSTOM_SCHEDULE_TYPE_PATTERN_def simp del: lang.simps lang_DIGIT dest: comm_lang intro: dec_digit)
  have l: "length (ti_task_id ?i) < MAX_UUID_SIZE" "length (ti_task_name ?i) < MAX_NAME_SIZE"
    "length (ti_group_id ?i) < MAX_MEM_LIST_SIZE" "length (ti_group_name ?i) < MAX_MEM_LIST_SIZE"
    "length (ti_config_id ?i) < MAX_UUID_SIZE" "length (tg_target_id ?g) < MAX_UUID_SIZE"
    "length (tg_portlist_id ?g) < MAX_UUID_SIZE" "length (tg_hosts ?g) < MAX_MEM_LIST_SIZE"
    "length (ti_schedule_id ?i) < MAX_UUID_SIZE" "length (ti_first_schedule_time ?i) < MAX_TIMESTAMP_SIZE"
    "length (ti_schedule_list ?i) < MAX_SCHEDULE_LIST_SIZE" "length (ti_create_time ?i) < MAX_TIMESTAMP_SIZE"
    using v form_length by (auto simp: comm_text_def max_defs)
  have "getPatternKey ?r ''task_id'' UUID_REG_PATTERN MAX_UUID_SIZE = (0, ti_task_id ?i)"
    "getPatternKey ?r ''task_name'' GVM_NAME_PATTERN MAX_NAME_SIZE = (0, ti_task_name ?i)"
    "getPatternKey ?r ''group_id'' CUSTOM_COMM_PATTERN MAX_MEM_LIST_SIZE = (0, ti_group_id ?i)"
    "getPatternKey ?r ''group_name'' CUSTOM_COMM_PATTERN MAX_MEM_LIST_SIZE = (0, ti_group_name ?i)"
    "getPatternKey ?r ''config_id'' UUID_REG_PATTERN MAX_UUID_SIZE = (0, ti_config_id ?i)"
    "getPatternKey ?r ''target_id'' UUID_REG_PATTERN MAX_UUID_SIZE = (0, tg_target_id ?g)"
    "getPatternKey ?r ''portlist_id'' UUID_REG_PATTERN MAX_UUID_SIZE = (0, tg_portlist_id ?g)"
    "getPatternKey ?r ''hosts'' CUSTOM_COMM_PATTERN MAX_MEM_LIST_SIZE = (0, tg_hosts ?g)"
    "getPatternKey ?r ''schedule_id'' (Opt UUID_REG_PATTERN) MAX_UUID_SIZE = (0, ti_schedule_id ?i)"
    "getPatternKey ?r ''schedule_time'' (Opt CUSTOM_TIME_STAMP_PATTERN) MAX_TIMESTAMP_SIZE = (0, ti_first_schedule_time ?i)"
    "getPatternKey ?r ''schedule_list'' CUSTOM_COMM_PATTERN MAX_SCHEDULE_LIST_SIZE = (0, ti_schedule_list ?i)"
    "getPatternKey ?r ''create_time'' CUSTOM_TIME_STAMP_PATTERN MAX_TIMESTAMP_SIZE = (0, ti_create_time ?i)"
    by (intro k m f l)+
  moreover have "getPatternKeyInt ?r ''config_created'' CUSTOM_ON_OFF_PATTERN = (0, of_bool (ti_config_created ?i))"
    "getPatternKeyInt ?r ''schedule_created'' CUSTOM_ON_OFF_PATTERN = (0, of_bool (ti_schedule_created ?i))"
    "getPatternKeyInt ?r ''schedule_type'' CUSTOM_SCHEDULE_TYPE_PATTERN = (0, ti_schedule_type ?i)"
    using v by (intro n m f dec_bool; simp)+
  ultimately show ?thesis
    using v by (simp add: read_task_def task_readers_def set_info_def set_target_def Let_def)
      (simp add: restored_def upd_info_def upd_target_def new_gvm_task_def)
qed

subsection \<open>The task file\<close>

definition file_text :: "gvm_task list \<Rightarrow> string" where
  "file_text ts = concat (map (\<lambda>t. record_text (task_fields t)) ts)"

lemma record_text_ne: "record_text kvs \<noteq> []"
  by (simp add: record_text_def TASK_INFO_BEG_MARK_def)

lemma file_tasks_text:
  "\<forall>t\<in>set ts. savable t \<Longrightarrow> length ts < n \<Longrightarrow> file_tasks n (file_text ts) = map restored ts"
proof (induction ts arbitrary: n)
  case Nil
  then show ?case by (cases n) (simp_all add: file_text_def)
next
  case (Cons t ts)
  then obtain m where m: "n = Suc m" by (cases n) auto
  have x: "file_text (t # ts) = record_text (task_fields t) @ file_text ts" by (simp add: file_text_def)
  have "next_record (record_text (task_fields t) @ file_text ts) = Some (record_body (task_fields t), file_text ts)"
    using next_record_text [OF savable_record] Cons.prems by simp
  then show ?case
    using Cons m read_task_record [of t] unfolding x by (simp add: record_text_ne)
qed

lemma each_records:
  "length (buf @ file_text (map f ps)) < MAX_CACHE_SIZE \<Longrightarrow>
    each (\<lambda>p. writeTaskRecord (f p)) ps buf = (0, buf @ file_text (map f ps))"
proof (induction ps arbitrary: buf)
  case Nil
  then show ?case by (simp add: file_text_def)
next
  case (Cons p ps)
  let ?r = "record_text (task_fields (f p))"
  have x: "file_text (f p # map f ps) = ?r @ file_text (map f ps)" by (simp add: file_text_def)
  have "length ?r < MAX_CACHE_SIZE - length buf" using Cons.prems unfolding list.map x by simp
  moreover have "0 < length ?r" using record_text_ne by simp
  ultimately have "writeTaskRecord (f p) buf = (0, buf @ ?r)"
    by (simp add: writeTaskRecord_def append_record_def Let_def)
  then show ?case using Cons.IH [of "buf @ ?r"] Cons.prems unfolding list.map x by simp
qed

lemma file_text_length: "length ts \<le> length (file_text ts)"
proof (induction ts)
  case (Cons t ts)
  have "0 < length (record_text (task_fields t))" using record_text_ne by simp
  then show ?case using Cons by (simp add: file_text_def Suc_le_eq del: length_greater_0_conv)
qed (simp add: file_text_def)

lemma cstring_record:
  "cstring (record_text kvs) \<longleftrightarrow> (\<forall>(k, v)\<in>set kvs. cstring k \<and> cstring v)"
proof -
  have "cstring (concat xs) \<longleftrightarrow> (\<forall>x\<in>set xs. cstring x)" for xs by (induction xs) auto
  then show ?thesis
    by (auto simp: record_text_def field_line_def TASK_INFO_BEG_MARK_def TASK_INFO_END_MARK_def DQS_def DQ_def NL_def NUL_def)
qed

lemma cstring_text:
  assumes "savable t"
  shows "cstring (record_text (task_fields t))"
  unfolding cstring_record task_fields_def Let_def
  using assms hosts_comm [of "tg_hosts (m_target_info t)" MAX_MEM_LIST_SIZE, THEN cstring_form(3)]
  by (auto simp: savable_def Let_def cstring_form NUL_def)

lemma cstring_file: "\<forall>t\<in>set ts. savable t \<Longrightarrow> cstring (file_text ts)"
  by (induction ts) (simp_all add: file_text_def cstring_text)

subsection \<open>A restart\<close>

definition task_file_tmp :: string where
  "task_file_tmp = path_buf (DEF_GVM_PRIV_DATA_DIR @ ''/.'' @ DEF_GVM_TASK_FILE_NAME)"

lemma task_file_paths: "task_file = DEF_GVM_PRIV_DATA_DIR @ ''/gvm_task_file''" "task_file \<noteq> task_file_tmp"
  by (simp_all add: task_file_def task_file_tmp_def path_buf_def snprintf_def max_defs DEF_GVM_PRIV_DATA_DIR_def
      DEF_GVM_TASK_FILE_NAME_def)

abbreviation stored :: "'a dworld_scheme \<Rightarrow> gvm_task list" where
  "stored w \<equiv> map (task_at w) (lq_items (m_createque w))"

definition default_paths :: "'a dworld_scheme \<Rightarrow> bool" where
  "default_paths w \<longleftrightarrow> m_task_priv_dir w = DEF_GVM_PRIV_DATA_DIR \<and> m_task_file_name w = DEF_GVM_TASK_FILE_NAME"

lemma written_file:
  assumes "default_paths w" "\<forall>t\<in>set (stored w). savable t" "length (file_text (stored w)) \<le> MAX_TASK_FILE_SIZE"
    and "\<forall>t. \<not> closefail env t" "lookup task_file_tmp w \<noteq> Some Special"
    and "run_state (writeTaskFile env) w = (0, w1)"
  shows "\<exists>b. lookup task_file w1 = Some (Reg b (file_text (stored w)))"
proof -
  have "length ([] @ file_text (stored w)) < MAX_CACHE_SIZE" using assms(3) by (simp add: max_defs)
  from each_records [OF this] have "run_state (writeFileSafe env (file_text (stored w)) task_file task_file_tmp) w = (0, w1)"
    using assms(1,6) by (simp add: writeTaskFile_def default_paths_def task_file_def task_file_tmp_def Let_def)
  from writeFileSafe_post [OF task_file_paths(2) assms(5,4) this] show ?thesis by simp
qed

lemma readable_file:
  assumes "\<forall>t\<in>set ts. savable t" "lookup task_file w = Some (Reg b (file_text ts))"
  shows "filed_tasks w = map restored ts"
proof -
  have "c_str (file_text ts) = file_text ts"
    using cstring_file [OF assms(1)] by (simp add: c_str_def cstring_def takeWhile_eq_all_conv) blast
  then show ?thesis
    using file_tasks_text [OF assms(1), of "Suc (length (file_text ts))"] file_text_length [of ts] assms(2)
    by (simp add: filed_tasks_def less_Suc_eq_le del: file_tasks.simps)
qed

lemma restored_name: "task_name (restored t) = task_name t"
  by (simp add: restored_def)

text \<open>C2: a daemon that starts on the files that another one wrote has exactly its tasks again: each with
  its identifiers, names, hosts, configuration and schedule, none lost and none made up, in a consistent store
  in which every task waits for its next check.\<close>

theorem restart_recovers:
  fixes w :: "'a dworld_scheme" and w2 :: "'b dworld_scheme"
  assumes "store_ok w" "default_paths w" "\<forall>t\<in>set (stored w). savable t"
    and "length (file_text (stored w)) \<le> MAX_TASK_FILE_SIZE"
    and "\<forall>t. \<not> closefail env t" "lookup task_file_tmp w \<noteq> Some Special"
    and "run_state (writeTaskFile env) w = (0, w1)"
    and "clock_ok env'" "tasks w2 = Map.empty" "fs w2 = fs w1" "run_state (initDaemon env') w2 = (0, w3)"
  shows "store_ok w3 \<and> infos w3 = (\<lambda>p. info_of (restored (task_at w p))) ` created w"
proof -
  obtain b where "lookup task_file w1 = Some (Reg b (file_text (stored w)))"
    using written_file [OF assms(2-7)] by blast
  then have f: "filed_tasks w2 = map restored (stored w)"
    by (intro readable_file [OF assms(3)]) (simp add: assms(10))
  have i: "tasks_inv {} w" using assms(1) by (simp add: store_ok_def)
  have "inj_on (\<lambda>p. task_name (task_at w p)) (set (lq_items (m_createque w)))"
    using inv_sets(2,11) [OF i] by simp
  then have "distinct (map task_name (filed_tasks w2))"
    using inv_sets(5) [OF i] by (simp add: f restored_name distinct_map comp_def)
  from initDaemon_inv [OF assms(8,9) this assms(11)] show ?thesis
    by (simp add: f image_image created_def)
qed

subsection \<open>An example\<close>

definition demo_id :: "char \<Rightarrow> string" where
  "demo_id c = replicate 8 c @ ''-1111-2222-3333-444444444444''"

definition demo_task :: gvm_task where
  "demo_task = upd_target (\<lambda>g. g\<lparr>tg_target_name := ''office'', tg_target_id := demo_id CHR ''a'',
       tg_portlist_id := demo_id CHR ''b'', tg_hosts := ''10.0.0.1''\<rparr>)
     (upd_info (\<lambda>i. i\<lparr>ti_task_id := demo_id CHR ''c'', ti_task_name := ''office'', ti_config_id := demo_id CHR ''d'',
        ti_group_id := demo_id CHR ''d'', ti_group_name := ''full'', ti_create_time := ''2020-09-13 12:26:40'',
        ti_modify_time := ''2020-09-13 12:26:40''\<rparr>) new_gvm_task)"

lemma demo_savable: "savable demo_task"
  unfolding savable_def Let_def uuid_def stamp_def matches_lang [symmetric] comm_text_def
  by (intro conjI; code_simp)

definition quiet_env :: env where
  "quiet_env = demo_env\<lparr>fault := (\<lambda>_. False), clk := (\<lambda>t. 1000 + int (t mod 1000000))\<rparr>"

definition demo_store :: dworld where
  "demo_store = \<lparr>tick = 0, fs = [(DEF_GVM_PRIV_DATA_DIR, Dir)], link = False, sent = [], ran = [], kills = [],
     tasks = [0 \<mapsto> demo_task], nxt = 1, m_createque = \<lparr>lq_cnt = 1, lq_items = [0]\<rparr>,
     m_runque = \<lparr>lq_cnt = 1, lq_items = [0]\<rparr>, m_nameset = [0], m_name_cap = DEF_LIST_ARRAY_SIZE,
     m_task_file_name = DEF_GVM_TASK_FILE_NAME, m_task_priv_dir = DEF_GVM_PRIV_DATA_DIR, m_is_gvm_conn_ok = True\<rparr>"

lemma demo_at [simp]: "task_at demo_store 0 = demo_task"
  by (simp add: task_at_def demo_store_def)

lemma demo_key: "key_ok demo_task" "m_chk_time demo_task = 0"
  by (simp_all add: key_ok_def demo_task_def new_gvm_task_def upd_info_def upd_target_def max_defs NUL_def)

lemma demo_store_ok: "store_ok demo_store"
  using demo_key
  by (auto simp: store_ok_def tasks_inv_def created_def running_def lq_inv_def demo_store_def task_at_def time_ok_def
      DEF_LIST_ARRAY_SIZE_def split: if_splits)

lemma demo_length: "length (file_text [demo_task]) \<le> MAX_TASK_FILE_SIZE"
proof -
  have "length (file_text [demo_task]) < 2000" by code_simp
  then show ?thesis by (simp add: max_defs)
qed

lemma quiet_simps [simp]:
  "fault quiet_env t = False" "closefail quiet_env t = False" "clk quiet_env t = 1000 + int (t mod 1000000)"
  by (simp_all add: quiet_env_def demo_env_def)

lemma quiet_clock: "clock_ok quiet_env"
proof -
  have "t mod 1000000 < 2147482348" for t :: nat
    using mod_less_divisor [of 1000000 t] by linarith
  then show ?thesis by (simp add: clock_ok_def)
qed

definition demo_restart :: "dworld \<Rightarrow> dworld" where
  "demo_restart w = w\<lparr>tasks := Map.empty\<rparr>"

lemma demo_written:
  "fst (run_state (writeTaskFile quiet_env) demo_store) = 0"
  "fs (snd (run_state (writeTaskFile quiet_env) demo_store)) =
     [(DEF_GVM_PRIV_DATA_DIR, Dir), (task_file, Reg True (file_text [demo_task]))]"
proof -
  let ?s = "file_text [demo_task]"
  have "length ([] @ file_text (map (task_at demo_store) [0])) < MAX_CACHE_SIZE"
    using demo_length by (simp add: max_defs)
  from each_records [OF this] have e: "each (\<lambda>p. writeTaskRecord (task_at demo_store p)) [0] [] = (0, ?s)" by simp
  have f: "m_task_priv_dir demo_store = DEF_GVM_PRIV_DATA_DIR" "m_task_file_name demo_store = DEF_GVM_TASK_FILE_NAME"
    "lq_items (m_createque demo_store) = [0]"
    by (simp_all add: demo_store_def)
  have "run_state (writeTaskFile quiet_env) demo_store = run_state (writeFileSafe quiet_env ?s task_file task_file_tmp) demo_store"
    using e by (simp add: writeTaskFile_def Let_def f task_file_def task_file_tmp_def del: each.simps)
  moreover have "?s \<noteq> []" by (simp add: file_text_def record_text_ne)
  moreover have "task_file \<noteq> DEF_GVM_PRIV_DATA_DIR" "task_file_tmp \<noteq> DEF_GVM_PRIV_DATA_DIR" "task_file \<noteq> task_file_tmp"
    by (simp_all add: task_file_def task_file_tmp_def path_buf_def snprintf_def max_defs DEF_GVM_PRIV_DATA_DIR_def
        DEF_GVM_TASK_FILE_NAME_def)
  ultimately show "fst (run_state (writeTaskFile quiet_env) demo_store) = 0"
    "fs (snd (run_state (writeTaskFile quiet_env) demo_store)) =
      [(DEF_GVM_PRIV_DATA_DIR, Dir), (task_file, Reg True ?s)]"
    by (simp_all add: demo_store_def writeFileSafe_def writeFile_def write_mode_def write_all_def
        sys_create_def sys_fwrite_def sys_fclose_def add_bytes_def rename_if_def sys_rename_def fails_def now_def
        put_node_def drop_node_def)
qed

lemma parse_records_Nil [simp]: "parse_records n env [] = ret 0"
  by (cases n) simp_all

lemma demo_init:
  fixes w :: "'a dworld_scheme"
  assumes "\<And>n. fault env n = False" "fs w = F" "map_of F task_file = Some (Reg True (file_text [demo_task]))" "map_of F DEF_GVM_PRIV_DATA_DIR = Some Dir"
    "map_of F (DEF_GVM_PRIV_DATA_DIR @ ''/task_'' @ demo_id CHR ''c'' @ ''/gvm_status_file'') = None"
  shows "fst (run_state (initDaemon env) w) = 0" "fs (snd (run_state (initDaemon env) w)) = F"
proof -
  let ?s = "file_text [demo_task]"
  have s: "?s \<noteq> []" "file_text [] = []" "c_str ?s = ?s" "length ?s \<le> MAX_TASK_FILE_SIZE"
    using cstring_file [of "[demo_task]"] demo_savable record_text_ne demo_length
    by (simp_all add: c_str_def cstring_def takeWhile_eq_all_conv file_text_def)
      (metis)
  have n: "next_record ?s = Some (record_body (task_fields demo_task), [])"
    using next_record_text [OF savable_record [OF demo_savable], of "[]"] by (simp add: file_text_def)
  note r = read_task_record [OF demo_savable]
  have i: "task_id (restored demo_task) = demo_id CHR ''c''" by (simp add: restored_def demo_task_def)
  have p: "fst (prepareGvmPaths DEF_GVM_PRIV_DATA_DIR (restored demo_task)) = 0"
    "OPENVAS_STATUS_FILE (m_paths (snd (prepareGvmPaths DEF_GVM_PRIV_DATA_DIR (restored demo_task)))) =
      DEF_GVM_PRIV_DATA_DIR @ ''/task_'' @ demo_id CHR ''c'' @ ''/gvm_status_file''"
    by (simp_all add: prepareGvmPaths_def i path_fits_def path_buf_def snprintf_def Let_def DEF_GVM_PRIV_DATA_DIR_def
        demo_id_def max_defs)
  show "fst (run_state (initDaemon env) w) = 0" "fs (snd (run_state (initDaemon env) w)) = F"
    using assms s n r p
    by (simp_all add: initDaemon_def createData_def init_steps_def readTaskFile_def parseTaskRecord_def chkExists_def sys_stat_def
        fails_def now_def readTotalFile_def task_file_def newGvmTask_def get_task_def upd_task_def
        task_at_def addGvmTask_def ls_add_def lq_init_def Let_def DEF_LIST_ARRAY_SIZE_def readAllTaskStatusRecs_def
        for_items_def readTaskStatusFile_def prepare_paths_def addGvmChecks_def addTaskChecks_def setTaskNextChkTime_def
        getClkTime_def addGvmRunTask_def)
qed

lemma restart_recovers_witness:
  "infos (snd (run_state (initDaemon quiet_env) (demo_restart (demo_store\<lparr>fs :=
     fs (snd (run_state (writeTaskFile quiet_env) demo_store))\<rparr>)))) = {info_of (restored demo_task)}"
proof -
  let ?w1 = "snd (run_state (writeTaskFile quiet_env) demo_store)"
  let ?w2 = "demo_restart (demo_store\<lparr>fs := fs ?w1\<rparr>)"
  have d: "default_paths demo_store" "\<forall>t\<in>set (stored demo_store). savable t" "stored demo_store = [demo_task]"
    "created demo_store = {0}"
    using demo_savable by (simp_all add: default_paths_def demo_store_def task_at_def created_def)
  have r: "run_state (writeTaskFile quiet_env) demo_store = (0, ?w1)"
    using demo_written by (simp add: prod_eq_iff)
  have "fst (run_state (initDaemon quiet_env) ?w2) = 0"
    by (rule demo_init(1) [OF _ refl]) (simp_all add: demo_restart_def demo_written(2) task_file_def path_buf_def snprintf_def max_defs
        DEF_GVM_PRIV_DATA_DIR_def DEF_GVM_TASK_FILE_NAME_def)
  then have i: "run_state (initDaemon quiet_env) ?w2 = (0, snd (run_state (initDaemon quiet_env) ?w2))"
    by (simp add: prod_eq_iff)
  have "infos (snd (run_state (initDaemon quiet_env) ?w2)) =
      (\<lambda>p. info_of (restored (task_at demo_store p))) ` created demo_store"
    by (rule conjunct2 [OF restart_recovers [OF demo_store_ok d(1,2) _ _ _ r quiet_clock _ _ i]])
      (use demo_length d(3) in \<open>simp_all add: demo_restart_def demo_store_def\<close>)
  then show ?thesis using d(4) by simp
qed

end
