(* ===== verification/ServiceProps.thy ===== *)
theory ServiceProps imports Roundtrip begin

text \<open>
  The service as a whole: the states it reaches, what it gives to the shell and to other processes, and
  that it ends when asked to.
\<close>

subsection \<open>Reachable states\<close>

text \<open>The states at the head of the loop of \<open>startKbMsg\<close>: after a successful start, and after iterations
  with any messages, replies, failures and signals.\<close>

inductive reachable :: "env \<Rightarrow> string \<Rightarrow> 'a sworld_scheme \<Rightarrow> 'a sworld_scheme \<Rightarrow> bool" for env key w0 where
  started: "run_state (initDaemon env) w0 = (0, w1) \<Longrightarrow> run_state (initHydra env) w1 = (0, w2) \<Longrightarrow>
    run_state (redis_new env) w2 = (True, w3) \<Longrightarrow> run_state (clearKb env key) w3 = (r, w4) \<Longrightarrow>
    reachable env key w0 (w4\<lparr>loop_timeout := 0\<rparr>)"
| iterated: "reachable env key w0 w \<Longrightarrow> run_state (still_running env) w = (True, w1) \<Longrightarrow>
    run_state (loop_body env key) w1 = ((), w2) \<Longrightarrow> reachable env key w0 w2"

inductive_cases reachableE: "reachable env key w0 w"

lemma reachable_loop:
  assumes "reachable env key w0 w" "run_state (main_loop n env key) w = (False, w')"
  shows "reachable env key w0 w'"
  using assms
proof (induction n arbitrary: w)
  case 0
  then show ?case by simp
next
  case (Suc n)
  obtain run w1 where r1: "run_state (still_running env) w = (run, w1)" by (metis surj_pair)
  obtain u w2 where r2: "run_state (loop_body env key) w1 = (u, w2)" by (metis surj_pair)
  have "run" "run_state (main_loop n env key) w2 = (False, w')"
    using Suc.prems(2) r1 r2 by (auto split: if_splits)
  moreover have "reachable env key w0 w2"
    using reachable.iterated [OF Suc.prems(1)] r1 r2 \<open>run\<close> by simp
  ultimately show ?case using Suc.IH by blast
qed

lemma ss_parse_hydra: "rel same_store (parse_hydra_records n env s)"
proof (induction n arbitrary: s)
  case 0
  then show ?case by (simp add: ss.rel_return)
next
  case (Suc n)
  then show ?case unfolding parse_hydra_records.simps by (intro ss.rel_intros ss_hydra_base)
qed

lemma ss_initHydra: "rel same_store (initHydra env)"
proof -
  have "rel same_store (finishHydraData :: ('a hworld_scheme, unit) state)"
    unfolding finishHydraData_def by (rule ss_modify) simp
  then show ?thesis
    unfolding initHydra_def createHydraData_def readHydraTaskFile_def parseHydraRecord_def
    by (intro ss.rel_intros ss_calls ss_modify ss_files ss_parse_hydra; simp)
qed

text \<open>C1: in every state the service reaches, the store of tasks is consistent: names are unique, every
  task object is linked once in the array by name, once in the queue by creation time and once in the queue
  of checks, all three are in order, and no object is lost or freed too early.\<close>

theorem reachable_store_ok:
  assumes "clock_ok env" "times_ok env" "tasks w0 = Map.empty" "distinct (map task_name (filed_tasks w0))"
    and "reachable env key w0 w"
  shows "store_ok w"
  using assms(5)
proof induction
  case (started w1 w2 w3 r w4)
  have "store_ok w1" using initDaemon_inv [OF assms(1,3,4) started(1)] by simp
  then have "store_ok w4"
    unfolding same_store_inv(4) [OF rel_run [OF ss_redis(3) started(4) [unfolded clearKb_def]]]
      same_store_inv(4) [OF rel_run [OF ss_redis(4) started(3)]] same_store_inv(4) [OF rel_run [OF ss_initHydra started(2)]] .
  moreover have "same_store w4 (w4\<lparr>loop_timeout := 0\<rparr>)" by (simp add: same_store_def)
  ultimately show ?case using same_store_inv(4) by blast
next
  case (iterated w w1 w2)
  then show ?case
    using rel_run [OF ks_same [OF ss_running] iterated(2)] rel_run [OF ks_loop_body [OF assms(1,2)] iterated(3)]
    unfolding keeps_store_def by blast
qed

subsection \<open>Effects\<close>

text \<open>C4: from its start to its end the service gives the shell only commands of the fixed form with one
  XML request, quoted so that the shell passes it on unchanged, and never signals \<^verbatim>\<open>init\<close>, a process group or
  every process; whatever clients, the server, the scanner and the file system do.\<close>

theorem serveGvm_safe:
  assumes "sched_ok env" "run_state (serveGvm n env) w = (r, w')"
  shows "(\<exists>cs. ran w' = ran w @ cs \<and> (\<forall>cmd\<in>set cs. safe_cmd cmd)) \<and>
    (\<exists>ks. kills w' = kills w @ ks \<and> (\<forall>(pid, sig)\<in>set ks. 1 < pid))"
  using rel_run [OF fo_serveGvm [OF assms(1)] assms(2)] by (simp add: follows_def)

subsection \<open>Ending\<close>

lemma running_tick: "run_state (still_running env) w = (b, w1) \<Longrightarrow> tick w < tick w1"
  by (auto simp: still_running_def stopKbMsg_def now_def split: if_splits)

lemma running_stop: "run_state (still_running env) w = (b, w1) \<Longrightarrow> sigstop env (tick w) \<Longrightarrow> \<not> b"
  by (auto simp: still_running_def stopKbMsg_def now_def split: if_splits)

text \<open>C11: once the request to end stays pending, the loop ends after at most as many iterations as calls are
  left until then, whatever it is doing.\<close>

theorem main_loop_ends:
  assumes "sched_ok env" "\<forall>t\<ge>T. sigstop env t" "0 < n" "T < n + tick w"
  shows "fst (run_state (main_loop n env key) w)"
  using assms(3,4)
proof (induction n arbitrary: w)
  case 0
  then show ?case by simp
next
  case (Suc n)
  obtain run w1 where r1: "run_state (still_running env) w = (run, w1)" by (metis surj_pair)
  show ?case
  proof (cases run)
    case False
    then show ?thesis using r1 by simp
  next
    case True
    obtain u w2 where r2: "run_state (loop_body env key) w1 = (u, w2)" by (metis surj_pair)
    have "tick w1 \<le> tick w2" using rel_run [OF fo_loop_body [OF assms(1)] r2] by (simp add: follows_def)
    moreover have "tick w < T" using running_stop [OF r1] assms(2) True by (meson not_le)
    ultimately have "T < n + tick w2" "0 < n" using Suc.prems(2) running_tick [OF r1] by linarith+
    then show ?thesis using Suc.IH [of w2] r1 r2 True by simp
  qed
qed


subsection \<open>An example\<close>

text \<open>A service that starts on an empty disk with its directories, receives nothing, and is asked to end
  from the hundredth call on.\<close>

definition stop_env :: env where
  "stop_env = quiet_env\<lparr>sigstop := (\<lambda>t. 100 \<le> t), redis := (\<lambda>t cmd. if cmd = [''PING''] then Some (RStatus ''PONG'')
     else Some RNil), strftime := (\<lambda>f l t. Some ''20200913T122640Z'')\<rparr>"

definition demo_service :: sworld where
  "demo_service = \<lparr>tick = 0, fs = [(DEF_GVM_PRIV_DATA_DIR, Dir), (DEF_HYDRA_PRIV_DATA_DIR, Dir),
       (DEF_HYDRA_PRIV_DATA_DIR @ ''/templates'', Dir)], link = False, sent = [], ran = [], kills = [],
     tasks = Map.empty, nxt = 0, m_createque = lq_init, m_runque = lq_init, m_nameset = [], m_name_cap = 0,
     m_task_file_name = [], m_task_priv_dir = [], m_is_gvm_conn_ok = False, is_last_status_ok = True,
     htasks = Map.empty, hnxt = 0, h_createque = lq_init, h_nameset = [], h_name_cap = 0, h_task_file_name = [],
     h_task_priv_dir = [], h_task_templ_dir = [], g_has_child_exit = False, g_prog_path = ''/usr/bin/gvm_util'',
     g_isRun = True, loop_timeout = 0, g_id = 0, g_min_cnt = 0, g_last_time = 0\<rparr>"

lemma stop_simps [simp]:
  "fault stop_env t = False" "clk stop_env t = 1000 + int (t mod 1000000)" "sigstop stop_env t = (100 \<le> t)"
  "redis stop_env t cmd = (if cmd = [''PING''] then Some (RStatus ''PONG'') else Some RNil)"
  by (simp_all add: stop_env_def)

lemma stop_ok: "clock_ok stop_env" "times_ok stop_env" "sched_ok stop_env"
proof -
  show "clock_ok stop_env" using quiet_clock by (simp add: clock_ok_def)
  show "times_ok stop_env" by (simp add: times_ok_def stop_env_def NUL_def)
  show "sched_ok stop_env" by (simp add: sched_ok_def stop_env_def plain_char_def BSL_def BQ_def)
qed

lemma main_loop_ends_witness: "fst (run_state (main_loop 101 stop_env OPENVAS_MSG_NAME) demo_service)"
  by (rule main_loop_ends [OF stop_ok(3), of 100]) (simp_all add: demo_service_def)

lemma serveGvm_safe_witness:
  "\<exists>cs. ran (snd (run_state (serveGvm 3 stop_env) demo_service)) = cs \<and> (\<forall>cmd\<in>set cs. safe_cmd cmd)"
  using serveGvm_safe [OF stop_ok(3), of 3 demo_service "fst (run_state (serveGvm 3 stop_env) demo_service)"
      "snd (run_state (serveGvm 3 stop_env) demo_service)"]
  by (simp add: demo_service_def)

text \<open>The same service on a disk that holds the file of an earlier run, and the state after its start.\<close>

definition demo_loaded :: sworld where
  "demo_loaded = demo_service\<lparr>fs := (task_file, Reg True (file_text [demo_task])) # fs demo_service\<rparr>"

lemma demo_disk:
  "map_of (fs demo_loaded) task_file = Some (Reg True (file_text [demo_task]))"
  "map_of (fs demo_loaded) DEF_GVM_PRIV_DATA_DIR = Some Dir" "map_of (fs demo_loaded) DEF_HYDRA_PRIV_DATA_DIR = Some Dir"
  "map_of (fs demo_loaded) (DEF_HYDRA_PRIV_DATA_DIR @ ''/templates'') = Some Dir"
  "map_of (fs demo_loaded) (DEF_HYDRA_PRIV_DATA_DIR @ ''/'' @ DEF_HYDRA_TASK_FILE_NAME) = None"
  "map_of (fs demo_loaded) (DEF_GVM_PRIV_DATA_DIR @ ''/task_'' @ demo_id CHR ''c'' @ ''/gvm_status_file'') = None"
  by (simp_all add: demo_loaded_def demo_service_def task_file_def path_buf_def snprintf_def max_defs
      DEF_GVM_PRIV_DATA_DIR_def DEF_GVM_TASK_FILE_NAME_def DEF_HYDRA_PRIV_DATA_DIR_def DEF_HYDRA_TASK_FILE_NAME_def)

lemma demo_hydra_starts:
  fixes w :: "'a hworld_scheme"
  assumes "fs w = fs demo_loaded"
  shows "fst (run_state (initHydra stop_env) w) = 0"
  using assms demo_disk
  by (simp add: initHydra_def createHydraData_def readHydraTaskFile_def chkExists_def sys_stat_def fails_def
      now_def readTotalFile_def path_buf_def path_fits_def snprintf_def max_defs DEF_HYDRA_TASK_FILE_NAME_def
      DEF_HYDRA_PRIV_DATA_DIR_def)

lemma demo_redis_starts: "fst (run_state (redis_new stop_env) w)"
  by (simp add: redis_new_def fails_def now_def set_link_def)

definition demo_started :: sworld where
  "demo_started = snd (run_state (do { _ \<leftarrow> initDaemon stop_env; _ \<leftarrow> initHydra stop_env; _ \<leftarrow> redis_new stop_env;
     clearKb stop_env OPENVAS_MSG_NAME }) demo_loaded)\<lparr>loop_timeout := 0\<rparr>"

lemma demo_started_reachable: "reachable stop_env OPENVAS_MSG_NAME demo_loaded demo_started"
proof -
  obtain a w1 where 1: "run_state (initDaemon stop_env) demo_loaded = (a, w1)" by (metis surj_pair)
  obtain b w2 where 2: "run_state (initHydra stop_env) w1 = (b, w2)" by (metis surj_pair)
  obtain c w3 where 3: "run_state (redis_new stop_env) w2 = (c, w3)" by (metis surj_pair)
  obtain d w4 where 4: "run_state (clearKb stop_env OPENVAS_MSG_NAME) w3 = (d, w4)" by (metis surj_pair)
  have "a = 0" "fs w1 = fs demo_loaded" using demo_init [OF _ refl demo_disk(1,2,6), of stop_env] 1 by simp_all
  moreover from this(2) have "b = 0" using demo_hydra_starts [of w1] 2 by simp
  moreover have "c" using demo_redis_starts [of w2] 3 by simp
  ultimately have "reachable stop_env OPENVAS_MSG_NAME demo_loaded (w4\<lparr>loop_timeout := 0\<rparr>)"
    using 1 2 3 4 by (intro reachable.started) auto
  then show ?thesis using 1 2 3 4 by (simp add: demo_started_def)
qed

lemma demo_filed: "filed_tasks demo_loaded = [restored demo_task]"
  using readable_file [of "[demo_task]" demo_loaded True] demo_savable demo_disk(1) by simp

lemma demo_unloaded: "tasks demo_loaded = Map.empty"
  by (simp add: demo_loaded_def demo_service_def)

lemma reachable_store_ok_witness: "store_ok demo_started"
  by (rule reachable_store_ok [OF stop_ok(1,2) demo_unloaded _ demo_started_reachable]) (simp add: demo_filed)

text \<open>The task of the file is in the store.\<close>

lemma demo_started_task: "\<exists>p t. tasks demo_started p = Some t"
proof -
  obtain a w1 where 1: "run_state (initDaemon stop_env) demo_loaded = (a, w1)" by (metis surj_pair)
  obtain b w2 where 2: "run_state (initHydra stop_env) w1 = (b, w2)" by (metis surj_pair)
  obtain c w3 where 3: "run_state (redis_new stop_env) w2 = (c, w3)" by (metis surj_pair)
  obtain d w4 where 4: "run_state (clearKb stop_env OPENVAS_MSG_NAME) w3 = (d, w4)" by (metis surj_pair)
  have "a = 0" using demo_init(1) [OF _ refl demo_disk(1,2,6), of stop_env] 1 by simp
  then have "store_ok w1 \<and> infos w1 = {info_of (restored demo_task)}"
    using initDaemon_inv [OF stop_ok(1) demo_unloaded _ 1 [unfolded \<open>a = 0\<close>]] by (simp add: demo_filed)
  then have "tasks_inv {} w1" "created w1 \<noteq> {}" by (auto simp: store_ok_def infos_def)
  then obtain p where "p \<in> dom (tasks w1)" using inv_sets(7) by blast
  moreover have "tasks demo_started = tasks w1"
    using 1 2 3 4 rel_run [OF ss_initHydra 2] rel_run [OF ss_redis(4) 3] rel_run [OF ss_redis(3) 4 [unfolded clearKb_def]]
    by (simp add: demo_started_def same_store_def)
  ultimately show ?thesis by auto
qed

end
