(* ===== verification/Objects.thy ===== *)
theory Objects imports ServiceProps begin

text \<open>
  Invariants of the single task objects: a predicate that holds of new objects and that every update
  keeps holds of all objects in every state the service reaches.  Its instance \<open>typed\<close> says that every text
  fits the buffer the code declares for it, and that the numbers are in their ranges.
\<close>

subsection \<open>Predicates on objects\<close>

definition objs :: "(nat \<Rightarrow> gvm_task \<Rightarrow> bool) \<Rightarrow> 'a dworld_scheme \<Rightarrow> bool" where
  "objs I w \<longleftrightarrow> (\<forall>p t. tasks w p = Some t \<longrightarrow> I p t)"

definition keeps_objs :: "(nat \<Rightarrow> gvm_task \<Rightarrow> bool) \<Rightarrow> 'a dworld_scheme \<Rightarrow> 'a dworld_scheme \<Rightarrow> bool" where
  "keeps_objs I w w' \<longleftrightarrow> (objs I w \<longrightarrow> objs I w')"

interpretation ob: stepping "keeps_objs I" for I
  by unfold_locales (auto simp: keeps_objs_def)

lemma ob_same: "rel same_store m \<Longrightarrow> rel (keeps_objs I) m"
  by (erule rel_mono) (simp add: same_store_def keeps_objs_def objs_def)

lemmas ob_frame = ss_frame [THEN ob_same]

lemma ob_get: "rel (keeps_objs I) (get_task p)"
  unfolding get_task_def by (rule ob.rel_gets)

lemma ob_upd: "(\<And>t. I p t \<Longrightarrow> I p (f t)) \<Longrightarrow> rel (keeps_objs I) (upd_task p f)"
  by (auto simp: rel_def upd_task_def keeps_objs_def objs_def)

lemma ob_keep: "(\<And>w. tasks (f w) = tasks w) \<Longrightarrow> rel (keeps_objs I) (modify f)"
  by (rule rel_modify) (simp add: keeps_objs_def objs_def)

lemma ob_free: "rel (keeps_objs I) (freeGvmTask p)"
  unfolding freeGvmTask_def by (rule rel_modify) (simp add: keeps_objs_def objs_def)

lemma ob_new: "(\<And>p. I p new_gvm_task) \<Longrightarrow> rel (keeps_objs I) (newGvmTask env)"
  unfolding newGvmTask_def
  by (intro ob.rel_intros ob_same [OF ss_calls(1)] rel_modify) (simp add: keeps_objs_def objs_def)

lemma ob_containers:
  "rel (keeps_objs I) (addGvmTask env p)" "rel (keeps_objs I) (delGvmTask p)" "rel (keeps_objs I) (addGvmRunTask p)"
  "rel (keeps_objs I) (delGvmRunTask p)" "rel (keeps_objs I) (queGvmRunTask p)" "rel (keeps_objs I) (findGvmTask p)"
  unfolding addGvmTask_def delGvmTask_def addGvmRunTask_def delGvmRunTask_def queGvmRunTask_def findGvmTask_def
  by (intro ob.rel_intros ob_same [OF ss_calls(1)] ob_keep; simp)+

text \<open>A part of the object is passed to a call and replaced by what comes back.\<close>

lemma ob_replace:
  fixes m :: "gvm_task \<Rightarrow> ('a dworld_scheme, 'b \<times> 'c) state"
  assumes f: "\<And>t. frame (m t)" and s: "\<And>t w. I p t \<Longrightarrow> wp (m t) (\<lambda>rx _. \<forall>t. I p t \<longrightarrow> I p (g (snd rx) t)) w"
    and k: "\<And>r x. rel (keeps_objs I) (k r x)"
  shows "rel (keeps_objs I) (do { t \<leftarrow> get_task p; (r, x) \<leftarrow> m t; upd_task p (g x); k r x })"
proof (rule relI)
  fix w w' :: "'a dworld_scheme" and a
  assume rn: "run_state (do { t \<leftarrow> get_task p; (r, x) \<leftarrow> m t; upd_task p (g x); k r x }) w = (a, w')"
  obtain r x w1 where r1: "run_state (m (task_at w p)) w = ((r, x), w1)" by (metis surj_pair)
  let ?w = "w1\<lparr>tasks := (tasks w1)(p := map_option (g x) (tasks w1 p))\<rparr>"
  have r2: "run_state (k r x) ?w = (a, w')" using rn r1 by (simp add: get_task_def upd_task_def)
  have t: "tasks w1 = tasks w"
    using frame_fields [OF keeps_run [OF f r1]] by simp
  show "keeps_objs I w w'"
    unfolding keeps_objs_def
  proof
    assume o: "objs I w"
    have "objs I ?w"
    proof (cases "tasks w p")
      case None
      then show ?thesis using o t by (auto simp: objs_def)
    next
      case (Some t)
      then have "I p (task_at w p)" using o by (simp add: objs_def task_at_def)
      from wp_run [OF s [OF this] r1] show ?thesis using o t by (auto simp: objs_def)
    qed
    then show "objs I w'" using rel_run [OF k r2] by (simp add: keeps_objs_def)
  qed
qed

lemma ob_on_info:
  fixes f :: "gvm_task_info \<Rightarrow> ('a dworld_scheme, int \<times> gvm_task_info) state"
  assumes "\<And>i. frame (f i)" "\<And>t w. I p t \<Longrightarrow> wp (f (m_task_info t)) (\<lambda>ri _. \<forall>t. I p t \<longrightarrow> I p (upd_info (\<lambda>_. snd ri) t)) w"
  shows "rel (keeps_objs I) (on_info f p)"
  unfolding on_info_def
  by (rule ob_replace [where m = "\<lambda>t. f (m_task_info t)" and g = "\<lambda>i. upd_info (\<lambda>_. i)"]) (use assms in \<open>auto intro: ob.rel_return\<close>)

subsection \<open>The types of the fields\<close>

definition typed_info :: "gvm_task_info \<Rightarrow> bool" where
  "typed_info i \<longleftrightarrow> length (ti_create_time i) < MAX_TIMESTAMP_SIZE \<and> length (ti_modify_time i) < MAX_TIMESTAMP_SIZE \<and>
     length (ti_task_id i) < MAX_UUID_SIZE \<and> length (ti_task_name i) < MAX_NAME_SIZE \<and>
     length (ti_group_id i) < MAX_MEM_LIST_SIZE \<and> length (ti_group_name i) < MAX_MEM_LIST_SIZE \<and>
     length (ti_config_id i) < MAX_UUID_SIZE \<and> length (ti_schedule_id i) < MAX_UUID_SIZE \<and>
     length (ti_first_schedule_time i) < MAX_TIMESTAMP_SIZE \<and> length (ti_schedule_list i) < MAX_SCHEDULE_LIST_SIZE"

definition typed_target :: "gvm_target_info \<Rightarrow> bool" where
  "typed_target g \<longleftrightarrow> length (tg_target_name g) < MAX_NAME_SIZE \<and> length (tg_target_id g) < MAX_UUID_SIZE \<and>
     length (tg_portlist_id g) < MAX_UUID_SIZE \<and> length (tg_hosts g) < MAX_MEM_LIST_SIZE"

definition typed_report :: "gvm_report_info \<Rightarrow> bool" where
  "typed_report r \<longleftrightarrow> 0 \<le> rp_progress r \<and> rp_progress r \<le> 100 \<and> length (rp_start_time r) < MAX_TIMESTAMP_SIZE \<and>
     length (rp_stop_time r) < MAX_TIMESTAMP_SIZE \<and> length (rp_cur_report_id r) < MAX_UUID_SIZE \<and>
     length (rp_last_report_id r) < MAX_UUID_SIZE"

definition typed_nvt :: "ResultNvtInfo \<Rightarrow> bool" where
  "typed_nvt n \<longleftrightarrow> length (res_id n) < MAX_UUID_SIZE \<and> length (res_name n) < MAX_NVT_NAME_SIZE \<and>
     length (res_host n) < MAX_COMM_SIZE \<and> length (res_port n) < MAX_COMM_SIZE \<and>
     length (res_threat n) < MAX_COMM_MIN_SIZE \<and> length (res_severity n) < MAX_COMM_MIN_SIZE \<and>
     length (res_create_time n) < MAX_TIMESTAMP_SIZE \<and> length (res_cve n) < MAX_COMM_MIN_SIZE"

text \<open>The next page starts after the results that are there, nothing is there before the total is known,
  and the results are complete only when their number is the total.\<close>

definition typed_results :: "gvm_result_info \<Rightarrow> bool" where
  "typed_results r \<longleftrightarrow> lq_cnt (rs_results r) = int (length (lq_items (rs_results r))) \<and>
     rs_first r = lq_cnt (rs_results r) + 1 \<and> rs_rows r = 10 \<and>
     (lq_items (rs_results r) \<noteq> [] \<longrightarrow> 0 < rs_totalCnt r) \<and>
     (rs_done r \<longrightarrow> rs_totalCnt r = lq_cnt (rs_results r)) \<and>
     (\<forall>n\<in>set (lq_items (rs_results r)). typed_nvt (snd n))"

definition typed_paths :: "gvm_paths \<Rightarrow> bool" where
  "typed_paths q \<longleftrightarrow> (\<forall>s\<in>{OPENVAS_TASK_DIR q, OPENVAS_STATUS_FILE q, OPENVAS_STATUS_FILE_TMP q, OPENVAS_RESULT_FILE q,
     OPENVAS_RESULT_FILE_TMP q}. length s < MAX_FILENAME_PATH_SIZE)"

definition typed :: "gvm_task \<Rightarrow> bool" where
  "typed t \<longleftrightarrow> typed_info (m_task_info t) \<and> typed_target (m_target_info t) \<and> typed_report (m_report_info t) \<and>
     typed_results (m_result_info t) \<and> typed_paths (m_paths t)"

lemmas typed_defs = typed_info_def typed_target_def typed_report_def typed_nvt_def typed_paths_def

lemma typed_simps [simp]:
  "typed (upd_info f t) \<longleftrightarrow> typed_info (f (m_task_info t)) \<and> typed_target (m_target_info t) \<and>
     typed_report (m_report_info t) \<and> typed_results (m_result_info t) \<and> typed_paths (m_paths t)"
  "typed (upd_target g t) \<longleftrightarrow> typed_info (m_task_info t) \<and> typed_target (g (m_target_info t)) \<and>
     typed_report (m_report_info t) \<and> typed_results (m_result_info t) \<and> typed_paths (m_paths t)"
  "typed (upd_report h t) \<longleftrightarrow> typed_info (m_task_info t) \<and> typed_target (m_target_info t) \<and>
     typed_report (h (m_report_info t)) \<and> typed_results (m_result_info t) \<and> typed_paths (m_paths t)"
  "typed (t\<lparr>m_result_info := r\<rparr>) \<longleftrightarrow> typed_info (m_task_info t) \<and> typed_target (m_target_info t) \<and>
     typed_report (m_report_info t) \<and> typed_results r \<and> typed_paths (m_paths t)"
  "typed (t\<lparr>m_chk_type := c\<rparr>) \<longleftrightarrow> typed t" "typed (t\<lparr>m_chk_time := n\<rparr>) \<longleftrightarrow> typed t"
  by (auto simp: typed_def upd_info_def upd_target_def upd_report_def)

lemma upd_rest [simp]:
  "m_result_info (upd_info f t) = m_result_info t" "m_paths (upd_info f t) = m_paths t"
  "m_result_info (upd_target g t) = m_result_info t" "m_paths (upd_target g t) = m_paths t"
  by (simp_all add: upd_info_def upd_target_def)

lemma typedD:
  assumes "typed t"
  shows "typed_info (m_task_info t)" "typed_target (m_target_info t)" "typed_report (m_report_info t)"
    "typed_results (m_result_info t)" "typed_paths (m_paths t)"
  using assms by (simp_all add: typed_def)

lemma typed_new: "typed new_gvm_task"
  by (simp add: typed_def typed_defs typed_results_def new_gvm_task_def initGvmTaskInfo_def initGvmReportInfo_def
      initGvmResultInfo_def lq_init_def max_defs)

subsection \<open>Sizes of what the parts return\<close>

lemma getNextToken_size: "getNextToken s d buf n = (r, tok, rest) \<Longrightarrow> length buf < n \<Longrightarrow> length tok < n"
  by (auto simp: getNextToken_def Let_def split: if_splits option.splits)

lemma take_group_size: "0 < n \<Longrightarrow> length (snd (take_group m n)) < n"
  by (auto simp: take_group_def split: option.splits list.splits)

lemma text_sizes:
  assumes "0 < n"
  shows "length (snd (getPatternKey rec k pat n)) < n" "length (snd (extractAttrUuid s t n)) < n"
    "length (snd (time2asc env c f n l)) < n" "length (snd (utc2LocalTime env n s)) < n"
    "length (snd (getNodeAttr env x nm n)) < n" "length (snd (getNodeText env x n)) < n"
    "length (snd (findChildNodeText env x nm n)) < n" "length (snd (findSimpleNodeText env x nm n)) < n"
    "length (snd (findSimpleNodeAttr env x nm at n)) < n"
proof -
  show t: "length (snd (time2asc env c f n l)) < n" for c f l
    using assms by (auto simp: time2asc_def split: option.splits)
  show a: "length (snd (getNodeAttr env x nm n)) < n" for x nm
    using assms by (auto simp: getNodeAttr_def split: option.splits)
  show x: "length (snd (getNodeText env x n)) < n" for x
    using assms by (auto simp: getNodeText_def split: option.splits)
  show "length (snd (utc2LocalTime env n s)) < n"
    using assms t by (auto simp: utc2LocalTime_def split: option.splits)
  show "length (snd (findChildNodeText env x nm n)) < n" "length (snd (findSimpleNodeText env x nm n)) < n"
    "length (snd (findSimpleNodeAttr env x nm at n)) < n"
    using assms x a
    by (auto simp: findChildNodeText_def findSimpleNodeText_def findSimpleNodeAttr_def split: option.splits prod.splits)
      (metis snd_conv)
  show "length (snd (getPatternKey rec k pat n)) < n" "length (snd (extractAttrUuid s t n)) < n"
    using assms by (simp_all add: getPatternKey_def extractAttrUuid_def take_group_size)
qed

lemma max_pos [simp]:
  "0 < MAX_UUID_SIZE" "0 < MAX_NAME_SIZE" "0 < MAX_MEM_LIST_SIZE" "0 < MAX_TIMESTAMP_SIZE" "0 < MAX_SCHEDULE_LIST_SIZE"
  "0 < MAX_COMM_SIZE" "0 < MAX_COMM_MIN_SIZE" "0 < MAX_NVT_NAME_SIZE" "0 < MAX_FILENAME_PATH_SIZE"
  by (simp_all add: max_defs)

subsection \<open>The parts keep the types\<close>

lemma typed_token:
  "length buf < n \<Longrightarrow> (\<And>r tok rest. length tok < n \<Longrightarrow> typed (snd (f r tok rest))) \<Longrightarrow>
    typed (snd (case getNextToken s d buf n of (r, tok, rest) \<Rightarrow> f r tok rest))"
  by (cases "getNextToken s d buf n") (auto dest: getNextToken_size)

lemma typed_number:
  "(\<And>r k rest. typed (snd (f r k rest))) \<Longrightarrow> typed (snd (case getNextTokenInt s d of (r, k, rest) \<Rightarrow> f r k rest))"
  by (cases "getNextTokenInt s d") simp

lemma typed_branch: "typed (snd x) \<Longrightarrow> typed (snd y) \<Longrightarrow> typed (snd (if c then x else y))"
  by simp

lemma typed_let: "typed (snd (f x)) \<Longrightarrow> typed (snd (let y = x in f y))"
  by simp

lemma port_list_size: "length DEF_OPENVAS_PORT_LIST_ID < MAX_UUID_SIZE"
  by (simp add: DEF_OPENVAS_PORT_LIST_ID_def max_defs)

lemma typed_key_param: "typed t \<Longrightarrow> typed (snd (getKeyTaskParam input t))"
  unfolding getKeyTaskParam_def
  by (intro typed_token typed_branch typed_let) (auto simp: typed_def typed_info_def typed_target_def)

lemma typed_create_param: "typed t \<Longrightarrow> typed (snd (getCreateTaskParam input t))"
  unfolding getCreateTaskParam_def
  by (intro typed_token typed_number typed_branch typed_let)
    (simp_all add: port_list_size typed_def typed_info_def typed_target_def)

lemma path_buf_size: "length (path_buf s) < MAX_FILENAME_PATH_SIZE"
  by (simp add: path_buf_def snprintf_def max_defs)

lemma typed_prepare: "typed t \<Longrightarrow> typed (snd (prepareGvmPaths d t))"
  by (auto simp: prepareGvmPaths_def Let_def typed_def typed_paths_def path_buf_size)

lemma typed_setters:
  "typed t \<Longrightarrow> typed (setTaskStatus s t)" "typed t \<Longrightarrow> typed (setTaskChkType c t)"
  "typed t \<Longrightarrow> typed (setTaskStartTime x t)" "typed t \<Longrightarrow> typed (setTaskStopTime x t)"
  "typed t \<Longrightarrow> 0 \<le> n \<Longrightarrow> n \<le> 100 \<Longrightarrow> typed (setTaskProgress n t)"
  by (simp_all add: task_setters typed_def typed_report_def upd_report_def)

lemma typed_reset: "typed t \<Longrightarrow> typed (t\<lparr>m_result_info := resetGvmResultInfo (m_result_info t)\<rparr>)"
  by (simp add: typed_def typed_results_def resetGvmResultInfo_def lq_init_def)

subsection \<open>Results\<close>

lemma typed_parse_nvt:
  assumes "parse_nvt env cur = Inr n"
  shows "typed_nvt n"
proof -
  obtain child cve where "findChildNodeText env child ''cvss_base'' MAX_COMM_MIN_SIZE = (0, cve)"
    and n: "n = \<lparr>res_id = snd (getNodeAttr env cur ''id'' MAX_UUID_SIZE),
      res_name = snd (findChildNodeText env cur ''name'' MAX_NVT_NAME_SIZE),
      res_host = snd (findChildNodeText env cur ''host'' MAX_COMM_SIZE),
      res_port = snd (findChildNodeText env cur ''port'' MAX_COMM_SIZE),
      res_threat = snd (findChildNodeText env cur ''threat'' MAX_COMM_MIN_SIZE),
      res_severity = snd (findChildNodeText env cur ''severity'' MAX_COMM_MIN_SIZE),
      res_create_time = snd (utc2LocalTime env MAX_TIMESTAMP_SIZE (snd (findChildNodeText env cur ''creation_time'' MAX_COMM_SIZE))),
      res_cve = cve\<rparr>"
    using assms by (auto simp: parse_nvt_def Let_def split: if_splits option.splits prod.splits)
  then have "length cve < MAX_COMM_MIN_SIZE" using text_sizes(7) [of MAX_COMM_MIN_SIZE env child] max_pos(7) by (metis snd_conv)
  then show ?thesis by (simp add: n typed_nvt_def text_sizes)
qed

text \<open>What is true of the results while a page is added: all but the start of the next page.\<close>

definition adding :: "gvm_result_info \<Rightarrow> bool" where
  "adding r \<longleftrightarrow> typed_results (r\<lparr>rs_first := lq_cnt (rs_results r) + 1\<rparr>)"

lemma typed_adding: "typed_results r \<Longrightarrow> adding r"
  by (simp add: adding_def typed_results_def)

lemma adding_push: "adding r \<Longrightarrow> 0 < rs_totalCnt r \<Longrightarrow> \<not> rs_done r \<Longrightarrow> typed_nvt n \<Longrightarrow> adding (push_nvt n r)"
  by (auto simp: adding_def typed_results_def push_nvt_def lq_push_def)

lemma push_nvt_same [simp]: "rs_totalCnt (push_nvt n r) = rs_totalCnt r" "rs_done (push_nvt n r) = rs_done r"
  by (simp_all add: push_nvt_def)

lemma adding_parse_nvts:
  assumes "adding r" "0 < rs_totalCnt r" "\<not> rs_done r" "run_state (parse_nvts env ns r) w = ((k, r'), w')"
  shows "adding r' \<and> rs_totalCnt r' = rs_totalCnt r \<and> \<not> rs_done r'"
  using assms
proof (induction ns arbitrary: r w)
  case Nil
  then show ?case by simp
next
  case (Cons x ns)
  obtain b w1 where f: "run_state (fails env) w = (b, w1)" by (metis surj_pair)
  show ?case
  proof (cases "is_elem x \<and> \<not> b \<and> (\<exists>n. parse_nvt env x = Inr n)")
    case True
    then obtain n where n: "parse_nvt env x = Inr n" by blast
    then have "run_state (parse_nvts env ns (push_nvt n r)) w1 = ((k, r'), w')" using Cons.prems(4) True f by simp
    from Cons.IH [OF _ _ _ this] show ?thesis
      using adding_push [OF Cons.prems(1-3) typed_parse_nvt [OF n]] Cons.prems(2,3) by simp
  next
    case False
    then consider "run_state (parse_nvts env ns r) w = ((k, r'), w')" | "r' = r"
      using Cons.prems(4) f by (cases "is_elem x"; cases b; cases "parse_nvt env x") auto
    then show ?thesis using Cons.IH [OF Cons.prems(1-3)] Cons.prems by cases auto
  qed
qed

lemma typed_total:
  assumes "typed_results r" "total_count env doc r = (k, r')"
  shows "typed_results r'" "k = 0 \<Longrightarrow> 0 \<le> rs_totalCnt r'" "\<not> rs_done r \<Longrightarrow> \<not> rs_done r'"
  using assms by (auto simp: total_count_def typed_results_def split: if_splits prod.splits)

lemma typed_parseResult:
  fixes w :: "'a world_scheme"
  assumes "typed_results r" "\<not> rs_done r" "run_state (parseResult env buf r) w = ((k, r'), w')"
  shows "typed_results r'"
proof -
  obtain d w1 where d: "run_state (open_doc env buf) w = (d, w1)" by (metis surj_pair)
  show ?thesis
  proof (cases d)
    case None
    then show ?thesis using assms d by (simp add: parseResult_def)
  next
    case (Some doc)
    obtain e r1 where t: "total_count env doc r = (e, r1)" by (metis surj_pair)
    note t1 = typed_total [OF assms(1) t]
    define m :: "('a world_scheme, int \<times> gvm_result_info) state" where "m = (if e \<noteq> 0 then ret (e, r1)
      else if rs_totalCnt r1 = 0 then ret (0, r1\<lparr>rs_done := True\<rparr>)
      else case findPathNode env doc ''/get_results_response/result'' of
             None \<Rightarrow> ret (- 4, r1)
           | Some ns \<Rightarrow> do {
               (r, info) \<leftarrow> parse_nvts env ns r1;
               ret (r, if r = 0 \<and> rs_totalCnt info = lq_cnt (rs_results info)
                       then info\<lparr>rs_done := True\<rparr> else info) })"
    obtain k2 r2 w2 where m2: "run_state m w1 = ((k2, r2), w2)" by (metis surj_pair)
    have r': "r' = r2\<lparr>rs_first := lq_cnt (rs_results r2) + 1\<rparr>"
      using assms(3) d Some t m2 by (auto simp: parseResult_def m_def)
    have "adding r2"
    proof (cases "e \<noteq> 0 \<or> rs_totalCnt r1 = 0 \<or> findPathNode env doc ''/get_results_response/result'' = None")
      case True
      then show ?thesis
        using m2 typed_adding [OF t1(1)] by (auto simp: m_def adding_def typed_results_def split: if_splits)
    next
      case False
      then obtain ns where ns: "findPathNode env doc ''/get_results_response/result'' = Some ns" by auto
      obtain k3 r3 w3 where p3: "run_state (parse_nvts env ns r1) w1 = ((k3, r3), w3)" by (metis surj_pair)
      have "adding r3 \<and> rs_totalCnt r3 = rs_totalCnt r1 \<and> \<not> rs_done r3"
        using adding_parse_nvts [OF typed_adding [OF t1(1)] _ t1(3) [OF assms(2)] p3] t1(2) False by simp
      moreover have "r2 = (if k3 = 0 \<and> rs_totalCnt r3 = lq_cnt (rs_results r3) then r3\<lparr>rs_done := True\<rparr> else r3)"
        using m2 False ns p3 by (auto simp: m_def)
      ultimately show ?thesis by (auto simp: adding_def typed_results_def)
    qed
    then show ?thesis by (simp add: r' adding_def)
  qed
qed

subsection \<open>Reports\<close>

lemma typed_parse_report: "typed_report i \<Longrightarrow> typed_report (snd (parse_report_node env x i))"
  by (simp add: parse_report_node_def Let_def typed_report_def text_sizes report_progress_def)

lemma typed_parse_task: "typed_report i \<Longrightarrow> typed_report (snd (parse_task_node env x i))"
  by (simp add: parse_task_node_def Let_def typed_report_def text_sizes)

lemma typed_parses:
  assumes "typed_report i"
  shows "wp (parseReport env buf i) (\<lambda>ki _. typed_report (snd ki)) w" "wp (parseTask env buf i) (\<lambda>ki _. typed_report (snd ki)) w"
proof -
  have r: "typed_report (snd (case parse_report_node env c i of (r, info) \<Rightarrow> (if r = 0 then 0 else - 1 :: int, info)))" for c
    using typed_parse_report [OF assms, of env c] by (cases "parse_report_node env c i") simp
  have t: "typed_report (snd (case parse_task_node env c i of (r, info) \<Rightarrow> (if r = 0 then 0 else - 1 :: int, info)))" for c
    using typed_parse_task [OF assms, of env c] by (cases "parse_task_node env c i") simp
  show "wp (parseReport env buf i) (\<lambda>ki _. typed_report (snd ki)) w" "wp (parseTask env buf i) (\<lambda>ki _. typed_report (snd ki)) w"
    unfolding parseReport_def parseTask_def wp_bind by (rule wp_any, use assms r t in \<open>simp split: option.split\<close>)+
qed

lemma typed_updateTaskReport: "typed_report info \<Longrightarrow> typed t \<Longrightarrow> typed (snd (updateTaskReport info t))"
  by (auto simp: updateTaskReport_def Let_def typed_def typed_report_def)

abbreviation typed_objs :: "nat \<Rightarrow> gvm_task \<Rightarrow> bool" where "typed_objs \<equiv> \<lambda>_. typed"

lemmas ty_upd = ob_upd [where I = typed_objs]

lemma ty_paths: "rel (keeps_objs typed_objs) (prepare_paths p)"
  unfolding prepare_paths_def by (intro ob.rel_intros ob_get ty_upd typed_prepare)

lemma ty_sched: "rel (keeps_objs typed_objs) (setTaskNextChkTime env p n)"
  unfolding setTaskNextChkTime_def by (intro ob.rel_intros ob_same [OF ss_calls(3)] ty_upd) simp_all

lemma ty_files:
  "rel (keeps_objs typed_objs) (writeTaskFile env)" "rel (keeps_objs typed_objs) (writeTaskStatusFile env p)"
  "rel (keeps_objs typed_objs) (writeTaskResult env p s)"
  unfolding writeTaskFile_def writeTaskStatusFile_def writeTaskResult_def
  by (intro ob.rel_intros ob_get ty_paths ob_same [OF ss_files(1)])+

lemma ty_relation_files:
  "rel (keeps_objs typed_objs) (createTaskRelationFiles env p)" "rel (keeps_objs typed_objs) (delTaskRelationFiles env p)"
  unfolding createTaskRelationFiles_def record_task_def delTaskRelationFiles_def forget_task_def
  by (intro ob.rel_intros ob_get ob_containers ty_paths ty_files ob_same [OF ss_files(3)] ob_same [OF ss_files(4)])+

subsection \<open>The operations keep the types\<close>

lemma typed_init: "typed_report initGvmReportInfo"
  by (simp add: typed_report_def initGvmReportInfo_def max_defs)

lemma ob_bind_fun:
  "rel (keeps_objs I) m \<Longrightarrow> (\<And>a. rel (keeps_objs I) (f a)) \<Longrightarrow> rel (keeps_objs I) (State_Monad.bind m f)"
  by (rule ob.rel_bind)

lemma ty_take_report: "typed_report info \<Longrightarrow> rel (keeps_objs typed_objs) (take_report env p info)"
  unfolding take_report_def
  by (intro ob.rel_intros ob_get ty_files ty_upd typed_setters) (simp_all add: typed_report_def)

lemma ty_new_report: "rel (keeps_objs typed_objs) (new_report env p info)"
  unfolding new_report_def
  by (intro ob.rel_intros ob_get ty_files ty_upd typed_setters) (simp_all add: typed_def typed_report_def)

lemmas ob_gvm = frame_gvm [THEN ob_frame] and ob_parse = frame_parse [THEN ob_frame]

lemma ty_query_report: "rel (keeps_objs typed_objs) (backend_query_report env p)"
  unfolding backend_query_report_def
  by (intro ob.rel_bind ob_get ob_gvm rel_prod ob.rel_bind_wp [where P = "\<lambda>ri. typed_report (snd ri)"] rel_if ob.rel_return
      ob_parse ob_containers ty_sched ty_take_report)
    (auto simp: typed_init typed_parses)

lemma ty_query_task: "rel (keeps_objs typed_objs) (backend_query_task env p)"
  unfolding backend_query_task_def
  by (intro ob.rel_bind ob_get ob_gvm rel_prod ob.rel_bind_wp [where P = "\<lambda>ri. typed_report (snd ri)"] rel_if ob.rel_return
      ob_parse ob_containers ty_sched ty_new_report ty_upd typed_updateTaskReport)
    (auto simp: typed_init typed_parses)

lemma ty_query_results: "rel (keeps_objs typed_objs) (query_results env p)"
proof (rule relI)
  fix w w' :: "'a dworld_scheme" and k
  assume rn: "run_state (query_results env p) w = (k, w')"
  let ?t = "task_at w p"
  obtain r out w1 where r1: "run_state (gvm_query_result env (task_id ?t) (rp_cur_report_id (m_report_info ?t))
      (rs_first (m_result_info ?t)) (rs_rows (m_result_info ?t))) w = ((r, out), w1)" by (metis surj_pair)
  obtain c info w2 where r2: "run_state (parseResult env out (m_result_info ?t)) w1 = ((c, info), w2)" by (metis surj_pair)
  have t: "tasks w1 = tasks w" "tasks w2 = tasks w"
    using frame_fields [OF keeps_run [OF frame_gvm(5) r1]] frame_fields [OF keeps_run [OF frame_parse(1) r2]] by simp_all
  consider "w' = w" | "w' = w1" | "\<not> rs_done (m_result_info ?t)"
      "w' = w2\<lparr>tasks := (tasks w2)(p := map_option (\<lambda>t. t\<lparr>m_result_info := info\<rparr>) (tasks w2 p))\<rparr>"
    using rn r1 r2 by (auto simp: query_results_def get_task_def upd_task_def split: if_splits)
  then show "keeps_objs typed_objs w w'"
  proof cases
    case 3
    have "typed_results info" if "typed ?t" using typed_parseResult [OF typedD(4) [OF that] 3(1) r2] .
    then show ?thesis
      using 3(2) t by (auto simp: keeps_objs_def objs_def task_at_def typedD split: if_splits)
  qed (simp_all add: keeps_objs_def objs_def t)
qed

lemma ty_query_result: "rel (keeps_objs typed_objs) (backend_query_result env p)"
  unfolding backend_query_result_def finish_results_def
  by (intro ob.rel_intros ob_get ty_query_results ty_files ty_upd typed_setters typed_reset ty_sched ob_containers)

lemma ty_check_task: "rel (keeps_objs typed_objs) (check_task env p)"
  unfolding check_task_def delete_check_def
  by (intro ob.rel_intros ob_get ty_query_task ty_query_report ty_query_result ty_relation_files ob_free ty_sched ob_containers)

lemma ty_runGvmChecks: "rel (keeps_objs typed_objs) (runGvmChecks env)"
  unfolding runGvmChecks_def isTaskChkTimeExpired_def
  by (intro ob.rel_intros ob_get ob_same [OF ss_calls(3)] ty_check_task)

subsection \<open>Requests\<close>

lemma ty_on_delete:
  "rel (keeps_objs typed_objs) (on_info (gvm_option_delete_schedule env) p)"
  "rel (keeps_objs typed_objs) (on_info (gvm_option_delete_config env) p)"
  by (rule ob_on_info, rule frame_gvm, simp add: gvm_option_delete_schedule_def gvm_option_delete_config_def typed_def
      typed_info_def, auto intro: wp_any)+

lemma ty_locate: "rel (keeps_objs typed_objs) (locate_task env key input)"
  unfolding locate_task_def by (intro ob.rel_intros ob_get ty_upd typed_key_param ob_containers)

lemma ty_with_task: "(\<And>p. rel (keeps_objs typed_objs) (body p)) \<Longrightarrow> rel (keeps_objs typed_objs) (with_task env input body)"
  unfolding with_task_def by (intro ob.rel_intros ob_new [where I = typed_objs] typed_new ty_locate ob_free)

lemma ty_daemon_task:
  "rel (keeps_objs typed_objs) (daemon_start_task env input)" "rel (keeps_objs typed_objs) (daemon_stop_task env input)"
  "rel (keeps_objs typed_objs) (daemon_delete_task env input)"
  unfolding daemon_start_task_def daemon_stop_task_def daemon_delete_task_def start_found_def stop_found_def delete_found_def
  by (intro ty_with_task ob.rel_intros ob_get ob_gvm ty_sched ob_containers ty_on_delete ty_relation_files ob_free ty_upd
      typed_setters)+

lemma ty_undo: "rel (keeps_objs typed_objs) (undo_create env p)"
  unfolding undo_create_def undo_parts_def by (intro ob.rel_intros ob_get ob_gvm ty_on_delete ob_free)

subsection \<open>Creating\<close>

text \<open>A group that is not a list of identifiers is one identifier, so that its copy has room for the
  terminator.\<close>

lemma star_nonempty: "w \<in> star L \<Longrightarrow> w \<noteq> [] \<Longrightarrow> \<exists>u v. w = u @ v \<and> u \<in> L \<and> v \<in> star L"
  by (erule star.cases) auto

lemma single_group_size:
  assumes "chkConfigInfo ids names = 0" "isMultiUuid ids = 0"
  shows "length ids < MAX_UUID_SIZE"
proof -
  let ?S = "Seq (Chr CHR '','') UUID_REG_PATTERN"
  obtain a b where ab: "ids = a @ b" "a \<in> lang UUID_REG_PATTERN" "b \<in> star (lang ?S)"
    using assms(1) by (auto simp: chkConfigInfo_def Let_def regmatch_whole_def matches_lang OR_REPEAT_def split: if_splits)
  have "b = []"
  proof (rule ccontr)
    assume "b \<noteq> []"
    then have "b \<in> lang (Plus ?S)" using star_nonempty [OF ab(3)] by (auto simp: Plus_def)
    then have "ids \<in> lang (Seq UUID_REG_PATTERN (Plus ?S))" using ab by auto
    then have "found_in (Seq UUID_REG_PATTERN (Plus ?S)) ids"
      unfolding found_in_lang by (metis append.left_neutral append.right_neutral)
    then show False using assms(2) by (simp add: isMultiUuid_def regmatch_search_def)
  qed
  then show ?thesis using ab by (simp add: uuid_lang_iff max_defs)
qed

definition created_objs :: "nat \<Rightarrow> nat \<Rightarrow> gvm_task \<Rightarrow> bool" where
  "created_objs p q t \<longleftrightarrow> typed t \<and>
     (q = p \<longrightarrow> isMultiUuid (ti_group_id (m_task_info t)) = 0 \<longrightarrow> length (ti_group_id (m_task_info t)) < MAX_UUID_SIZE)"

lemma create_size: "length old < n \<Longrightarrow> wp (gvm_create env cmd xml old n) (\<lambda>ru _. length (snd ru) < n) w"
  unfolding gvm_create_def wp_bind by (rule wp_any) (auto simp: text_sizes split: prod.split)

lemma create_target_size:
  "length old < n \<Longrightarrow> wp (gvm_create_target env nm h pl old n) (\<lambda>ru _. length (snd ru) < n) w"
  unfolding gvm_create_target_def using wp_mono [OF create_size [of old n env _ _ w]] by (auto split: prod.split)

lemma create_task_size:
  "length old < n \<Longrightarrow> wp (gvm_create_task env nm tg cf sc old n) (\<lambda>ru _. length (snd ru) < n) w"
  unfolding gvm_create_task_def using wp_mono [OF create_size [of old n env _ _ w]] by (auto split: prod.split)

lemma create_schedule_size:
  "0 < n \<Longrightarrow> wp (gvm_create_schedule env nm ty utc ds n) (\<lambda>ru _. length (snd ru) < n) w"
  unfolding gvm_create_schedule_def by (auto intro: create_size)

lemma option_schedule_typed:
  assumes "typed_info i"
  shows "wp (gvm_option_create_schedule env i) (\<lambda>ri _. typed_info (snd ri) \<and> ti_group_id (snd ri) = ti_group_id i) w"
proof (rule wpI)
  fix ri w'
  assume rn: "run_state (gvm_option_create_schedule env i) w = (ri, w')"
  obtain e utc w1 where r1: "run_state (local2SchedTime env MAX_TIMESTAMP_SIZE (ti_first_schedule_time i)
      (ti_schedule_type i = ICAL_DATE_ONCE)) w = ((e, utc), w1)" by (metis surj_pair)
  obtain c u w2 where r2: "run_state (gvm_create_schedule env (ti_task_name i) (ti_schedule_type i) utc
      (ti_schedule_list i) MAX_UUID_SIZE) w1 = ((c, u), w2)" by (metis surj_pair)
  have "length u < MAX_UUID_SIZE" using wp_run [OF create_schedule_size r2] by simp
  then show "typed_info (snd ri) \<and> ti_group_id (snd ri) = ti_group_id i"
    using rn r1 r2 assms by (auto simp: gvm_option_create_schedule_def typed_info_def Let_def split: if_splits)
qed

lemma option_config_typed:
  assumes "typed_info i" "isMultiUuid (ti_group_id i) = 0 \<Longrightarrow> length (ti_group_id i) < MAX_UUID_SIZE"
  shows "wp (gvm_option_create_config env i) (\<lambda>ri _. typed_info (snd ri) \<and> ti_group_id (snd ri) = ti_group_id i) w"
proof (rule wpI)
  fix ri w'
  assume rn: "run_state (gvm_option_create_config env i) w = (ri, w')"
  obtain c u w2 where r2: "run_state (gvm_create_config_ex env (ti_task_name i) (ti_group_id i) (ti_group_name i)
      (ti_config_id i) MAX_UUID_SIZE) w = ((c, u), w2)" by (metis surj_pair)
  have "length u < MAX_UUID_SIZE"
    using wp_run [OF create_size r2 [unfolded gvm_create_config_ex_def]] assms(1) by (simp add: typed_info_def)
  then show "typed_info (snd ri) \<and> ti_group_id (snd ri) = ti_group_id i"
    using rn r2 assms by (auto simp: gvm_option_create_config_def typed_info_def split: if_splits)
qed

lemma cr_on_info:
  fixes f :: "gvm_task_info \<Rightarrow> ('a dworld_scheme, int \<times> gvm_task_info) state"
  assumes "\<And>i. frame (f i)" "\<And>t w. created_objs p p t \<Longrightarrow>
      wp (f (m_task_info t)) (\<lambda>ri _. typed_info (snd ri) \<and> ti_group_id (snd ri) = ti_group_id (m_task_info t)) w"
  shows "rel (keeps_objs (created_objs p)) (on_info f p)"
proof (rule ob_on_info [OF assms(1)])
  fix t and w :: "'a dworld_scheme"
  assume t: "created_objs p p t"
  show "wp (f (m_task_info t)) (\<lambda>ri _. \<forall>s. created_objs p p s \<longrightarrow> created_objs p p (upd_info (\<lambda>_. snd ri) s)) w"
    by (rule wp_mono [OF assms(2) [OF t]]) (use t in \<open>auto simp: created_objs_def typedD\<close>)
qed

lemma cr_create_parts: "rel (keeps_objs (created_objs p)) (create_parts env p)"
proof -
  note [simp] = created_objs_def
  have s: "rel (keeps_objs (created_objs p)) (on_info (gvm_option_create_schedule env) p)"
    by (rule cr_on_info, rule frame_gvm, rule option_schedule_typed) (simp add: typedD)
  have c: "rel (keeps_objs (created_objs p)) (on_info (gvm_option_create_config env) p)"
    by (rule cr_on_info, rule frame_gvm, rule option_config_typed) (simp_all add: typedD)
  have k: "rel (keeps_objs (created_objs p)) (do { t \<leftarrow> get_task p;
      (r, uuid) \<leftarrow> gvm_create_task env (task_name t) (tg_target_id (m_target_info t))
             (ti_config_id (m_task_info t)) (ti_schedule_id (m_task_info t)) (task_id t) MAX_UUID_SIZE;
      upd_task p (upd_info (\<lambda>i. i\<lparr>ti_task_id := uuid\<rparr>));
      ret (if r = 0 then 0 else GVM_ERR_OPENVAS_PROC_FAIL) })"
    by (rule ob_replace [OF frame_gvm(9) wp_mono [OF create_task_size] ob.rel_return])
      (auto simp: typed_def typed_info_def)
  show ?thesis
    unfolding create_parts_def
    by (rule ob_replace [OF frame_gvm(8) wp_mono [OF create_target_size]])
      (auto simp: typed_def typed_target_def intro!: ob.rel_return ob.rel_bind s c k)
qed

lemma ty_store_created: "rel (keeps_objs typed_objs) (store_created env p)"
  unfolding store_created_def
  by (intro ob.rel_bind_wp [where P = "\<lambda>rs. length (snd rs) < MAX_TIMESTAMP_SIZE"] ob_same [OF ss_stamp] rel_prod
      ob.rel_bind ob.rel_return rel_if ty_upd typed_setters ty_sched ty_relation_files)
    (auto simp: nowTimeStamp_def typed_def typed_info_def text_sizes intro: wp_any)

lemma getCreateTaskParam_group: "getCreateTaskParam input t = (0, t') \<Longrightarrow>
    chkConfigInfo (ti_group_id (m_task_info t')) (ti_group_name (m_task_info t')) = 0"
  by (auto simp: getCreateTaskParam_def Let_def split: prod.splits if_splits)

lemma ty_create_checked:
  assumes o: "objs typed_objs w" and p: "tasks w p = Some new_gvm_task"
    and rn: "run_state (create_checked env p input) w = (r, w')"
  shows "objs typed_objs w'"
proof -
  let ?t = "getCreateTaskParam input new_gvm_task"
  let ?w = "w\<lparr>tasks := (tasks w)(p \<mapsto> snd ?t)\<rparr>"
  have o1: "objs typed_objs ?w" using o typed_create_param [OF typed_new] by (simp add: objs_def)
  show ?thesis
  proof (cases "fst ?t = 0")
    case False
    then show ?thesis
      using rn p o1 by (auto simp: create_checked_def get_task_def upd_task_def task_at_def)
  next
    case True
    then have "getCreateTaskParam input new_gvm_task = (0, snd ?t)" by (simp add: prod_eq_iff)
    from single_group_size [OF getCreateTaskParam_group [OF this]] have g: "objs (created_objs p) ?w"
      using o1 by (auto simp: objs_def created_objs_def)
    have "run_state (do { ok \<leftarrow> gets m_is_gvm_conn_ok;
       if \<not> ok then ret GVM_ERR_GVMD_CONN
       else do {
         f \<leftarrow> findGvmTask p;
         if f \<noteq> None then ret GVM_ERR_TASK_ALREADY_EXISTS
         else do {
           r \<leftarrow> create_parts env p;
           if r \<noteq> 0 then ret r else store_created env p
         }
       }}) ?w = (r, w')"
      using True rn p by (auto simp: create_checked_def get_task_def upd_task_def task_at_def)
    then consider "w' = ?w" | q w2 where "run_state (create_parts env p) ?w = (q, w2)"
        "run_state (if q \<noteq> 0 then ret q else store_created env p) w2 = (r, w')"
      by (auto simp: findGvmTask_def split: if_splits prod.splits)
    then show ?thesis
    proof cases
      case 1
      then show ?thesis using o1 by simp
    next
      case 2
      have "objs (created_objs p) w2" using rel_run [OF cr_create_parts 2(1)] g by (simp add: keeps_objs_def)
      then have "objs typed_objs w2" by (simp add: objs_def created_objs_def)
      moreover have "rel (keeps_objs typed_objs) (if q \<noteq> 0 then ret q else store_created env p)"
        by (intro ob.rel_intros ty_store_created)
      ultimately show ?thesis using rel_run [OF _ 2(2)] unfolding keeps_objs_def by blast
    qed
  qed
qed

lemma ty_daemon_create_task: "rel (keeps_objs typed_objs) (daemon_create_task env input)"
proof (rule relI)
  fix w w' :: "'a dworld_scheme" and r
  assume rn: "run_state (daemon_create_task env input) w = (r, w')"
  obtain k w1 where r1: "run_state (newGvmTask env) w = (k, w1)" by (metis surj_pair)
  have t1: "keeps_objs typed_objs w w1" using rel_run [OF ob_new [where I = typed_objs] r1] typed_new by blast
  show "keeps_objs typed_objs w w'"
  proof (cases k)
    case None
    then show ?thesis using rn r1 t1 by (simp add: daemon_create_task_def)
  next
    case (Some p)
    obtain q w2 where r2: "run_state (create_checked env p input) w1 = (q, w2)" by (metis surj_pair)
    have "tasks w1 p = Some new_gvm_task" using r1 Some by (auto simp: newGvmTask_def fails_def now_def split: if_splits)
    note t2 = ty_create_checked [OF _ this r2]
    have "keeps_objs typed_objs w2 w'"
      using rn r1 r2 Some ob.R_refl [of typed_objs] rel_run [OF ty_undo]
      by (auto simp: daemon_create_task_def split: if_splits prod.splits)
    then show ?thesis using t1 t2 unfolding keeps_objs_def by blast
  qed
qed

subsection \<open>Reading the files\<close>

fun sized_field :: "('a \<Rightarrow> bool) \<Rightarrow> 'a rfield \<Rightarrow> bool" where
  "sized_field Q (RText key pat n st) \<longleftrightarrow> 0 < n \<and> (\<forall>v t t'. length v < n \<and> Q t \<and> st v t = Some t' \<longrightarrow> Q t')"
| "sized_field Q (RNum key pat st) \<longleftrightarrow> (\<forall>k t t'. Q t \<and> st k t = Some t' \<longrightarrow> Q t')"

lemma read_fields_sized:
  assumes "\<forall>f\<in>set fl. sized_field Q f" "Q t"
  shows "Q (snd (read_fields rec fl t))"
  using assms
proof (induction rec fl t rule: read_fields.induct)
  case (2 rec key pat n st fl t)
  obtain r v where v: "getPatternKey rec key pat n = (r, v)" by (metis surj_pair)
  then have "length v < n" using text_sizes(1) [of n rec key pat] "2.prems"(1) by simp
  then show ?case using 2 v by (auto split: option.split)
next
  case (3 rec key pat st fl t)
  obtain r k where "getPatternKeyInt rec key pat = (r, k)" by (metis surj_pair)
  then show ?case using 3 by (auto split: option.split)
qed simp

lemma typed_read_task: "typed t \<Longrightarrow> typed (snd (read_task rec t))"
proof -
  assume t: "typed t"
  have "\<forall>f\<in>set task_readers. sized_field (\<lambda>s. typed (snd s)) f"
    by (auto simp: task_readers_def set_info_def set_target_def typed_def typed_info_def typed_target_def)
  from read_fields_sized [OF this, of "(0, t)" rec] t
  obtain r n u where "read_fields rec task_readers (0, t) = (r, n, u)" "typed u"
    by (metis prod.collapse snd_conv)
  then show ?thesis by (simp add: read_task_def Let_def) (auto simp: typed_def typed_info_def typed_target_def)
qed

lemma typed_read_status: "typed t \<Longrightarrow> typed (snd (parseTaskStatusRecord cache t))"
proof -
  assume t: "typed t"
  have "\<forall>f\<in>set status_readers. sized_field typed f"
    by (auto simp: status_readers_def set_report_def task_setters typed_def typed_report_def split: if_splits)
  from read_fields_sized [OF this t] t show ?thesis by (auto simp: parseTaskStatusRecord_def split: option.split)
qed

lemma ty_parse_records: "rel (keeps_objs typed_objs) (parse_records n env s)"
proof (induction n arbitrary: s)
  case 0
  then show ?case by (simp add: ob.rel_return)
next
  case (Suc n)
  then show ?case
    unfolding parse_records.simps
    by (intro ob.rel_intros ob_new [where I = typed_objs] typed_new ob_get ty_upd typed_read_task ob_containers ob_free)
qed

lemma ty_init_steps: "rel (keeps_objs typed_objs) (init_steps env)"
  unfolding init_steps_def readTaskFile_def parseTaskRecord_def readAllTaskStatusRecs_def readTaskStatusFile_def
    addGvmChecks_def addTaskChecks_def
  by (intro ob.rel_intros ob_same [OF ss_files(2)] ob_same [OF ss_files(5)] ty_parse_records ob_get ty_upd typed_read_status
      ty_paths ty_sched ob_containers)

lemma ty_initDaemon: "rel (keeps_objs typed_objs) (initDaemon env)"
proof -
  have f: "rel (keeps_objs typed_objs) (finishData :: ('a dworld_scheme, unit) state)"
    unfolding finishData_def by (rule rel_modify) (auto simp: keeps_objs_def objs_def split: if_splits)
  show ?thesis
    unfolding initDaemon_def createData_def by (intro ob.rel_intros ob_same [OF ss_calls(1)] ob_keep ty_init_steps f) simp
qed

subsection \<open>The service\<close>

lemma ty_handlers:
  assumes "h \<in> set (g_hds env)"
  shows "rel (keeps_objs typed_objs) (snd h s)"
  using assms by (auto simp: g_hds_def intro: ss_daemon_hydra [THEN ob_same] ty_daemon_task ty_daemon_create_task)

lemma ty_processMsg: "rel (keeps_objs typed_objs) (processMsg env buf)"
proof -
  have f: "rel (keeps_objs typed_objs) (snd h s)" if "find P (g_hds env) = Some h" for P h and s
    by (rule find_all [OF that, of "\<lambda>h. rel (keeps_objs typed_objs) (snd h s)"]) (rule ty_handlers)
  show ?thesis unfolding processMsg_def by (intro ob.rel_intros f ob_same [OF ss_redis(1)])
qed

lemma ty_loop_body: "rel (keeps_objs typed_objs) (loop_body env key)"
  unfolding loop_body_def recvKbMsg_def handle_received_def processIdle_def clearKb_def
  by (intro ob.rel_intros ob_same [OF ss_redis(2)] ob_same [OF ss_redis(3)] ob_same [OF ss_timers] ob_same [OF ss_running]
      ty_processMsg ty_runGvmChecks ob_keep; simp)

text \<open>C5: in every state the service reaches, every text of every task object fits its buffer with its
  terminator, the progress is a percentage, and the paging of the results is consistent: the next page starts
  after the results that are there, and they are complete only when their number is the announced total.\<close>

theorem reachable_typed:
  assumes "reachable env key w0 w" "tasks w0 = Map.empty" "tasks w p = Some t"
  shows "typed t"
proof -
  have "objs typed_objs w"
    using assms(1)
  proof induction
    case (started w1 w2 w3 r w4)
    have "objs typed_objs w0" using assms(2) by (simp add: objs_def)
    then show ?case
      using rel_run [OF ty_initDaemon started(1)] rel_run [OF ob_same [OF ss_initHydra] started(2), of typed_objs]
        rel_run [OF ob_same [OF ss_redis(4)] started(3), of typed_objs]
        rel_run [OF ob_same [OF ss_redis(3)] started(4) [unfolded clearKb_def], of typed_objs]
      by (simp add: keeps_objs_def objs_def)
  next
    case (iterated w w1 w2)
    then show ?case
      using rel_run [OF ob_same [OF ss_running] iterated(2), of typed_objs] rel_run [OF ty_loop_body iterated(3)]
      by (simp add: keeps_objs_def)
  qed
  then show ?thesis using assms(3) by (simp add: objs_def)
qed

lemma reachable_typed_witness: "\<exists>p t. tasks demo_started p = Some t \<and> typed t"
  using demo_started_task reachable_typed [OF demo_started_reachable demo_unloaded] by blast

end
