(* ===== verification/CheckSteps.thy ===== *)
theory CheckSteps imports Objects begin

text \<open>
  The checks of one task as an abstract state machine: what a check does to the task, whatever the
  scanner, the file system and the XML library answer, is one step of \<open>check_step\<close>.
\<close>

subsection \<open>The state machine\<close>

text \<open>\<open>check_step t t' wait\<close>: a check of \<open>t\<close> may leave \<open>t'\<close>, to be checked again after \<open>wait\<close> seconds, or
  at once when \<open>wait\<close> is zero.  A task waits for a report that is new, follows it while its scan runs, collects
  its results page by page once the scan has ended, and waits again.\<close>

definition report_of :: "gvm_task_status \<Rightarrow> int \<Rightarrow> string \<Rightarrow> string \<Rightarrow> gvm_task \<Rightarrow> gvm_task" where
  "report_of st pr s1 s2 t =
     upd_report (\<lambda>r. r\<lparr>rp_start_time := s1, rp_stop_time := s2, rp_status := st, rp_progress := pr\<rparr>) t"

inductive check_step :: "gvm_task \<Rightarrow> gvm_task \<Rightarrow> int \<Rightarrow> bool" where
  no_news: "m_chk_type t = GVM_TASK_CHK_TASK \<Longrightarrow> check_step t t 300"
| new_scan: "m_chk_type t = GVM_TASK_CHK_TASK \<Longrightarrow> u \<noteq> [] \<Longrightarrow> u \<noteq> rp_cur_report_id (m_report_info t) \<Longrightarrow>
    check_step t (setTaskChkType GVM_TASK_CHK_REPORT (report_of GVM_TASK_READY 0 s1 s2
      (upd_report (\<lambda>r. r\<lparr>rp_last_report_id := rp_cur_report_id (m_report_info t), rp_cur_report_id := u,
        rp_report_cnt := i, rp_finish_cnt := j\<rparr>) t))) 0"
| no_progress: "m_chk_type t = GVM_TASK_CHK_REPORT \<Longrightarrow> check_step t t 120"
| progress: "m_chk_type t = GVM_TASK_CHK_REPORT \<Longrightarrow> st = GVM_TASK_WAITING \<or> st = GVM_TASK_RUNNING \<Longrightarrow>
    check_step t (report_of st pr s1 s2 t) 120"
| ended: "m_chk_type t = GVM_TASK_CHK_REPORT \<Longrightarrow> st = GVM_TASK_DONE \<or> st = GVM_TASK_STOP \<or> st = GVM_TASK_INTERRUPT \<Longrightarrow>
    check_step t (setTaskChkType GVM_TASK_CHK_RESULT (report_of st pr s1 s2 t)) 0"
| withdrawn: "m_chk_type t = GVM_TASK_CHK_REPORT \<Longrightarrow> st = GVM_TASK_CREATE \<or> st = GVM_TASK_READY \<or> st = GVM_TASK_ERROR \<Longrightarrow>
    check_step t (setTaskChkType GVM_TASK_CHK_TASK (report_of st pr s1 s2 t)) 300"
| page: "m_chk_type t = GVM_TASK_CHK_RESULT \<Longrightarrow> r = m_result_info t \<or> \<not> rs_done (m_result_info t) \<Longrightarrow>
    check_step t (t\<lparr>m_result_info := r\<rparr>) 5"
| collected: "m_chk_type t = GVM_TASK_CHK_RESULT \<Longrightarrow>
    check_step t ((setTaskChkType GVM_TASK_CHK_TASK t)\<lparr>m_result_info := initGvmResultInfo\<rparr>) 300"

inductive_cases check_stepE: "check_step t t' wait"

lemma check_step_wait: "check_step t t' wait \<Longrightarrow> 0 \<le> wait \<and> wait \<le> 300"
  by (induction rule: check_step.induct) simp_all

subsection \<open>Tasks without their path buffers\<close>

text \<open>The path buffers are scratch space; \<open>views\<close> are the tasks without them.\<close>

definition no_paths :: "gvm_task \<Rightarrow> gvm_task" where
  "no_paths t = t\<lparr>m_paths := m_paths new_gvm_task\<rparr>"

definition views :: "'a dworld_scheme \<Rightarrow> nat \<Rightarrow> gvm_task option" where
  "views w = (\<lambda>q. map_option no_paths (tasks w q))"

definition same_views :: "'a dworld_scheme \<Rightarrow> 'a dworld_scheme \<Rightarrow> bool" where
  "same_views w w' \<longleftrightarrow> views w' = views w"

interpretation vi: stepping same_views
  by unfold_locales (simp_all add: same_views_def)

lemma views_simps [simp]:
  "views (w\<lparr>tasks := (tasks w)(p \<mapsto> t)\<rparr>) = (views w)(p \<mapsto> no_paths t)" "views (w\<lparr>tick := n\<rparr>) = views w"
  "views (w\<lparr>m_runque := q\<rparr>) = views w"
  by (simp_all add: views_def fun_eq_iff)

lemma no_paths_simps [simp]:
  "m_task_info (no_paths t) = m_task_info t" "m_target_info (no_paths t) = m_target_info t"
  "m_report_info (no_paths t) = m_report_info t" "m_result_info (no_paths t) = m_result_info t"
  "m_chk_type (no_paths t) = m_chk_type t" "m_chk_time (no_paths t) = m_chk_time t"
  "no_paths (upd_report f t) = upd_report f (no_paths t)" "no_paths (t\<lparr>m_result_info := r\<rparr>) = (no_paths t)\<lparr>m_result_info := r\<rparr>"
  "no_paths (t\<lparr>m_chk_type := c\<rparr>) = (no_paths t)\<lparr>m_chk_type := c\<rparr>"
  "no_paths (t\<lparr>m_report_info := i\<rparr>) = (no_paths t)\<lparr>m_report_info := i\<rparr>"
  "no_paths (t\<lparr>m_chk_time := n\<rparr>) = (no_paths t)\<lparr>m_chk_time := n\<rparr>"
  by (simp_all add: no_paths_def upd_report_def)

lemma vi_frame: "frame m \<Longrightarrow> rel same_views m"
  by (erule ss_frame [THEN rel_mono]) (simp add: same_store_def same_views_def views_def)

lemma vi_get: "rel same_views (get_task p)"
  unfolding get_task_def by (rule vi.rel_gets)

lemma vi_upd: "(\<And>t. no_paths (f t) = no_paths t) \<Longrightarrow> rel same_views (upd_task p f)"
proof (rule relI)
  fix w a w'
  assume f: "\<And>t. no_paths (f t) = no_paths t" and r: "run_state (upd_task p f) w = (a, w')"
  show "same_views w w'"
    unfolding same_views_def
  proof
    fix q
    show "views w' q = views w q"
      using r f by (cases "tasks w p") (auto simp: upd_task_def views_def)
  qed
qed

lemma prepare_no_paths: "no_paths (snd (prepareGvmPaths d t)) = no_paths t"
  unfolding no_paths_def by (rule gvm_task.equality) (simp_all add: prepareGvmPaths_same)

lemma vi_paths: "rel same_views (prepare_paths p)"
  unfolding prepare_paths_def by (intro vi.rel_intros vi_get vi_upd prepare_no_paths)

lemma vi_status:
  "rel same_views (writeTaskStatusFile env p)" "rel same_views (writeTaskResult env p s)" "rel same_views (queGvmRunTask p)"
  unfolding writeTaskStatusFile_def writeTaskResult_def queGvmRunTask_def
  by (intro vi.rel_intros vi_get vi_paths vi_frame [OF frame_files(1)] rel_modify; simp add: same_views_def)+

lemma wp_views:
  assumes "rel same_views m" "\<And>a w'. views w' = views w \<Longrightarrow> Q a w'"
  shows "wp m Q w"
proof (rule wpI)
  fix a w'
  assume "run_state m w = (a, w')"
  from rel_run [OF assms(1) this] show "Q a w'" by (intro assms(2)) (simp add: same_views_def)
qed

lemmas vi_calls = frame_gvm [THEN vi_frame] frame_parse [THEN vi_frame]

subsection \<open>The checks are steps\<close>

text \<open>The time of the next check.\<close>

definition due :: "env \<Rightarrow> int \<Rightarrow> int \<Rightarrow> bool" where
  "due env wait c \<longleftrightarrow> (if 0 < wait then \<exists>n. c = clk env n + wait else c = 0)"

definition checked :: "env \<Rightarrow> nat \<Rightarrow> gvm_task \<Rightarrow> 'a dworld_scheme \<Rightarrow> 'a dworld_scheme \<Rightarrow> bool" where
  "checked env p t w w' \<longleftrightarrow>
     (\<exists>t' wait c. check_step (no_paths t) t' wait \<and> due env wait c \<and> views w' = (views w)(p \<mapsto> t'\<lparr>m_chk_time := c\<rparr>))"

lemma view_task: "views w p = Some u \<Longrightarrow> \<exists>t. tasks w p = Some t \<and> no_paths t = u"
  by (auto simp: views_def)

lemma wp_requeue:
  assumes "views w p = Some t"
  shows "wp (do { setTaskNextChkTime env p i; _ \<leftarrow> queGvmRunTask p; ret r })
    (\<lambda>_ w'. \<exists>c. due env i c \<and> views w' = (views w)(p \<mapsto> t\<lparr>m_chk_time := c\<rparr>)) w"
proof -
  obtain s where s: "tasks w p = Some s" "no_paths s = t" using view_task [OF assms] by blast
  define c where "c = (if 0 < i then clk env (tick w) + i else 0)"
  define w1 where "w1 = (if 0 < i then w\<lparr>tick := Suc (tick w)\<rparr> else w)"
  have "due env i c" by (auto simp: due_def c_def)
  have v: "views (w1\<lparr>tasks := (tasks w1)(p \<mapsto> s\<lparr>m_chk_time := c\<rparr>)\<rparr>) = (views w)(p \<mapsto> t\<lparr>m_chk_time := c\<rparr>)"
    using s(2) by (auto simp: w1_def)
  have "run_state (setTaskNextChkTime env p i) w = ((), w1\<lparr>tasks := (tasks w1)(p \<mapsto> s\<lparr>m_chk_time := c\<rparr>)\<rparr>)"
    using s(1) by (simp add: setTaskNextChkTime_def getClkTime_def now_def upd_task_def w1_def c_def)
  then show ?thesis
    using v \<open>due env i c\<close> by (auto simp: wp_def queGvmRunTask_def)
qed

lemma take_report_view:
  assumes "tasks w p = Some t" "typed_report info"
  defines "u \<equiv> report_of (rp_status info) (rp_progress info) (rp_start_time info) (rp_stop_time info) (no_paths t)"
  shows "wp (take_report env p info) (\<lambda>i w'.
    (i, views w') = (if rp_status info = GVM_TASK_WAITING \<or> rp_status info = GVM_TASK_RUNNING then (120, (views w)(p \<mapsto> u))
      else if rp_status info = GVM_TASK_DONE \<or> rp_status info = GVM_TASK_STOP \<or> rp_status info = GVM_TASK_INTERRUPT
      then (0, (views w)(p \<mapsto> setTaskChkType GVM_TASK_CHK_RESULT u))
      else (300, (views w)(p \<mapsto> setTaskChkType GVM_TASK_CHK_TASK u)))) w"
  using assms
  by (simp add: take_report_def upd_task_def get_task_def task_at_def task_setters chkTaskRunning_def chkTaskDone_def
      getTaskStatus_def report_of_def upd_report_def typed_report_def cong: if_cong)
    (auto intro!: wp_views [OF vi_status(1)])

lemma new_report_view:
  assumes "tasks w p = Some t" "typed_report info"
  shows "wp (new_report env p info) (\<lambda>i w'. i = 0 \<and> views w' = (views w)(p \<mapsto>
      setTaskChkType GVM_TASK_CHK_REPORT (report_of GVM_TASK_READY 0 (rp_start_time info) (rp_stop_time info)
        (upd_report (\<lambda>r. r\<lparr>rp_report_cnt := rp_report_cnt info, rp_finish_cnt := rp_finish_cnt info\<rparr>) (no_paths t))))) w"
  using assms
  by (simp add: new_report_def upd_task_def task_setters report_of_def upd_report_def typed_report_def)
    (auto intro!: wp_views [OF vi_status(1)])

text \<open>A check that ends by setting the next time is a step when what came before it is one.\<close>

lemma requeued:
  assumes "check_step (no_paths t) t' i" "views w1 = (views w)(p \<mapsto> t')"
    and "run_state (do { setTaskNextChkTime env p i; _ \<leftarrow> queGvmRunTask p; ret r }) w1 = (a, w3)"
  shows "checked env p t w w3"
proof -
  have "views w1 p = Some t'" using assms(2) by simp
  from wp_run [OF wp_requeue [OF this] assms(3)] show ?thesis
    unfolding checked_def using assms(1,2) by auto
qed

lemma wp_requeued:
  assumes "wp m (\<lambda>i w'. \<exists>t'. check_step (no_paths t) t' i \<and> views w' = (views w0)(p \<mapsto> t')) w0"
  shows "wp (do { i \<leftarrow> m; setTaskNextChkTime env p i; _ \<leftarrow> queGvmRunTask p; ret r }) (\<lambda>_. checked env p t w0) w0"
proof (rule wpI)
  fix a w3
  assume r: "run_state (do { i \<leftarrow> m; setTaskNextChkTime env p i; _ \<leftarrow> queGvmRunTask p; ret r }) w0 = (a, w3)"
  then obtain i w1 where r1: "run_state m w0 = (i, w1)"
    "run_state (do { setTaskNextChkTime env p i; _ \<leftarrow> queGvmRunTask p; ret r }) w1 = (a, w3)" by (rule run_bindE)
  then show "checked env p t w0 w3" using wp_run [OF assms r1(1)] requeued [OF _ _ r1(2)] by blast
qed

text \<open>The task after calls that leave the views as they are.\<close>

lemma same_view_task:
  assumes "views w' = views w" "tasks w p = Some t"
  obtains t' where "tasks w' p = Some t'" "no_paths t' = no_paths t" "m_report_info t' = m_report_info t"
    "m_result_info t' = m_result_info t" "m_chk_type t' = m_chk_type t"
proof -
  have "views w' p = Some (no_paths t)" unfolding assms(1) by (simp add: views_def assms(2))
  then obtain t' where t': "tasks w' p = Some t'" "no_paths t' = no_paths t" by (auto simp: views_def)
  from t'(2) have "m_report_info t' = m_report_info t" "m_result_info t' = m_result_info t" "m_chk_type t' = m_chk_type t"
    by (metis no_paths_simps(3), metis no_paths_simps(4), metis no_paths_simps(5))
  with t' show thesis by (rule that)
qed

lemma upd_task_same: "tasks w p = Some t \<Longrightarrow> f t = t \<Longrightarrow> run_state (upd_task p f) w = ((), w)"
  by (simp add: upd_task_def fun_upd_idem)

lemma views_same: "tasks w p = Some t \<Longrightarrow> (views w)(p \<mapsto> no_paths t) = views w"
  by (simp add: views_def fun_upd_idem)

definition news :: "gvm_report_info \<Rightarrow> string" where
  "news info = (if rp_cur_report_id info \<noteq> [] then rp_cur_report_id info else rp_last_report_id info)"

definition follow :: "string \<Rightarrow> gvm_task \<Rightarrow> gvm_task" where
  "follow u t = upd_report (\<lambda>r. r\<lparr>rp_last_report_id := rp_cur_report_id (m_report_info t), rp_cur_report_id := u\<rparr>) t"

lemma updateTaskReport_news:
  "updateTaskReport info t = (if news info \<noteq> [] \<and> news info \<noteq> rp_cur_report_id (m_report_info t)
     then (True, follow (news info) t) else (False, t))"
  unfolding updateTaskReport_def news_def follow_def Let_def
  by (cases "rp_cur_report_id info = []"; cases "rp_last_report_id info = []") (simp_all add: eq_commute)

lemma query_task_step:
  fixes w :: "'a dworld_scheme"
  assumes p: "tasks w p = Some t" and k: "m_chk_type t = GVM_TASK_CHK_TASK"
  shows "wp (backend_query_task env p) (\<lambda>_. checked env p t w) w"
proof (rule wpI)
  fix a w3
  assume rn: "run_state (backend_query_task env p) w = (a, w3)"
  obtain r out w1 where r1: "run_state (gvm_query_task env (task_id t)) w = ((r, out), w1)" by (metis surj_pair)
  define m :: "('a dworld_scheme, int \<times> gvm_report_info) state" where
    "m = (if r \<noteq> 0 then ret (r, initGvmReportInfo) else parseTask env out initGvmReportInfo)"
  obtain r' info w2 where r2: "run_state m w1 = ((r', info), w2)" by (metis surj_pair)
  define n :: "('a dworld_scheme, int) state" where
    "n = (if r' = 0
        then do {
          upd_task p (\<lambda>t. snd (updateTaskReport info t));
          if fst (updateTaskReport info (task_at w p)) then new_report env p info
          else ret (DEF_TASK_CHK_TIME_INTERVAL GVM_TASK_CHK_TASK)
        }
        else ret (DEF_TASK_CHK_TIME_INTERVAL GVM_TASK_CHK_TASK))"
  have rest: "run_state (do { i \<leftarrow> n; setTaskNextChkTime env p i; _ \<leftarrow> queGvmRunTask p; ret r' }) w2 = (a, w3)"
    using rn r1 r2 p
    by (cases "r' = 0"; cases "fst (updateTaskReport info t)")
      (simp_all add: backend_query_task_def get_task_def task_at_def m_def n_def)
  have "rel same_views m" unfolding m_def by (intro vi.rel_intros vi_calls)
  then have v: "views w2 = views w"
    using rel_run [OF vi_calls(4) r1] rel_run [of same_views, OF _ r2] by (simp add: same_views_def)
  have "wp m (\<lambda>ki _. typed_report (snd ki)) w1" using typed_init by (auto simp: m_def intro: typed_parses)
  from wp_run [OF this r2] have ty: "typed_report info" by simp
  from same_view_task [OF v p] obtain t2 where t2: "tasks w2 p = Some t2" "no_paths t2 = no_paths t"
    and m2: "m_report_info t2 = m_report_info t" "m_chk_type t2 = m_chk_type t" .
  have "wp n (\<lambda>i w'. \<exists>t'. check_step (no_paths t) t' i \<and> views w' = (views w2)(p \<mapsto> t')) w2"
  proof (cases "r' = 0 \<and> news info \<noteq> [] \<and> news info \<noteq> rp_cur_report_id (m_report_info t)")
    case False
    have s: "snd (updateTaskReport info t2) = t2" if "r' = 0"
      using False that by (auto simp add: updateTaskReport_news m2)
    have "run_state n w2 = (300, w2)"
    proof (cases "r' = 0")
      case True
      then have f: "\<not> fst (updateTaskReport info (task_at w p))" using False p by (auto simp: updateTaskReport_news task_at_def)
      show ?thesis
        using True f upd_task_same [where f = "\<lambda>t. snd (updateTaskReport info t)", OF t2(1) s [OF True]]
        unfolding n_def by simp
    qed (simp add: n_def)
    then have "wp n (\<lambda>i w'. i = 300 \<and> views w' = (views w2)(p \<mapsto> no_paths t)) w2"
      using views_same [OF t2(1)] t2(2) by (simp add: wp_def)
    moreover have c: "check_step (no_paths t) (no_paths t) 300" using k by (simp add: check_step.no_news)
    ultimately show ?thesis by - (erule wp_mono, use c in blast)
  next
    case True
    define u where "u = news info"
    have u: "u \<noteq> []" "u \<noteq> rp_cur_report_id (m_report_info t)"
      "snd (updateTaskReport info t2) = upd_report (\<lambda>r. r\<lparr>rp_last_report_id := rp_cur_report_id (m_report_info t),
        rp_cur_report_id := u\<rparr>) t2"
      using True by (simp_all add: updateTaskReport_news m2 u_def follow_def)
    let ?w = "w2\<lparr>tasks := (tasks w2)(p \<mapsto> snd (updateTaskReport info t2))\<rparr>"
    have n: "wp n Q w2 = wp (new_report env p info) Q ?w" for Q
      using True p t2(1) by (simp add: n_def upd_task_def task_at_def updateTaskReport_news)
    let ?t = "setTaskChkType GVM_TASK_CHK_REPORT (report_of GVM_TASK_READY 0 (rp_start_time info) (rp_stop_time info)
        (upd_report (\<lambda>r. r\<lparr>rp_last_report_id := rp_cur_report_id (m_report_info (no_paths t)), rp_cur_report_id := u,
          rp_report_cnt := rp_report_cnt info, rp_finish_cnt := rp_finish_cnt info\<rparr>) (no_paths t)))"
    have c: "check_step (no_paths t) ?t 0" using k u by (intro check_step.new_scan) simp_all
    have e: "upd_report (\<lambda>r. r\<lparr>rp_report_cnt := rp_report_cnt info, rp_finish_cnt := rp_finish_cnt info\<rparr>)
        (no_paths (snd (updateTaskReport info t2))) = upd_report (\<lambda>r. r\<lparr>rp_last_report_id := rp_cur_report_id
          (m_report_info (no_paths t)), rp_cur_report_id := u, rp_report_cnt := rp_report_cnt info,
          rp_finish_cnt := rp_finish_cnt info\<rparr>) (no_paths t)"
      unfolding u(3) by (simp add: t2(2) m2 upd_report_def)
    have "tasks ?w p = Some (snd (updateTaskReport info t2))" by simp
    from new_report_view [OF this ty, of env] have "wp n (\<lambda>i w'. i = 0 \<and> views w' = (views w2)(p \<mapsto> ?t)) w2"
      unfolding n e by simp
    then show ?thesis by - (erule wp_mono, use c in blast)
  qed
  from wp_run [OF wp_requeued [OF this] rest] show "checked env p t w w3" by (simp add: checked_def v)
qed

lemma query_report_step:
  fixes w :: "'a dworld_scheme"
  assumes p: "tasks w p = Some t" and k: "m_chk_type t = GVM_TASK_CHK_REPORT"
  shows "wp (backend_query_report env p) (\<lambda>_. checked env p t w) w"
proof (rule wpI)
  fix a w3
  assume rn: "run_state (backend_query_report env p) w = (a, w3)"
  obtain r out w1 where r1: "run_state (gvm_query_report env (rp_cur_report_id (m_report_info t))) w = ((r, out), w1)"
    by (metis surj_pair)
  define m :: "('a dworld_scheme, int \<times> gvm_report_info) state" where
    "m = (if r \<noteq> 0 then ret (r, initGvmReportInfo) else parseReport env out initGvmReportInfo)"
  obtain r' info w2 where r2: "run_state m w1 = ((r', info), w2)" by (metis surj_pair)
  define b where "b \<longleftrightarrow> r' = 0 \<and> (rp_status info \<noteq> rp_status (m_report_info t) \<or> rp_progress info \<noteq> rp_progress (m_report_info t))"
  define n :: "('a dworld_scheme, int) state" where "n = (if b then take_report env p info else ret (DEF_TASK_CHK_TIME_INTERVAL GVM_TASK_CHK_REPORT))"
  have rest: "run_state (do { i \<leftarrow> n; setTaskNextChkTime env p i; _ \<leftarrow> queGvmRunTask p; ret r' }) w2 = (a, w3)"
    using rn r1 r2 p by (simp add: backend_query_report_def get_task_def task_at_def m_def n_def b_def)
  have "rel same_views m" unfolding m_def by (intro vi.rel_intros vi_calls)
  then have v: "views w2 = views w"
    using rel_run [OF vi_calls(3) r1] rel_run [of same_views, OF _ r2] by (simp add: same_views_def)
  have "wp m (\<lambda>ki _. typed_report (snd ki)) w1" using typed_init by (auto simp: m_def intro: typed_parses)
  from wp_run [OF this r2] have ty: "typed_report info" by simp
  from same_view_task [OF v p] obtain t2 where t2: "tasks w2 p = Some t2" "no_paths t2 = no_paths t" .
  have "wp n (\<lambda>i w'. \<exists>t'. check_step (no_paths t) t' i \<and> views w' = (views w2)(p \<mapsto> t')) w2"
  proof (cases b)
    case False
    have c: "check_step (no_paths t) (no_paths t) 120" using k by (simp add: check_step.no_progress)
    show ?thesis using False views_same [OF t2(1)] t2(2) c by (auto simp: n_def intro!: exI [of _ "no_paths t"])
  next
    case True
    let ?u = "report_of (rp_status info) (rp_progress info) (rp_start_time info) (rp_stop_time info) (no_paths t)"
    note c = check_step.progress check_step.ended check_step.withdrawn
    have k': "m_chk_type (no_paths t) = GVM_TASK_CHK_REPORT" using k by simp
    show ?thesis
      using take_report_view [OF t2(1) ty, of env] True unfolding n_def t2(2)
      by (cases "rp_status info") (auto elim!: wp_mono intro: c [OF k'])
  qed
  from wp_run [OF wp_requeued [OF this] rest] show "checked env p t w w3" by (simp add: checked_def v)
qed

lemma reset_results: "resetGvmResultInfo r = initGvmResultInfo"
  by (simp add: resetGvmResultInfo_def initGvmResultInfo_def)

lemma query_results_view:
  fixes w :: "'a dworld_scheme"
  assumes p: "tasks w p = Some t"
  shows "wp (query_results env p) (\<lambda>_ w'. \<exists>r. (r = m_result_info t \<or> \<not> rs_done (m_result_info t)) \<and>
    views w' = (views w)(p \<mapsto> (no_paths t)\<lparr>m_result_info := r\<rparr>)) w"
proof (rule wpI)
  fix k w'
  assume rn: "run_state (query_results env p) w = (k, w')"
  obtain r out w1 where r1: "run_state (gvm_query_result env (task_id t) (rp_cur_report_id (m_report_info t))
      (rs_first (m_result_info t)) (rs_rows (m_result_info t))) w = ((r, out), w1)" by (metis surj_pair)
  obtain c info w2 where r2: "run_state (parseResult env out (m_result_info t)) w1 = ((c, info), w2)" by (metis surj_pair)
  have v: "views w1 = views w" "views w2 = views w"
    using rel_run [OF vi_calls(5) r1] rel_run [OF vi_calls(15) r2] by (simp_all add: same_views_def)
  have s: "(views w)(p \<mapsto> (no_paths t)\<lparr>m_result_info := m_result_info t\<rparr>) = views w"
    using views_same [OF p] by (simp add: no_paths_def)
  from same_view_task [OF v(2) p] obtain t2 where t2: "tasks w2 p = Some t2" "no_paths t2 = no_paths t" .
  consider "w' = w" | "w' = w1" | "\<not> rs_done (m_result_info t)" "w' = w2\<lparr>tasks := (tasks w2)(p \<mapsto> t2\<lparr>m_result_info := info\<rparr>)\<rparr>"
    using rn r1 r2 p t2(1) by (auto simp: query_results_def get_task_def task_at_def upd_task_def split: if_splits)
  then show "\<exists>r. (r = m_result_info t \<or> \<not> rs_done (m_result_info t)) \<and>
    views w' = (views w)(p \<mapsto> (no_paths t)\<lparr>m_result_info := r\<rparr>)"
  proof cases
    case 3
    then show ?thesis by (intro exI [of _ info]) (simp add: v t2(2))
  qed (use s v in auto)
qed

lemma finish_results_view:
  assumes p: "tasks w p = Some t"
  shows "wp (finish_results env p) (\<lambda>ri w'. snd ri = 5 \<and> views w' = views w \<or>
    snd ri = 300 \<and> views w' = (views w)(p \<mapsto> (setTaskChkType GVM_TASK_CHK_TASK (no_paths t))\<lparr>m_result_info := initGvmResultInfo\<rparr>)) w"
proof (cases "rs_done (m_result_info t) \<and> fst (printNvts (m_result_info t)) = 0")
  case False
  then show ?thesis using p by (auto simp: finish_results_def get_task_def task_at_def)
next
  case True
  let ?w = "\<lambda>w p t. w\<lparr>tasks := (tasks w)(p \<mapsto> t)\<rparr>"
  show ?thesis
  proof (rule wpI)
    fix ri w'
    assume rn: "run_state (finish_results env p) w = (ri, w')"
    obtain a w1 where r1: "run_state (writeTaskResult env p (snd (printNvts (m_result_info t)))) w = (a, w1)" by (metis surj_pair)
    have v1: "views w1 = views w" using rel_run [OF vi_status(2) r1] by (simp add: same_views_def)
    from same_view_task [OF v1 p] obtain t1 where t1: "tasks w1 p = Some t1" "no_paths t1 = no_paths t" .
    obtain b w2 where r2: "run_state (writeTaskStatusFile env p) (?w w1 p (setTaskChkType GVM_TASK_CHK_TASK t1)) = (b, w2)"
      by (metis surj_pair)
    have v2: "views w2 = (views w)(p \<mapsto> setTaskChkType GVM_TASK_CHK_TASK (no_paths t))"
      using rel_run [OF vi_status(1) r2] by (simp add: same_views_def v1 t1 setTaskChkType_def)
    then have "views w2 p = Some (setTaskChkType GVM_TASK_CHK_TASK (no_paths t))" by simp
    from view_task [OF this] obtain t2 where t2: "tasks w2 p = Some t2" "no_paths t2 = setTaskChkType GVM_TASK_CHK_TASK (no_paths t)"
      by blast
    have "ri = (0, 300)" "w' = ?w w2 p (t2\<lparr>m_result_info := initGvmResultInfo\<rparr>)"
      using rn True p r1 r2 t1 t2(1)
      by (simp_all add: finish_results_def get_task_def task_at_def upd_task_def reset_results)
    then show "snd ri = 5 \<and> views w' = views w \<or>
      snd ri = 300 \<and> views w' = (views w)(p \<mapsto> (setTaskChkType GVM_TASK_CHK_TASK (no_paths t))\<lparr>m_result_info := initGvmResultInfo\<rparr>)"
      by (simp add: v2 t2(2))
  qed
qed

lemma query_result_step:
  fixes w :: "'a dworld_scheme"
  assumes p: "tasks w p = Some t" and k: "m_chk_type t = GVM_TASK_CHK_RESULT"
  shows "wp (backend_query_result env p) (\<lambda>_. checked env p t w) w"
proof (rule wpI)
  fix a w3
  assume rn: "run_state (backend_query_result env p) w = (a, w3)"
  obtain q w1 where r1: "run_state (query_results env p) w = (q, w1)" by (metis surj_pair)
  obtain r where r: "r = m_result_info t \<or> \<not> rs_done (m_result_info t)"
    "views w1 = (views w)(p \<mapsto> (no_paths t)\<lparr>m_result_info := r\<rparr>)"
    using wp_run [OF query_results_view [OF p] r1] by blast
  define n :: "('a dworld_scheme, int \<times> int) state" where
    "n = (if q \<noteq> 0 then ret (q, DEF_TASK_CHK_TIME_INTERVAL GVM_TASK_CHK_RESULT) else finish_results env p)"
  obtain q' i w2 where r2: "run_state n w1 = ((q', i), w2)" by (metis surj_pair)
  have rest: "run_state (do { setTaskNextChkTime env p i; _ \<leftarrow> queGvmRunTask p; ret q' }) w2 = (a, w3)"
    using rn r1 r2 by (simp add: backend_query_result_def n_def)
  from view_task [of w1 p] r(2) obtain t1 where t1: "tasks w1 p = Some t1" "no_paths t1 = (no_paths t)\<lparr>m_result_info := r\<rparr>"
    by (metis fun_upd_same)
  have "i = 5 \<and> views w2 = views w1 \<or> i = 300 \<and>
      views w2 = (views w1)(p \<mapsto> (setTaskChkType GVM_TASK_CHK_TASK (no_paths t1))\<lparr>m_result_info := initGvmResultInfo\<rparr>)"
    using r2 wp_run [OF finish_results_view [OF t1(1)], of env] by (auto simp: n_def split: if_splits)
  then have "\<exists>t'. check_step (no_paths t) t' i \<and> views w2 = (views w)(p \<mapsto> t')"
    using check_step.page [of "no_paths t" r] check_step.collected [of "no_paths t"] k r t1(2)
    by (auto simp: setTaskChkType_def)
  then show "checked env p t w w3" using requeued [OF _ _ rest] by blast
qed

subsection \<open>The loop of checks\<close>

lemma check_task_step:
  assumes "tasks w p = Some t" "m_chk_type t \<noteq> GVM_TASK_CHK_DELETED" "run_state (check_task env p) w = (r, w')"
  shows "checked env p t w w'"
proof -
  have "wp (check_task env p) (\<lambda>_. checked env p t w) w"
    using assms(1,2) query_task_step [OF assms(1), of env] query_report_step [OF assms(1), of env]
      query_result_step [OF assms(1), of env]
    by (cases "m_chk_type t") (simp_all add: check_task_def get_task_def task_at_def)
  from wp_run [OF this assms(3)] show ?thesis .
qed

lemma head_first:
  assumes "store_ok w" "lq_head (m_runque w) = Some p" "q \<in> created w"
  shows "p \<in> created w" "m_chk_time (task_at w p) \<le> m_chk_time (task_at w q)"
proof -
  have i: "tasks_inv {} w" and r: "running w = created w" using assms(1) by (simp_all add: store_ok_def)
  obtain xs where xs: "lq_items (m_runque w) = p # xs" using assms(2) by (auto simp: lq_head_def split: list.splits)
  then have "p \<in> running w" by (simp add: running_def)
  then show "p \<in> created w" using r by simp
  have ok: "time_ok (task_at w p)" "time_ok (task_at w q)" using i \<open>p \<in> running w\<close> assms(3) r by (auto simp: tasks_inv_def)
  have "q = p \<or> q \<in> set xs" using assms(3) r xs by (auto simp: running_def)
  then show "m_chk_time (task_at w p) \<le> m_chk_time (task_at w q)"
    using inv_ordered(3) [OF i] xs by (auto simp: cmpGvmRunChkTime_diff [OF ok])
qed

text \<open>C3: one call of \<open>runGvmChecks\<close> does at most one check, and only while the scanner answers: it takes a
  task whose time has come and that no other task precedes, and takes one step of the state machine with it,
  whatever the scanner, its replies and the files do; a task that is marked as deleted leaves the store or
  stays.  When it does no check, no task is due.\<close>

theorem runGvmChecks_refines:
  assumes "clock_ok env" "store_ok w" "run_state (runGvmChecks env) w = (b, w')"
  shows "if b
    then \<exists>p t. p \<in> created w \<and> tasks w p = Some t \<and> m_is_gvm_conn_ok w \<and> m_chk_time t \<le> clk env (tick w) \<and>
      (\<forall>q\<in>created w. m_chk_time t \<le> m_chk_time (task_at w q)) \<and>
      (if m_chk_type t = GVM_TASK_CHK_DELETED then created w' = created w \<or> created w' = created w - {p}
       else created w' = created w \<and> (\<exists>t' wait c. check_step (no_paths t) t' wait \<and> due env wait c \<and>
         views w' = (views w)(p \<mapsto> t'\<lparr>m_chk_time := c\<rparr>)))
    else views w' = views w \<and> (m_is_gvm_conn_ok w \<longrightarrow> (\<forall>q\<in>created w. clk env (tick w) < m_chk_time (task_at w q)))"
proof (cases "m_is_gvm_conn_ok w \<and> lq_head (m_runque w) \<noteq> None")
  case False
  have "created w = {}" if "lq_head (m_runque w) = None"
    using that assms(2) by (auto simp: store_ok_def lq_head_def running_def split: list.splits)
  moreover have "b = False \<and> w' = w"
    using False assms(3) by (cases "m_is_gvm_conn_ok w"; cases "lq_head (m_runque w)") (auto simp: runGvmChecks_def)
  ultimately show ?thesis using False by auto
next
  case True
  then obtain p where ok: "m_is_gvm_conn_ok w" and p: "lq_head (m_runque w) = Some p" by auto
  have h: "held {} w" using assms(2) by (simp add: store_ok_held)
  note first = head_first [OF assms(2) p]
  have pc: "p \<in> created w"
    using p assms(2) by (auto simp: store_ok_def lq_head_def running_def split: list.splits)
  then have "p \<in> dom (tasks w)" using h inv_sets(7) by (auto simp: held_def)
  then obtain t where t: "tasks w p = Some t" "task_at w p = t" by (auto simp: task_at_def)
  let ?w = "w\<lparr>tick := Suc (tick w)\<rparr>"
  have e: "gworld.more ?w = gworld.more w" by simp
  have h1: "held {} ?w" "p \<in> created ?w" "created ?w = created w" "tasks ?w p = Some t" "task_at ?w p = t"
    using h pc t frame_inv [OF e] by (auto simp: held_def)
  show ?thesis
  proof (cases "m_chk_time t \<le> clk env (tick w)")
    case False
    have "b = False \<and> w' = ?w"
      using False assms(3) ok p t(2) frame_inv(4) [OF e]
      by (auto simp: runGvmChecks_def isTaskChkTimeExpired_def get_task_def getClkTime_def now_def)
    then show ?thesis using False first(2) t(2) by fastforce
  next
    case due: True
    obtain r where b: "b" and r: "run_state (check_task env p) ?w = (r, w')"
      using due assms(3) ok p t(2) h1(5)
      by (auto simp: runGvmChecks_def isTaskChkTimeExpired_def get_task_def getClkTime_def now_def split: prod.splits)
    note c = check_task_inv(2) [OF assms(1) h1(1,2) r]
    show ?thesis
    proof (cases "m_chk_type t = GVM_TASK_CHK_DELETED")
      case True
      then show ?thesis using b c h1(3) pc t ok due first(2) by (auto intro!: exI [of _ p])
    next
      case False
      have "checked env p t ?w w'" using check_task_step [OF h1(4) False r] .
      then show ?thesis
        using b c h1(3,5) pc t ok due first(2) False by (auto simp: checked_def intro!: exI [of _ p])
    qed
  qed
qed

lemma runGvmChecks_refines_witness:
  "\<exists>t' wait c. check_step (no_paths demo_task) t' wait \<and> due quiet_env wait c \<and>
     views (snd (run_state (runGvmChecks quiet_env) demo_store)) 0 = Some (t'\<lparr>m_chk_time := c\<rparr>)"
proof -
  obtain b w' where r: "run_state (runGvmChecks quiet_env) demo_store = (b, w')" by (metis surj_pair)
  have "lq_head (m_runque demo_store) = Some 0" "m_is_gvm_conn_ok demo_store" "tasks demo_store 0 = Some demo_task"
    "created demo_store = {0}" "tick demo_store = 0"
    by (simp_all add: demo_store_def lq_head_def created_def)
  moreover from this have b
    using r demo_key(2) demo_at frame_inv(4) [of "demo_store\<lparr>tick := Suc 0\<rparr>" demo_store]
    by (auto simp: runGvmChecks_def isTaskChkTimeExpired_def get_task_def getClkTime_def now_def split: prod.splits)
  moreover have "m_chk_type demo_task \<noteq> GVM_TASK_CHK_DELETED"
    by (simp add: demo_task_def new_gvm_task_def upd_target_def upd_info_def)
  ultimately show ?thesis
    using runGvmChecks_refines [OF quiet_clock demo_store_ok r] r by auto blast
qed

end
