(* ===== verification/Answers.thy ===== *)
theory Answers imports CheckSteps begin

text \<open>
  What the requests about scans answer, and what they do to the store: the order of the refusals, and that a
  refused request leaves every task as it was.
\<close>

subsection \<open>One task at most is changed\<close>

definition only :: "nat \<Rightarrow> 'a dworld_scheme \<Rightarrow> 'a dworld_scheme \<Rightarrow> bool" where
  "only p w w' \<longleftrightarrow> (\<forall>q. q \<noteq> p \<longrightarrow> tasks w' q = tasks w q)"

interpretation on: stepping "only p" for p
  by unfold_locales (simp_all add: only_def)

lemma on_same: "rel same_store m \<Longrightarrow> rel (only p) m"
  by (erule rel_mono) (simp add: same_store_def only_def)

lemmas on_frame = ss_frame [THEN on_same]

lemma on_keep: "(\<And>w. tasks (f w) = tasks w) \<Longrightarrow> rel (only p) (modify f)"
  by (rule rel_modify) (simp add: only_def)

lemma on_upd: "rel (only p) (upd_task p f)"
  unfolding upd_task_def by (rule rel_modify) (simp add: only_def)

lemma on_get: "rel (only p) (get_task q)"
  unfolding get_task_def by (rule on.rel_gets)

lemma on_free: "rel (only p) (freeGvmTask p)"
  unfolding freeGvmTask_def by (rule rel_modify) (simp add: only_def)

lemma on_containers:
  "rel (only p) (addGvmTask env q)" "rel (only p) (delGvmTask q)" "rel (only p) (addGvmRunTask q)"
  "rel (only p) (delGvmRunTask q)" "rel (only p) (queGvmRunTask q)" "rel (only p) (findGvmTask q)"
  unfolding addGvmTask_def delGvmTask_def addGvmRunTask_def delGvmRunTask_def queGvmRunTask_def findGvmTask_def
  by (intro on.rel_intros on_same [OF ss_calls(1)] on_keep; simp)+

lemma on_sched: "rel (only p) (setTaskNextChkTime env p n)"
  unfolding setTaskNextChkTime_def by (intro on.rel_intros on_same [OF ss_calls(3)] on_upd)

lemma on_paths: "rel (only p) (prepare_paths p)"
  unfolding prepare_paths_def by (intro on.rel_intros on_get on_upd)

lemma on_relation_files: "rel (only p) (createTaskRelationFiles env p)" "rel (only p) (delTaskRelationFiles env p)"
  unfolding createTaskRelationFiles_def record_task_def delTaskRelationFiles_def forget_task_def
  by (intro on.rel_intros on_get on_containers on_paths on_frame [OF frame_writeTaskFile] on_frame [OF frame_files(3)]
      on_frame [OF frame_files(4)])+

lemma on_info_only: "(\<And>i. frame (f i)) \<Longrightarrow> rel (only p) (on_info f p)"
  unfolding on_info_def by (intro on.rel_intros on_get on_frame on_upd)

lemmas on_gvm = frame_gvm [THEN on_frame]

lemma on_found:
  "rel (only p) (start_found env p)" "rel (only p) (stop_found env p)" "rel (only p) (delete_found env p)"
  unfolding start_found_def stop_found_def delete_found_def
  by (intro on.rel_intros on_get on_gvm on_sched on_containers on_info_only frame_gvm on_relation_files on_free on_upd)+

lemma on_create: "rel (only p) (create_checked env p input)" "rel (only p) (undo_create env p)"
  unfolding create_checked_def create_parts_def store_created_def undo_create_def undo_parts_def
  by (intro on.rel_intros on_get on_gvm on_sched on_containers on_info_only frame_gvm on_relation_files on_free on_upd
      on_same [OF ss_stamp])+

subsection \<open>Refusals\<close>

definition unchanged :: "nat set \<Rightarrow> 'a dworld_scheme \<Rightarrow> 'a dworld_scheme \<Rightarrow> bool" where
  "unchanged A w w' \<longleftrightarrow> (\<forall>q\<in>created w - A. tasks w' q = tasks w q)"

definition names :: "'a dworld_scheme \<Rightarrow> string set" where
  "names w = (\<lambda>q. task_name (task_at w q)) ` created w"

text \<open>The code with which a request about an existing task is refused before the task is looked at.\<close>

definition refusal :: "bool \<Rightarrow> 'a dworld_scheme \<Rightarrow> int \<times> gvm_task \<Rightarrow> int option" where
  "refusal nomem w k =
     (if nomem then Some GVM_ERR_INTERNAL_FAIL else if fst k \<noteq> 0 then Some GVM_ERR_PARAM_INVALID
      else if \<not> m_is_gvm_conn_ok w then Some GVM_ERR_GVMD_CONN
      else if task_name (snd k) \<notin> names w then Some GVM_ERR_TASK_NOT_FOUND else None)"

lemma newGvmTask_run:
  "run_state (newGvmTask env) w = (if fault env (tick w) then (None, w\<lparr>tick := Suc (tick w)\<rparr>)
     else (Some (nxt w), w\<lparr>tick := Suc (tick w), tasks := (tasks w)(nxt w \<mapsto> new_gvm_task), nxt := nxt w + 1\<rparr>))"
  by (simp add: newGvmTask_def fails_def now_def)

lemma locate_only: "rel (only key) (locate_task env key input)"
  unfolding locate_task_def by (intro on.rel_intros on_get on_upd on_containers)

lemma with_task_answer:
  assumes h: "store_ok w" and c: "cstring input" and rn: "run_state (with_task env input body) w = (r, w')"
  defines "k \<equiv> getKeyTaskParam input new_gvm_task"
  shows "case refusal (fault env (tick w)) w k of
      Some e \<Rightarrow> r = e \<and> created w' = created w \<and> unchanged {} w w'
    | None \<Rightarrow> \<exists>p key w2 w3. p \<in> created w \<and> task_name (task_at w p) = task_name (snd k) \<and> key \<notin> created w \<and>
        held {key} w2 \<and> created w2 = created w \<and> unchanged {} w w2 \<and> run_state (body p) w2 = (r, w3) \<and>
        run_state (freeGvmTask key) w3 = ((), w')"
proof -
  have h0: "held {} w" using h by (simp add: store_ok_held)
  obtain a w1 where r1: "run_state (newGvmTask env) w = (a, w1)" by fastforce
  note n = newGvmTask_held [OF h0 r1]
  show ?thesis
  proof (cases a)
    case None
    then have "fault env (tick w)" "r = GVM_ERR_INTERNAL_FAIL" "w' = w1"
      using rn r1 by (auto simp: with_task_def newGvmTask_run split: if_splits)
    then show ?thesis using r1 by (auto simp: refusal_def newGvmTask_run unchanged_def created_def)
  next
    case (Some key)
    then have nf: "\<not> fault env (tick w)" and key: "key = nxt w" and t1: "only key w w1"
      using r1 by (auto simp: newGvmTask_run only_def split: if_splits)
    have kc: "key \<notin> created w" using n(3) Some by simp
    have h1: "held {key} w1" and k1: "task_at w1 key = new_gvm_task" using n(3) Some by auto
    obtain l w2 where r2: "run_state (locate_task env key input) w1 = (l, w2)" by fastforce
    note l = locate_task_inv [OF h1 _ k1 c r2, simplified, folded k_def]
    obtain x w3 where r3: "run_state (case l of Inl e \<Rightarrow> ret e | Inr p \<Rightarrow> body p) w2 = (x, w3)" by fastforce
    obtain u w4 where r4: "run_state (freeGvmTask key) w3 = (u, w4)" by (metis surj_pair)
    have x: "x = r" "w4 = w'" using rn r1 Some r2 r3 r4 by (auto simp: with_task_def)
    have t2: "only key w w2" using on.R_trans [OF t1 rel_run [OF locate_only r2]] .
    have u2: "unchanged {} w w2" using t2 kc by (auto simp: unchanged_def only_def)
    have nm: "(\<lambda>q. task_name (task_at w1 q)) ` created w1 = names w"
      using n(1) t1 kc by (auto simp: names_def only_def task_at_def image_iff) metis+
    show ?thesis
    proof (cases l)
      case (Inl e)
      have w3: "w3 = w2" "r = e" using r3 Inl x by auto
      have rf: "refusal (fault env (tick w)) w k = Some e"
        using l(4) Inl nf n(2) nm by (auto simp: refusal_def)
      have "created w' = created w" using r4 x(2) w3 l(2) n(1) by (auto simp: freeGvmTask_def created_def)
      moreover have "unchanged {} w w'"
        using u2 kc r4 x(2) w3 by (auto simp: freeGvmTask_def unchanged_def)
      ultimately show ?thesis using rf w3 by simp
    next
      case (Inr p)
      have p: "fst k = 0" "m_is_gvm_conn_ok w" "p \<in> created w" "task_name (task_at w1 p) = task_name (snd k)"
        using l(4) Inr n(1,2) by auto
      then have pn: "task_name (task_at w p) = task_name (snd k)" using t1 kc by (auto simp: only_def task_at_def)
      have "task_name (snd k) \<in> names w" unfolding names_def by (rule image_eqI [of _ _ p]) (simp_all add: pn p(3))
      then have "refusal (fault env (tick w)) w k = None" using p nf by (simp add: refusal_def)
      moreover have "created w2 = created w" using l(2) n(1) by simp
      moreover have "run_state (body p) w2 = (r, w3)" "run_state (freeGvmTask key) w3 = ((), w')"
        using r3 r4 Inr x by auto
      ultimately show ?thesis using p(3) pn kc l(1) u2 by auto
    qed
  qed
qed

text \<open>A request that is not refused works on the task of its name, and its key leaves no trace.\<close>

lemma request_found:
  assumes "store_ok w" "cstring input" "run_state (with_task env input body) w = (r, w')"
    and "\<And>p. rel (only p) (body p)" "refusal (fault env (tick w)) w (getKeyTaskParam input new_gvm_task) = None"
  obtains p K w2 w3 where "p \<in> created w" "task_name (task_at w p) = task_name (snd (getKeyTaskParam input new_gvm_task))"
    "held K w2" "created w2 = created w" "run_state (body p) w2 = (r, w3)" "created w' = created w3"
    "unchanged {p} w w'" "tasks w' p = tasks w3 p" "tasks w2 p = Some (task_at w p)"
    "tasks w3 = tasks w2 \<longrightarrow> unchanged {} w w'"
proof -
  from with_task_answer [OF assms(1-3)] assms(5)
  obtain p key w2 w3 where p: "p \<in> created w" "task_name (task_at w p) = task_name (snd (getKeyTaskParam input new_gvm_task))"
    and k: "key \<notin> created w" "held {key} w2" "created w2 = created w" "unchanged {} w w2"
    and r: "run_state (body p) w2 = (r, w3)" "run_state (freeGvmTask key) w3 = ((), w')" by auto
  have t: "tasks w' = (tasks w3)(key := None)" "created w' = created w3"
    using r(2) by (auto simp: freeGvmTask_def created_def)
  have o: "only p w2 w3" using rel_run [OF assms(4) r(1)] .
  have "key \<noteq> p" using k(1) p(1) by auto
  then have p': "tasks w' p = tasks w3 p" "tasks w2 p = tasks w p"
    using t k(4) p(1) by (auto simp: unchanged_def)
  have u: "unchanged {p} w w'" "tasks w3 = tasks w2 \<Longrightarrow> unchanged {} w w'"
    using k(1,4) o t by (auto simp: unchanged_def only_def)
  have "tasks w p = Some (task_at w p)" using inv_facts(2) [of "{}" w p] assms(1) p(1) by (simp add: store_ok_def)
  with p k r t p' u show thesis by (intro that) auto
qed

subsection \<open>Starting and stopping\<close>

text \<open>A request to start or to stop: refused by \<open>busy\<close>, passed to the scanner by \<open>send\<close>.\<close>

lemma start_found_run:
  fixes w2 :: "'a dworld_scheme"
  assumes rn: "run_state (start_found env p) w2 = (r, w3)" and p: "tasks w2 p \<noteq> None"
  shows "created w3 = created w2 \<and> (if chkTaskBusy (task_at w2 p) then r = GVM_ERR_TASK_IS_BUSY \<and> tasks w3 = tasks w2
    else r = GVM_ERR_OPENVAS_PROC_FAIL \<and> tasks w3 = tasks w2 \<or>
      r = 0 \<and> tasks w3 = (tasks w2)(p \<mapsto> (task_at w2 p)\<lparr>m_chk_time := 0\<rparr>))"
proof -
  obtain q rep w4 where r4: "run_state (gvm_start_task env (task_id (task_at w2 p)) MAX_UUID_SIZE) w2 = ((q, rep), w4)"
    by (metis surj_pair)
  have "tasks w4 = tasks w2" "m_createque w4 = m_createque w2"
    using rel_run [OF ss_frame [OF frame_gvm(1)] r4] by (simp_all add: same_store_def)
  then show ?thesis
    using rn r4 p
    by (auto simp: start_found_def get_task_def setTaskNextChkTime_def upd_task_def queGvmRunTask_def created_def
        task_at_def GVM_ERR_OPENVAS_PROC_FAIL_def split: if_splits)
qed

lemma stop_found_run:
  fixes w2 :: "'a dworld_scheme"
  assumes rn: "run_state (stop_found env p) w2 = (r, w3)" and p: "tasks w2 p \<noteq> None"
  shows "created w3 = created w2 \<and> (if \<not> chkTaskRunning (task_at w2 p) then r = GVM_ERR_TASK_IS_NOT_RUNNING \<and> tasks w3 = tasks w2
    else r = GVM_ERR_OPENVAS_PROC_FAIL \<and> tasks w3 = tasks w2 \<or>
      r = 0 \<and> tasks w3 = (tasks w2)(p \<mapsto> (task_at w2 p)\<lparr>m_chk_time := 0\<rparr>))"
proof -
  obtain q w4 where r4: "run_state (gvm_stop_task env (task_id (task_at w2 p))) w2 = (q, w4)"
    by (metis surj_pair)
  have "tasks w4 = tasks w2" "m_createque w4 = m_createque w2"
    using rel_run [OF ss_frame [OF frame_gvm(2)] r4] by (simp_all add: same_store_def)
  then show ?thesis
    using rn r4 p
    by (auto simp: stop_found_def get_task_def setTaskNextChkTime_def upd_task_def queGvmRunTask_def created_def
        task_at_def GVM_ERR_OPENVAS_PROC_FAIL_def split: if_splits)
qed

text \<open>C14: a request to start a scan is answered with the first refusal that applies, in this order: no memory,
  invalid parameters, no connection, no such task, busy; otherwise with the failure of the scanner or with success.
  Only success changes a task: it is checked at once, and nothing else of it or of any other task changes.\<close>

theorem daemon_start_task_answer:
  fixes w w' :: "'a dworld_scheme"
  assumes "store_ok w" "cstring input" "run_state (daemon_start_task env input) w = (r, w')"
  shows "created w' = created w \<and> (case refusal (fault env (tick w)) w (getKeyTaskParam input new_gvm_task) of
      Some e \<Rightarrow> r = e \<and> unchanged {} w w'
    | None \<Rightarrow> \<exists>p\<in>created w. task_name (task_at w p) = task_name (snd (getKeyTaskParam input new_gvm_task)) \<and>
        (if chkTaskBusy (task_at w p) then r = GVM_ERR_TASK_IS_BUSY \<and> unchanged {} w w'
         else r = GVM_ERR_OPENVAS_PROC_FAIL \<and> unchanged {} w w' \<or>
           r = 0 \<and> unchanged {p} w w' \<and> task_at w' p = (task_at w p)\<lparr>m_chk_time := 0\<rparr>))"
proof (cases "refusal (fault env (tick w)) w (getKeyTaskParam input new_gvm_task)")
  case None
  note rn = assms(3) [unfolded daemon_start_task_def]
  from request_found [OF assms(1,2) rn on_found(1) None] obtain p K and w2 w3 :: "'a dworld_scheme" where
    f: "p \<in> created w" "task_name (task_at w p) = task_name (snd (getKeyTaskParam input new_gvm_task))"
      "held K w2" "created w2 = created w" "run_state (start_found env p) w2 = (r, w3)" "created w' = created w3"
      "unchanged {p} w w'" "tasks w' p = tasks w3 p" "tasks w2 p = Some (task_at w p)"
      "tasks w3 = tasks w2 \<longrightarrow> unchanged {} w w'" .
  from start_found_run [OF f(5)] f show ?thesis
    using None by (auto simp: task_at_def intro!: bexI [of _ p])
qed (use with_task_answer [OF assms(1,2) assms(3) [unfolded daemon_start_task_def]] in auto)

text \<open>C15: a request to stop a scan is answered in the same way; the task has to be running.\<close>

theorem daemon_stop_task_answer:
  fixes w w' :: "'a dworld_scheme"
  assumes "store_ok w" "cstring input" "run_state (daemon_stop_task env input) w = (r, w')"
  shows "created w' = created w \<and> (case refusal (fault env (tick w)) w (getKeyTaskParam input new_gvm_task) of
      Some e \<Rightarrow> r = e \<and> unchanged {} w w'
    | None \<Rightarrow> \<exists>p\<in>created w. task_name (task_at w p) = task_name (snd (getKeyTaskParam input new_gvm_task)) \<and>
        (if \<not> chkTaskRunning (task_at w p) then r = GVM_ERR_TASK_IS_NOT_RUNNING \<and> unchanged {} w w'
         else r = GVM_ERR_OPENVAS_PROC_FAIL \<and> unchanged {} w w' \<or>
           r = 0 \<and> unchanged {p} w w' \<and> task_at w' p = (task_at w p)\<lparr>m_chk_time := 0\<rparr>))"
proof (cases "refusal (fault env (tick w)) w (getKeyTaskParam input new_gvm_task)")
  case None
  note rn = assms(3) [unfolded daemon_stop_task_def]
  from request_found [OF assms(1,2) rn on_found(2) None] obtain p K and w2 w3 :: "'a dworld_scheme" where
    f: "p \<in> created w" "task_name (task_at w p) = task_name (snd (getKeyTaskParam input new_gvm_task))"
      "held K w2" "created w2 = created w" "run_state (stop_found env p) w2 = (r, w3)" "created w' = created w3"
      "unchanged {p} w w'" "tasks w' p = tasks w3 p" "tasks w2 p = Some (task_at w p)"
      "tasks w3 = tasks w2 \<longrightarrow> unchanged {} w w'" .
  from stop_found_run [OF f(5)] f show ?thesis
    using None by (auto simp: task_at_def intro!: bexI [of _ p])
qed (use with_task_answer [OF assms(1,2) assms(3) [unfolded daemon_stop_task_def]] in auto)

subsection \<open>Deleting\<close>

lemma delete_found_run:
  fixes w2 :: "'a dworld_scheme"
  assumes h: "held K w2" and p: "p \<in> created w2" and rn: "run_state (delete_found env p) w2 = (r, w3)"
  shows "if chkTaskBusy (task_at w2 p) then r = GVM_ERR_TASK_IS_BUSY \<and> created w3 = created w2 \<and> tasks w3 = tasks w2
    else r = GVM_ERR_OPENVAS_PROC_FAIL \<and> created w3 = created w2 \<and> tasks w3 = tasks w2 \<or>
      r = 0 \<and> (created w3 = created w2 - {p} \<or>
        created w3 = created w2 \<and> m_chk_type (task_at w3 p) = GVM_TASK_CHK_DELETED)"
proof -
  let ?t = "task_at w2 p"
  obtain d w4 where r4: "run_state (gvm_option_delete_task env (task_id ?t)) w2 = (d, w4)" by (metis surj_pair)
  note h4 = held_stays [OF h calm_run [OF calm_gvm(6) r4]]
  have t4: "tasks w4 = tasks w2" using rel_run [OF ss_frame [OF frame_gvm(6)] r4] by (simp add: same_store_def)
  show ?thesis
  proof (cases "chkTaskBusy ?t \<or> d \<noteq> 0")
    case True
    then show ?thesis using rn r4 h4 t4 by (auto simp: delete_found_def get_task_def split: if_splits)
  next
    case False
    then have "run_state (do { _ \<leftarrow> gvm_option_delete_target env (tg_target_id (m_target_info ?t));
         _ \<leftarrow> on_info (gvm_option_delete_schedule env) p;
         _ \<leftarrow> on_info (gvm_option_delete_config env) p;
         d \<leftarrow> delTaskRelationFiles env p;
         (if d = 0 then freeGvmTask p else upd_task p (setTaskChkType GVM_TASK_CHK_DELETED));
         ret 0 }) w4 = (r, w3)"
      using rn r4 by (simp add: delete_found_def get_task_def)
    from delete_rest_inv [OF _ _ this] show ?thesis using h4 p False by auto
  qed
qed

text \<open>C16: a request to delete a scan is answered in the same way.  After success the task is gone from the
  store, or, when the task file could not be written, it stays and is marked so that a later check deletes it; the
  other tasks are as they were.\<close>

theorem daemon_delete_task_answer:
  fixes w w' :: "'a dworld_scheme"
  assumes "store_ok w" "cstring input" "run_state (daemon_delete_task env input) w = (r, w')"
  shows "case refusal (fault env (tick w)) w (getKeyTaskParam input new_gvm_task) of
      Some e \<Rightarrow> r = e \<and> created w' = created w \<and> unchanged {} w w'
    | None \<Rightarrow> \<exists>p\<in>created w. task_name (task_at w p) = task_name (snd (getKeyTaskParam input new_gvm_task)) \<and> unchanged {p} w w' \<and>
        (if chkTaskBusy (task_at w p) then r = GVM_ERR_TASK_IS_BUSY \<and> created w' = created w \<and> unchanged {} w w'
         else r = GVM_ERR_OPENVAS_PROC_FAIL \<and> created w' = created w \<and> unchanged {} w w' \<or>
           r = 0 \<and> (created w' = created w - {p} \<or>
             created w' = created w \<and> m_chk_type (task_at w' p) = GVM_TASK_CHK_DELETED))"
proof (cases "refusal (fault env (tick w)) w (getKeyTaskParam input new_gvm_task)")
  case None
  note rn = assms(3) [unfolded daemon_delete_task_def]
  from request_found [OF assms(1,2) rn on_found(3) None] obtain p K and w2 w3 :: "'a dworld_scheme" where
    f: "p \<in> created w" "task_name (task_at w p) = task_name (snd (getKeyTaskParam input new_gvm_task))"
      "held K w2" "created w2 = created w" "run_state (delete_found env p) w2 = (r, w3)" "created w' = created w3"
      "unchanged {p} w w'" "tasks w' p = tasks w3 p" "tasks w2 p = Some (task_at w p)"
      "tasks w3 = tasks w2 \<longrightarrow> unchanged {} w w'" .
  from delete_found_run [OF f(3) _ f(5)] f show ?thesis
    using None by (auto simp: task_at_def intro!: bexI [of _ p])
qed (use with_task_answer [OF assms(1,2) assms(3) [unfolded daemon_delete_task_def]] in auto)

subsection \<open>Creating\<close>

lemma views_name:
  assumes "views w' = views w"
  shows "task_name (task_at w' p) = task_name (task_at w p)"
proof -
  have "map_option no_paths (tasks w' p) = map_option no_paths (tasks w p)" using fun_cong [OF assms, of p] by (simp add: views_def)
  then show ?thesis
    by (cases "tasks w p"; cases "tasks w' p") (auto simp: task_at_def dest: arg_cong [of _ _ m_task_info])
qed

lemma vi_keep: "(\<And>w. tasks (f w) = tasks w) \<Longrightarrow> rel same_views (modify f)"
  by (rule rel_modify) (simp add: same_views_def views_def)

lemma vi_create_files: "rel same_views (createTaskRelationFiles env p)"
  unfolding createTaskRelationFiles_def record_task_def addGvmTask_def addGvmRunTask_def delGvmTask_def
  by (intro vi.rel_intros vi_get vi_paths vi_frame [OF frame_writeTaskFile] vi_frame [OF frame_files(3)]
      vi_frame [OF frame_files(4)] ss_calls(1) [THEN rel_mono] vi_keep)
    (simp_all add: same_store_def same_views_def views_def)

lemma keeps_name_views:
  assumes "rel same_views m"
  shows "keeps (name_of p) m"
  unfolding keeps_def
proof (intro allI wpI)
  fix a and w w' :: "'a dworld_scheme"
  assume "run_state m w = (a, w')"
  from rel_run [OF assms this] have "views w' = views w" by (simp add: same_views_def)
  then show "name_of p w' = name_of p w" by (rule views_name)
qed

lemma keeps_name_sched: "keeps (name_of p) (setTaskNextChkTime env q n)"
  unfolding setTaskNextChkTime_def getClkTime_def
  by (intro keeps_intros keeps_name_upd keeps_name_frame frame_touches [of "\<lambda>_. True"]
      touches_bind touches_now touches_return) (simp_all add: task_setters)

lemma frame_stamp: "frame (nowTimeStamp env n)"
  unfolding nowTimeStamp_def getTime_def
  by (rule frame_touches [of "\<lambda>_. True"]) (intro touches_bind touches_now touches_return)

lemma keeps_name_store_created: "keeps (name_of p) (store_created env p)"
  unfolding store_created_def
  by (intro keeps_intros keeps_name_frame [OF frame_stamp] keeps_name_views [OF vi_create_files] keeps_name_upd
      keeps_name_sched) (simp_all add: task_setters)

lemma create_parts_code: "run_state (create_parts env p) w = (r, w') \<Longrightarrow> r = 0 \<or> r = GVM_ERR_OPENVAS_PROC_FAIL"
  by (auto simp: create_parts_def Let_def split: prod.splits if_splits)

text \<open>The code with which a request for a new task is refused before the scanner is asked.\<close>

definition create_refusal :: "bool \<Rightarrow> 'a dworld_scheme \<Rightarrow> int \<times> gvm_task \<Rightarrow> int option" where
  "create_refusal nomem w k =
     (if nomem then Some GVM_ERR_INTERNAL_FAIL else if fst k \<noteq> 0 then Some GVM_ERR_PARAM_INVALID
      else if \<not> m_is_gvm_conn_ok w then Some GVM_ERR_GVMD_CONN
      else if task_name (snd k) \<in> names w then Some GVM_ERR_TASK_ALREADY_EXISTS else None)"

lemma create_checked_answer:
  fixes w :: "'a dworld_scheme"
  assumes h: "held K w" and p: "p \<in> K" "task_at w p = new_gvm_task" and i: "cstring input"
    and rn: "run_state (create_checked env p input) w = (r, w')"
  defines "k \<equiv> getCreateTaskParam input new_gvm_task"
  shows "case create_refusal False w k of
      Some e \<Rightarrow> r = e
    | None \<Rightarrow> r = GVM_ERR_OPENVAS_PROC_FAIL \<or> r = GVM_ERR_INTERNAL_FAIL \<or> r = 0 \<and> name_of p w' = task_name (snd k)"
proof -
  obtain u w1 where r1: "run_state (upd_task p (\<lambda>t. snd (getCreateTaskParam input t))) w = (u, w1)"
    by (metis surj_pair)
  note h1 = held_key [OF h p(1) r1]
  have k1: "task_at w1 p = snd k" using h1(3) p(2) by (simp add: k_def)
  have c0: "run_state (if fst k \<noteq> 0 then ret GVM_ERR_PARAM_INVALID else do {
       ok \<leftarrow> gets m_is_gvm_conn_ok;
       if \<not> ok then ret GVM_ERR_GVMD_CONN
       else do {
         f \<leftarrow> findGvmTask p;
         if f \<noteq> None then ret GVM_ERR_TASK_ALREADY_EXISTS
         else do { r \<leftarrow> create_parts env p; if r \<noteq> 0 then ret r else store_created env p } } }) w1 = (r, w')"
    using rn r1 p(2) by (simp add: create_checked_def get_task_def k_def)
  show ?thesis
  proof (cases "fst k \<noteq> 0 \<or> \<not> m_is_gvm_conn_ok w")
    case True
    then show ?thesis using c0 h1(5) by (auto simp: create_refusal_def split: if_splits)
  next
    case False
    then have "getCreateTaskParam input new_gvm_task = (0, snd k)" by (simp add: k_def prod_eq_iff)
    then have "key_ok (snd k)"
      by (rule getCreateTaskParam_key [OF i]) (simp add: new_gvm_task_def initGvmTaskInfo_def)
    then have ok: "key_ok (task_at w1 p)" using k1 by simp
    have i1: "tasks_inv K w1" using h1(1) by (simp add: held_def)
    obtain f w2 where r2: "run_state (findGvmTask p) w1 = (f, w2)" by (metis surj_pair)
    note f = wp_run [OF findGvmTask_inv [OF i1 ok] r2]
    have pc: "p \<notin> created w" using inv_facts(4) [OF _ p(1)] h by (auto simp: held_def)
    have e: "task_name (task_at w1 q) = task_name (task_at w q)" if "q \<in> created w" for q
      using h1(4) [of q] that pc by fastforce
    have f': "f \<noteq> None \<longleftrightarrow> task_name (snd k) \<in> names w"
      using f k1 e h1(2) by (cases f) (auto simp: names_def intro: rev_image_eqI)
    have "run_state (if f \<noteq> None then ret GVM_ERR_TASK_ALREADY_EXISTS
         else do { r \<leftarrow> create_parts env p; if r \<noteq> 0 then ret r else store_created env p }) w1 = (r, w')"
      using c0 False h1(5) r2 f by simp
    note c1 = this
    show ?thesis
    proof (cases "f = None")
      case True
      obtain d w3 where r3: "run_state (create_parts env p) w1 = (d, w3)" by (metis surj_pair)
      have n3: "name_of p w3 = task_name (snd k)" using keeps_run [OF keeps_name_create_parts r3] k1 by simp
      have rf: "create_refusal False w k = None" using False True f' by (simp add: create_refusal_def)
      have c2: "run_state (if d \<noteq> 0 then ret d else store_created env p) w3 = (r, w')" using c1 True r3 by simp
      show ?thesis
      proof (cases "d = 0")
        case True
        then have s: "run_state (store_created env p) w3 = (r, w')" using c2 by simp
        have "name_of p w' = task_name (snd k)" using keeps_run [OF keeps_name_store_created s] n3 by simp
        moreover have "r = 0 \<or> r = GVM_ERR_INTERNAL_FAIL"
          using s by (auto simp: store_created_def split: prod.splits if_splits)
        ultimately show ?thesis using rf by auto
      qed (use c2 create_parts_code [OF r3] rf in auto)
    next
      case f0: False
      then show ?thesis using c1 False f' by (auto simp: create_refusal_def)
    qed
  qed
qed

text \<open>C13: a request for a new scan is answered with the first refusal that applies: no memory, invalid
  parameters, no connection, the name is taken; otherwise the answer is a failure of the scanner, a failure to
  write the files, or success.  Only after success there is one more task, with the requested name, and the tasks
  that were there are as they were in every case.\<close>

theorem daemon_create_task_answer:
  fixes w w' :: "'a dworld_scheme"
  assumes "clock_ok env" "times_ok env" "store_ok w" "cstring input"
    and "run_state (daemon_create_task env input) w = (r, w')"
  shows "unchanged {} w w' \<and> (case create_refusal (fault env (tick w)) w (getCreateTaskParam input new_gvm_task) of
      Some e \<Rightarrow> r = e \<and> created w' = created w
    | None \<Rightarrow> (r = GVM_ERR_OPENVAS_PROC_FAIL \<or> r = GVM_ERR_INTERNAL_FAIL) \<and> created w' = created w \<or>
        r = 0 \<and> (\<exists>p. p \<notin> created w \<and> created w' = insert p (created w) \<and>
          task_name (task_at w' p) = task_name (snd (getCreateTaskParam input new_gvm_task))))"
proof -
  have h0: "held {} w" using assms(3) by (simp add: store_ok_held)
  have c: "r \<noteq> 0 \<Longrightarrow> created w' = created w" using daemon_create_task_inv [OF assms] by blast
  obtain k w1 where r1: "run_state (newGvmTask env) w = (k, w1)" by fastforce
  note n = newGvmTask_held [OF h0 r1]
  show ?thesis
  proof (cases k)
    case None
    then have "r = GVM_ERR_INTERNAL_FAIL" "w' = w1" "fault env (tick w)"
      using assms(5) r1 by (auto simp: daemon_create_task_def newGvmTask_run split: if_splits)
    then show ?thesis using r1 by (auto simp: create_refusal_def newGvmTask_run unchanged_def created_def)
  next
    case (Some p)
    then have nf: "\<not> fault env (tick w)" and t1: "only p w w1"
      using r1 by (auto simp: newGvmTask_run only_def split: if_splits)
    have h1: "held {p} w1" and p1: "task_at w1 p = new_gvm_task" and pc: "p \<notin> created w" using n(3) Some by auto
    obtain e w2 where r2: "run_state (create_checked env p input) w1 = (e, w2)" by (metis surj_pair)
    obtain u w3 where r3: "run_state (if e = 0 then ret () else undo_create env p) w2 = (u, w3)" by (metis surj_pair)
    have x: "r = e" "w' = w3" using assms(5) r1 Some r2 r3 by (auto simp: daemon_create_task_def)
    have "rel (only p) (if e = 0 then ret () else undo_create env p)" by (intro on.rel_intros on_create)
    from on.R_trans [OF on.R_trans [OF t1 rel_run [OF on_create(1) r2]] rel_run [OF this r3]]
    have u: "unchanged {} w w'" using pc x by (auto simp: unchanged_def only_def)
    have "names w1 = names w"
      using n(1) t1 pc by (auto simp: names_def only_def task_at_def image_iff) metis+
    then have "create_refusal (fault env (tick w)) w = create_refusal False w1"
      using nf n(2) by (simp add: fun_eq_iff create_refusal_def)
    moreover have "created w' = insert p (created w)" "name_of p w' = name_of p w2" if "r = 0"
      using create_checked_inv [OF assms(1,2) h1 _ p1 assms(4) r2] r3 x that n(1) by auto
    moreover have "GVM_ERR_OPENVAS_PROC_FAIL \<noteq> 0" "GVM_ERR_INTERNAL_FAIL \<noteq> 0"
      "create_refusal False w1 (getCreateTaskParam input new_gvm_task) \<noteq> Some 0"
      by (simp_all add: create_refusal_def gvm_err_defs)
    ultimately show ?thesis
      using create_checked_answer [OF h1 _ p1 assms(4) r2] u c x(1) pc
      by (cases "create_refusal False w1 (getCreateTaskParam input new_gvm_task)") auto
  qed
qed

subsection \<open>Examples\<close>

definition demo_request :: string where
  "demo_request = ''office'' @ [SOH] @ demo_id CHR ''c'' @ [SOH] @ demo_id CHR ''a'' @ [SOH]"

definition demo_create :: string where
  "demo_create = ''office'' @ [SOH] @ demo_id CHR ''d'' @ [SOH] @ ''full'' @ [SOH] @ ''10.0.0.1'' @ [SOH] @ ''0'' @
     [SOH] @ [SOH] @ [SOH]"

lemma demo_requests:
  "cstring demo_request" "cstring demo_create"
  "fst (getKeyTaskParam demo_request new_gvm_task) = 0"
  "task_name (snd (getKeyTaskParam demo_request new_gvm_task)) = ''office''"
  "fst (getCreateTaskParam demo_create new_gvm_task) = 0"
  "task_name (snd (getCreateTaskParam demo_create new_gvm_task)) = ''office''"
  by code_simp+

lemma demo_task_idle: "\<not> chkTaskBusy demo_task" "\<not> chkTaskRunning demo_task" "task_name demo_task = ''office''"
  by code_simp+

lemma demo_store_facts: "created demo_store = {0}" "m_is_gvm_conn_ok demo_store" "names demo_store = {''office''}"
  by (simp_all add: demo_store_def created_def names_def task_at_def demo_task_idle)

lemma demo_refusal:
  "refusal False demo_store (getKeyTaskParam demo_request new_gvm_task) = None"
  "create_refusal False demo_store (getCreateTaskParam demo_create new_gvm_task) = Some GVM_ERR_TASK_ALREADY_EXISTS"
  by (simp_all add: refusal_def create_refusal_def demo_requests demo_store_facts)

lemma daemon_start_task_answer_witness:
  "fst (run_state (daemon_start_task quiet_env demo_request) demo_store) \<in> {0, GVM_ERR_OPENVAS_PROC_FAIL}"
proof -
  obtain r w' where "run_state (daemon_start_task quiet_env demo_request) demo_store = (r, w')" by (metis surj_pair)
  with daemon_start_task_answer [OF demo_store_ok demo_requests(1) this] show ?thesis
    by (auto simp: demo_refusal demo_store_facts demo_task_idle)
qed

lemma daemon_stop_task_answer_witness:
  "fst (run_state (daemon_stop_task quiet_env demo_request) demo_store) = GVM_ERR_TASK_IS_NOT_RUNNING"
proof -
  obtain r w' where "run_state (daemon_stop_task quiet_env demo_request) demo_store = (r, w')" by (metis surj_pair)
  with daemon_stop_task_answer [OF demo_store_ok demo_requests(1) this] show ?thesis
    by (auto simp: demo_refusal demo_store_facts demo_task_idle)
qed

lemma daemon_delete_task_answer_witness:
  "fst (run_state (daemon_delete_task quiet_env demo_request) demo_store) \<in> {0, GVM_ERR_OPENVAS_PROC_FAIL}"
proof -
  obtain r w' where "run_state (daemon_delete_task quiet_env demo_request) demo_store = (r, w')" by (metis surj_pair)
  with daemon_delete_task_answer [OF demo_store_ok demo_requests(1) this] show ?thesis
    by (auto simp: demo_refusal demo_store_facts demo_task_idle)
qed

lemma daemon_create_task_answer_witness:
  "fst (run_state (daemon_create_task stop_env demo_create) demo_store) = GVM_ERR_TASK_ALREADY_EXISTS"
proof -
  obtain r w' where "run_state (daemon_create_task stop_env demo_create) demo_store = (r, w')" by (metis surj_pair)
  with daemon_create_task_answer [OF stop_ok(1,2) demo_store_ok demo_requests(2) this] show ?thesis
    by (auto simp: demo_refusal)
qed

end
