(* ===== verification/HydraProps.thy ===== *)
theory HydraProps imports Answers begin

text \<open>
  The processes of brute-force tasks: the argument vector a program is started with, the programs that one task
  runs, the children that end, and the entry in the table of \<^verbatim>\<open>cron\<close>.
\<close>

subsection \<open>The argument vector\<close>

text \<open>The vector holds the arguments \<open>xs\<close>, and \<open>n\<close> entries are free.\<close>

definition filled :: "arg list \<Rightarrow> nat \<Rightarrow> pvec \<Rightarrow> bool" where
  "filled xs n v \<longleftrightarrow> params v = map Some xs @ replicate n None \<and> pcnt v = length xs"

lemma filled_put: "filled xs (Suc n) v \<Longrightarrow> put s v = Some v' \<Longrightarrow> filled (xs @ [Text s]) n v'"
  by (auto simp: filled_def put_def put_text_def list_update_append split: if_splits)

lemma filled_put_arg: "filled xs (Suc n) v \<Longrightarrow> filled (xs @ [a]) n (put_arg a v)"
  by (simp add: filled_def put_arg_def list_update_append)

lemma filled_puts: "filled xs (length ss + n) v \<Longrightarrow> puts ss v = Some v' \<Longrightarrow> filled (xs @ map Text ss) n v'"
proof (induction ss arbitrary: xs v)
  case (Cons s ss)
  then obtain v1 where v1: "put s v = Some v1" "puts ss v1 = Some v'" by (auto split: option.splits)
  have "filled (xs @ [Text s]) (length ss + n) v1" using filled_put [OF _ v1(1)] Cons.prems(1) by simp
  from Cons.IH [OF this v1(2)] show ?case by simp
qed simp

text \<open>A block of addresses without a port takes one entry, with the switch still behind it.\<close>

lemma filled_block:
  assumes "filled xs (Suc (Suc n)) v" "put_block hosts v = Some v'" "CHR '':'' \<notin> set hosts"
  shows "filled (xs @ [Text hosts, a]) n (put_arg a v')"
  using assms
  by (auto simp: filled_def put_block_def put_text_def put_arg_def Let_def list_update_append split: if_splits)

lemma argv_filled: "filled xs n v \<longrightarrow> argv s out (params v) = map (arg_text s out \<circ> Some) xs"
proof -
  have "takeWhile (\<lambda>a. a \<noteq> None) (map Some xs @ replicate n None) = map Some xs"
    by (induction xs) (cases n, simp_all)
  then show ?thesis by (simp add: filled_def argv_def)
qed

lemma filled_end: "filled xs n v \<Longrightarrow> 0 < n \<Longrightarrow> (params v)[pcnt v := None] = params v"
  by (cases n) (simp_all add: filled_def list_update_append)

text \<open>A block of addresses with a port leaves the entry behind the arguments empty, and nothing fills it later.\<close>

definition cut :: "arg list \<Rightarrow> pvec \<Rightarrow> bool" where
  "cut xs v \<longleftrightarrow> (\<exists>rest. params v = map Some xs @ None # rest) \<and> length xs < pcnt v"

lemma cut_block: "filled xs (Suc n) v \<Longrightarrow> put_block hosts v = Some v' \<Longrightarrow> CHR '':'' \<in> set hosts \<Longrightarrow> cut xs v'"
  by (auto simp: filled_def cut_def put_block_def put_text_def Let_def list_update_append split: if_splits)

lemma cut_update: "cut xs v \<Longrightarrow> length xs < i \<Longrightarrow> (\<exists>rest. (params v)[i := a] = map Some xs @ None # rest)"
  by (auto simp: cut_def list_update_append split: nat.splits)

lemma cut_put_arg: "cut xs v \<Longrightarrow> cut xs (put_arg a v)"
  using cut_update [of xs v "pcnt v"] by (auto simp: cut_def put_arg_def)

lemma cut_put: "cut xs v \<Longrightarrow> put s v = Some v' \<Longrightarrow> cut xs v'"
  using cut_update [of xs v "pcnt v"] by (auto simp: cut_def put_def put_text_def split: if_splits)

lemma argv_cut: "cut xs v \<Longrightarrow> argv s out ((params v)[pcnt v := None]) = map (arg_text s out \<circ> Some) xs"
proof -
  assume c: "cut xs v"
  from cut_update [OF c, of "pcnt v" None] c obtain rest where "(params v)[pcnt v := None] = map Some xs @ None # rest"
    by (auto simp: cut_def)
  moreover have "takeWhile (\<lambda>a. a \<noteq> None) (map Some xs @ None # rest) = map Some xs" by (induction xs) simp_all
  ultimately show ?thesis by (simp add: argv_def)
qed

lemma argv_tail:
  assumes "filled xs (Suc (Suc n)) v" "(if opts \<noteq> [] then put opts v else Some v) = Some v5"
  shows "argv s out ((params v5)[pcnt v5 := None]) =
    map (arg_text s out \<circ> Some) xs @ (if opts = [] then [] else [opts])"
proof -
  have "filled (xs @ (if opts = [] then [] else [Text opts])) (if opts = [] then Suc (Suc n) else Suc n) v5"
    using assms filled_put [OF assms(1), of opts v5] by (auto split: if_splits)
  from argv_filled [rule_format, OF this] filled_end [OF this] show ?thesis by simp
qed

text \<open>C22: the program of a brute-force task is started with the fixed switches, the files of the task, the
  addresses, the service and the options, in this order.  The addresses are a file for a list of them and stand
  for themselves for a block; but a block with a port ends the arguments before the addresses, so neither they nor
  the service reach the program.\<close>

theorem genCmdParams_argv:
  assumes "genCmdParams t = (0, ps)"
  shows "argv service outfile ps =
    [''/usr/bin/hydra'', ''-I'', ''-t'', ''4'', ''-T'', ''8'', ''-w'', ''10'', ''-o'', outfile, ''-b'', ''json'',
     ''-L'', HYDRA_LOGIN_FILE (h_paths t), ''-P'', HYDRA_PASSWD_FILE (h_paths t), ''-f''] @
    (let opts = (if h_opts t = [] then [] else [h_opts t])
     in if h_hosts_type t = HOSTS_IP_LIST then [''-M'', HYDRA_IP_LIST_FILE (h_paths t), service] @ opts
        else if CHR '':'' \<notin> set (h_hosts t) then [h_hosts t, service] @ opts
        else [])"
proof -
  let ?v0 = "\<lparr>params = replicate MAX_CMD_PARAM_SIZE None, pcnt = 0, pleft = MAX_CACHE_SIZE\<rparr>"
  let ?s1 = "[DEF_HYDRA_PROGRAM_BIN, ''-I'', ''-t'', ''4'', ''-T'', ''8'', ''-w'', ''10'', ''-o'']"
  let ?s2 = "[''-b'', ''json'', ''-L'', HYDRA_LOGIN_FILE (h_paths t), ''-P'', HYDRA_PASSWD_FILE (h_paths t), ''-f'']"
  let ?xs = "map Text ?s1 @ Outfile # map Text ?s2"
  obtain v1 v2 v3 v5 where v1: "puts ?s1 ?v0 = Some v1" and v2: "puts ?s2 (put_arg Outfile v1) = Some v2"
    and v3: "put_hosts t v2 = Some v3"
    and v5: "(if h_opts t \<noteq> [] then put (h_opts t) (put_arg Service v3) else Some (put_arg Service v3)) = Some v5"
      "ps = (params v5)[pcnt v5 := None]"
    using assms by (auto simp: genCmdParams_def Let_def split: option.splits if_splits bind_splits)
  have f0: "filled [] (length ?s1 + Suc 54) ?v0" by (simp add: filled_def max_defs)
  have "filled (map Text ?s1) (Suc 54) v1" using filled_puts [OF f0 v1] by simp
  from filled_put_arg [OF this, of Outfile] have "filled (map Text ?s1 @ [Outfile]) (length ?s2 + 47) (put_arg Outfile v1)"
    by simp
  from filled_puts [OF this v2] have f2: "filled ?xs 47 v2" by simp
  have pre: "map (arg_text service outfile \<circ> Some) ?xs = [''/usr/bin/hydra'', ''-I'', ''-t'', ''4'', ''-T'', ''8'', ''-w'',
     ''10'', ''-o'', outfile, ''-b'', ''json'', ''-L'', HYDRA_LOGIN_FILE (h_paths t), ''-P'',
     HYDRA_PASSWD_FILE (h_paths t), ''-f'']"
    by (simp add: DEF_HYDRA_PROGRAM_BIN_def)
  consider (list) "h_hosts_type t = HOSTS_IP_LIST" "puts [''-M'', HYDRA_IP_LIST_FILE (h_paths t)] v2 = Some v3"
    | (block) "h_hosts_type t \<noteq> HOSTS_IP_LIST" "put_block (h_hosts t) v2 = Some v3"
    using v3 by (auto simp: put_hosts_def split: if_splits)
  then show ?thesis
  proof cases
    case list
    have "filled ?xs (length [''-M'', HYDRA_IP_LIST_FILE (h_paths t)] + Suc 44) v2" using f2 by simp
    from filled_put_arg [OF filled_puts [OF this list(2)], of Service]
    have f: "filled (?xs @ [Text ''-M'', Text (HYDRA_IP_LIST_FILE (h_paths t)), Service]) (Suc (Suc 42)) (put_arg Service v3)"
      by simp
    show ?thesis using argv_tail [OF f v5(1)] list(1) v5(2) pre by simp
  next
    case block
    show ?thesis
    proof (cases "CHR '':'' \<in> set (h_hosts t)")
      case True
      have "filled ?xs (Suc 46) v2" using f2 by simp
      from cut_put_arg [OF cut_block [OF this block(2) True]] have c: "cut ?xs (put_arg Service v3)" .
      have "cut ?xs v5" using v5(1) c cut_put [OF c] by (auto split: if_splits)
      from argv_cut [OF this] show ?thesis using True block(1) v5(2) pre by simp
    next
      case False
      have "filled ?xs (Suc (Suc 45)) v2" using f2 by simp
      from filled_block [OF this block(2) False, of Service]
      have f: "filled (?xs @ [Text (h_hosts t), Service]) (Suc (Suc 43)) (put_arg Service v3)" by simp
      show ?thesis using argv_tail [OF f v5(1)] False block(1) v5(2) pre by simp
    qed
  qed
qed

definition demo_hydra :: hydra_task where
  "demo_hydra = new_hydra_task\<lparr>h_task_name := ''ssh'', h_task_id := demo_id CHR ''e'', h_hosts_type := HOSTS_IP_BLOCK,
     h_hosts := ''10.0.0.0/24:22'', h_services := ''ssh,ftp'', h_paths := (h_paths new_hydra_task)
       \<lparr>HYDRA_TASK_DIR := ''/d'', HYDRA_LOGIN_FILE := ''/d/hydra_login'', HYDRA_PASSWD_FILE := ''/d/hydra_passwd''\<rparr>\<rparr>"

lemma genCmdParams_argv_witness:
  "fst (genCmdParams demo_hydra) = 0 \<and> last (argv ''ssh'' ''/d/out'' (snd (genCmdParams demo_hydra))) = ''-f''"
proof -
  have h: "fst (genCmdParams demo_hydra) = 0"
    by (simp add: genCmdParams_def demo_hydra_def put_def put_text_def put_arg_def put_hosts_def put_block_def fits_def
        Let_def max_defs DEF_HYDRA_PROGRAM_BIN_def HOSTS_IP_LIST_def HOSTS_IP_BLOCK_def new_hydra_task_def)
  then obtain ps where ps: "genCmdParams demo_hydra = (0, ps)" by (metis prod.collapse)
  from genCmdParams_argv [OF ps] show ?thesis
    using h ps by (simp add: demo_hydra_def HOSTS_IP_LIST_def HOSTS_IP_BLOCK_def Let_def)
qed

subsection \<open>Children that have ended\<close>

definition queued_hydra :: "'a hworld_scheme \<Rightarrow> nat set" where
  "queued_hydra w = set (lq_items (h_createque w))"

text \<open>The state in which the tasks whose process is one of \<open>pids\<close> have no process.\<close>

definition cleared :: "int set \<Rightarrow> 'a hworld_scheme \<Rightarrow> 'a hworld_scheme" where
  "cleared pids w = w\<lparr>htasks := (\<lambda>p. if p \<in> queued_hydra w \<and> h_pid (hydra_at w p) \<in> pids
     then map_option (\<lambda>t. t\<lparr>h_pid := 0\<rparr>) (htasks w p) else htasks w p)\<rparr>"

text \<open>No two queued tasks have the same process.\<close>

definition own_pids :: "'a hworld_scheme \<Rightarrow> bool" where
  "own_pids w \<longleftrightarrow> (\<forall>p\<in>queued_hydra w. htasks w p \<noteq> None) \<and>
     inj_on (\<lambda>p. h_pid (hydra_at w p)) {p \<in> queued_hydra w. h_pid (hydra_at w p) \<noteq> 0}"

lemma for_items_chg:
  "run_state (for_items (chgChildTask pid) xs) w =
     (case find (\<lambda>p. h_pid (hydra_at w p) = pid) xs of
        None \<Rightarrow> (0, w)
      | Some p \<Rightarrow> (1, w\<lparr>htasks := (htasks w)(p := map_option (\<lambda>t. t\<lparr>h_pid := 0\<rparr>) (htasks w p))\<rparr>))"
  by (induction xs) (auto simp: for_items_def chgChildTask_def get_hydra_def upd_hydra_def)

lemma find_SomeD: "find P xs = Some x \<Longrightarrow> x \<in> set xs \<and> P x"
  by (induction xs) (auto split: if_splits)

lemma find_NoneD: "find P xs = None \<Longrightarrow> \<not> (x \<in> set xs \<and> P x)"
  by (induction xs) (auto split: if_splits)

lemma chg_cleared:
  assumes "own_pids w" "pid \<noteq> 0"
  shows "snd (run_state (for_items (chgChildTask pid) (lq_items (h_createque w))) w) = cleared {pid} w"
proof (cases "find (\<lambda>p. h_pid (hydra_at w p) = pid) (lq_items (h_createque w))")
  case None
  have n: "\<not> (p \<in> queued_hydra w \<and> h_pid (hydra_at w p) = pid)" for p
    using find_NoneD [OF None, of p] by (simp add: queued_hydra_def)
  have e: "(\<lambda>p. if p \<in> queued_hydra w \<and> h_pid (hydra_at w p) \<in> {pid}
      then map_option (\<lambda>t. t\<lparr>h_pid := 0\<rparr>) (htasks w p) else htasks w p) = htasks w"
    by (rule ext, subst if_not_P) (simp_all add: n)
  have "cleared {pid} w = w" unfolding cleared_def e by simp
  then show ?thesis using None by (simp add: for_items_chg)
next
  case (Some p)
  from find_SomeD [OF Some] have p: "p \<in> queued_hydra w" "h_pid (hydra_at w p) = pid" by (simp_all add: queued_hydra_def)
  have inj: "inj_on (\<lambda>p. h_pid (hydra_at w p)) {p \<in> queued_hydra w. h_pid (hydra_at w p) \<noteq> 0}"
    using assms(1) by (simp add: own_pids_def)
  have u: "q = p" if "q \<in> queued_hydra w" "h_pid (hydra_at w q) = pid" for q
    using inj by (rule inj_onD) (use that p assms(2) in simp_all)
  have e: "(\<lambda>q. if q \<in> queued_hydra w \<and> h_pid (hydra_at w q) \<in> {pid}
      then map_option (\<lambda>t. t\<lparr>h_pid := 0\<rparr>) (htasks w q) else htasks w q)
    = (htasks w)(p := map_option (\<lambda>t. t\<lparr>h_pid := 0\<rparr>) (htasks w p))" (is "?f = ?g")
  proof
    fix q
    show "?f q = ?g q"
    proof (cases "q = p")
      case True
      then show ?thesis using p by simp
    next
      case False
      then have "\<not> (q \<in> queued_hydra w \<and> h_pid (hydra_at w q) \<in> {pid})" using u by blast
      then show ?thesis using False by (simp only: if_False fun_upd_other simp_thms)
    qed
  qed
  show ?thesis using Some unfolding cleared_def e by (simp add: for_items_chg)
qed

lemma cleared_facts [simp]:
  "queued_hydra (cleared A w) = queued_hydra w" "h_createque (cleared A w) = h_createque w"
  by (simp_all add: cleared_def queued_hydra_def)

lemma htasks_cleared:
  "htasks (cleared A w) p = (if p \<in> queued_hydra w \<and> h_pid (hydra_at w p) \<in> A
     then map_option (\<lambda>t. t\<lparr>h_pid := 0\<rparr>) (htasks w p) else htasks w p)"
  by (simp add: cleared_def)

lemma cleared_pid:
  assumes "own_pids w" "p \<in> queued_hydra w"
  shows "h_pid (hydra_at (cleared A w) p) = (if h_pid (hydra_at w p) \<in> A then 0 else h_pid (hydra_at w p))"
  using assms by (auto simp: cleared_def hydra_at_def own_pids_def)

lemma own_pids_cleared: "own_pids w \<Longrightarrow> own_pids (cleared A w)"
proof -
  assume o: "own_pids w"
  have "inj_on (\<lambda>p. h_pid (hydra_at (cleared A w) p)) {p \<in> queued_hydra w. h_pid (hydra_at (cleared A w) p) \<noteq> 0}"
    using o cleared_pid [OF o] by (auto simp: inj_on_def own_pids_def)
  moreover have "\<forall>p\<in>queued_hydra w. htasks (cleared A w) p \<noteq> None" using o by (simp add: own_pids_def cleared_def)
  ultimately show "own_pids (cleared A w)" by (simp add: own_pids_def)
qed

lemma cleared_cleared:
  assumes "own_pids w" "0 \<notin> A"
  shows "cleared A (cleared {pid} w) = cleared (insert pid A) w"
proof -
  have h: "htasks (cleared A (cleared {pid} w)) = htasks (cleared (insert pid A) w)"
  proof
    show "htasks (cleared A (cleared {pid} w)) p = htasks (cleared (insert pid A) w) p" for p
      using assms(2) cleared_pid [OF assms(1), of p "{pid}"]
      by (cases "p \<in> queued_hydra w") (simp_all add: htasks_cleared option.map_comp comp_def)
  qed
  have e: "cleared A (cleared {pid} w) = w\<lparr>htasks := htasks (cleared A (cleared {pid} w))\<rparr>"
    "cleared (insert pid A) w = w\<lparr>htasks := htasks (cleared (insert pid A) w)\<rparr>"
    by (simp_all add: cleared_def)
  show ?thesis using e(1) [unfolded h] e(2) by (rule trans [OF _ sym])
qed

lemma reap_run: "own_pids w \<Longrightarrow> run_state (reap pids) w = ((), cleared (set (takeWhile (\<lambda>n. 0 < n) pids)) w)"
proof (induction pids arbitrary: w)
  case Nil
  have "cleared {} w = w" by (simp add: cleared_def)
  then show ?case by simp
next
  case (Cons pid pids)
  show ?case
  proof (cases "0 < pid")
    case True
    obtain r w1 where r1: "run_state (for_items (chgChildTask pid) (lq_items (h_createque w))) w = (r, w1)" by (metis surj_pair)
    have w1: "w1 = cleared {pid} w" using chg_cleared [OF Cons.prems, of pid] True r1 by simp
    have "0 \<notin> set (takeWhile (\<lambda>n. 0 < n) pids)" by (auto dest: set_takeWhileD)
    then show ?thesis
      using Cons.IH [OF own_pids_cleared [OF Cons.prems, of "{pid}"]] cleared_cleared [OF Cons.prems] True r1 w1 by simp
  next
    case False
    have "cleared {} w = w" by (simp add: cleared_def)
    then show ?thesis using False by simp
  qed
qed

text \<open>C24: when a child has ended, the tasks whose processes have been waited for, and no others, are marked as
  not running; nothing else of the state changes but the flag of the signal.\<close>

theorem monitorHydraTask_clears:
  assumes "own_pids w"
  shows "run_state (monitorHydraTask env) w =
    (0, (if g_has_child_exit w \<or> sigchld env (tick w)
         then cleared (set (takeWhile (\<lambda>n. 0 < n) (reaped env (tick w)))) w else w)
       \<lparr>tick := Suc (tick w), g_has_child_exit := False\<rparr>)"
proof -
  let ?w = "w\<lparr>tick := Suc (tick w), g_has_child_exit := True\<rparr>"
  have "own_pids ?w" using assms by (simp add: own_pids_def queued_hydra_def hydra_at_def)
  moreover have "cleared A ?w = (cleared A w)\<lparr>tick := Suc (tick w), g_has_child_exit := True\<rparr>" for A
    by (simp add: cleared_def queued_hydra_def hydra_at_def cong: if_cong)
  ultimately show ?thesis by (auto simp: monitorHydraTask_def now_def reap_run)
qed

subsection \<open>The programs of a task\<close>

lemma token_service:
  assumes "v \<in> set SYS_SERVICE_LIST"
  shows "getNextToken (tokens_of (v # vs) b) '','' buf MAX_NAME_SIZE = (0, v, tokens_of vs b)"
    "length (tokens_of vs b) < length (tokens_of (v # vs) b)"
proof -
  have v: "v \<noteq> []" "CHR '','' \<notin> set v" "length v < MAX_NAME_SIZE"
    using services_tokens [OF assms] by (auto simp: max_defs)
  then show "getNextToken (tokens_of (v # vs) b) '','' buf MAX_NAME_SIZE = (0, v, tokens_of vs b)"
    by (cases vs; cases b) (simp_all add: getNextToken_field getNextToken_last)
  show "length (tokens_of vs b) < length (tokens_of (v # vs) b)" using v(1) by (cases vs; cases b) simp_all
qed

lemma waitExecTask_run:
  "run_state (waitExecTask env cmds v out) w = (k, w') \<Longrightarrow>
     execs w' = execs w @ [argv v out cmds] \<or> execs w' = execs w \<and> k = - 1"
  by (auto simp: waitExecTask_def forkSafe_def fails_def now_def Let_def split: prod.splits if_splits)

abbreviation out_file :: "hydra_task \<Rightarrow> string \<Rightarrow> string" where
  "out_file t v \<equiv> HYDRA_TASK_DIR (h_paths t) @ ''/hydra_output_'' @ v"

text \<open>The states of a run between its programs: in each of them but the last no stop has been requested, the
  next one is the state after the program of the next service has been started and waited for, and only the
  last program may fail.\<close>

fun programs_from :: "env \<Rightarrow> hydra_task \<Rightarrow> arg option list \<Rightarrow> string list \<Rightarrow> 'a cworld_scheme list \<Rightarrow> bool" where
  "programs_from env t cmds svs [] \<longleftrightarrow> False"
| "programs_from env t cmds svs [w] \<longleftrightarrow> True"
| "programs_from env t cmds [] (w # w1 # ws) \<longleftrightarrow> False"
| "programs_from env t cmds (v # vs) (w # w1 # ws) \<longleftrightarrow> \<not> g_has_stop_task w \<and>
     (case run_state (waitExecTask env cmds v (out_file t v)) w of (k, w2) \<Rightarrow> w2 = w1 \<and> (k = 0 \<or> ws = [])) \<and>
     programs_from env t cmds vs (w1 # ws)"

lemma run_services_run:
  fixes w w' :: "'a cworld_scheme"
  assumes "set svs \<subseteq> set SYS_SERVICE_LIST" "length (tokens_of svs b) < m"
    and "run_state (run_services m env t cmds (tokens_of svs b) buf) w = (r, w')"
  shows "\<exists>ws n. programs_from env t cmds svs (w # ws) \<and> last (w # ws) = w' \<and> n \<le> length ws \<and> n \<le> length svs \<and>
    execs w' = execs w @ map (\<lambda>v. argv v (out_file t v) cmds) (take n svs) \<and>
    (r = 0 \<longrightarrow> n = length ws) \<and> (r = 0 \<and> \<not> g_has_stop_task w' \<longrightarrow> n = length svs)"
  using assms
proof (induction m arbitrary: svs buf w)
  case (Suc m)
  show ?case
  proof (cases "g_has_stop_task w")
    case True
    then have "w' = w" using Suc.prems(3) by simp
    then show ?thesis using True by (intro exI [of _ "[]"] exI [of _ 0]) simp
  next
    case run: False
    show ?thesis
    proof (cases svs)
      case Nil
      then have "w' = w" using Suc.prems(3) run by simp
      then show ?thesis using Nil by (intro exI [of _ "[]"] exI [of _ 0]) simp
    next
      case (Cons v vs)
      note tok = token_service [of v vs b]
      have v: "v \<in> set SYS_SERVICE_LIST" "set vs \<subseteq> set SYS_SERVICE_LIST" using Suc.prems(1) Cons by simp_all
      let ?c = "argv v (out_file t v) cmds"
      show ?thesis
      proof (cases "fits MAX_FILENAME_PATH_SIZE (out_file t v)")
        case False
        then have "w' = w" "r = - 1" using Suc.prems(3) run Cons tok(1) [OF v(1)] by simp_all
        then show ?thesis by (intro exI [of _ "[]"] exI [of _ 0]) simp
      next
        case True
        obtain k and w1 :: "'a cworld_scheme" where
          r1: "run_state (waitExecTask env cmds v (out_file t v)) w = (k, w1)" by (metis surj_pair)
        have r2: "run_state (if k \<noteq> 0 then ret k else run_services m env t cmds (tokens_of vs b) v) w1 = (r, w')"
          using Suc.prems(3) run Cons tok(1) [OF v(1)] True r1 by simp
        show ?thesis
        proof (cases "k = 0")
          case True
          then have e: "execs w1 = execs w @ [?c]" using waitExecTask_run [OF r1] by simp
          have "length (tokens_of vs b) < m" using Suc.prems(2) tok(2) [OF v(1)] Cons by simp
          moreover have "run_state (run_services m env t cmds (tokens_of vs b) v) w1 = (r, w')" using r2 True by simp
          ultimately obtain ws n where "programs_from env t cmds vs (w1 # ws)"
            "last (w1 # ws) = w'" "n \<le> length ws" "n \<le> length vs"
            "execs w' = execs w1 @ map (\<lambda>v. argv v (out_file t v) cmds) (take n vs)"
            "r = 0 \<longrightarrow> n = length ws" "r = 0 \<and> \<not> g_has_stop_task w' \<longrightarrow> n = length vs"
            using Suc.IH [OF v(2)] by blast
          then show ?thesis
            using e Cons run r1 True by (intro exI [of _ "w1 # ws"] exI [of _ "Suc n"]) auto
        next
          case k: False
          then have "r = k" "w' = w1" using r2 by simp_all
          with waitExecTask_run [OF r1] k r1 run show ?thesis
            using Cons by (intro exI [of _ "[w1]"]) (auto intro: exI [of _ 0] exI [of _ "Suc 0"])
        qed
      qed
    qed
  qed
qed simp

text \<open>C23: the process of a task starts one program per service, in the order of the list and each once, with
  an output file of its own.  Before every program, not only before the first, it looks whether a stop has been
  requested, and starts none when it has, so the run is a chain of states in which a program is started and
  waited for without a pending stop, and nothing else happens.  When it returns without error and no stop has
  been requested, it has run the programs of all services.\<close>

theorem runHydraTask_services:
  fixes w w' :: "'a cworld_scheme"
  assumes "set svs \<subseteq> set SYS_SERVICE_LIST" "h_services t = tokens_of svs b"
    and "run_state (runHydraTask env t cmds) w = (r, w')"
  shows "\<exists>ws n. programs_from env t cmds svs (w # ws) \<and> last (w # ws) = w' \<and> n \<le> length ws \<and> n \<le> length svs \<and>
    execs w' = execs w @ map (\<lambda>v. argv v (HYDRA_TASK_DIR (h_paths t) @ ''/hydra_output_'' @ v) cmds) (take n svs) \<and>
    (r = 0 \<longrightarrow> n = length ws) \<and> (r = 0 \<and> \<not> g_has_stop_task w' \<longrightarrow> n = length svs) \<and>
    (g_has_stop_task w \<longrightarrow> n = 0)"
proof -
  obtain ws n where "programs_from env t cmds svs (w # ws)" "last (w # ws) = w'" "n \<le> length ws" "n \<le> length svs"
    "execs w' = execs w @ map (\<lambda>v. argv v (out_file t v) cmds) (take n svs)"
    "r = 0 \<longrightarrow> n = length ws" "r = 0 \<and> \<not> g_has_stop_task w' \<longrightarrow> n = length svs"
    using run_services_run [OF assms(1) _ assms(3) [unfolded runHydraTask_def assms(2)]] by blast
  moreover have "g_has_stop_task w \<longrightarrow> ws = []"
    using \<open>programs_from env t cmds svs (w # ws)\<close> by (cases svs; cases ws) auto
  ultimately show ?thesis by (intro exI [of _ ws] exI [of _ n]) auto
qed

subsection \<open>Days of the week\<close>

text \<open>The list that a client gives for the days, and the one that \<^verbatim>\<open>cron\<close> gets.\<close>

abbreviation day_codes :: "string list \<Rightarrow> string" where
  "day_codes ds \<equiv> tokens_of (map (take 2) ds) False"

lemma WEEK_DAYS_facts:
  assumes "d \<in> set WEEK_DAYS"
  shows "find (\<lambda>e. take 2 e = take 2 d) WEEK_DAYS = Some d" "length d = 3" "take 2 d \<noteq> []"
proof -
  have "\<forall>d\<in>set WEEK_DAYS. find (\<lambda>e. take 2 e = take 2 d) WEEK_DAYS = Some d \<and> length d = 3 \<and> take 2 d \<noteq> []"
    by code_simp
  then show "find (\<lambda>e. take 2 e = take 2 d) WEEK_DAYS = Some d" "length d = 3" "take 2 d \<noteq> []" using assms by blast+
qed

lemma conv_week_day:
  assumes "psz \<noteq> []" "find (\<lambda>e. take 2 e = take 2 psz) WEEK_DAYS = Some d"
  shows "conv_week m dst psz =
    (if length dst + 4 < m
     then (case drop 2 psz of [] \<Rightarrow> (0, dst @ d)
       | c # rest \<Rightarrow> if c = CHR '','' then conv_week m (dst @ d @ '','') rest else (- 1, dst @ d))
     else (- 1, dst))"
  by (subst conv_week.simps) (simp add: assms)

lemma conv_week_step:
  assumes "d \<in> set WEEK_DAYS"
  shows "conv_week m dst (day_codes (d # ds)) =
    (if length dst + 4 < m
     then if ds = [] then (0, dst @ d) else conv_week m (dst @ d @ '','') (day_codes ds)
     else (- 1, dst))"
proof -
  have d: "length (take 2 d) = 2" using WEEK_DAYS_facts(2) [OF assms] by simp
  have c: "day_codes (d # ds) = take 2 d @ (if ds = [] then [] else CHR '','' # day_codes ds)" by (cases ds) simp_all
  have k: "take 2 (day_codes (d # ds)) = take 2 d" "drop 2 (day_codes (d # ds)) = (if ds = [] then [] else CHR '','' # day_codes ds)"
    unfolding c using d by simp_all
  have "day_codes (d # ds) \<noteq> []" unfolding c using WEEK_DAYS_facts(3) [OF assms] by simp
  from conv_week_day [OF this, of d m dst] show ?thesis
    unfolding k WEEK_DAYS_facts(1) [OF assms] by (cases "ds = []") simp_all
qed

lemma conv_week_days:
  "ds \<noteq> [] \<Longrightarrow> set ds \<subseteq> set WEEK_DAYS \<Longrightarrow>
   (if length dst + 4 * length ds < m then conv_week m dst (day_codes ds) = (0, dst @ tokens_of ds False)
    else fst (conv_week m dst (day_codes ds)) = - 1)"
proof (induction ds arbitrary: dst)
  case (Cons d ds)
  have d: "d \<in> set WEEK_DAYS" "length d = 3" using Cons.prems(2) WEEK_DAYS_facts(2) [of d] by simp_all
  show ?case
  proof (cases ds)
    case Nil
    then show ?thesis using conv_week_step [OF d(1), of m dst "[]"] by simp
  next
    case (Cons e es)
    have "tokens_of (d # ds) False = d @ '','' @ tokens_of ds False" using Cons by simp
    moreover have "ds \<noteq> []" using Cons by simp
    ultimately show ?thesis
      using conv_week_step [OF d(1), of m dst ds] Cons.IH [of "dst @ d @ '',''"] Cons.prems(2) d(2) by simp
  qed
qed simp

text \<open>The days of a weekly schedule are written out in full, in the order of the request, exactly if four
  characters for each of them fit the buffer, and refused otherwise.  A Tuesday becomes \<open>TUS\<close>.\<close>

theorem convWeekDay_days:
  assumes "ds \<noteq> []" "set ds \<subseteq> set WEEK_DAYS"
  shows "convWeekDay (tokens_of (map (take 2) ds) False) maxlen =
    (if 4 * length ds < maxlen then (0, tokens_of ds False) else (- 1, []))"
proof -
  have l: "length (tokens_of ds False) + 1 = 4 * length ds"
    using assms
  proof (induction ds)
    case (Cons d ds)
    then show ?case using WEEK_DAYS_facts(2) [of d] by (cases ds) simp_all
  qed simp
  then have "0 < length (tokens_of ds False)" using assms(1) by (cases ds) simp_all
  then show ?thesis
    using conv_week_days [OF assms, of "[]" maxlen] l
    by (cases "conv_week maxlen [] (day_codes ds)") (auto simp: convWeekDay_def split: if_splits)
qed

lemma convWeekDay_days_witness: "convWeekDay ''TU,SA'' 64 = (0, ''TUS,SAT'')"
  using convWeekDay_days [of "[''TUS'', ''SAT'']" 64] by (simp add: WEEK_DAYS_def)

subsection \<open>Examples\<close>

definition demo_hydras :: sworld where
  "demo_hydras = demo_service\<lparr>htasks := [0 \<mapsto> demo_hydra\<lparr>h_pid := 7\<rparr>], hnxt := 1,
     h_createque := \<lparr>lq_cnt = 1, lq_items = [0]\<rparr>, h_nameset := [0], h_name_cap := DEF_LIST_ARRAY_SIZE\<rparr>"

definition child_env :: env where
  "child_env = stop_env\<lparr>sigchld := (\<lambda>_. True), reaped := (\<lambda>_. [7]), waits := (\<lambda>_. ([], True))\<rparr>"

lemma monitorHydraTask_clears_witness:
  "htasks (snd (run_state (monitorHydraTask child_env) demo_hydras)) 0 = Some (demo_hydra\<lparr>h_pid := 0\<rparr>)"
proof -
  have "own_pids demo_hydras" by (simp add: own_pids_def demo_hydras_def queued_hydra_def hydra_at_def)
  from monitorHydraTask_clears [OF this, of child_env] show ?thesis
    by (simp add: child_env_def demo_hydras_def cleared_def queued_hydra_def hydra_at_def)
qed

definition demo_child :: cworld where
  "demo_child = \<lparr>tick = 0, fs = [], link = False, sent = [], ran = [], kills = [], c_pid = 0, g_has_stop_task = False,
     execs = []\<rparr>"

lemma runHydraTask_services_witness:
  "\<exists>n ws. n \<le> 2 \<and> programs_from child_env demo_hydra (snd (genCmdParams demo_hydra)) [''ssh'', ''ftp''] (demo_child # ws) \<and>
   execs (snd (run_state (runHydraTask child_env demo_hydra (snd (genCmdParams demo_hydra))) demo_child)) =
     map (\<lambda>v. argv v (''/d/hydra_output_'' @ v) (snd (genCmdParams demo_hydra))) (take n [''ssh'', ''ftp''])"
proof -
  have s: "set [''ssh'', ''ftp''] \<subseteq> set SYS_SERVICE_LIST" "h_services demo_hydra = tokens_of [''ssh'', ''ftp''] False"
    "HYDRA_TASK_DIR (h_paths demo_hydra) = ''/d''"
    by (simp_all add: SYS_SERVICE_LIST_def demo_hydra_def)
  obtain r w' where r: "run_state (runHydraTask child_env demo_hydra (snd (genCmdParams demo_hydra))) demo_child = (r, w')"
    by (metis surj_pair)
  have e: "execs demo_child = []" by (simp add: demo_child_def)
  from runHydraTask_services [OF s(1,2) r, unfolded e] obtain ws n where
    "programs_from child_env demo_hydra (snd (genCmdParams demo_hydra)) [''ssh'', ''ftp''] (demo_child # ws)"
    "n \<le> length [''ssh'', ''ftp'']"
    "execs w' = map (\<lambda>v. argv v (HYDRA_TASK_DIR (h_paths demo_hydra) @ ''/hydra_output_'' @ v)
      (snd (genCmdParams demo_hydra))) (take n [''ssh'', ''ftp''])"
    by auto
  then show ?thesis
    unfolding r s(3) snd_conv by (intro exI [of _ n] exI [of _ ws]) (simp add: numeral_2_eq_2)
qed

end
