(* ===== verification/Frames.thy ===== *)
theory Frames imports HydraProps begin

text \<open>
  What the parts of the service leave alone: requests about scans and their checks the connection to the server and
  everything beyond the store of scans; requests about brute-force tasks the connection and the loop; the server's
  commands everything but the connection.
\<close>

subsection \<open>Scans\<close>

definition scan_only :: "'a dworld_scheme \<Rightarrow> 'a dworld_scheme \<Rightarrow> bool" where
  "scan_only w w' \<longleftrightarrow> link w' = link w \<and> sent w' = sent w \<and> dworld.more w' = dworld.more w"

interpretation so: stepping scan_only
  by unfold_locales (simp_all add: scan_only_def)

lemma so_modify:
  "(\<And>w. link (f w) = link w \<and> sent (f w) = sent w \<and> dworld.more (f w) = dworld.more w) \<Longrightarrow> rel scan_only (modify f)"
  by (rule rel_modify) (simp add: scan_only_def)

lemma so_touches:
  fixes m :: "('a dworld_scheme, 'b) state"
  assumes "touches P m"
  shows "rel scan_only m"
proof (rule relI)
  fix w w' :: "'a dworld_scheme" and a
  assume "run_state m w = (a, w')"
  then have "world.more w' = world.more w" using touches_run [OF assms] by (auto simp: same_rest_def)
  then show "scan_only w w'" by (cases w; cases w') (simp add: scan_only_def)
qed

lemma so_calls:
  "rel scan_only (fails env)" "rel scan_only now" "rel scan_only (getClkTime env)" "rel scan_only (getTime env)"
  unfolding getClkTime_def getTime_def
  by (rule so_touches, intro touches_bind touches_fails touches_now touches_return)+

lemma so_files:
  "rel scan_only (writeFileSafe env b p t)" "rel scan_only (readTotalFile env p)" "rel scan_only (createDir env p)"
  "rel scan_only (deleteDir env p)" "rel scan_only (chkExists env p d)" "rel scan_only (deleteFile env p)"
  "rel scan_only (writeFile env b p)" "rel scan_only (copyFileListSafe env bd fl p t)" "rel scan_only (genUUID env n)"
  by (rule so_touches, rule touches_writeFileSafe [of "\<lambda>_. True"] touches_readTotalFile [of "\<lambda>_. True"]
      touches_createDir [of "\<lambda>_. True"] touches_deleteDir touches_chkExists [of "\<lambda>_. True"]
      touches_deleteFile [of "\<lambda>_. True"] touches_writeFile [of "\<lambda>_. True"]
      touches_copyFileListSafe [of "\<lambda>_. True"] touches_genUUID [of "\<lambda>_. True"]; simp)+

lemma so_exeCmd: "rel scan_only (exeCmd env cmd n)"
  unfolding exeCmd_def by (intro so.rel_intros so_calls so_modify) simp_all

lemma so_request: "rel scan_only (gvm_request env cmd xml)"
  unfolding gvm_request_def procGvmTask_def by (intro so.rel_intros so_exeCmd)

lemma so_simple: "rel scan_only (gvm_simple env u cmd xml)" "rel scan_only (gvm_create env cmd xml old n)"
  unfolding gvm_simple_def gvm_create_def by (intro so.rel_intros so_request)+

lemma so_sched_time: "rel scan_only (local2SchedTime env n s once)"
  by (rule so_touches [OF touches_local2SchedTime])

lemma so_gvm:
  "rel scan_only (gvm_start_task env u n)" "rel scan_only (gvm_stop_task env u)" "rel scan_only (gvm_query_report env u)"
  "rel scan_only (gvm_query_task env u)" "rel scan_only (gvm_query_result env u r i j)"
  "rel scan_only (gvm_option_delete_task env u)" "rel scan_only (gvm_option_delete_target env u)"
  "rel scan_only (gvm_create_target env nm h pl old n)" "rel scan_only (gvm_create_task env nm tg cf sc old n)"
  "rel scan_only (gvm_get_version env v)" "rel scan_only (gvm_option_create_schedule env info)"
  "rel scan_only (gvm_option_delete_schedule env info)" "rel scan_only (gvm_option_delete_config env info)"
  "rel scan_only (gvm_option_create_config env info)"
  unfolding gvm_start_task_def gvm_stop_task_def gvm_query_report_def gvm_query_task_def gvm_query_result_def
    gvm_option_delete_task_def gvm_option_delete_target_def gvm_create_target_def gvm_create_task_def
    gvm_get_version_def gvm_option_create_schedule_def gvm_create_schedule_def gvm_option_delete_schedule_def
    gvm_delete_schedule_def gvm_option_delete_config_def gvm_delete_config_def gvm_option_create_config_def
    gvm_create_config_ex_def
  by (intro so.rel_intros so_simple so_request so_sched_time)+

lemma so_get: "rel scan_only (get_task p)"
  unfolding get_task_def by (rule so.rel_gets)

lemma so_upd: "rel scan_only (upd_task p f)"
  unfolding upd_task_def by (rule so_modify) simp

lemma so_store:
  "rel scan_only (newGvmTask env)" "rel scan_only (freeGvmTask p)" "rel scan_only (addGvmTask env p)"
  "rel scan_only (delGvmTask p)" "rel scan_only (addGvmRunTask p)" "rel scan_only (delGvmRunTask p)"
  "rel scan_only (queGvmRunTask p)" "rel scan_only (findGvmTask p)"
  unfolding newGvmTask_def freeGvmTask_def addGvmTask_def delGvmTask_def addGvmRunTask_def delGvmRunTask_def
    queGvmRunTask_def findGvmTask_def
  by (intro so.rel_intros so_calls so_modify; simp)+

lemma so_paths: "rel scan_only (prepare_paths p)"
  unfolding prepare_paths_def by (intro so.rel_intros so_get so_upd)

lemma so_task_files:
  "rel scan_only (writeTaskFile env)" "rel scan_only (writeTaskStatusFile env p)" "rel scan_only (writeTaskResult env p s)"
  "rel scan_only (readTaskStatusFile env p)"
  unfolding writeTaskFile_def writeTaskStatusFile_def writeTaskResult_def readTaskStatusFile_def
  by (intro so.rel_intros so_get so_upd so_files so_paths)+

lemma so_relation_files:
  "rel scan_only (createTaskRelationFiles env p)" "rel scan_only (delTaskRelationFiles env p)"
  unfolding createTaskRelationFiles_def record_task_def delTaskRelationFiles_def forget_task_def
  by (intro so.rel_intros so_get so_store so_paths so_files so_task_files)+

lemma so_sched:
  "rel scan_only (setTaskNextChkTime env p n)" "rel scan_only (isTaskChkTimeExpired env p)" "rel scan_only (addTaskChecks env p)"
  unfolding setTaskNextChkTime_def isTaskChkTimeExpired_def addTaskChecks_def
  by (intro so.rel_intros so_get so_upd so_calls so_store)+

lemma so_parse:
  "rel scan_only (parseResult env buf r)" "rel scan_only (parseReport env buf i)" "rel scan_only (parseTask env buf i)"
  by (rule so_touches, rule touches_parse [of "\<lambda>_. True"])+

lemma so_check_task: "rel scan_only (check_task env p)"
  unfolding check_task_def backend_query_task_def backend_query_report_def backend_query_result_def query_results_def
    finish_results_def new_report_def take_report_def delete_check_def
  by (intro so.rel_intros so_get so_upd so_gvm so_parse so_sched so_store so_task_files so_relation_files)

lemma so_runGvmChecks: "rel scan_only (runGvmChecks env)"
  unfolding runGvmChecks_def by (intro so.rel_intros so_check_task so_sched)

lemma so_on_info: "(\<And>i. rel scan_only (f i)) \<Longrightarrow> rel scan_only (on_info f p)"
  unfolding on_info_def by (intro so.rel_intros so_get so_upd)

lemma so_with_task: "(\<And>p. rel scan_only (body p)) \<Longrightarrow> rel scan_only (with_task env input body)"
  unfolding with_task_def locate_task_def by (intro so.rel_intros so_store so_get so_upd)

lemma so_stamp: "rel scan_only (nowTimeStamp env n)"
  unfolding nowTimeStamp_def by (intro so.rel_intros so_calls)

lemma so_daemon_task:
  "rel scan_only (daemon_start_task env input)" "rel scan_only (daemon_stop_task env input)"
  "rel scan_only (daemon_delete_task env input)" "rel scan_only (daemon_create_task env input)"
  unfolding daemon_start_task_def daemon_stop_task_def daemon_delete_task_def daemon_create_task_def start_found_def
    stop_found_def delete_found_def create_checked_def create_parts_def store_created_def undo_create_def undo_parts_def
  by (intro so_with_task so.rel_intros so_get so_gvm so_sched so_store so_on_info so_relation_files so_upd so_stamp)+

lemma so_parse_records: "rel scan_only (parse_records n env s)"
proof (induction n arbitrary: s)
  case 0
  then show ?case by (simp add: so.rel_return)
next
  case (Suc n)
  then show ?case unfolding parse_records.simps by (intro so.rel_intros so_store so_get so_upd)
qed

lemma so_initDaemon: "rel scan_only (initDaemon env)"
  unfolding initDaemon_def createData_def finishData_def init_steps_def readTaskFile_def parseTaskRecord_def
    readAllTaskStatusRecs_def addGvmChecks_def
  by (intro so.rel_intros so_calls so_modify so_files so_parse_records so_task_files so_sched; simp)

subsection \<open>Brute-force tasks\<close>

definition daemon_only :: "'a hworld_scheme \<Rightarrow> 'a hworld_scheme \<Rightarrow> bool" where
  "daemon_only w w' \<longleftrightarrow> link w' = link w \<and> sent w' = sent w \<and> hworld.more w' = hworld.more w"

interpretation da: stepping daemon_only
  by unfold_locales (simp_all add: daemon_only_def)

text \<open>What requests about scans leave alone contains the store of brute-force tasks.\<close>

lemma scan_only_fields:
  fixes w w' :: "'a hworld_scheme"
  assumes "scan_only w w'"
  shows "is_last_status_ok w' = is_last_status_ok w" "htasks w' = htasks w" "hnxt w' = hnxt w"
    "h_createque w' = h_createque w" "h_nameset w' = h_nameset w" "h_name_cap w' = h_name_cap w"
    "h_task_file_name w' = h_task_file_name w" "h_task_priv_dir w' = h_task_priv_dir w" "hworld.more w' = hworld.more w"
  using assms by (cases w; cases w'; simp add: scan_only_def)+

lemma da_scan: "rel scan_only m \<Longrightarrow> rel daemon_only m"
  by (erule rel_mono) (simp add: daemon_only_def scan_only_fields(9), simp add: scan_only_def)

lemma da_modify:
  "(\<And>w. link (f w) = link w \<and> sent (f w) = sent w \<and> hworld.more (f w) = hworld.more w) \<Longrightarrow> rel daemon_only (modify f)"
  by (rule rel_modify) (simp add: daemon_only_def)

lemmas da_calls = so_calls [THEN da_scan] and da_files = so_files [THEN da_scan]

lemma da_hydra_base:
  "rel daemon_only (upd_hydra p g)" "rel daemon_only (get_hydra p)" "rel daemon_only (newHydraTask env)"
  "rel daemon_only (freeHydraTask p)" "rel daemon_only (addHydraTask env p)" "rel daemon_only (delHydraTask key)"
  "rel daemon_only (findHydraTask key)"
  unfolding upd_hydra_def get_hydra_def newHydraTask_def freeHydraTask_def addHydraTask_def delHydraTask_def
    findHydraTask_def
  by (intro da.rel_intros da_calls da_modify; simp)+

lemma da_hydra_files:
  "rel daemon_only (prepare_hydra p)" "rel daemon_only (writeHydraTaskFile env)" "rel daemon_only (writeScheduleFiles env p)"
  "rel daemon_only (deleteScheduleFiles env p)" "rel daemon_only (write_ip_list env t)"
  unfolding prepare_hydra_def writeHydraTaskFile_def writeScheduleFiles_def deleteScheduleFiles_def write_ip_list_def
  by (intro da.rel_intros da_hydra_base da_files)+

lemma da_hydra_relation:
  "rel daemon_only (writeHydraRelationFile env p)" "rel daemon_only (delHydraRelationFiles env p)"
  unfolding writeHydraRelationFile_def write_hydra_parts_def delHydraRelationFiles_def
  by (intro da.rel_intros da_hydra_base da_hydra_files da_files)+

lemma da_processes:
  "rel daemon_only (stopProc env pid)" "rel daemon_only (runHydra env p)"
  unfolding stopProc_def killSafe_def runHydra_def forkSafe_def
  by (intro da.rel_intros da_calls da_modify da_hydra_base da_hydra_files; simp)+

lemma da_with_hydra: "(\<And>p. rel daemon_only (body p)) \<Longrightarrow> rel daemon_only (with_hydra env input body)"
  unfolding with_hydra_def locate_hydra_def by (intro da.rel_intros da_hydra_base)

lemma da_create_param: "rel daemon_only (getCreateHydraParam env input t)"
  unfolding getCreateHydraParam_def by (intro da.rel_intros da_files)

lemma da_daemon_hydra:
  "rel daemon_only (daemon_start_hydra env input)" "rel daemon_only (daemon_stop_hydra env input)"
  "rel daemon_only (daemon_delete_hydra env input)" "rel daemon_only (daemon_create_hydra env input)"
  unfolding daemon_start_hydra_def daemon_stop_hydra_def daemon_delete_hydra_def daemon_create_hydra_def
    start_hydra_found_def stop_hydra_found_def delete_hydra_found_def create_hydra_checked_def
  by (intro da_with_hydra da.rel_intros da_hydra_base da_processes da_hydra_relation da_create_param da_scan [OF so_stamp])+

lemma da_handlers: "h \<in> set (g_hds env) \<Longrightarrow> rel daemon_only (snd h s)"
  by (auto simp: g_hds_def intro: so_daemon_task [THEN da_scan] da_daemon_hydra)

lemma da_chgChildTask: "rel daemon_only (chgChildTask pid p)"
  unfolding chgChildTask_def by (intro da.rel_intros da_hydra_base)

lemma da_reap: "rel daemon_only (reap pids)"
proof (induction pids)
  case Nil
  then show ?case by (simp add: da.rel_return)
next
  case (Cons pid pids)
  then show ?case
    unfolding reap.simps by (intro da.rel_intros da_chgChildTask)
qed

lemma da_monitor: "rel daemon_only (monitorHydraTask env)"
  unfolding monitorHydraTask_def by (intro da.rel_intros da_calls da_reap da_modify) simp_all

lemma da_validate: "rel daemon_only (validateGvmConn env)"
  unfolding validateGvmConn_def by (intro da.rel_intros da_scan [OF so_gvm(10)] da_modify) simp_all

lemma da_parse_hydra: "rel daemon_only (parse_hydra_records n env s)"
proof (induction n arbitrary: s)
  case 0
  then show ?case by (simp add: da.rel_return)
next
  case (Suc n)
  then show ?case unfolding parse_hydra_records.simps by (intro da.rel_intros da_hydra_base)
qed

lemma da_initHydra: "rel daemon_only (initHydra env)"
proof -
  have "rel daemon_only (finishHydraData :: ('a hworld_scheme, unit) state)"
    unfolding finishHydraData_def by (rule da_modify) simp
  then show ?thesis
    unfolding initHydra_def createHydraData_def readHydraTaskFile_def parseHydraRecord_def
    by (intro da.rel_intros da_calls da_modify da_files da_parse_hydra; simp)
qed

subsection \<open>The server\<close>

text \<open>A command of the server changes the connection and the list of commands, nothing above.\<close>

definition redis_only :: "'a rworld_scheme \<Rightarrow> 'a rworld_scheme \<Rightarrow> bool" where
  "redis_only w w' \<longleftrightarrow> fs w' = fs w \<and> rworld.more w' = rworld.more w"

interpretation ro: stepping redis_only
  by unfold_locales (simp_all add: redis_only_def)

lemma ro_redis_cmd: "rel redis_only (redis_cmd env cmd)"
  unfolding redis_cmd_def redis_attempt_def get_redis_ctx_def redis_test_connection_def send_cmd_def set_link_def
    fails_def now_def
  by (intro ro.rel_intros rel_modify) (auto simp: redis_only_def split: reply.splits option.splits)

lemma ro_redis:
  "rel redis_only (redis_push_int_ttl env nm v ttl)" "rel redis_only (redis_pop_str env nm cap)"
  "rel redis_only (redis_del_items env nm)" "rel redis_only (redis_new env)" "rel redis_only redis_delete"
  unfolding redis_push_int_ttl_def redis_push_str_ttl_def redis_push_str_def redis_expire_def redis_pop_str_def
    redis_del_items_def redis_new_def redis_delete_def set_link_def fails_def now_def
  by (intro ro.rel_intros ro_redis_cmd rel_modify; simp add: redis_only_def)+

end
