(* ===== verification/Replies.thy ===== *)
theory Replies imports Frames begin

text \<open>
  The answers to the clients and the waiting times: how often a command goes to the server, that every well-formed
  message is answered once under its identifier with one of the documented codes, and the bounds of the loop's
  counters.
\<close>

subsection \<open>Commands to the server\<close>

definition PING :: "string list" where "PING = [''PING'']"

lemma test_connection_run:
  "run_state (redis_test_connection env) w = (c, w') \<Longrightarrow> sent w' = sent w @ [PING] \<and> link w' = link w"
  by (auto simp: redis_test_connection_def send_cmd_def now_def PING_def)

lemma get_redis_ctx_run:
  assumes "run_state (get_redis_ctx env) w = (c, w')"
  shows "\<exists>ps. ps \<in> {[], [PING]} \<and> (link w \<longrightarrow> ps = [] \<and> c = 0) \<and> sent w' = sent w @ ps \<and> (link w' \<longleftrightarrow> c = 0)"
proof (cases "link w \<or> fault env (tick w)")
  case True
  then show ?thesis using assms by (cases "link w") (auto simp: get_redis_ctx_def fails_def now_def)
next
  case False
  obtain d w1 where r1: "run_state (redis_test_connection env) (w\<lparr>tick := Suc (tick w), link := True\<rparr>) = (d, w1)"
    by (metis surj_pair)
  have "c = d" "w' = (if d \<noteq> 0 then w1\<lparr>link := False\<rparr> else w1)"
    using assms r1 False by (auto simp: get_redis_ctx_def fails_def now_def set_link_def split: if_splits)
  then show ?thesis using test_connection_run [OF r1] False by (intro exI [of _ "[PING]"]) auto
qed

lemma redis_attempt_run:
  assumes "run_state (redis_attempt env cmd) w = (a, w')"
  shows "\<exists>ps. ps \<in> {[], [PING]} \<and> (link w \<longrightarrow> ps = [] \<and> a \<noteq> Inl False) \<and>
    sent w' = sent w @ ps @ (if a = Inl False then [] else [cmd]) \<and> (link w' \<longleftrightarrow> (\<exists>v. a = Inr v))"
proof -
  obtain c w1 where r1: "run_state (get_redis_ctx env) w = (c, w1)" by (metis surj_pair)
  from get_redis_ctx_run [OF r1] obtain ps where ps: "ps \<in> {[], [PING]}" "link w \<longrightarrow> ps = [] \<and> c = 0"
    "sent w1 = sent w @ ps" "link w1 \<longleftrightarrow> c = 0" by auto
  have "if c \<noteq> 0 then a = Inl False \<and> w' = w1
    else sent w' = sent w1 @ [cmd] \<and> a \<noteq> Inl False \<and> (link w' \<longleftrightarrow> (\<exists>v. a = Inr v))"
    using assms r1 ps(4)
    by (auto simp: redis_attempt_def send_cmd_def now_def set_link_def split: if_splits option.splits)
  then show ?thesis using ps by (intro exI [of _ ps]) (auto split: if_splits)
qed

lemma redis_cmd_run:
  assumes "run_state (redis_cmd env cmd) w = (r, w')"
  shows "\<exists>ps xs qs ys. {ps, qs} \<subseteq> {[], [PING]} \<and> {xs, ys} \<subseteq> {[], [cmd]} \<and> sent w' = sent w @ ps @ xs @ qs @ ys \<and>
    (link w \<longrightarrow> ps = [] \<and> xs = [cmd]) \<and> (link w' \<longleftrightarrow> r \<noteq> None) \<and> (r \<noteq> None \<longrightarrow> last (ps @ xs @ qs @ ys) = cmd)"
proof -
  obtain a w1 where r1: "run_state (redis_attempt env cmd) w = (a, w1)" by (metis surj_pair)
  from redis_attempt_run [OF r1] obtain ps where ps: "ps \<in> {[], [PING]}" "link w \<longrightarrow> ps = [] \<and> a \<noteq> Inl False"
    "sent w1 = sent w @ ps @ (if a = Inl False then [] else [cmd])" "link w1 \<longleftrightarrow> (\<exists>v. a = Inr v)" by auto
  show ?thesis
  proof (cases "a = Inl True")
    case False
    then have "w' = w1" "r = (case a of Inl _ \<Rightarrow> None | Inr v \<Rightarrow> Some v)"
      using assms r1 by (auto simp: redis_cmd_def split: sum.splits)
    then show ?thesis using ps False
      by (intro exI [of _ ps] exI [of _ "if a = Inl False then [] else [cmd]"] exI [of _ "[]"]) (cases a; simp)
  next
    case True
    obtain b w2 where r2: "run_state (redis_attempt env cmd) w1 = (b, w2)" by (metis surj_pair)
    from redis_attempt_run [OF r2] obtain qs where qs: "qs \<in> {[], [PING]}"
      "sent w2 = sent w1 @ qs @ (if b = Inl False then [] else [cmd])" "link w2 \<longleftrightarrow> (\<exists>v. b = Inr v)" by auto
    have "w' = w2" "r = (case b of Inl _ \<Rightarrow> None | Inr v \<Rightarrow> Some v)"
      using assms r1 r2 True by (auto simp: redis_cmd_def split: sum.splits)
    then show ?thesis using ps qs True
      by (intro exI [of _ ps] exI [of _ "[cmd]"] exI [of _ qs] exI [of _ "if b = Inl False then [] else [cmd]"])
        (cases b; simp)
  qed
qed

text \<open>C32: a command goes to the server at most twice, each time after at most one test of a new connection; there
  is a connection afterwards exactly if there is a reply, which then answers the command that was sent last.\<close>

theorem redis_cmd_attempts:
  assumes "run_state (redis_cmd env cmd) w = (r, w')"
  shows "\<exists>ps xs qs ys. {ps, qs} \<subseteq> {[], [PING]} \<and> {xs, ys} \<subseteq> {[], [cmd]} \<and> sent w' = sent w @ ps @ xs @ qs @ ys \<and>
    (link w \<longrightarrow> ps = [] \<and> xs = [cmd]) \<and> (link w' \<longleftrightarrow> r \<noteq> None) \<and> (r \<noteq> None \<longrightarrow> last (ps @ xs @ qs @ ys) = cmd)"
  using assms by (rule redis_cmd_run)

lemma redis_cmd_attempts_witness:
  "\<exists>qs. length qs \<le> 2 \<and> sent (snd (run_state (redis_cmd stop_env [''RPOP'', ''q'']) (demo_service\<lparr>link := True\<rparr>))) =
     [''RPOP'', ''q''] # qs"
proof -
  obtain r w' where rn: "run_state (redis_cmd stop_env [''RPOP'', ''q'']) (demo_service\<lparr>link := True\<rparr>) = (r, w')"
    by (metis surj_pair)
  from redis_cmd_attempts [OF rn] obtain ps xs qs ys where q: "{ps, qs} \<subseteq> {[], [PING]}"
    "{xs, ys} \<subseteq> {[], [[''RPOP'', ''q'']]}" "sent w' = sent (demo_service\<lparr>link := True\<rparr>) @ ps @ xs @ qs @ ys"
    "link (demo_service\<lparr>link := True\<rparr>) \<longrightarrow> ps = [] \<and> xs = [[''RPOP'', ''q'']]"
    by (elim exE conjE)
  have "length qs \<le> 1" "length ys \<le> 1" using q(1,2) by auto
  then have "length (qs @ ys) \<le> 2" by simp
  moreover have "sent w' = [''RPOP'', ''q''] # qs @ ys" using q(3,4) by (simp add: demo_service_def)
  ultimately show ?thesis using rn by auto
qed

subsection \<open>The codes of the answers\<close>

definition answer_codes :: "int set" where
  "answer_codes = {0, GVM_ERR_PARAM_INVALID, GVM_ERR_INTERNAL_FAIL, GVM_ERR_TASK_NOT_FOUND, GVM_ERR_TASK_ALREADY_EXISTS,
     GVM_ERR_TASK_IS_BUSY, GVM_ERR_TASK_IS_NOT_RUNNING, GVM_ERR_OPENVAS_PROC_FAIL, GVM_ERR_GVMD_CONN}"

definition gives :: "('b \<Rightarrow> bool) \<Rightarrow> ('s, 'b) state \<Rightarrow> bool" where
  "gives P m \<longleftrightarrow> (\<forall>w. wp m (\<lambda>r _. P r) w)"

lemma gives_run: "gives P m \<Longrightarrow> run_state m w = (r, w') \<Longrightarrow> P r"
  unfolding gives_def by (blast dest: wp_run)

lemma gives_return: "P r \<Longrightarrow> gives P (ret r)"
  by (simp add: gives_def)

lemma givesI: "(\<And>w r w'. run_state m w = (r, w') \<Longrightarrow> P r) \<Longrightarrow> gives P m"
  unfolding gives_def by (blast intro: wpI)

lemma gives_bind: "(\<And>a. gives P (f a)) \<Longrightarrow> gives P (State_Monad.bind m f)"
  by (rule givesI) (erule run_bindE, erule gives_run [rotated], assumption)

lemma gives_bind_wp: "gives Q m \<Longrightarrow> (\<And>a. Q a \<Longrightarrow> gives P (f a)) \<Longrightarrow> gives P (State_Monad.bind m f)"
  by (rule givesI) (erule run_bindE, blast dest: gives_run)

lemma gives_if: "(c \<Longrightarrow> gives P m) \<Longrightarrow> (\<not> c \<Longrightarrow> gives P n) \<Longrightarrow> gives P (if c then m else n)"
  by simp

lemma gives_option: "(x = None \<Longrightarrow> gives P m) \<Longrightarrow> (\<And>y. x = Some y \<Longrightarrow> gives P (f y)) \<Longrightarrow>
    gives P (case x of None \<Rightarrow> m | Some y \<Rightarrow> f y)"
  by (cases x) simp_all

lemma gives_prod: "(\<And>a b. x = (a, b) \<Longrightarrow> gives P (f a b)) \<Longrightarrow> gives P (case x of (a, b) \<Rightarrow> f a b)"
  by (cases x) simp

text \<open>A result that is passed on after something else.\<close>

lemma gives_after: "gives P m \<Longrightarrow> gives P (State_Monad.bind m (\<lambda>r. State_Monad.bind (n r) (\<lambda>_. ret r)))"
  by (erule gives_bind_wp) (intro gives_bind gives_return)

lemmas gives_intros = gives_return gives_bind gives_if gives_option gives_prod

abbreviation "answers \<equiv> gives (\<lambda>r. r \<in> answer_codes)"

lemma answers_found:
  "answers (start_found env p)" "answers (stop_found env p)" "answers (delete_found env p)"
  unfolding start_found_def stop_found_def delete_found_def by (intro gives_intros; simp add: answer_codes_def)+

definition located :: "int + 'x \<Rightarrow> bool" where
  "located l \<longleftrightarrow> (case l of Inl e \<Rightarrow> e \<in> answer_codes | Inr _ \<Rightarrow> True)"

lemma located_locate: "gives located (locate_task env key input)" "gives located (locate_hydra key input)"
  unfolding locate_task_def locate_hydra_def
  by (intro gives_intros; simp add: located_def answer_codes_def split: option.splits)+

lemma answers_located: "located l \<Longrightarrow> (\<And>p. answers (body p)) \<Longrightarrow> answers (case l of Inl e \<Rightarrow> ret e | Inr p \<Rightarrow> body p)"
  by (cases l) (auto simp: located_def intro: gives_return)

lemma answers_with:
  assumes "\<And>p. answers (body p)"
  shows "answers (with_task env input body)"
  unfolding with_task_def
  by (intro gives_bind gives_option gives_return gives_bind_wp [OF located_locate(1)] gives_after answers_located assms)
    (simp add: answer_codes_def)

lemma answers_with_hydra:
  assumes "\<And>p. answers (body p)"
  shows "answers (with_hydra env input body)"
  unfolding with_hydra_def
  by (intro gives_bind gives_option gives_return gives_bind_wp [OF located_locate(2)] gives_after answers_located assms)
    (simp add: answer_codes_def)

lemma answers_created: "answers (do { r \<leftarrow> create_parts env p; if r \<noteq> 0 then ret r else store_created env p })"
proof (rule gives_bind_wp)
  show "gives (\<lambda>r. r = 0 \<or> r = GVM_ERR_OPENVAS_PROC_FAIL) (create_parts env p)"
    by (rule givesI) (rule create_parts_code)
  show "answers (if r \<noteq> 0 then ret r else store_created env p)" if "r = 0 \<or> r = GVM_ERR_OPENVAS_PROC_FAIL" for r
    using that unfolding store_created_def by (intro gives_intros) (auto simp: answer_codes_def)
qed

lemma answers_daemon:
  "answers (daemon_start_task env input)" "answers (daemon_stop_task env input)" "answers (daemon_delete_task env input)"
  "answers (daemon_create_task env input)"
proof -
  have "answers (create_checked env p input)" for p
    unfolding create_checked_def
    by (intro answers_created gives_if gives_return gives_bind) (simp_all add: answer_codes_def)
  then show "answers (daemon_create_task env input)"
    unfolding daemon_create_task_def by (intro gives_bind gives_option gives_after gives_return) (simp_all add: answer_codes_def)
qed (unfold daemon_start_task_def daemon_stop_task_def daemon_delete_task_def, (intro answers_with answers_found)+)

lemma answers_daemon_hydra:
  "answers (daemon_start_hydra env input)" "answers (daemon_stop_hydra env input)" "answers (daemon_delete_hydra env input)"
  "answers (daemon_create_hydra env input)"
proof -
  have "answers (create_hydra_checked env p input)" for p
    unfolding create_hydra_checked_def
    by (intro gives_if gives_return gives_bind gives_prod) (simp_all add: answer_codes_def)
  then show "answers (daemon_create_hydra env input)"
    unfolding daemon_create_hydra_def by (intro gives_bind gives_option gives_after gives_return) (simp_all add: answer_codes_def)
qed (unfold daemon_start_hydra_def daemon_stop_hydra_def daemon_delete_hydra_def start_hydra_found_def stop_hydra_found_def
    delete_hydra_found_def, (intro answers_with_hydra gives_intros; simp add: answer_codes_def)+)

lemma answers_handlers: "h \<in> set (g_hds env) \<Longrightarrow> answers (snd h s)"
  by (auto simp: g_hds_def intro: answers_daemon answers_daemon_hydra)

lemma answer_code_text:
  assumes "r \<in> answer_codes"
  shows "fst (snprintf MAX_COMM_MIN_SIZE (dec r)) = dec r" "c_str (dec r) = dec r"
proof -
  have "\<forall>r\<in>{0, 1, 2, 4, 5, 6, 7, 8, 10}. length (dec r) \<le> 2 \<and> c_str (dec r) = dec r" by code_simp
  moreover have "r \<in> {0, 1, 2, 4, 5, 6, 7, 8, 10}" using assms by (auto simp: answer_codes_def gvm_err_defs)
  ultimately have "length (dec r) \<le> 2" "c_str (dec r) = dec r" by blast+
  then show "fst (snprintf MAX_COMM_MIN_SIZE (dec r)) = dec r" "c_str (dec r) = dec r" by (simp_all add: max_defs)
qed

subsection \<open>One answer for each message\<close>

definition push_cmd :: "string \<Rightarrow> int \<Rightarrow> string list" where
  "push_cmd u r = [''LPUSH'', u, dec r]"

definition expire_cmd :: "string \<Rightarrow> string list" where
  "expire_cmd u = [''EXPIRE'', u, dec MAX_REDIS_WAIT_TIMEOUT]"

text \<open>A server that is up answers every command, and without an error.\<close>

definition server_up :: "env \<Rightarrow> bool" where
  "server_up env \<longleftrightarrow> (\<forall>t cmd. \<exists>v. redis env t cmd = Some v \<and> (\<forall>e. v \<noteq> RError e))"

lemma redis_cmd_sent:
  assumes "run_state (redis_cmd env cmd) w = (r, w')"
  shows "\<exists>cs. sent w' = sent w @ cs \<and> set cs \<subseteq> {PING, cmd}"
proof -
  from redis_cmd_run [OF assms] obtain ps xs qs ys where "{ps, qs} \<subseteq> {[], [PING]}" "{xs, ys} \<subseteq> {[], [cmd]}"
    "sent w' = sent w @ ps @ xs @ qs @ ys" by (elim exE conjE)
  then show ?thesis by (intro exI [of _ "ps @ xs @ qs @ ys"]) auto
qed

lemma redis_cmd_up:
  assumes "server_up env" "link w" "run_state (redis_cmd env cmd) w = (r, w')"
  shows "reply_ok r = 0 \<and> sent w' = sent w @ [cmd] \<and> link w'"
proof -
  obtain v where v: "redis env (tick w) cmd = Some v" "\<forall>e. v \<noteq> RError e"
    using assms(1) unfolding server_up_def by blast
  then have "reply_ok (Some v) = 0" by (cases v) (simp_all add: reply_ok_def)
  moreover have "r = Some v" "sent w' = sent w @ [cmd]" "link w'"
    using assms(2,3) v(1) by (auto simp: redis_cmd_def redis_attempt_def get_redis_ctx_def send_cmd_def now_def)
  ultimately show ?thesis by simp
qed

lemma push_answer_run:
  assumes "r \<in> answer_codes" "run_state (redis_push_int_ttl env u r MAX_REDIS_WAIT_TIMEOUT) w = (x, w')"
  shows "\<exists>cs. sent w' = sent w @ cs \<and> set cs \<subseteq> {PING, push_cmd u r, expire_cmd u} \<and>
    (server_up env \<and> link w \<longrightarrow> cs = [push_cmd u r, expire_cmd u])"
proof -
  obtain a w1 where r1: "run_state (redis_cmd env (push_cmd u r)) w = (a, w1)" by (metis surj_pair)
  obtain b w2 where r2: "run_state (redis_cmd env (expire_cmd u)) w1 = (b, w2)" by (metis surj_pair)
  have w': "w' = (if reply_ok a = 0 then w2 else w1)"
    using assms(2) r1 r2
    by (auto simp: redis_push_int_ttl_def redis_push_str_ttl_def redis_push_str_def redis_expire_def push_cmd_def
        expire_cmd_def answer_code_text [OF assms(1)] split: if_splits)
  from redis_cmd_sent [OF r1] obtain cs where cs: "sent w1 = sent w @ cs" "set cs \<subseteq> {PING, push_cmd u r}" by blast
  from redis_cmd_sent [OF r2] obtain ds where ds: "sent w2 = sent w1 @ ds" "set ds \<subseteq> {PING, expire_cmd u}" by blast
  show ?thesis
  proof (cases "server_up env \<and> link w")
    case True
    then have "reply_ok a = 0" "sent w1 = sent w @ [push_cmd u r]" "link w1" using redis_cmd_up [OF _ _ r1] by blast+
    moreover from this have "sent w2 = sent w1 @ [expire_cmd u]" using redis_cmd_up [OF _ _ r2] True by blast
    ultimately show ?thesis using w' by simp
  next
    case False
    then show ?thesis
      using w' cs ds by (intro exI [of _ "cs @ (if reply_ok a = 0 then ds else [])"]) auto
  qed
qed

text \<open>The identifier, the command and the parameters of a well-formed message.\<close>

definition msg_parts :: "string \<Rightarrow> (string \<times> string \<times> string) option" where
  "msg_parts buf =
     (case getNextToken (c_str buf) [SOH] [] MAX_UUID_SIZE of (r1, u, s1) \<Rightarrow>
      case getNextToken s1 [SOH] [] MAX_COMM_SIZE of (r2, cmd, s2) \<Rightarrow>
        if r1 = 0 \<and> r2 = 0 \<and> chkUuid u = 0 then Some (u, cmd, s2) else None)"

definition handler_of :: "env \<Rightarrow> string \<Rightarrow> (string \<Rightarrow> ('a sworld_scheme, int) state) option" where
  "handler_of env cmd = map_option snd (find (\<lambda>h. fst h = cmd) (g_hds env))"

lemma handler_found:
  assumes "cstring cmd" "length cmd < MAX_COMM_SIZE"
  shows "find (\<lambda>h. strncmp (fst h) cmd MAX_COMM_SIZE = 0) (g_hds env) = find (\<lambda>h. fst h = cmd) (g_hds env)"
proof (rule find_cong [OF refl])
  fix h :: "string \<times> (string \<Rightarrow> ('a sworld_scheme, int) state)"
  assume "h \<in> set (g_hds env)"
  then have "cstring (fst h)" "length (fst h) < MAX_COMM_SIZE" by (auto simp: g_hds_def cstring_def NUL_def max_defs)
  then show "strncmp (fst h) cmd MAX_COMM_SIZE = 0 \<longleftrightarrow> fst h = cmd" using assms by (simp add: strncmp_eq_0)
qed

lemma processMsg_run:
  fixes w w' :: "'a sworld_scheme"
  assumes "run_state (processMsg env buf) w = (r, w')"
  shows "case msg_parts buf of
      None \<Rightarrow> r = GVM_ERR_PARAM_INVALID \<and> w' = w
    | Some (u, cmd, pars) \<Rightarrow>
        r \<in> answer_codes \<and>
        r = (case handler_of env cmd of None \<Rightarrow> GVM_ERR_PARAM_INVALID | Some h \<Rightarrow> fst (run_state (h pars) w)) \<and>
        (\<exists>cs. sent w' = sent w @ cs \<and> set cs \<subseteq> {PING, push_cmd u r, expire_cmd u} \<and>
          (server_up env \<and> link w \<longrightarrow> cs = [push_cmd u r, expire_cmd u]))"
proof -
  obtain r1 u s1 where t1: "getNextToken (c_str buf) [SOH] [] MAX_UUID_SIZE = (r1, u, s1)" by (metis prod_cases3)
  obtain r2 cmd s2 where t2: "getNextToken s1 [SOH] [] MAX_COMM_SIZE = (r2, cmd, s2)" by (metis prod_cases3)
  show ?thesis
  proof (cases "r1 = 0 \<and> r2 = 0 \<and> chkUuid u = 0")
    case False
    then show ?thesis using assms t1 t2 by (auto simp: processMsg_def msg_parts_def split: if_splits)
  next
    case True
    have c: "cstring cmd" "length cmd < MAX_COMM_SIZE"
      using getNextToken_cstring [of s1 "[SOH]" "[]" MAX_COMM_SIZE cmd s2] t1 t2 True
        getNextToken_cstring(3) [of "c_str buf" "[SOH]" "[]" MAX_UUID_SIZE u s1] c_str_cstring [of buf] by auto
    let ?m = "(case handler_of env cmd of None \<Rightarrow> ret GVM_ERR_PARAM_INVALID | Some h \<Rightarrow> h s2) :: ('a sworld_scheme, int) state"
    obtain a w1 where r1: "run_state ?m w = (a, w1)" by (metis surj_pair)
    obtain x w2 where r2: "run_state (redis_push_int_ttl env u a MAX_REDIS_WAIT_TIMEOUT) w1 = (x, w2)" by (metis surj_pair)
    have m: "(case find (\<lambda>h. strncmp (fst h) cmd MAX_COMM_SIZE = 0) (g_hds env) of None \<Rightarrow> ret GVM_ERR_PARAM_INVALID
        | Some h \<Rightarrow> snd h s2) = ?m"
      unfolding handler_found [OF c] handler_of_def by (simp split: option.splits)
    have rw: "r = a" "w' = w2" using assms t1 t2 True r1 r2 by (auto simp: processMsg_def m)
    have "answers ?m \<and> rel daemon_only ?m"
    proof (cases "find (\<lambda>h. fst h = cmd) (g_hds env :: (string \<times> (string \<Rightarrow> ('a sworld_scheme, int) state)) list)")
      case None
      then show ?thesis by (simp add: handler_of_def gives_return da.rel_return answer_codes_def)
    next
      case (Some h)
      from find_SomeD [OF Some] answers_handlers [of h env s2] da_handlers [of h env s2] show ?thesis
        unfolding handler_of_def Some by simp
    qed
    then have an: "answers ?m" and da: "rel daemon_only ?m" by simp_all
    from gives_run [OF an r1] rel_run [OF da r1] have "a \<in> answer_codes" and s: "sent w1 = sent w" "link w1 = link w"
      by (simp_all add: daemon_only_def)
    moreover have "a = (case handler_of env cmd of None \<Rightarrow> GVM_ERR_PARAM_INVALID | Some h \<Rightarrow> fst (run_state (h s2) w))"
      using r1 by (auto split: option.splits)
    ultimately show ?thesis using push_answer_run [OF _ r2] t1 t2 True rw by (simp add: msg_parts_def)
  qed
qed

text \<open>C8: a message that is not well formed is refused and changes nothing, and no answer can be sent for it.
  For every other message the handler of its command is run, an unknown command is refused, and the result, one of
  the documented codes, is pushed under the identifier of the message; a server that is up gets exactly this answer,
  and its time to live.\<close>

theorem processMsg_answer:
  fixes w w' :: "'a sworld_scheme"
  assumes "run_state (processMsg env buf) w = (r, w')"
  shows "case msg_parts buf of
      None \<Rightarrow> r = GVM_ERR_PARAM_INVALID \<and> w' = w
    | Some (u, cmd, pars) \<Rightarrow>
        r \<in> answer_codes \<and>
        r = (case handler_of env cmd of None \<Rightarrow> GVM_ERR_PARAM_INVALID | Some h \<Rightarrow> fst (run_state (h pars) w)) \<and>
        (\<exists>cs. sent w' = sent w @ cs \<and> set cs \<subseteq> {PING, push_cmd u r, expire_cmd u} \<and>
          (server_up env \<and> link w \<longrightarrow> cs = [push_cmd u r, expire_cmd u]))"
  by (rule processMsg_run [OF assms])

lemma processMsg_answer_witness:
  "fst (run_state (processMsg stop_env (demo_id CHR ''a'' @ [SOH] @ ''restart'' @ [SOH] @ ''x'')) demo_service) =
     GVM_ERR_PARAM_INVALID"
proof -
  let ?buf = "demo_id CHR ''a'' @ [SOH] @ ''restart'' @ [SOH] @ ''x''"
  have p: "msg_parts ?buf = Some (demo_id CHR ''a'', ''restart'', ''x'')" by code_simp
  have h: "handler_of stop_env ''restart'' = None" by (simp add: handler_of_def g_hds_def)
  obtain r w' where rn: "run_state (processMsg stop_env ?buf) demo_service = (r, w')" by (metis surj_pair)
  from processMsg_answer [OF rn] have "r = GVM_ERR_PARAM_INVALID" unfolding p by (simp add: h)
  then show ?thesis using rn by simp
qed

subsection \<open>The counters of the loop\<close>

text \<open>The index of the next waiting time and the waiting time.\<close>

definition loop_ok :: "'a sworld_scheme \<Rightarrow> bool" where
  "loop_ok w \<longleftrightarrow> g_id w \<le> MAX_INTERVAL_CNT \<and> 0 \<le> loop_timeout w \<and> loop_timeout w \<le> 60"

definition keeps_loop :: "'a sworld_scheme \<Rightarrow> 'a sworld_scheme \<Rightarrow> bool" where
  "keeps_loop w w' \<longleftrightarrow> (loop_ok w \<longrightarrow> loop_ok w')"

interpretation kl: stepping keeps_loop
  by unfold_locales (simp_all add: keeps_loop_def)

lemma kl_daemon: "rel daemon_only m \<Longrightarrow> rel keeps_loop m"
proof (erule rel_mono)
  fix w w' :: "'a sworld_scheme"
  assume "daemon_only w w'"
  then have "hworld.more w' = hworld.more w" by (simp add: daemon_only_def)
  then show "keeps_loop w w'" by (cases w; cases w') (simp add: keeps_loop_def loop_ok_def)
qed

lemma kl_redis: "rel redis_only m \<Longrightarrow> rel keeps_loop m"
proof (erule rel_mono)
  fix w w' :: "'a sworld_scheme"
  assume "redis_only w w'"
  then have "rworld.more w' = rworld.more w" by (simp add: redis_only_def)
  then show "keeps_loop w w'" by (cases w; cases w') (simp add: keeps_loop_def loop_ok_def)
qed

lemma daemon_only_id: "daemon_only w w' \<Longrightarrow> g_id (w' :: 'a sworld_scheme) = g_id w"
  by (cases w; cases w') (simp add: daemon_only_def)

lemma redis_only_id: "redis_only w w' \<Longrightarrow> g_id (w' :: 'a sworld_scheme) = g_id w"
  by (cases w; cases w') (simp add: redis_only_def)

lemma kl_modify: "(\<And>w. loop_ok w \<Longrightarrow> loop_ok (f w)) \<Longrightarrow> rel keeps_loop (modify f)"
  by (rule rel_modify) (simp add: keeps_loop_def)

lemma kl_processMsg: "rel keeps_loop (processMsg env buf)"
  unfolding processMsg_def
  by (intro kl.rel_intros kl_redis [OF ro_redis(1)] kl_daemon) (rule find_all, assumption, rule da_handlers)

lemma interval_bounds: "n \<le> MAX_INTERVAL_CNT \<Longrightarrow> 0 \<le> INTERVAL_TIME ! n \<and> INTERVAL_TIME ! n \<le> 60"
  by (auto simp: MAX_INTERVAL_CNT_def INTERVAL_TIME_def le_Suc_eq numeral_3_eq_3)

lemma kl_received: "rel keeps_loop (handle_received env key r msg)"
  unfolding handle_received_def processIdle_def clearKb_def
  by (intro kl.rel_intros kl_processMsg kl_redis [OF ro_redis(3)] kl_daemon [OF da_scan [OF so_runGvmChecks]] kl_modify)
    (auto simp: loop_ok_def interval_bounds)

lemma kl_timers: "rel keeps_loop (doEveryLoop env)"
  unfolding doEveryLoop_def triggerTimerPerMinute_def timerPerMinute_def clearLogFile_def getTimeLastDays_def
  by (intro kl.rel_intros kl_daemon [OF da_monitor] kl_daemon [OF da_calls(3)] kl_daemon [OF da_calls(4)]
      kl_daemon [OF da_files(6)] kl_daemon [OF da_validate] kl_modify) (simp_all add: loop_ok_def)

lemma kl_running: "rel keeps_loop (still_running env)"
  unfolding still_running_def stopKbMsg_def
  by (intro kl.rel_intros kl_daemon [OF da_calls(2)] kl_modify) (simp_all add: loop_ok_def)

lemma kl_loop_body: "rel keeps_loop (loop_body env key)"
  unfolding loop_body_def recvKbMsg_def
proof (rule relI)
  fix w w' :: "'a sworld_scheme" and u
  let ?rest = "\<lambda>go. if go then do { run \<leftarrow> still_running env; if run then doEveryLoop env else ret () } else ret ()"
  assume rn: "run_state (do {
       timeout \<leftarrow> gets loop_timeout;
       go \<leftarrow> (if timeout \<le> 0
         then do { (r, msg) \<leftarrow> redis_pop_str env key MAX_CACHE_SIZE; handle_received env key r msg }
         else do { modify (\<lambda>w. w\<lparr>loop_timeout := loop_timeout w - 1\<rparr>); ret True });
       ?rest go }) w = (u, w')"
  have s: "rel keeps_loop (?rest go)" for go by (intro kl.rel_intros kl_running kl_timers)
  have f: "rel keeps_loop (do { (r, msg) \<leftarrow> redis_pop_str env key MAX_CACHE_SIZE; handle_received env key r msg })"
    by (intro kl.rel_intros kl_redis [OF ro_redis(2)] kl_received)
  show "keeps_loop w w'"
  proof (cases "loop_timeout w \<le> 0")
    case True
    obtain go w1 where r1: "run_state (do { (r, msg) \<leftarrow> redis_pop_str env key MAX_CACHE_SIZE;
        handle_received env key r msg }) w = (go, w1)" by (metis surj_pair)
    have "run_state (?rest go) w1 = (u, w')" using rn True r1 by simp
    then show ?thesis using kl.R_trans [OF rel_run [OF f r1] rel_run [OF s]] by blast
  next
    case False
    then have "run_state (?rest True) (w\<lparr>loop_timeout := loop_timeout w - 1\<rparr>) = (u, w')" using rn by simp
    from rel_run [OF s this] show ?thesis using False by (simp add: keeps_loop_def loop_ok_def)
  qed
qed

text \<open>C33: in every state the service reaches, the index into the table of waiting times is inside the table, and
  the waiting time is between 0 and 60 seconds.\<close>

theorem reachable_loop_bounds:
  assumes "g_id w0 = 0" "reachable env key w0 w"
  shows "g_id w < length INTERVAL_TIME \<and> 0 \<le> loop_timeout w \<and> loop_timeout w \<le> 60"
proof -
  have "loop_ok w" using assms(2)
  proof induction
    case (started w1 w2 w3 r w4)
    have "g_id w4 = g_id w0"
      using daemon_only_id [OF rel_run [OF da_scan [OF so_initDaemon] started(1)]]
        daemon_only_id [OF rel_run [OF da_initHydra started(2)]] redis_only_id [OF rel_run [OF ro_redis(4) started(3)]]
        redis_only_id [OF rel_run [OF ro_redis(3) started(4) [unfolded clearKb_def]]] by simp
    then show ?case using assms(1) by (simp add: loop_ok_def)
  next
    case (iterated w w1 w2)
    then show ?case
      using rel_run [OF kl_running iterated(2)] rel_run [OF kl_loop_body iterated(3)] by (simp add: keeps_loop_def)
  qed
  then show ?thesis by (simp add: loop_ok_def MAX_INTERVAL_CNT_def INTERVAL_TIME_def)
qed

lemma reachable_loop_bounds_witness: "g_id demo_started < length INTERVAL_TIME"
proof -
  have "g_id demo_loaded = 0" by (simp add: demo_loaded_def demo_service_def)
  from reachable_loop_bounds [OF this demo_started_reachable] show ?thesis by simp
qed

end
