(* ===== verification/HydraInv.thy ===== *)
theory HydraInv imports Replies begin

text \<open>
  The store of brute-force tasks in every state of the service, and what the requests about them answer.
\<close>

subsection \<open>Two containers that link the same items\<close>

text \<open>An array in the order of names and a queue in the order of times, of objects with unique names.\<close>

abbreviation by_name :: "(nat \<Rightarrow> string) \<Rightarrow> nat \<Rightarrow> nat \<Rightarrow> int" where
  "by_name nm \<equiv> \<lambda>a b. strncmp (nm a) (nm b) MAX_NAME_SIZE"

abbreviation by_time :: "(nat \<Rightarrow> string) \<Rightarrow> nat \<Rightarrow> nat \<Rightarrow> int" where
  "by_time tm \<equiv> \<lambda>a b. strncmp (tm a) (tm b) MAX_TIMESTAMP_SIZE"

definition name_ok :: "string \<Rightarrow> bool" where
  "name_ok s \<longleftrightarrow> cstring s \<and> length s < MAX_NAME_SIZE"

definition linked :: "(nat \<Rightarrow> string) \<Rightarrow> (nat \<Rightarrow> string) \<Rightarrow> nat list \<Rightarrow> nat lqueue \<Rightarrow> nat \<Rightarrow> bool" where
  "linked nm tm ns q cap \<longleftrightarrow>
     lq_inv q \<and> distinct ns \<and> set ns = set (lq_items q) \<and> (\<forall>p\<in>set ns. name_ok (nm p) \<and> cstring (tm p)) \<and>
     inj_on nm (set ns) \<and> ordered (by_name nm) ns \<and> ordered (by_time tm) (lq_items q) \<and> length ns \<le> cap"

lemma linked_facts:
  assumes "linked nm tm ns q cap"
  shows "lq_inv q" "distinct ns" "set (lq_items q) = set ns" "distinct (lq_items q)" "inj_on nm (set ns)"
    "\<And>p. p \<in> set ns \<Longrightarrow> name_ok (nm p)" "\<And>p. p \<in> set ns \<Longrightarrow> cstring (tm p)" "length ns \<le> cap"
    "ordered (by_name nm) ns" "ordered (by_time tm) (lq_items q)"
  using assms unfolding linked_def lq_inv_def by blast+

lemma linked_cong:
  assumes "\<And>p. p \<in> set ns \<Longrightarrow> nm' p = nm p \<and> tm' p = tm p" "linked nm tm ns q cap"
  shows "linked nm' tm' ns q cap"
proof -
  note l = linked_facts [OF assms(2)]
  have "ordered (by_name nm') ns = ordered (by_name nm) ns" using assms(1) by (intro ordered_cong) simp
  moreover have "ordered (by_time tm') (lq_items q) = ordered (by_time tm) (lq_items q)"
    using assms(1) l(3) by (intro ordered_cong) simp
  moreover have "inj_on nm' (set ns) = inj_on nm (set ns)" using assms(1) by (intro inj_on_cong) simp
  ultimately show ?thesis using assms(1) l unfolding linked_def by simp
qed

lemma linked_push:
  assumes l: "linked nm tm ns q cap" and p: "p \<notin> set ns" "name_ok (nm p)" "cstring (tm p)" "nm p \<notin> nm ` set ns"
    and c: "length ns < cap'"
  shows "linked nm tm (q_insert (by_name nm) p ns) (lq_push (by_time tm) q p) cap'"
proof -
  note f = linked_facts [OF l]
  have k: "name_ok (nm a)" "cstring (tm a)" if "a \<in> insert p (set ns)" for a using that p f(6,7) by auto
  have "comparator (by_name nm) (insert p (set ns))" "comparator (by_time tm) (insert p (set ns))"
    using k by (intro comparator_strncmp; simp add: name_ok_def)+
  from comparator.q_insert_ordered [OF this(1), of ns p] comparator.q_insert_ordered [OF this(2), of "lq_items q" p]
  have o: "ordered (by_name nm) (q_insert (by_name nm) p ns)" "ordered (by_time tm) (q_insert (by_time tm) p (lq_items q))"
    using f(3,9,10) by (simp_all add: subset_insertI)
  have "inj_on nm (insert p (set ns))" using f(5) p(1,4) by simp
  with o k p c f show ?thesis unfolding linked_def by (auto simp: lq_inv_push)
qed

lemma linked_del:
  assumes l: "linked nm tm ns q cap"
  shows "linked nm tm (remove1 p ns) (snd (lq_del q p)) cap"
proof -
  note f = linked_facts [OF l]
  have "inj_on nm (set ns - {p})" using f(5) by (rule inj_on_subset) blast
  moreover have "length (remove1 p ns) \<le> cap" using f(8) by (auto simp: length_remove1)
  ultimately show ?thesis
    using f ordered_remove1 [OF f(9)] ordered_remove1 [OF f(10)] unfolding linked_def by (simp add: lq_inv_del)
qed

lemma linked_find:
  assumes l: "linked nm tm ns q cap" and k: "name_ok k"
  shows "case find (\<lambda>a. strncmp (nm a) k MAX_NAME_SIZE = 0) ns of
      None \<Rightarrow> k \<notin> nm ` set ns | Some p \<Rightarrow> p \<in> set ns \<and> nm p = k"
proof -
  have e: "strncmp (nm a) k MAX_NAME_SIZE = 0 \<longleftrightarrow> nm a = k" if "a \<in> set ns" for a
    using linked_facts(6) [OF l that] k by (simp add: name_ok_def strncmp_eq_0)
  show ?thesis
  proof (cases "find (\<lambda>a. strncmp (nm a) k MAX_NAME_SIZE = 0) ns")
    case None
    then show ?thesis using find_NoneD [OF None] e by auto
  next
    case (Some p)
    then show ?thesis using find_SomeD [OF Some] e by auto
  qed
qed

lemma linked_find_own:
  assumes l: "linked nm tm ns q cap" and p: "p \<in> set ns"
  shows "find (\<lambda>a. strncmp (nm a) (nm p) MAX_NAME_SIZE = 0) ns = Some p"
  using linked_find [OF l linked_facts(6) [OF l p]] linked_facts(5) [OF l] p
  by (auto dest: inj_onD split: option.splits)

subsection \<open>The invariant\<close>

abbreviation hname :: "'a hworld_scheme \<Rightarrow> nat \<Rightarrow> string" where
  "hname w \<equiv> \<lambda>p. h_task_name (hydra_at w p)"

abbreviation htime :: "'a hworld_scheme \<Rightarrow> nat \<Rightarrow> string" where
  "htime w \<equiv> \<lambda>p. h_create_time (hydra_at w p)"

text \<open>The objects in \<open>K\<close> are not linked: keys and objects that are being created.\<close>

definition hinv :: "nat set \<Rightarrow> 'a hworld_scheme \<Rightarrow> bool" where
  "hinv K w \<longleftrightarrow> linked (hname w) (htime w) (h_nameset w) (h_createque w) (h_name_cap w) \<and>
     dom (htasks w) = queued_hydra w \<union> K \<and> K \<inter> queued_hydra w = {} \<and> (\<forall>p\<in>dom (htasks w). p < hnxt w)"

lemma hinv_facts:
  assumes "hinv K w"
  shows "linked (hname w) (htime w) (h_nameset w) (h_createque w) (h_name_cap w)" "set (h_nameset w) = queued_hydra w"
    "dom (htasks w) = queued_hydra w \<union> K" "K \<inter> queued_hydra w = {}" "\<And>p. p \<in> dom (htasks w) \<Longrightarrow> p < hnxt w"
    "\<And>p. p \<in> K \<Longrightarrow> htasks w p = Some (hydra_at w p)" "\<And>p. p \<in> queued_hydra w \<Longrightarrow> htasks w p = Some (hydra_at w p)"
proof -
  show l: "linked (hname w) (htime w) (h_nameset w) (h_createque w) (h_name_cap w)"
    and d: "dom (htasks w) = queued_hydra w \<union> K" "K \<inter> queued_hydra w = {}" "\<And>p. p \<in> dom (htasks w) \<Longrightarrow> p < hnxt w"
    using assms by (simp_all add: hinv_def)
  show "set (h_nameset w) = queued_hydra w" using linked_facts(3) [OF l] by (simp add: queued_hydra_def)
  show "htasks w p = Some (hydra_at w p)" if "p \<in> K" for p
  proof -
    have "p \<in> dom (htasks w)" using that d(1) by blast
    then show ?thesis by (auto simp: hydra_at_def)
  qed
  show "htasks w p = Some (hydra_at w p)" if "p \<in> queued_hydra w" for p
  proof -
    have "p \<in> dom (htasks w)" using that d(1) by blast
    then show ?thesis by (auto simp: hydra_at_def)
  qed
qed

text \<open>Changes of the objects that keep the names and times of the linked ones.\<close>

lemma hinv_change:
  assumes i: "hinv K w" and s: "h_nameset w' = h_nameset w" "h_createque w' = h_createque w" "h_name_cap w' = h_name_cap w"
    and k: "\<And>p. p \<in> queued_hydra w \<Longrightarrow> hname w' p = hname w p \<and> htime w' p = htime w p"
    and d: "dom (htasks w') = queued_hydra w \<union> K'" "K' \<inter> queued_hydra w = {}" "\<And>p. p \<in> dom (htasks w') \<Longrightarrow> p < hnxt w'"
  shows "hinv K' w'"
proof -
  note f = hinv_facts [OF i]
  have q: "queued_hydra w' = queued_hydra w" using s(2) by (simp add: queued_hydra_def)
  have "linked (hname w') (htime w') (h_nameset w) (h_createque w) (h_name_cap w)"
    by (rule linked_cong [OF _ f(1)]) (use f(2) k in simp)
  then show ?thesis using d unfolding hinv_def q s by simp
qed

lemma newHydraTask_hinv:
  assumes i: "hinv K w" and rn: "run_state (newHydraTask env) w = (r, w')"
  shows "queued_hydra w' = queued_hydra w"
    "case r of None \<Rightarrow> hinv K w' \<and> hydra_at w' = hydra_at w
     | Some p \<Rightarrow> hinv (insert p K) w' \<and> p \<notin> K \<and> p \<notin> queued_hydra w \<and> hydra_at w' p = new_hydra_task \<and>
         (\<forall>q. q \<noteq> p \<longrightarrow> hydra_at w' q = hydra_at w q)"
proof -
  let ?p = "hnxt w"
  note f = hinv_facts [OF i]
  have n: "?p \<notin> dom (htasks w)" using f(5) by blast
  show "queued_hydra w' = queued_hydra w"
    using rn by (auto simp: newHydraTask_def fails_def now_def queued_hydra_def split: if_splits)
  show "case r of None \<Rightarrow> hinv K w' \<and> hydra_at w' = hydra_at w
     | Some p \<Rightarrow> hinv (insert p K) w' \<and> p \<notin> K \<and> p \<notin> queued_hydra w \<and> hydra_at w' p = new_hydra_task \<and>
         (\<forall>q. q \<noteq> p \<longrightarrow> hydra_at w' q = hydra_at w q)"
  proof (cases "fault env (tick w)")
    case True
    then have w': "r = None" "w' = w\<lparr>tick := Suc (tick w)\<rparr>" using rn by (auto simp: newHydraTask_def fails_def now_def)
    have "hinv K w'" by (rule hinv_change [OF i]) (use w' f in \<open>simp_all add: hydra_at_def\<close>)
    then show ?thesis using w' by (simp add: hydra_at_def fun_eq_iff)
  next
    case False
    then have w': "r = Some ?p" "w' = w\<lparr>tick := Suc (tick w), htasks := (htasks w)(?p \<mapsto> new_hydra_task), hnxt := ?p + 1\<rparr>"
      using rn by (auto simp: newHydraTask_def fails_def now_def)
    have "hinv (insert ?p K) w'"
    proof (rule hinv_change [OF i])
      show "hname w' q = hname w q \<and> htime w' q = htime w q" if "q \<in> queued_hydra w" for q
      proof -
        have "q \<noteq> ?p" using that n f(3) by auto
        then show ?thesis by (simp add: w' hydra_at_def)
      qed
      show "insert ?p K \<inter> queued_hydra w = {}" using f(3,4) n by auto
      show "dom (htasks w') = queued_hydra w \<union> insert ?p K" using f(3) by (auto simp: w')
      show "q < hnxt w'" if "q \<in> dom (htasks w')" for q using that f(5) [of q] by (auto simp: w' less_Suc_eq split: if_splits)
    qed (simp_all add: w')
    then show ?thesis using n f(3) by (auto simp: w' hydra_at_def)
  qed
qed

lemma freeHydraTask_hinv:
  assumes i: "hinv K w" and p: "p \<in> K" and rn: "run_state (freeHydraTask p) w = (u, w')"
  shows "hinv (K - {p}) w'" "queued_hydra w' = queued_hydra w" "\<And>q. q \<noteq> p \<Longrightarrow> hydra_at w' q = hydra_at w q"
proof -
  note f = hinv_facts [OF i]
  have w': "w' = w\<lparr>htasks := (htasks w)(p := None)\<rparr>" using rn by (simp add: freeHydraTask_def)
  have n: "p \<notin> queued_hydra w" using f(4) p by auto
  show "hinv (K - {p}) w'"
  proof (rule hinv_change [OF i])
    show "dom (htasks w') = queued_hydra w \<union> (K - {p})" using f(3) n by (auto simp: w')
    show "q < hnxt w'" if "q \<in> dom (htasks w')" for q using that f(5) [of q] by (simp add: w' split: if_splits)
    show "hname w' q = hname w q \<and> htime w' q = htime w q" if "q \<in> queued_hydra w" for q
      using that n by (auto simp: w' hydra_at_def)
  qed (use f(4) in \<open>auto simp: w'\<close>)
  show "queued_hydra w' = queued_hydra w" "\<And>q. q \<noteq> p \<Longrightarrow> hydra_at w' q = hydra_at w q"
    by (simp_all add: w' queued_hydra_def hydra_at_def)
qed

lemma hydra_at_tick [simp]: "hydra_at (w\<lparr>tick := n\<rparr>) = hydra_at w"
  by (simp add: hydra_at_def fun_eq_iff)

lemma addHydraTask_hinv:
  assumes i: "hinv K w" and p: "p \<in> K" "name_ok (hname w p)" "cstring (htime w p)" "hname w p \<notin> hname w ` queued_hydra w"
    and rn: "run_state (addHydraTask env p) w = (r, w')"
  shows "htasks w' = htasks w \<and> hnxt w' = hnxt w \<and>
    (if r = 0 then hinv (K - {p}) w' \<and> queued_hydra w' = insert p (queued_hydra w)
     else r = - 1 \<and> hinv K w' \<and> queued_hydra w' = queued_hydra w \<and> length (h_nameset w) = h_name_cap w)"
proof -
  let ?full = "length (h_nameset w) = h_name_cap w"
  let ?nomem = "?full \<and> fault env (tick w)"
  let ?t = "if ?full then Suc (tick w) else tick w"
  let ?cap = "if ?full then h_name_cap w + DEF_LIST_ARRAY_SIZE else h_name_cap w"
  let ?w = "w\<lparr>tick := ?t, h_nameset := q_insert (by_name (hname w)) p (h_nameset w), h_name_cap := ?cap,
    h_createque := lq_push (by_time (htime w)) (h_createque w) p\<rparr>"
  note f = hinv_facts [OF i]
  have n: "p \<notin> set (h_nameset w)" using f(2,4) p(1) by auto
  show ?thesis
  proof (cases ?nomem)
    case True
    then have w': "r = - 1" "w' = w\<lparr>tick := ?t\<rparr>"
      using rn by (auto simp: addHydraTask_def ls_add_def Let_def fails_def now_def)
    have "hinv K w'" by (rule hinv_change [OF i]) (use w' f in \<open>simp_all add: hydra_at_def\<close>)
    then show ?thesis using w' True by (simp add: queued_hydra_def)
  next
    case False
    then have w': "r = 0" "w' = ?w"
      using rn by (auto simp: addHydraTask_def ls_add_def Let_def fails_def now_def cmpHydraName_def cmpHydraTime_def
          split: if_splits)
    have c: "length (h_nameset w) < ?cap" using linked_facts(8) [OF f(1)] by (auto simp: DEF_LIST_ARRAY_SIZE_def)
    have q: "queued_hydra w' = insert p (queued_hydra w)" using w' by (auto simp: queued_hydra_def)
    have "hname w p \<notin> hname w ` set (h_nameset w)" using p(4) f(2) by simp
    from linked_push [OF f(1) n p(2,3) this c] have "hinv (K - {p}) w'"
      using f(3-5) p(1) n f(2) by (auto simp: hinv_def w' queued_hydra_def hydra_at_def)
    then show ?thesis using w' q by simp
  qed
qed

lemma delHydraTask_hinv:
  assumes i: "hinv K w" and p: "p \<in> queued_hydra w" and rn: "run_state (delHydraTask p) w = (r, w')"
  shows "r = 0 \<and> hinv (insert p K) w' \<and> queued_hydra w' = queued_hydra w - {p} \<and> htasks w' = htasks w \<and>
    hnxt w' = hnxt w \<and> length (h_nameset w') < h_name_cap w'"
proof -
  note f = hinv_facts [OF i] and l = linked_facts [OF hinv_facts(1) [OF i]]
  have n: "p \<in> set (h_nameset w)" using f(2) p by simp
  have w': "r = 0" "w' = w\<lparr>h_nameset := remove1 p (h_nameset w), h_createque := snd (lq_del (h_createque w) p)\<rparr>"
    using rn linked_find_own [OF f(1) n] by (auto simp: delHydraTask_def ls_del_def cmpHydraName_def)
  have q: "queued_hydra w' = queued_hydra w - {p}" using l(4) by (simp add: w' queued_hydra_def)
  have "length (remove1 p (h_nameset w)) < length (h_nameset w)"
    using n length_pos_if_in_set [OF n] by (simp add: length_remove1)
  then have c: "length (h_nameset w') < h_name_cap w'" using l(8) by (simp add: w')
  have "dom (htasks w') = (queued_hydra w - {p}) \<union> insert p K" using f(3) p by (auto simp: w')
  then have "hinv (insert p K) w'"
    using linked_del [OF f(1), of p] f(4,5) unfolding hinv_def q by (simp add: w' hydra_at_def) auto
  then show ?thesis using w' q c by simp
qed

lemma findHydraTask_hinv:
  assumes i: "hinv K w" and k: "name_ok (hname w key)" and rn: "run_state (findHydraTask key) w = (r, w')"
  shows "w' = w" "case r of None \<Rightarrow> hname w key \<notin> hname w ` queued_hydra w
    | Some p \<Rightarrow> p \<in> queued_hydra w \<and> hname w p = hname w key"
  using linked_find [OF hinv_facts(1) [OF i] k] rn hinv_facts(2) [OF i]
  by (auto simp: findHydraTask_def ls_find_def cmpHydraName_def split: option.splits)

subsection \<open>Steps that leave the store alone, keep the linked objects, or work on one object\<close>

definition same_hydra :: "'a hworld_scheme \<Rightarrow> 'a hworld_scheme \<Rightarrow> bool" where
  "same_hydra w w' \<longleftrightarrow> htasks w' = htasks w \<and> hnxt w' = hnxt w \<and> h_createque w' = h_createque w \<and>
     h_nameset w' = h_nameset w \<and> h_name_cap w' = h_name_cap w"

interpretation sh: stepping same_hydra
  by unfold_locales (simp_all add: same_hydra_def)

lemma sh_scan: "rel scan_only m \<Longrightarrow> rel same_hydra m"
  by (erule rel_mono) (simp add: same_hydra_def scan_only_fields)

lemma sh_redis: "rel redis_only m \<Longrightarrow> rel same_hydra m"
proof (erule rel_mono)
  fix w w' :: "'a hworld_scheme"
  assume "redis_only w w'"
  then have "rworld.more w' = rworld.more w" by (simp add: redis_only_def)
  then show "same_hydra w w'" by (cases w; cases w') (simp add: same_hydra_def)
qed

lemma same_hydra_at: "same_hydra w w' \<Longrightarrow> hydra_at w' = hydra_at w \<and> queued_hydra w' = queued_hydra w"
  by (simp add: same_hydra_def hydra_at_def queued_hydra_def fun_eq_iff)

lemma same_hydra_inv: "same_hydra w w' \<Longrightarrow> hinv K w' = hinv K w"
  using same_hydra_at [of w w'] by (simp add: hinv_def same_hydra_def)

definition hcalm :: "'a hworld_scheme \<Rightarrow> 'a hworld_scheme \<Rightarrow> bool" where
  "hcalm w w' \<longleftrightarrow> (\<forall>K. hinv K w \<longrightarrow> hinv K w' \<and> queued_hydra w' = queued_hydra w \<and>
     (\<forall>q\<in>queued_hydra w. hname w' q = hname w q))"

interpretation hc: stepping hcalm
  by unfold_locales (auto simp: hcalm_def)

definition hloose :: "nat \<Rightarrow> 'a hworld_scheme \<Rightarrow> 'a hworld_scheme \<Rightarrow> bool" where
  "hloose p w w' \<longleftrightarrow> (\<forall>K. p \<in> K \<longrightarrow> hinv K w \<longrightarrow> hinv K w' \<and> queued_hydra w' = queued_hydra w \<and>
     (\<forall>q. q \<noteq> p \<longrightarrow> hydra_at w' q = hydra_at w q))"

interpretation hl: stepping "hloose p" for p
  by unfold_locales (auto simp: hloose_def)

lemma hc_same: "rel same_hydra m \<Longrightarrow> rel hcalm m"
  by (erule rel_mono) (auto simp: hcalm_def same_hydra_inv dest: same_hydra_at)

lemma hl_same: "rel same_hydra m \<Longrightarrow> rel (hloose p) m"
  by (erule rel_mono) (auto simp: hloose_def same_hydra_inv dest: same_hydra_at)

lemma upd_hydra_at: "run_state (upd_hydra p f) w = (u, w') \<Longrightarrow> htasks w p \<noteq> None \<Longrightarrow> hydra_at w' p = f (hydra_at w p)"
  by (auto simp: upd_hydra_def hydra_at_def)

lemma dom_upd_hydra: "dom ((htasks w)(p := map_option f (htasks w p))) = dom (htasks w)"
  by auto

lemma hc_upd:
  assumes "\<And>t. h_task_name (f t) = h_task_name t \<and> h_create_time (f t) = h_create_time t"
  shows "rel hcalm (upd_hydra p f)"
  unfolding upd_hydra_def
proof (rule rel_modify)
  fix w :: "'a hworld_scheme"
  let ?w = "w\<lparr>htasks := (htasks w)(p := map_option f (htasks w p))\<rparr>"
  have e: "hname ?w q = hname w q \<and> htime ?w q = htime w q" if "htasks w q \<noteq> None" for q
    using assms that by (auto simp: hydra_at_def)
  show "hcalm w ?w"
    unfolding hcalm_def
  proof (intro allI impI)
    fix K
    assume i: "hinv K w"
    note h = hinv_facts [OF i]
    have n: "htasks w q \<noteq> None" if "q \<in> queued_hydra w" for q using h(7) [OF that] by simp
    have "hinv K ?w" by (rule hinv_change [OF i]) (use e n h in \<open>simp_all add: dom_upd_hydra del: dom_fun_upd\<close>)
    then show "hinv K ?w \<and> queued_hydra ?w = queued_hydra w \<and> (\<forall>q\<in>queued_hydra w. hname ?w q = hname w q)"
      using e n by (simp add: queued_hydra_def)
  qed
qed

lemma hl_upd: "rel (hloose p) (upd_hydra p f)"
  unfolding upd_hydra_def
proof (rule rel_modify)
  fix w :: "'a hworld_scheme"
  let ?w = "w\<lparr>htasks := (htasks w)(p := map_option f (htasks w p))\<rparr>"
  show "hloose p w ?w"
    unfolding hloose_def
  proof (intro allI impI)
    fix K
    assume p: "p \<in> K" and i: "hinv K w"
    note h = hinv_facts [OF i]
    have o: "q \<noteq> p \<Longrightarrow> hydra_at ?w q = hydra_at w q" for q by (simp add: hydra_at_def)
    have "q \<noteq> p" if "q \<in> queued_hydra w" for q using that h(4) p by auto
    then have "hinv K ?w" by (intro hinv_change [OF i]) (use o h in \<open>simp_all add: dom_upd_hydra del: dom_fun_upd\<close>)
    then show "hinv K ?w \<and> queued_hydra ?w = queued_hydra w \<and> (\<forall>q. q \<noteq> p \<longrightarrow> hydra_at ?w q = hydra_at w q)"
      using o by (simp add: queued_hydra_def)
  qed
qed

lemma sh_get: "rel same_hydra (get_hydra p)" "rel same_hydra (findHydraTask p)"
  unfolding get_hydra_def findHydraTask_def by (rule sh.rel_gets)+

lemmas sh_calls = so_calls [THEN sh_scan] and sh_files = so_files [THEN sh_scan]

lemma sh_hydra_files:
  "rel same_hydra (writeHydraTaskFile env)" "rel same_hydra (writeScheduleFiles env p)"
  "rel same_hydra (deleteScheduleFiles env p)" "rel same_hydra (write_ip_list env t)" "rel same_hydra (write_hydra_parts env p)"
  unfolding writeHydraTaskFile_def writeScheduleFiles_def deleteScheduleFiles_def write_ip_list_def write_hydra_parts_def
  by (intro sh.rel_intros sh_get sh_files)+

lemma paths_keep:
  "h_task_name (snd (prepareHydraPaths dir t)) = h_task_name t" "h_create_time (snd (prepareHydraPaths dir t)) = h_create_time t"
  "h_pid (snd (prepareHydraPaths dir t)) = h_pid t"
  by (simp_all add: prepareHydraPaths_def split: prod.splits)

lemma hc_prepare: "rel hcalm (prepare_hydra p)"
  unfolding prepare_hydra_def
  by (intro hc.rel_intros hc_same [OF sh_get(1)] hc_upd) (simp add: paths_keep)

lemma hl_prepare: "rel (hloose p) (prepare_hydra p)"
  unfolding prepare_hydra_def by (intro hl.rel_intros hl_same [OF sh_get(1)] hl_upd)

subsection \<open>Tasks with their files\<close>

lemma prepare_hydra_run:
  assumes "run_state (prepare_hydra p) w = (r, w')"
  shows "\<And>q. q \<noteq> p \<Longrightarrow> hydra_at w' q = hydra_at w q"
    "htasks w p = Some (hydra_at w p) \<Longrightarrow> hname w' p = hname w p \<and> htime w' p = htime w p \<and> h_pid (hydra_at w' p) = h_pid (hydra_at w p)"
  using assms
  by (cases "htasks w p"; auto simp: prepare_hydra_def get_hydra_def upd_hydra_def hydra_at_def paths_keep)+

lemma writeHydraRelationFile_hinv:
  fixes w :: "'a hworld_scheme"
  assumes i: "hinv K w" and p: "p \<in> K" "name_ok (hname w p)" "cstring (htime w p)" "hname w p \<notin> hname w ` queued_hydra w"
    and rn: "run_state (writeHydraRelationFile env p) w = (r, w')"
  shows "(if r = 0 then hinv (K - {p}) w' \<and> queued_hydra w' = insert p (queued_hydra w)
      else r = - 1 \<and> hinv K w' \<and> queued_hydra w' = queued_hydra w) \<and>
    (\<forall>q. q \<noteq> p \<longrightarrow> hydra_at w' q = hydra_at w q) \<and> hname w' p = hname w p"
proof -
  obtain a and w1 :: "'a hworld_scheme" where r1: "run_state (prepare_hydra p) w = (a, w1)" by (metis surj_pair)
  note pr = prepare_hydra_run [OF r1] and s = rel_run [OF hl_prepare r1]
  have i1: "hinv K w1" and q1: "queued_hydra w1 = queued_hydra w" using s i p(1) by (auto simp: hloose_def)
  have k1: "hname w1 p = hname w p" "htime w1 p = htime w p" using pr(2) hinv_facts(6) [OF i p(1)] by auto
  have "q \<noteq> p" if "q \<in> queued_hydra w" for q using hinv_facts(4) [OF i] p(1) that by auto
  then have n1: "hname w1 p \<notin> hname w1 ` queued_hydra w1" using p(4) pr(1) k1 q1 by (auto simp: image_iff)
  show ?thesis
  proof (cases "a = 0")
    case False
    then have "r = - 1" "w' = w1" using rn r1 by (auto simp: writeHydraRelationFile_def)
    then show ?thesis using i1 q1 pr(1) k1 by simp
  next
    case a: True
    obtain b and w2 :: "'a hworld_scheme" where r2: "run_state (addHydraTask env p) w1 = (b, w2)" by (metis surj_pair)
    have "name_ok (hname w1 p)" "cstring (htime w1 p)" using k1 p(2,3) by simp_all
    note ad = addHydraTask_hinv [OF i1 p(1) this n1 r2]
    have at2: "hydra_at w2 = hydra_at w1" using ad by (simp add: hydra_at_def fun_eq_iff)
    show ?thesis
    proof (cases "b = 0")
      case False
      then have "r = - 1" "w' = w2" using rn r1 r2 a by (auto simp: writeHydraRelationFile_def)
      then show ?thesis using ad False at2 q1 pr(1) k1 by simp
    next
      case b: True
      then have i2: "hinv (K - {p}) w2" and q2: "queued_hydra w2 = insert p (queued_hydra w1)" using ad by auto
      obtain c and w3 :: "'a hworld_scheme" where r3: "run_state (write_hydra_parts env p) w2 = (c, w3)" by (metis surj_pair)
      have s3: "same_hydra w2 w3" using rel_run [OF sh_hydra_files(5) r3] .
      have i3: "hinv (K - {p}) w3" "queued_hydra w3 = queued_hydra w2" "hydra_at w3 = hydra_at w2"
        using i2 same_hydra_inv [OF s3] same_hydra_at [OF s3] by auto
      show ?thesis
      proof (cases "c = 0")
        case True
        then have "r = 0" "w' = w3" using rn r1 r2 r3 a b by (auto simp: writeHydraRelationFile_def)
        then show ?thesis using i3 q2 q1 at2 pr(1) k1 by simp
      next
        case False
        obtain d and w4 :: "'a hworld_scheme" where r4: "run_state (delHydraTask p) w3 = (d, w4)" by (metis surj_pair)
        have "p \<in> queued_hydra w3" using i3(2) q2 by simp
        note de = delHydraTask_hinv [OF i3(1) this r4]
        have "insert p (K - {p}) = K" using p(1) by blast
        then have i4: "hinv K w4" "queued_hydra w4 = queued_hydra w" "hydra_at w4 = hydra_at w3"
          using de i3(2) q2 q1 hinv_facts(4) [OF i] p(1) by (auto simp: hydra_at_def)
        let ?m = "do { _ \<leftarrow> deleteScheduleFiles env p; _ \<leftarrow> deleteDir env (HYDRA_TASK_DIR (h_paths (hydra_at w3 p))); ret (- 1) }
          :: ('a hworld_scheme, int) state"
        obtain e and w5 :: "'a hworld_scheme" where r5: "run_state ?m w4 = (e, w5)" by (metis surj_pair)
        have "rel same_hydra ?m" by (intro sh.rel_intros sh_hydra_files sh_files)
        from rel_run [OF this r5] have s5: "same_hydra w4 w5" .
        have "r = - 1" "w' = w5"
          using rn r1 r2 r3 r4 r5 a b False
          by (auto simp: writeHydraRelationFile_def get_hydra_def split: prod.splits)
        then show ?thesis
          using i4 same_hydra_inv [OF s5] same_hydra_at [OF s5] i3(3) at2 pr(1) k1 by simp
      qed
    qed
  qed
qed

lemma delHydraRelationFiles_hinv:
  fixes w :: "'a hworld_scheme"
  assumes i: "hinv K w" and p: "p \<in> queued_hydra w" and rn: "run_state (delHydraRelationFiles env p) w = (r, w')"
  shows "(if r = 0 then hinv (insert p K) w' \<and> queued_hydra w' = queued_hydra w - {p}
      else hinv K w' \<and> queued_hydra w' = queued_hydra w) \<and>
    (\<forall>q. q \<noteq> p \<longrightarrow> hydra_at w' q = hydra_at w q) \<and> hname w' p = hname w p"
proof -
  obtain a and w1 :: "'a hworld_scheme" where r1: "run_state (prepare_hydra p) w = (a, w1)" by (metis surj_pair)
  note pr = prepare_hydra_run [OF r1] and s = rel_run [OF hc_prepare r1]
  have i1: "hinv K w1" and q1: "queued_hydra w1 = queued_hydra w" using s i by (auto simp: hcalm_def)
  have k1: "hname w1 p = hname w p" using pr(2) hinv_facts(7) [OF i p] by auto
  show ?thesis
  proof (cases "a = 0")
    case False
    then have "r = - 1" "w' = w1" using rn r1 by (auto simp: delHydraRelationFiles_def)
    then show ?thesis using i1 q1 pr(1) k1 by simp
  next
    case a: True
    obtain b and w2 :: "'a hworld_scheme" where r2: "run_state (delHydraTask p) w1 = (b, w2)" by (metis surj_pair)
    have p1: "p \<in> queued_hydra w1" using p q1 by simp
    note de = delHydraTask_hinv [OF i1 p1 r2]
    obtain c and w3 :: "'a hworld_scheme" where r3: "run_state (writeHydraTaskFile env) w2 = (c, w3)" by (metis surj_pair)
    have s3: "same_hydra w2 w3" using rel_run [OF sh_hydra_files(1) r3] .
    have at3: "hydra_at w3 = hydra_at w1" using de same_hydra_at [OF s3] by (auto simp: hydra_at_def fun_eq_iff)
    have i3: "hinv (insert p K) w3" "queued_hydra w3 = queued_hydra w1 - {p}" "length (h_nameset w3) < h_name_cap w3"
      using de same_hydra_inv [OF s3] same_hydra_at [OF s3] s3 by (auto simp: same_hydra_def)
    show ?thesis
    proof (cases "c = 0")
      case True
      let ?m = "do { _ \<leftarrow> deleteScheduleFiles env p; _ \<leftarrow> deleteDir env (HYDRA_TASK_DIR (h_paths (hydra_at w1 p))); ret 0 }
        :: ('a hworld_scheme, int) state"
      obtain e and w4 :: "'a hworld_scheme" where r4: "run_state ?m w3 = (e, w4)" by (metis surj_pair)
      have "rel same_hydra ?m" by (intro sh.rel_intros sh_hydra_files sh_files)
      from rel_run [OF this r4] have s4: "same_hydra w3 w4" .
      have "r = 0" "w' = w4"
        using rn r1 r2 r3 r4 a de True by (auto simp: delHydraRelationFiles_def get_hydra_def split: prod.splits)
      then show ?thesis
        using i3 same_hydra_inv [OF s4] same_hydra_at [OF s4] at3 pr(1) k1 q1 by simp
    next
      case False
      obtain d and w4 :: "'a hworld_scheme" where r4: "run_state (addHydraTask env p) w3 = (d, w4)" by (metis surj_pair)
      have "r = c" "w' = w4"
        using rn r1 r2 r3 r4 a de False by (auto simp: delHydraRelationFiles_def get_hydra_def)
      note l = hinv_facts(1) [OF i1] and n = hinv_facts(2) [OF i1]
      have k3: "name_ok (hname w3 p)" "cstring (htime w3 p)"
        using linked_facts(6,7) [OF l, of p] n p1 at3 by simp_all
      have u3: "hname w3 p \<notin> hname w3 ` queued_hydra w3"
        using linked_facts(5) [OF l] n p1 at3 i3(2) by (auto dest: inj_onD)
      have "insert p K - {p} = K" using hinv_facts(4) [OF i] p by blast
      then have "hinv K w4" "queued_hydra w4 = queued_hydra w" "hydra_at w4 = hydra_at w3"
        using addHydraTask_hinv [OF i3(1) _ k3 u3 r4] i3(2,3) p1 q1
        by (auto simp: insert_absorb hydra_at_def fun_eq_iff split: if_splits)
      then show ?thesis using \<open>r = c\<close> \<open>w' = w4\<close> False at3 pr(1) k1 by simp
    qed
  qed
qed

subsection \<open>Requests\<close>

lemma getKeyHydraParam_name:
  assumes "cstring input" "getKeyHydraParam input t = (0, t')"
  shows "name_ok (h_task_name t')"
proof -
  obtain r nm s where k: "getNextToken input [SOH] (h_task_name t) MAX_NAME_SIZE = (r, nm, s)" by (metis prod_cases3)
  then have "r = 0" using assms(2) by (auto simp: getKeyHydraParam_def Let_def split: if_splits)
  then have "length nm < MAX_NAME_SIZE" "cstring nm" using getNextToken_cstring [OF _ assms(1)] k by auto
  moreover have "h_task_name t' = nm"
    using assms(2) k \<open>r = 0\<close> by (auto simp: getKeyHydraParam_def Let_def split: prod.splits if_splits)
  ultimately show ?thesis by (simp add: name_ok_def)
qed

text \<open>The code with which a request about an existing task is refused before the task is looked at.\<close>

definition hydra_refusal :: "bool \<Rightarrow> 'a hworld_scheme \<Rightarrow> int \<times> hydra_task \<Rightarrow> int option" where
  "hydra_refusal nomem w k =
     (if nomem then Some GVM_ERR_INTERNAL_FAIL else if fst k \<noteq> 0 then Some GVM_ERR_PARAM_INVALID
      else if h_task_name (snd k) \<notin> hname w ` queued_hydra w then Some GVM_ERR_TASK_NOT_FOUND else None)"

lemma locate_hydra_run:
  fixes w :: "'a hworld_scheme"
  assumes i: "hinv K w" and k: "key \<in> K" "hydra_at w key = new_hydra_task" and c: "cstring input"
    and rn: "run_state (locate_hydra key input) w = (l, w')"
  shows "hloose key w w'"
    and "case hydra_refusal False w (getKeyHydraParam input new_hydra_task) of
      Some e \<Rightarrow> l = Inl e
    | None \<Rightarrow> \<exists>p\<in>queued_hydra w. hname w p = h_task_name (snd (getKeyHydraParam input new_hydra_task)) \<and> l = Inr p"
proof -
  let ?t = "getKeyHydraParam input new_hydra_task"
  have "rel (hloose key) (locate_hydra key input :: ('a hworld_scheme, int + nat) state)"
    unfolding locate_hydra_def by (intro hl.rel_intros hl_upd hl_same [OF sh_get(1)] hl_same [OF sh_get(2)])
  from rel_run [OF this rn] show "hloose key w w'" .
  obtain u and w1 :: "'a hworld_scheme" where r1: "run_state (upd_hydra key (\<lambda>t. snd (getKeyHydraParam input t))) w = (u, w1)"
    by (metis surj_pair)
  have s: "hinv K w1" "queued_hydra w1 = queued_hydra w" "\<And>q. q \<noteq> key \<Longrightarrow> hydra_at w1 q = hydra_at w q"
    using rel_run [OF hl_upd r1] i k(1) by (auto simp: hloose_def)
  have k1: "hydra_at w1 key = snd ?t"
    using upd_hydra_at [OF r1] hinv_facts(6) [OF i k(1)] k(2) by simp
  obtain f w2 where r2: "run_state (findHydraTask key) w1 = (f, w2)" by (metis surj_pair)
  have o: "l = (if fst ?t \<noteq> 0 then Inl GVM_ERR_PARAM_INVALID else case f of None \<Rightarrow> Inl GVM_ERR_TASK_NOT_FOUND | Some p \<Rightarrow> Inr p)"
  proof -
    have "run_state (if fst ?t \<noteq> 0 then ret (Inl GVM_ERR_PARAM_INVALID) else do { f \<leftarrow> findHydraTask key;
        ret (case f of None \<Rightarrow> Inl GVM_ERR_TASK_NOT_FOUND | Some p \<Rightarrow> Inr p) }) w1 = (l, w')"
      using rn r1 unfolding locate_hydra_def get_hydra_def by (simp add: k(2))
    then show ?thesis using r2 by (cases "fst ?t = 0") simp_all
  qed
  show "case hydra_refusal False w ?t of
      Some e \<Rightarrow> l = Inl e | None \<Rightarrow> \<exists>p\<in>queued_hydra w. hname w p = h_task_name (snd ?t) \<and> l = Inr p"
  proof (cases "fst ?t = 0")
    case False
    then show ?thesis using o by (simp add: hydra_refusal_def)
  next
    case True
    then have "getKeyHydraParam input new_hydra_task = (0, snd ?t)" by (simp add: prod_eq_iff)
    from getKeyHydraParam_name [OF c this] have ok: "name_ok (hname w1 key)" using k1 by simp
    have nq: "q \<noteq> key" if "q \<in> queued_hydra w" for q using hinv_facts(4) [OF i] k(1) that by auto
    have im: "hname w1 ` queued_hydra w = hname w ` queued_hydra w"
      by (rule image_cong [OF refl]) (simp add: s(3) nq)
    note fd = findHydraTask_hinv(2) [OF s(1) ok r2, unfolded s(2) im k1]
    show ?thesis
    proof (cases f)
      case None
      then show ?thesis using fd o True by (simp add: hydra_refusal_def)
    next
      case (Some p)
      then have p: "p \<in> queued_hydra w" "hname w p = h_task_name (snd ?t)" using fd s(3) nq by auto
      then have "h_task_name (snd ?t) \<in> hname w ` queued_hydra w" by (metis imageI)
      then show ?thesis using p o True Some by (simp add: hydra_refusal_def)
    qed
  qed
qed

text \<open>Between requests no object is loose.\<close>

definition hydra_ok :: "'a hworld_scheme \<Rightarrow> bool" where
  "hydra_ok w \<longleftrightarrow> hinv {} w"

text \<open>A request keeps the objects of the queue outside \<open>A\<close>.\<close>

definition hydra_unchanged :: "nat set \<Rightarrow> 'a hworld_scheme \<Rightarrow> 'a hworld_scheme \<Rightarrow> bool" where
  "hydra_unchanged A w w' \<longleftrightarrow> (\<forall>q\<in>queued_hydra w - A. hydra_at w' q = hydra_at w q)"

text \<open>Finding a task sends no signal.\<close>

definition same_kills :: "'a hworld_scheme \<Rightarrow> 'a hworld_scheme \<Rightarrow> bool" where
  "same_kills w w' \<longleftrightarrow> kills w' = kills w"

interpretation sk: stepping same_kills
  by unfold_locales (simp_all add: same_kills_def)

lemma sk_locate: "rel same_kills (newHydraTask env)" "rel same_kills (locate_hydra key input)" "rel same_kills (freeHydraTask key)"
  unfolding newHydraTask_def locate_hydra_def freeHydraTask_def get_hydra_def upd_hydra_def findHydraTask_def fails_def now_def
  by (intro sk.rel_intros rel_modify; simp add: same_kills_def)+

lemma with_hydra_run:
  fixes w w' :: "'a hworld_scheme"
  assumes h: "hydra_ok w" and c: "cstring input" and rn: "run_state (with_hydra env input body) w = (r, w')"
  shows "case hydra_refusal (fault env (tick w)) w (getKeyHydraParam input new_hydra_task) of
      Some e \<Rightarrow> r = e \<and> hydra_ok w' \<and> queued_hydra w' = queued_hydra w \<and> hydra_unchanged {} w w'
    | None \<Rightarrow> \<exists>p key w2 w3. p \<in> queued_hydra w \<and> hname w p = h_task_name (snd (getKeyHydraParam input new_hydra_task)) \<and>
        key \<notin> queued_hydra w \<and> hinv {key} w2 \<and> queued_hydra w2 = queued_hydra w \<and> hydra_unchanged {} w w2 \<and>
        kills w2 = kills w \<and>
        run_state (body p) w2 = (r, w3) \<and> run_state (freeHydraTask key) w3 = ((), w')"
proof -
  have i: "hinv {} w" using h by (simp add: hydra_ok_def)
  obtain a and w1 :: "'a hworld_scheme" where r1: "run_state (newHydraTask env) w = (a, w1)" by fastforce
  note n = newHydraTask_hinv [OF i r1]
  show ?thesis
  proof (cases a)
    case None
    then have "fault env (tick w)" "r = GVM_ERR_INTERNAL_FAIL" "w' = w1"
      using rn r1 by (auto simp: with_hydra_def newHydraTask_def fails_def now_def split: if_splits)
    then show ?thesis using n None by (simp add: hydra_refusal_def hydra_ok_def hydra_unchanged_def)
  next
    case (Some key)
    have nf: "\<not> fault env (tick w)" using r1 Some by (auto simp: newHydraTask_def fails_def now_def split: if_splits)
    have k: "key \<notin> queued_hydra w" "hydra_at w1 key = new_hydra_task" "hinv {key} w1"
      "\<And>q. q \<noteq> key \<Longrightarrow> hydra_at w1 q = hydra_at w q" using n(2) Some by auto
    obtain l and w2 :: "'a hworld_scheme" where r2: "run_state (locate_hydra key input) w1 = (l, w2)" by fastforce
    note l = locate_hydra_run [OF k(3) singletonI k(2) c r2]
    have s2: "hinv {key} w2" "queued_hydra w2 = queued_hydra w" "\<And>q. q \<noteq> key \<Longrightarrow> hydra_at w2 q = hydra_at w1 q"
      using l(1) k(3) n(1) by (auto simp: hloose_def)
    have u2: "hydra_unchanged {} w w2" unfolding hydra_unchanged_def using s2(3) k(1,4) by (metis DiffD1)
    have "hname w1 ` queued_hydra w1 = hname w ` queued_hydra w"
      unfolding n(1) by (rule image_cong [OF refl]) (metis k(1,4))
    then have rf: "hydra_refusal (fault env (tick w)) w = hydra_refusal False w1"
      using nf by (simp add: fun_eq_iff hydra_refusal_def)
    obtain x and w3 :: "'a hworld_scheme" where r3: "run_state (case l of Inl e \<Rightarrow> ret e | Inr p \<Rightarrow> body p) w2 = (x, w3)" by fastforce
    obtain u and w4 :: "'a hworld_scheme" where r4: "run_state (freeHydraTask key) w3 = (u, w4)" by (metis surj_pair)
    have x: "x = r" "w4 = w'" using rn r1 Some r2 r3 r4 by (auto simp: with_hydra_def)
    show ?thesis
    proof (cases "hydra_refusal False w1 (getKeyHydraParam input new_hydra_task)")
      case (Some e)
      then have "w3 = w2" "r = e" using l(2) r3 x by auto
      moreover have "hinv ({key} - {key}) w'" "queued_hydra w' = queued_hydra w2" "\<And>q. q \<noteq> key \<Longrightarrow> hydra_at w' q = hydra_at w2 q"
        using freeHydraTask_hinv [OF s2(1) singletonI r4 [unfolded \<open>w3 = w2\<close>]] x by auto
      moreover have "hydra_unchanged {} w w'"
        using u2 k(1) \<open>\<And>q. q \<noteq> key \<Longrightarrow> hydra_at w' q = hydra_at w2 q\<close> unfolding hydra_unchanged_def by (metis DiffD1)
      ultimately show ?thesis using Some rf s2(2) by (simp add: hydra_ok_def)
    next
      case None
      then obtain p where p: "p \<in> queued_hydra w" "hname w1 p = h_task_name (snd (getKeyHydraParam input new_hydra_task))" "l = Inr p"
        using l(2) n(1) by auto
      have "hname w p = hname w1 p" using k(1,4) p(1) by metis
      moreover have "kills w2 = kills w"
        using sk.R_trans [OF rel_run [OF sk_locate(1) r1] rel_run [OF sk_locate(2) r2]] by (simp add: same_kills_def)
      ultimately show ?thesis using None rf p k(1) s2 u2 r3 r4 x by auto
    qed
  qed
qed

definition honly :: "nat \<Rightarrow> 'a hworld_scheme \<Rightarrow> 'a hworld_scheme \<Rightarrow> bool" where
  "honly p w w' \<longleftrightarrow> (\<forall>q. q \<noteq> p \<longrightarrow> hydra_at w' q = hydra_at w q)"

interpretation ho: stepping "honly p" for p
  by unfold_locales (simp_all add: honly_def)

lemma ho_same: "rel same_hydra m \<Longrightarrow> rel (honly p) m"
  by (erule rel_mono) (simp add: honly_def same_hydra_at)

lemma ho_upd: "rel (honly p) (upd_hydra p f)"
  unfolding upd_hydra_def by (rule rel_modify) (simp add: honly_def hydra_at_def)

lemma ho_prepare: "rel (honly p) (prepare_hydra p)"
  unfolding prepare_hydra_def by (intro ho.rel_intros ho_same [OF sh_get(1)] ho_upd)

lemma sh_fork: "rel same_hydra (forkSafe env)" "rel same_hydra (stopProc env pid)"
  unfolding forkSafe_def stopProc_def killSafe_def
  by (intro sh.rel_intros sh_calls rel_modify; simp add: same_hydra_def)+

lemma hydra_bodies:
  "rel hcalm (start_hydra_found env p)" "rel (honly p) (start_hydra_found env p)"
  "rel hcalm (stop_hydra_found env p)" "rel (honly p) (stop_hydra_found env p)"
  unfolding start_hydra_found_def stop_hydra_found_def runHydra_def
  by (intro hc.rel_intros ho.rel_intros hc_same [OF sh_get(1)] ho_same [OF sh_get(1)] hc_prepare ho_prepare
      hc_same [OF sh_fork(1)] ho_same [OF sh_fork(1)] hc_same [OF sh_fork(2)] ho_same [OF sh_fork(2)] hc_upd ho_upd; simp)+

text \<open>A request that is not refused works on the task of its name.\<close>

lemma hydra_found:
  fixes w w' :: "'a hworld_scheme"
  assumes h: "hydra_ok w" "cstring input" "run_state (with_hydra env input body) w = (r, w')"
    and b: "\<And>p. rel hcalm (body p)" "\<And>p. rel (honly p) (body p)"
    and n: "hydra_refusal (fault env (tick w)) w (getKeyHydraParam input new_hydra_task) = None"
  obtains p w2 w3 where "p \<in> queued_hydra w" "hname w p = h_task_name (snd (getKeyHydraParam input new_hydra_task))"
    "run_state (body p) w2 = (r, w3)" "htasks w2 p = Some (hydra_at w p)" "hydra_at w' p = hydra_at w3 p"
    "hydra_unchanged {p} w w'" "hydra_ok w'" "queued_hydra w' = queued_hydra w" "kills w2 = kills w" "kills w' = kills w3"
proof -
  from with_hydra_run [OF h] n obtain p key and w2 w3 :: "'a hworld_scheme"
    where p: "p \<in> queued_hydra w" "hname w p = h_task_name (snd (getKeyHydraParam input new_hydra_task))"
    and k: "key \<notin> queued_hydra w" "hinv {key} w2" "queued_hydra w2 = queued_hydra w" "hydra_unchanged {} w w2"
      "kills w2 = kills w"
    and r: "run_state (body p) w2 = (r, w3)" "run_state (freeHydraTask key) w3 = ((), w')" by auto
  have c: "hinv {key} w3" "queued_hydra w3 = queued_hydra w2" using rel_run [OF b(1) r(1)] k(2) by (simp_all add: hcalm_def)
  note f = freeHydraTask_hinv [OF c(1) singletonI r(2)]
  have o: "\<And>q. q \<noteq> p \<Longrightarrow> hydra_at w3 q = hydra_at w2 q" using rel_run [OF b(2) r(1)] by (simp add: honly_def)
  have "p \<noteq> key" using p(1) k(1) by auto
  then have a: "hydra_at w' p = hydra_at w3 p" "hydra_at w2 p = hydra_at w p"
    using f(3) k(4) p(1) by (auto simp: hydra_unchanged_def)
  have u: "hydra_unchanged {p} w w'"
    unfolding hydra_unchanged_def
  proof
    fix q
    assume q: "q \<in> queued_hydra w - {p}"
    then have "q \<noteq> key" "q \<noteq> p" using k(1) by auto
    then show "hydra_at w' q = hydra_at w q" using f(3) o k(4) q by (simp add: hydra_unchanged_def)
  qed
  have "htasks w2 p = Some (hydra_at w p)" using hinv_facts(7) [OF k(2)] k(3) p(1) a(2) by simp
  moreover have "hydra_ok w'" "queued_hydra w' = queued_hydra w" using f(1,2) c(2) k(3) by (simp_all add: hydra_ok_def)
  moreover have "kills w' = kills w3" using rel_run [OF sk_locate(3) r(2)] by (simp add: same_kills_def)
  ultimately show thesis using that p r(1) a(1) u k(5) by blast
qed

lemma start_hydra_run:
  fixes w :: "'a hworld_scheme"
  assumes "run_state (start_hydra_found env p) w = (r, w')" "htasks w p = Some t"
  shows "if h_pid t \<noteq> 0 then r = GVM_ERR_TASK_IS_BUSY \<and> hydra_at w' p = t
    else r = GVM_ERR_INTERNAL_FAIL \<and> h_pid (hydra_at w' p) = 0 \<or> r = 0 \<and> 1 < h_pid (hydra_at w' p)"
proof -
  have t: "hydra_at w p = t" using assms(2) by (simp add: hydra_at_def)
  show ?thesis
  proof (cases "h_pid t = 0")
    case False
    then show ?thesis using assms(1) t by (simp add: start_hydra_found_def get_hydra_def)
  next
    case True
    obtain a and w1 :: "'a hworld_scheme" where r1: "run_state (prepare_hydra p) w = (a, w1)" by (metis surj_pair)
    have pid: "h_pid (hydra_at w1 p) = 0" using prepare_hydra_run(2) [OF r1] assms(2) t True by simp
    obtain b and w2 :: "'a hworld_scheme" where r2: "run_state (forkSafe env) w1 = (b, w2)" by (metis surj_pair)
    have s: "hydra_at w2 = hydra_at w1" "htasks w2 = htasks w1"
      using rel_run [OF sh_fork(1) r2] same_hydra_at [of w1 w2] by (auto simp: same_hydra_def)
    have b: "b = - 1 \<or> 1 < b" using r2 by (auto simp: forkSafe_def fails_def now_def split: if_splits)
    have d: "htasks w1 p \<noteq> None" using r1 assms(2) by (auto simp: prepare_hydra_def upd_hydra_def get_hydra_def)
    show ?thesis
      using assms(1) r1 r2 t True pid s b d
      by (auto simp: start_hydra_found_def runHydra_def get_hydra_def upd_hydra_def hydra_at_def split: if_splits)
  qed
qed

text \<open>C18: a request to start a brute-force task is answered with the first refusal that applies: no memory, invalid
  parameters, no such task, a process of the task is running; otherwise the task has a new process after success and
  none after a failure.  No other task changes.\<close>

theorem daemon_start_hydra_answer:
  fixes w w' :: "'a hworld_scheme"
  assumes "hydra_ok w" "cstring input" "run_state (daemon_start_hydra env input) w = (r, w')"
  shows "queued_hydra w' = queued_hydra w \<and>
    (case hydra_refusal (fault env (tick w)) w (getKeyHydraParam input new_hydra_task) of
      Some e \<Rightarrow> r = e \<and> hydra_unchanged {} w w'
    | None \<Rightarrow> \<exists>p\<in>queued_hydra w. hname w p = h_task_name (snd (getKeyHydraParam input new_hydra_task)) \<and> hydra_unchanged {p} w w' \<and>
        (if h_pid (hydra_at w p) \<noteq> 0 then r = GVM_ERR_TASK_IS_BUSY \<and> hydra_at w' p = hydra_at w p
         else r = GVM_ERR_INTERNAL_FAIL \<and> h_pid (hydra_at w' p) = 0 \<or> r = 0 \<and> 1 < h_pid (hydra_at w' p)))"
proof (cases "hydra_refusal (fault env (tick w)) w (getKeyHydraParam input new_hydra_task)")
  case None
  from hydra_found [OF assms(1,2) assms(3) [unfolded daemon_start_hydra_def] hydra_bodies(1,2) None] obtain p and w2 w3 :: "'a hworld_scheme"
    where f: "p \<in> queued_hydra w" "hname w p = h_task_name (snd (getKeyHydraParam input new_hydra_task))"
    "run_state (start_hydra_found env p) w2 = (r, w3)" "htasks w2 p = Some (hydra_at w p)" "hydra_at w' p = hydra_at w3 p"
    "hydra_unchanged {p} w w'" "queued_hydra w' = queued_hydra w" .
  from start_hydra_run [OF f(3,4)] f show ?thesis using None by auto
qed (use with_hydra_run [OF assms(1,2) assms(3) [unfolded daemon_start_hydra_def]] in auto)

lemma stop_hydra_run:
  fixes w :: "'a hworld_scheme"
  assumes "run_state (stop_hydra_found env p) w = (r, w')" "htasks w p = Some t"
  shows "if h_pid t = 0 then r = GVM_ERR_TASK_IS_NOT_RUNNING \<and> hydra_at w' p = t \<and> kills w' = kills w
    else r = GVM_ERR_INTERNAL_FAIL \<and> hydra_at w' p = t \<and> kills w' = kills w \<or>
      r = 0 \<and> 1 < h_pid t \<and> hydra_at w' p = t\<lparr>h_pid := 0\<rparr> \<and> kills w' = kills w @ [(h_pid t, SIGUSR1)]"
  using assms
  by (auto simp: stop_hydra_found_def stopProc_def killSafe_def get_hydra_def upd_hydra_def hydra_at_def fails_def now_def
      split: if_splits)

text \<open>C19: a request to stop a brute-force task is answered in the same way; the task has to have a process.  Only
  success sends a signal, one, to that process, and marks the task as not running.\<close>

theorem daemon_stop_hydra_answer:
  fixes w w' :: "'a hworld_scheme"
  assumes "hydra_ok w" "cstring input" "run_state (daemon_stop_hydra env input) w = (r, w')"
  shows "queued_hydra w' = queued_hydra w \<and>
    (case hydra_refusal (fault env (tick w)) w (getKeyHydraParam input new_hydra_task) of
      Some e \<Rightarrow> r = e \<and> hydra_unchanged {} w w'
    | None \<Rightarrow> \<exists>p\<in>queued_hydra w. hname w p = h_task_name (snd (getKeyHydraParam input new_hydra_task)) \<and> hydra_unchanged {p} w w' \<and>
        (let t = hydra_at w p
         in if h_pid t = 0 then r = GVM_ERR_TASK_IS_NOT_RUNNING \<and> hydra_at w' p = t \<and> kills w' = kills w
            else r = GVM_ERR_INTERNAL_FAIL \<and> hydra_at w' p = t \<and> kills w' = kills w \<or>
              r = 0 \<and> hydra_at w' p = t\<lparr>h_pid := 0\<rparr> \<and> kills w' = kills w @ [(h_pid t, SIGUSR1)]))"
proof (cases "hydra_refusal (fault env (tick w)) w (getKeyHydraParam input new_hydra_task)")
  case None
  from hydra_found [OF assms(1,2) assms(3) [unfolded daemon_stop_hydra_def] hydra_bodies(3,4) None] obtain p and w2 w3 :: "'a hworld_scheme"
    where f: "p \<in> queued_hydra w" "hname w p = h_task_name (snd (getKeyHydraParam input new_hydra_task))"
    "run_state (stop_hydra_found env p) w2 = (r, w3)" "htasks w2 p = Some (hydra_at w p)" "hydra_at w' p = hydra_at w3 p"
    "hydra_unchanged {p} w w'" "queued_hydra w' = queued_hydra w" "kills w2 = kills w" "kills w' = kills w3" .
  from stop_hydra_run [OF f(3,4)] f have "if h_pid (hydra_at w p) = 0
      then r = GVM_ERR_TASK_IS_NOT_RUNNING \<and> hydra_at w' p = hydra_at w p \<and> kills w' = kills w
      else r = GVM_ERR_INTERNAL_FAIL \<and> hydra_at w' p = hydra_at w p \<and> kills w' = kills w \<or>
        r = 0 \<and> hydra_at w' p = (hydra_at w p)\<lparr>h_pid := 0\<rparr> \<and> kills w' = kills w @ [(h_pid (hydra_at w p), SIGUSR1)]"
    by (auto split: if_splits)
  with f(1,2,6,7) show ?thesis using None by (auto simp: Let_def)
qed (use with_hydra_run [OF assms(1,2) assms(3) [unfolded daemon_stop_hydra_def]] in auto)

subsection \<open>Deleting and creating\<close>

lemma delete_hydra_run:
  fixes w :: "'a hworld_scheme"
  assumes i: "hinv K w" and p: "p \<in> queued_hydra w" and rn: "run_state (delete_hydra_found env p) w = (r, w')"
  shows "hinv K w' \<and> (\<forall>q. q \<noteq> p \<longrightarrow> hydra_at w' q = hydra_at w q) \<and>
    (if h_pid (hydra_at w p) \<noteq> 0 then r = GVM_ERR_TASK_IS_BUSY \<and> queued_hydra w' = queued_hydra w
     else r = GVM_ERR_INTERNAL_FAIL \<and> queued_hydra w' = queued_hydra w \<or> r = 0 \<and> queued_hydra w' = queued_hydra w - {p})"
proof (cases "h_pid (hydra_at w p) = 0")
  case False
  then show ?thesis using rn i by (simp add: delete_hydra_found_def get_hydra_def)
next
  case True
  obtain a and w1 :: "'a hworld_scheme" where r1: "run_state (delHydraRelationFiles env p) w = (a, w1)" by fastforce
  note d = delHydraRelationFiles_hinv [OF i p r1]
  show ?thesis
  proof (cases "a = 0")
    case a: False
    then have "r = GVM_ERR_INTERNAL_FAIL" "w' = w1"
      using rn r1 True by (auto simp: delete_hydra_found_def get_hydra_def)
    then show ?thesis using d a True by simp
  next
    case a: True
    then have "r = 0" and f: "run_state (freeHydraTask p) w1 = ((), w')"
      using rn r1 True by (auto simp: delete_hydra_found_def get_hydra_def split: prod.splits)
    have h: "hinv (insert p K) w1" "queued_hydra w1 = queued_hydra w - {p}" using d a by auto
    have "insert p K - {p} = K" using hinv_facts(4) [OF i] p by blast
    then show ?thesis using freeHydraTask_hinv [OF h(1) insertI1 f] h(2) d \<open>r = 0\<close> True by simp
  qed
qed

lemma daemon_delete_hydra_run:
  fixes w w' :: "'a hworld_scheme"
  assumes "hydra_ok w" "cstring input" "run_state (daemon_delete_hydra env input) w = (r, w')"
  shows "hydra_ok w' \<and> (case hydra_refusal (fault env (tick w)) w (getKeyHydraParam input new_hydra_task) of
      Some e \<Rightarrow> r = e \<and> queued_hydra w' = queued_hydra w \<and> hydra_unchanged {} w w'
    | None \<Rightarrow> \<exists>p\<in>queued_hydra w. hname w p = h_task_name (snd (getKeyHydraParam input new_hydra_task)) \<and> hydra_unchanged {p} w w' \<and>
        (if h_pid (hydra_at w p) \<noteq> 0 then r = GVM_ERR_TASK_IS_BUSY \<and> queued_hydra w' = queued_hydra w
         else r = GVM_ERR_INTERNAL_FAIL \<and> queued_hydra w' = queued_hydra w \<or> r = 0 \<and> queued_hydra w' = queued_hydra w - {p}))"
proof (cases "hydra_refusal (fault env (tick w)) w (getKeyHydraParam input new_hydra_task)")
  case None
  from with_hydra_run [OF assms(1,2) assms(3) [unfolded daemon_delete_hydra_def]] None obtain p key and w2 w3 :: "'a hworld_scheme"
    where p: "p \<in> queued_hydra w" "hname w p = h_task_name (snd (getKeyHydraParam input new_hydra_task))"
    and k: "key \<notin> queued_hydra w" "hinv {key} w2" "queued_hydra w2 = queued_hydra w" "hydra_unchanged {} w w2"
    and r: "run_state (delete_hydra_found env p) w2 = (r, w3)" "run_state (freeHydraTask key) w3 = ((), w')" by auto
  have p2: "p \<in> queued_hydra w2" using p(1) k(3) by simp
  note d = delete_hydra_run [OF k(2) p2 r(1)]
  have f: "hydra_ok w'" "queued_hydra w' = queued_hydra w3" "\<And>q. q \<noteq> key \<Longrightarrow> hydra_at w' q = hydra_at w3 q"
    using freeHydraTask_hinv [OF conjunct1 [OF d] singletonI r(2)] by (simp_all add: hydra_ok_def)
  have e: "hydra_at w2 q = hydra_at w q" if "q \<in> queued_hydra w" for q using k(4) that by (simp add: hydra_unchanged_def)
  have "hydra_unchanged {p} w w'"
    unfolding hydra_unchanged_def
  proof
    fix q
    assume q: "q \<in> queued_hydra w - {p}"
    then have "q \<noteq> key" "q \<noteq> p" using k(1) by auto
    then show "hydra_at w' q = hydra_at w q" using f(3) d e q by simp
  qed
  then show ?thesis using None f(1,2) d e [OF p(1)] p k(3) by (auto intro!: bexI [of _ p] split: if_splits)
qed (use with_hydra_run [OF assms(1,2) assms(3) [unfolded daemon_delete_hydra_def]] in auto)

text \<open>C20: a request to delete a brute-force task is answered in the same way; a task with a process is not deleted.
  Success removes exactly that task from the store, and after a failure all tasks are still there.\<close>

theorem daemon_delete_hydra_answer:
  fixes w w' :: "'a hworld_scheme"
  assumes "hydra_ok w" "cstring input" "run_state (daemon_delete_hydra env input) w = (r, w')"
  shows "hydra_ok w' \<and> (case hydra_refusal (fault env (tick w)) w (getKeyHydraParam input new_hydra_task) of
      Some e \<Rightarrow> r = e \<and> queued_hydra w' = queued_hydra w \<and> hydra_unchanged {} w w'
    | None \<Rightarrow> \<exists>p\<in>queued_hydra w. hname w p = h_task_name (snd (getKeyHydraParam input new_hydra_task)) \<and> hydra_unchanged {p} w w' \<and>
        (if h_pid (hydra_at w p) \<noteq> 0 then r = GVM_ERR_TASK_IS_BUSY \<and> queued_hydra w' = queued_hydra w
         else r = GVM_ERR_INTERNAL_FAIL \<and> queued_hydra w' = queued_hydra w \<or> r = 0 \<and> queued_hydra w' = queued_hydra w - {p}))"
  by (rule daemon_delete_hydra_run [OF assms])

text \<open>The name that a request for a new task asks for.\<close>

definition requested_name :: "string \<Rightarrow> string" where
  "requested_name input = h_task_name (snd (snd (hydra_tokens input new_hydra_task)))"

lemma requested_name_ok:
  assumes "cstring input" "fst (hydra_tokens input new_hydra_task) = 0"
  shows "name_ok (requested_name input)"
proof -
  obtain r nm s where k: "getNextToken input [SOH] (h_task_name new_hydra_task) MAX_NAME_SIZE = (r, nm, s)" by (metis prod_cases3)
  then have "r = 0" using assms(2) by (auto simp: hydra_tokens_def Let_def split: if_splits)
  then have "length nm < MAX_NAME_SIZE" "cstring nm" using getNextToken_cstring [OF _ assms(1)] k by auto
  moreover have "requested_name input = nm"
    using k \<open>r = 0\<close> by (auto simp: requested_name_def hydra_tokens_def Let_def split: prod.splits if_splits)
  ultimately show ?thesis by (simp add: name_ok_def)
qed

lemma create_param_facts:
  assumes "run_state (getCreateHydraParam env input new_hydra_task) (w :: 'a hworld_scheme) = ((q, t), w')"
  shows "same_hydra w w'" "h_task_name t = requested_name input" "h_create_time t = []"
    "q = 0 \<Longrightarrow> fst (hydra_tokens input new_hydra_task) = 0"
proof -
  obtain c ht s where k: "hydra_tokens input new_hydra_task = (c, ht, s)" by (metis prod_cases3)
  have "h_create_time s = []" using k by (auto simp: hydra_tokens_def Let_def new_hydra_task_def split: prod.splits if_splits)
  then show "h_task_name t = requested_name input" "h_create_time t = []" "q = 0 \<Longrightarrow> fst (hydra_tokens input new_hydra_task) = 0"
    using assms k by (auto simp: getCreateHydraParam_def requested_name_def Let_def split: prod.splits if_splits)
  have "rel same_hydra (getCreateHydraParam env input new_hydra_task :: ('a hworld_scheme, int \<times> hydra_task) state)"
    unfolding getCreateHydraParam_def by (intro sh.rel_intros sh_files)
  from rel_run [OF this assms] show "same_hydra w w'" .
qed

lemma create_hydra_checked_run:
  fixes w :: "'a hworld_scheme"
  assumes c: "times_ok env" "cstring input" and i: "hinv {p} w" "hydra_at w p = new_hydra_task"
    and rn: "run_state (create_hydra_checked env p input) w = (r, w')"
  shows "(\<forall>q. q \<noteq> p \<longrightarrow> hydra_at w' q = hydra_at w q) \<and>
    (if r = 0 then hinv {} w' \<and> queued_hydra w' = insert p (queued_hydra w) \<and> hname w' p = requested_name input \<and>
       requested_name input \<notin> hname w ` queued_hydra w
     else hinv {p} w' \<and> queued_hydra w' = queued_hydra w \<and> r \<in> {GVM_ERR_PARAM_INVALID, GVM_ERR_TASK_ALREADY_EXISTS, GVM_ERR_INTERNAL_FAIL} \<and>
       (r = GVM_ERR_TASK_ALREADY_EXISTS \<longrightarrow> requested_name input \<in> hname w ` queued_hydra w))"
proof -
  obtain q t and w1 :: "'a hworld_scheme" where r1: "run_state (getCreateHydraParam env input new_hydra_task) w = ((q, t), w1)"
    by (metis surj_pair)
  note cp = create_param_facts [OF r1]
  note s1 = same_hydra_inv [OF cp(1)] same_hydra_at [OF cp(1)]
  obtain u and w2 :: "'a hworld_scheme" where r2: "run_state (upd_hydra p (\<lambda>_. t)) w1 = (u, w2)" by (metis surj_pair)
  have i1: "hinv {p} w1" using i(1) s1 by simp
  have s2: "hinv {p} w2" "queued_hydra w2 = queued_hydra w" "\<And>q. q \<noteq> p \<Longrightarrow> hydra_at w2 q = hydra_at w q"
    using rel_run [OF hl_upd r2] i1 s1 by (auto simp: hloose_def)
  have p2: "hydra_at w2 p = t" using upd_hydra_at [OF r2] hinv_facts(6) [OF i1] by simp
  have nq: "x \<noteq> p" if "x \<in> queued_hydra w" for x using hinv_facts(4) [OF i(1)] that by auto
  have im: "hname w2 ` queued_hydra w = hname w ` queued_hydra w"
    by (rule image_cong [OF refl]) (simp add: s2(3) nq)
  show ?thesis
  proof (cases "q = 0")
    case False
    then have "r = GVM_ERR_PARAM_INVALID" "w' = w2"
      using rn r1 r2 i(2) by (auto simp: create_hydra_checked_def get_hydra_def)
    then show ?thesis using s2 by (simp add: gvm_err_defs)
  next
    case True
    have ok: "name_ok (hname w2 p)" using requested_name_ok [OF c(2) cp(4) [OF True]] p2 cp(2) by simp
    obtain f w3 where r3: "run_state (findHydraTask p) w2 = (f, w3)" by (metis surj_pair)
    note fd = findHydraTask_hinv [OF s2(1) ok r3]
    show ?thesis
    proof (cases f)
      case (Some y)
      then have y: "y \<in> queued_hydra w" "hname w2 y = requested_name input" using fd(2) s2(2) p2 cp(2) by auto
      then have "requested_name input \<in> hname w ` queued_hydra w" unfolding im [symmetric] by (metis imageI)
      moreover have "r = GVM_ERR_TASK_ALREADY_EXISTS" "w' = w2"
        using rn r1 r2 r3 i(2) True Some fd(1) by (auto simp: create_hydra_checked_def get_hydra_def)
      ultimately show ?thesis using s2 by (simp add: gvm_err_defs)
    next
      case None
      then have fr: "requested_name input \<notin> hname w ` queued_hydra w" using fd(2) s2(2) p2 cp(2) im by simp
      obtain e stamp and w4 :: "'a hworld_scheme" where r4: "run_state (nowTimeStamp env MAX_TIMESTAMP_SIZE) w2 = ((e, stamp), w4)"
        by (metis surj_pair)
      have st: "cstring stamp" using wp_run [OF stamp_cstring [OF c(1)] r4] by simp
      have "same_hydra w2 w4" by (rule rel_run [OF sh_scan [OF so_stamp] r4])
      note s4 = same_hydra_inv [OF this] same_hydra_at [OF this]
      obtain v and w5 :: "'a hworld_scheme" where
        r5: "run_state (upd_hydra p (\<lambda>t. t\<lparr>h_create_time := stamp, h_modify_time := stamp\<rparr>)) w4 = (v, w5)" by (metis surj_pair)
      have i4: "hinv {p} w4" using s2(1) s4 by simp
      have s5: "hinv {p} w5" "queued_hydra w5 = queued_hydra w" "\<And>q. q \<noteq> p \<Longrightarrow> hydra_at w5 q = hydra_at w q"
        using rel_run [OF hl_upd r5] i4 s4 s2 by (auto simp: hloose_def)
      have "htasks w4 p \<noteq> None" using hinv_facts(6) [OF i4, of p] by simp
      then have p5: "hname w5 p = requested_name input" "htime w5 p = stamp"
        using upd_hydra_at [OF r5] s4 p2 cp(2) by simp_all
      have "hname w5 ` queued_hydra w5 = hname w ` queued_hydra w"
        unfolding s5(2) by (rule image_cong [OF refl]) (simp add: s5(3) nq)
      then have u5: "hname w5 p \<notin> hname w5 ` queued_hydra w5" using fr p5(1) by simp
      have ok5: "name_ok (hname w5 p)" "cstring (htime w5 p)" using ok p5 p2 cp(2) st by simp_all
      obtain x and w6 :: "'a hworld_scheme" where r6: "run_state (writeHydraRelationFile env p) w5 = (x, w6)" by fastforce
      note wr = writeHydraRelationFile_hinv [OF s5(1) singletonI ok5 u5 r6]
      have "r = (if x \<noteq> 0 then GVM_ERR_INTERNAL_FAIL else 0)" "w' = w6"
        using rn r1 r2 r3 r4 r5 r6 i(2) True None fd(1) by (auto simp: create_hydra_checked_def get_hydra_def split: prod.splits)
      then show ?thesis using wr s5(2,3) p5(1) fr by (auto simp: gvm_err_defs split: if_splits)
    qed
  qed
qed

lemma daemon_create_hydra_run:
  fixes w w' :: "'a hworld_scheme"
  assumes "times_ok env" "hydra_ok w" "cstring input" "run_state (daemon_create_hydra env input) w = (r, w')"
  shows "hydra_ok w' \<and> hydra_unchanged {} w w' \<and>
    (if r = 0 then requested_name input \<notin> hname w ` queued_hydra w \<and>
       (\<exists>p. p \<notin> queued_hydra w \<and> queued_hydra w' = insert p (queued_hydra w) \<and> hname w' p = requested_name input)
     else queued_hydra w' = queued_hydra w \<and> r \<in> {GVM_ERR_PARAM_INVALID, GVM_ERR_TASK_ALREADY_EXISTS, GVM_ERR_INTERNAL_FAIL} \<and>
       (r = GVM_ERR_TASK_ALREADY_EXISTS \<longrightarrow> requested_name input \<in> hname w ` queued_hydra w))"
proof -
  have i: "hinv {} w" using assms(2) by (simp add: hydra_ok_def)
  obtain a and w1 :: "'a hworld_scheme" where r1: "run_state (newHydraTask env) w = (a, w1)" by fastforce
  note n = newHydraTask_hinv [OF i r1]
  show ?thesis
  proof (cases a)
    case None
    then have "r = GVM_ERR_INTERNAL_FAIL" "w' = w1" using assms(4) r1 by (auto simp: daemon_create_hydra_def)
    then show ?thesis using n None by (simp add: hydra_ok_def hydra_unchanged_def gvm_err_defs)
  next
    case (Some p)
    then have k: "p \<notin> queued_hydra w" "hydra_at w1 p = new_hydra_task" "hinv {p} w1"
      "\<And>q. q \<noteq> p \<Longrightarrow> hydra_at w1 q = hydra_at w q" using n(2) by auto
    obtain x and w2 :: "'a hworld_scheme" where r2: "run_state (create_hydra_checked env p input) w1 = (x, w2)" by fastforce
    note c = create_hydra_checked_run [OF assms(1,3) k(3,2) r2]
    have nq: "q \<noteq> p" if "q \<in> queued_hydra w" for q using k(1) that by auto
    have im: "hname w1 ` queued_hydra w = hname w ` queued_hydra w"
      by (rule image_cong [OF refl]) (simp add: k(4) nq)
    show ?thesis
    proof (cases "x = 0")
      case True
      then have "r = 0" "w' = w2" using assms(4) r1 r2 Some by (auto simp: daemon_create_hydra_def)
      then show ?thesis
        using c True n(1) k(1,4) im nq by (auto simp: hydra_ok_def hydra_unchanged_def)
    next
      case False
      then have "r = x" and f: "run_state (freeHydraTask p) w2 = ((), w')"
        using assms(4) r1 r2 Some by (auto simp: daemon_create_hydra_def split: prod.splits)
      have h: "hinv {p} w2" using c False by simp
      note fr = freeHydraTask_hinv [OF h singletonI f]
      have "hydra_unchanged {} w w'" using fr(3) c k(4) nq by (simp add: hydra_unchanged_def)
      then show ?thesis using fr(1,2) c False \<open>r = x\<close> n(1) im by (simp add: hydra_ok_def)
    qed
  qed
qed

text \<open>C17: a request for a new brute-force task adds exactly one task, with the requested name, if it is answered
  with success, and otherwise none: the answer is then no memory or a failure to write the files, invalid parameters,
  or that the name is taken, which it really is.  The tasks that were there are as they were in every case, and the
  store is consistent again.\<close>

theorem daemon_create_hydra_answer:
  fixes w w' :: "'a hworld_scheme"
  assumes "times_ok env" "hydra_ok w" "cstring input" "run_state (daemon_create_hydra env input) w = (r, w')"
  shows "hydra_ok w' \<and> hydra_unchanged {} w w' \<and>
    (if r = 0 then requested_name input \<notin> hname w ` queued_hydra w \<and>
       (\<exists>p. p \<notin> queued_hydra w \<and> queued_hydra w' = insert p (queued_hydra w) \<and> hname w' p = requested_name input)
     else queued_hydra w' = queued_hydra w \<and> r \<in> {GVM_ERR_PARAM_INVALID, GVM_ERR_TASK_ALREADY_EXISTS, GVM_ERR_INTERNAL_FAIL} \<and>
       (r = GVM_ERR_TASK_ALREADY_EXISTS \<longrightarrow> requested_name input \<in> hname w ` queued_hydra w))"
  by (rule daemon_create_hydra_run [OF assms])

subsection \<open>An example\<close>

lemma demo_hydras_ok: "hydra_ok demo_hydras"
  by (auto simp: hydra_ok_def hinv_def linked_def name_ok_def queued_hydra_def hydra_at_def lq_inv_def demo_hydras_def demo_hydra_def
      demo_service_def new_hydra_task_def max_defs DEF_LIST_ARRAY_SIZE_def NUL_def split: if_splits)

lemma demo_hydras_facts: "queued_hydra demo_hydras = {0}" "hname demo_hydras 0 = ''ssh''" "h_pid (hydra_at demo_hydras 0) = 7"
  by (simp_all add: demo_hydras_def queued_hydra_def hydra_at_def demo_hydra_def)

definition demo_key :: string where "demo_key = ''ssh'' @ [SOH] @ demo_id CHR ''e'' @ [SOH]"

lemma demo_keys:
  "cstring demo_key" "fst (getKeyHydraParam demo_key new_hydra_task) = 0"
  "h_task_name (snd (getKeyHydraParam demo_key new_hydra_task)) = ''ssh''" "requested_name demo_key = ''ssh''"
  by code_simp+

lemma demo_hydra_refusal: "hydra_refusal False demo_hydras (getKeyHydraParam demo_key new_hydra_task) = None"
  by (simp add: hydra_refusal_def demo_keys demo_hydras_facts)

lemma daemon_start_hydra_answer_witness:
  "fst (run_state (daemon_start_hydra stop_env demo_key) demo_hydras) = GVM_ERR_TASK_IS_BUSY"
proof -
  obtain r w' where "run_state (daemon_start_hydra stop_env demo_key) demo_hydras = (r, w')" by (metis surj_pair)
  with daemon_start_hydra_answer [OF demo_hydras_ok demo_keys(1) this] show ?thesis
    by (auto simp: demo_hydra_refusal demo_hydras_facts)
qed

lemma daemon_stop_hydra_answer_witness:
  "fst (run_state (daemon_stop_hydra stop_env demo_key) demo_hydras) = GVM_ERR_INTERNAL_FAIL \<or>
    kills (snd (run_state (daemon_stop_hydra stop_env demo_key) demo_hydras)) = [(7, SIGUSR1)]"
proof -
  obtain r w' where "run_state (daemon_stop_hydra stop_env demo_key) demo_hydras = (r, w')" by (metis surj_pair)
  moreover have "kills demo_hydras = []" by (simp add: demo_hydras_def demo_service_def)
  ultimately show ?thesis
    using daemon_stop_hydra_answer [OF demo_hydras_ok demo_keys(1), of stop_env r w']
    by (auto simp: demo_hydra_refusal demo_hydras_facts Let_def)
qed

lemma daemon_delete_hydra_answer_witness:
  "fst (run_state (daemon_delete_hydra stop_env demo_key) demo_hydras) = GVM_ERR_TASK_IS_BUSY"
proof -
  obtain r w' where "run_state (daemon_delete_hydra stop_env demo_key) demo_hydras = (r, w')" by (metis surj_pair)
  with daemon_delete_hydra_answer [OF demo_hydras_ok demo_keys(1) this] show ?thesis
    by (auto simp: demo_hydra_refusal demo_hydras_facts)
qed

lemma daemon_create_hydra_answer_witness:
  "fst (run_state (daemon_create_hydra stop_env demo_key) demo_hydras) \<noteq> 0"
proof -
  obtain r w' where "run_state (daemon_create_hydra stop_env demo_key) demo_hydras = (r, w')" by (metis surj_pair)
  with daemon_create_hydra_answer [OF stop_ok(2) demo_hydras_ok demo_keys(1) this] show ?thesis
    by (auto simp: demo_keys demo_hydras_facts split: if_splits)
qed

end
