(* ===== verification/HydraLoop.thy ===== *)
theory HydraLoop imports HydraInv begin

text \<open>
  The store of brute-force tasks from the start of the service on: what the task file says is what the store holds,
  and every state that the service reaches has a consistent store.
\<close>

subsection \<open>Reading the task file\<close>

text \<open>The tasks of a file: its records up to the first that cannot be read.\<close>

fun hydra_file :: "nat \<Rightarrow> string \<Rightarrow> hydra_task list" where
  "hydra_file 0 s = []"
| "hydra_file (Suc n) s =
     (if s = [] then []
      else case next_record s of
        None \<Rightarrow> []
      | Some (rec, rest) \<Rightarrow>
          (case read_hydra rec new_hydra_task of (r, t) \<Rightarrow> if r = 0 then t # hydra_file n rest else []))"

definition stored_hydras :: "'a hworld_scheme \<Rightarrow> hydra_task set" where
  "stored_hydras w = hydra_at w ` queued_hydra w"

lemma read_hydra_key:
  assumes "cstring rec" "read_hydra rec new_hydra_task = (0, t)"
  shows "name_ok (h_task_name t)" "cstring (h_create_time t)"
proof -
  let ?Q = "\<lambda>s :: int \<times> int \<times> hydra_task. name_ok (h_task_name (snd (snd s))) \<and> cstring (h_create_time (snd (snd s)))"
  obtain ht st s where r: "read_fields rec hydra_readers (0, 0, new_hydra_task) = (0, ht, st, s)"
    and s: "h_task_name t = h_task_name s" "h_create_time t = h_create_time s"
    using assms(2) by (auto simp: read_hydra_def Let_def split: prod.splits if_splits)
  have "?Q (ht, st, s)"
    by (rule read_fields_keeps [OF _ _ assms(1) r])
      (auto simp: hydra_readers_def set_hydra_def name_ok_def new_hydra_task_def max_defs)
  then show "name_ok (h_task_name t)" "cstring (h_create_time t)" using s by simp_all
qed

lemma add_read_hydra:
  fixes w :: "'a hworld_scheme"
  assumes i: "hydra_ok w" and rec: "cstring rec" "read_hydra rec new_hydra_task = (0, t)"
    and u: "h_task_name t \<notin> h_task_name ` stored_hydras w"
    and r1: "run_state (newHydraTask env) w = (Some p, w1)"
    and r2: "run_state (do { upd_hydra p (\<lambda>t. snd (read_hydra rec t)); addHydraTask env p }) w1 = (0, w3)"
  shows "hydra_ok w3 \<and> stored_hydras w3 = insert t (stored_hydras w)"
proof -
  have n: "hinv {p} w1" "p \<notin> queued_hydra w" "queued_hydra w1 = queued_hydra w" "hydra_at w1 p = new_hydra_task"
    "\<And>q. q \<noteq> p \<Longrightarrow> hydra_at w1 q = hydra_at w q"
    using newHydraTask_hinv [OF i [unfolded hydra_ok_def] r1] by auto
  obtain x and w2 :: "'a hworld_scheme" where ru: "run_state (upd_hydra p (\<lambda>t. snd (read_hydra rec t))) w1 = (x, w2)"
    and ra: "run_state (addHydraTask env p) w2 = (0, w3)"
    using r2 by (rule run_bindE)
  have m: "hinv {p} w2" "queued_hydra w2 = queued_hydra w" "\<And>q. q \<noteq> p \<Longrightarrow> hydra_at w2 q = hydra_at w q"
    using rel_run [OF hl_upd ru] n(1,3,5) by (auto simp: hloose_def)
  have p2: "hydra_at w2 p = t" using upd_hydra_at [OF ru] hinv_facts(6) [OF n(1), of p] n(4) rec(2) by simp
  have im: "hydra_at w2 ` queued_hydra w = stored_hydras w"
    unfolding stored_hydras_def by (rule image_cong [OF refl]) (metis m(3) n(2))
  have "hname w2 ` queued_hydra w2 = h_task_name ` stored_hydras w" unfolding m(2) im [symmetric] image_image ..
  then have f: "hname w2 p \<notin> hname w2 ` queued_hydra w2" using u p2 by simp
  have k: "name_ok (hname w2 p)" "cstring (htime w2 p)" using read_hydra_key [OF rec] p2 by simp_all
  have a: "hinv {} w3" "queued_hydra w3 = insert p (queued_hydra w)" "htasks w3 = htasks w2"
    using addHydraTask_hinv [OF m(1) singletonI k f ra] m(2) by auto
  have "hydra_at w3 = hydra_at w2" using a(3) by (simp add: hydra_at_def fun_eq_iff)
  then show ?thesis using a(1,2) p2 im by (simp add: hydra_ok_def stored_hydras_def)
qed

lemma parse_hydra_inv:
  fixes w :: "'a hworld_scheme"
  assumes "hydra_ok w" "cstring s" "distinct (map h_task_name (hydra_file n s))"
    "h_task_name ` set (hydra_file n s) \<inter> h_task_name ` stored_hydras w = {}"
    "run_state (parse_hydra_records n env s) w = (0, w')"
  shows "hydra_ok w' \<and> stored_hydras w' = stored_hydras w \<union> set (hydra_file n s)"
  using assms
proof (induction n arbitrary: s w)
  case 0
  then show ?case by simp
next
  case (Suc n)
  show ?case
  proof (cases "s = [] \<or> next_record s = None")
    case True
    then show ?thesis using Suc.prems by auto
  next
    case False
    then obtain rec rest where nr: "next_record s = Some (rec, rest)" by auto
    note cs = next_record_cstring [OF nr Suc.prems(2)]
    obtain a and w1 :: "'a hworld_scheme" where r1: "run_state (newHydraTask env) w = (a, w1)" by (metis surj_pair)
    show ?thesis
    proof (cases a)
      case None
      then show ?thesis using Suc.prems(5) False nr r1 by simp
    next
      case (Some p)
      have nt: "hydra_at w1 p = new_hydra_task"
        using newHydraTask_hinv(2) [OF Suc.prems(1) [unfolded hydra_ok_def] r1] Some by simp
      show ?thesis
      proof (cases "fst (read_hydra rec new_hydra_task) = 0")
        case f: False
        then show ?thesis
          using Suc.prems(5) False nr r1 Some nt by (auto simp: get_hydra_def split: prod.splits)
      next
        case True
        then obtain t where t: "read_hydra rec new_hydra_task = (0, t)" by (metis prod.collapse)
        obtain x and w3 :: "'a hworld_scheme" where
          r3: "run_state (do { upd_hydra p (\<lambda>t. snd (read_hydra rec t)); addHydraTask env p }) w1 = (x, w3)"
          by (metis surj_pair)
        have ft: "hydra_file (Suc n) s = t # hydra_file n rest" using False nr t by simp
        have x: "x = 0" "run_state (parse_hydra_records n env rest) w3 = (0, w')"
          using Suc.prems(5) False nr r1 Some nt t r3 by (auto simp: get_hydra_def split: prod.splits if_splits)
        have u: "h_task_name t \<notin> h_task_name ` stored_hydras w" using Suc.prems(4) ft by auto
        note h = add_read_hydra [OF Suc.prems(1) cs(1) t u r1 [unfolded Some] r3 [unfolded x(1)]]
        have "h_task_name t \<notin> h_task_name ` set (hydra_file n rest)" using Suc.prems(3) unfolding ft by simp
        then have "h_task_name ` set (hydra_file n rest) \<inter> h_task_name ` stored_hydras w3 = {}"
          using h Suc.prems(4) unfolding ft by auto
        then show ?thesis
          using Suc.IH [of w3 rest] h cs(2) x(2) Suc.prems(3) unfolding ft by auto
      qed
    qed
  qed
qed

definition hydra_task_file :: string where
  "hydra_task_file = path_buf (DEF_HYDRA_PRIV_DATA_DIR @ ''/'' @ DEF_HYDRA_TASK_FILE_NAME)"

text \<open>What the task file of a file system says.\<close>

definition filed_hydras :: "'a world_scheme \<Rightarrow> hydra_task list" where
  "filed_hydras w = (case lookup hydra_task_file w of
     Some (Reg r c) \<Rightarrow> hydra_file (Suc (length (c_str c))) (c_str c) | _ \<Rightarrow> [])"


lemma created_hydra_data:
  fixes w :: "'a hworld_scheme"
  assumes "htasks w = Map.empty" "run_state (createHydraData env) w = (b, w')"
  shows "hydra_ok w' \<and> stored_hydras w' = {} \<and> fs w' = fs w \<and> h_task_priv_dir w' = DEF_HYDRA_PRIV_DATA_DIR \<and>
    h_task_file_name w' = DEF_HYDRA_TASK_FILE_NAME"
  using assms
  by (auto simp: createHydraData_def fails_def now_def hydra_ok_def hinv_def linked_def queued_hydra_def stored_hydras_def
      lq_init_def lq_inv_def)

definition same_disk :: "'a world_scheme \<Rightarrow> 'a world_scheme \<Rightarrow> bool" where
  "same_disk w w' \<longleftrightarrow> (\<forall>p. lookup p w' = lookup p w)"

interpretation dk: stepping same_disk
  by unfold_locales (simp_all add: same_disk_def)

lemma dk_touches: "touches (\<lambda>_. False) m \<Longrightarrow> rel same_disk m"
  by (rule relI) (drule (1) touches_run, simp add: same_rest_def same_disk_def)

lemma dk_files: "rel same_disk (readTotalFile env p)" "rel same_disk (chkExists env p d)" "rel same_disk (fails env)"
  "rel same_disk now"
  by (rule dk_touches, intro touches_readTotalFile touches_chkExists touches_fails touches_now)+

lemma dk_modify: "(\<And>w. fs (f w) = fs w) \<Longrightarrow> rel same_disk (modify f)"
  by (rule rel_modify) (simp add: same_disk_def)

lemma same_disk_filed: "same_disk w w' \<Longrightarrow> filed_hydras w' = filed_hydras w"
  by (simp add: filed_hydras_def same_disk_def)

lemma dk_store:
  "rel same_disk (newGvmTask env)" "rel same_disk (addGvmTask env p)" "rel same_disk (upd_task p f)" "rel same_disk (get_task p)"
  "rel same_disk (addTaskChecks env p)" "rel same_disk (prepare_paths p)" "rel same_disk (freeGvmTask p)"
  unfolding newGvmTask_def addGvmTask_def upd_task_def get_task_def addTaskChecks_def setTaskNextChkTime_def getClkTime_def
    addGvmRunTask_def queGvmRunTask_def prepare_paths_def freeGvmTask_def
  by (intro dk.rel_intros dk_files dk_modify; simp)+

lemma dk_parse_records: "rel same_disk (parse_records n env s)"
proof (induction n arbitrary: s)
  case 0
  then show ?case by (simp add: dk.rel_return)
next
  case (Suc n)
  then show ?case unfolding parse_records.simps by (intro dk.rel_intros dk_store)
qed

lemma dk_initDaemon: "rel same_disk (initDaemon env)"
  unfolding initDaemon_def createData_def finishData_def init_steps_def readTaskFile_def parseTaskRecord_def
    readAllTaskStatusRecs_def readTaskStatusFile_def addGvmChecks_def
  by (intro dk.rel_intros dk_modify dk_files dk_parse_records dk_store; simp)


subsection \<open>Starting\<close>

lemma read_hydra_file_inv:
  fixes w :: "'a hworld_scheme"
  assumes i: "hydra_ok w" "stored_hydras w = {}"
    and f: "h_task_priv_dir w = DEF_HYDRA_PRIV_DATA_DIR" "h_task_file_name w = DEF_HYDRA_TASK_FILE_NAME"
    and d: "distinct (map h_task_name (filed_hydras w))"
    and rn: "run_state (readHydraTaskFile env) w = (0, w')"
  shows "hydra_ok w' \<and> stored_hydras w' = set (filed_hydras w)"
proof -
  obtain k buf and w1 :: "'a hworld_scheme" where r1: "run_state (readTotalFile env hydra_task_file) w = ((k, buf), w1)"
    by (metis surj_pair)
  have s: "same_hydra w w1" using rel_run [OF sh_files(2) r1] .
  have i1: "hydra_ok w1" "stored_hydras w1 = {}"
    using i same_hydra_inv [OF s] same_hydra_at [OF s] by (simp_all add: hydra_ok_def stored_hydras_def)
  have k: "(0 \<le> k \<longrightarrow> k = 0 \<and> (\<exists>r. lookup hydra_task_file w = Some (Reg r buf)) \<or>
      0 < k \<and> (lookup hydra_task_file w = None \<or> (\<exists>r. lookup hydra_task_file w = Some (Reg r []))))"
    using r1 by (auto simp: readTotalFile_def sys_stat_def fails_def now_def split: option.splits node.splits if_splits)
  have rd: "run_state (if k = 0 then parseHydraRecord env buf else ret (if 0 < k then 0 else - 1)) w1 = (0, w')"
    using rn r1 f by (simp add: readHydraTaskFile_def hydra_task_file_def)
  show ?thesis
  proof (cases "k = 0")
    case True
    then have ft: "filed_hydras w = hydra_file (Suc (length (c_str buf))) (c_str buf)"
      using k by (auto simp: filed_hydras_def simp del: hydra_file.simps)
    have "run_state (parse_hydra_records (Suc (length (c_str buf))) env (c_str buf)) w1 = (0, w')"
      using rd True by (simp add: parseHydraRecord_def del: parse_hydra_records.simps)
    from parse_hydra_inv [OF i1(1) c_str_cstring _ _ this] show ?thesis
      using d i1(2) unfolding ft by simp
  next
    case False
    then have "0 < k" "w' = w1" using rd by (auto split: if_splits)
    moreover have "filed_hydras w = []"
      using k \<open>0 < k\<close> by (auto simp: filed_hydras_def c_str_def)
    ultimately show ?thesis using i1 by simp
  qed
qed

lemma initHydra_inv:
  fixes w :: "'a hworld_scheme"
  assumes e: "htasks w = Map.empty" and d: "distinct (map h_task_name (filed_hydras w))"
    and rn: "run_state (initHydra env) w = (0, w')"
  shows "hydra_ok w' \<and> stored_hydras w' = set (filed_hydras w)"
proof -
  obtain ok and w1 :: "'a hworld_scheme" where r1: "run_state (createHydraData env) w = (ok, w1)" by (metis surj_pair)
  note i1 = created_hydra_data [OF e r1]
  have f1: "filed_hydras w1 = filed_hydras w" using i1 by (simp add: filed_hydras_def)
  let ?chk = "do { r \<leftarrow> chkExists env (h_task_priv_dir w1) False;
    if r \<noteq> 0 then ret r else chkExists env (h_task_templ_dir w1) False } :: ('a hworld_scheme, int) state"
  obtain k and w2 :: "'a hworld_scheme" where r2: "run_state ?chk w1 = (k, w2)" by fastforce
  have ok: "ok" "k = 0" "run_state (readHydraTaskFile env) w2 = (0, w')"
    using rn r1 r2 by (auto simp: initHydra_def split: prod.splits if_splits)
  have "rel same_hydra ?chk" "rel same_disk ?chk" "rel scan_only ?chk"
    by (intro sh.rel_intros sh_files dk.rel_intros dk_files so.rel_intros so_files)+
  from this [THEN rel_run, OF r2] have s: "same_hydra w1 w2" "same_disk w1 w2" "scan_only w1 w2" .
  have i2: "hydra_ok w2" "stored_hydras w2 = {}" "h_task_priv_dir w2 = DEF_HYDRA_PRIV_DATA_DIR"
    "h_task_file_name w2 = DEF_HYDRA_TASK_FILE_NAME"
    using i1 same_hydra_inv [OF s(1)] same_hydra_at [OF s(1)] scan_only_fields [OF s(3)]
    by (simp_all add: hydra_ok_def stored_hydras_def)
  show ?thesis
    using read_hydra_file_inv [OF i2 _ ok(3)] same_disk_filed [OF s(2)] f1 d by simp
qed

subsection \<open>The loop\<close>

definition keeps_hydra :: "'a hworld_scheme \<Rightarrow> 'a hworld_scheme \<Rightarrow> bool" where
  "keeps_hydra w w' \<longleftrightarrow> (hydra_ok w \<longrightarrow> hydra_ok w')"

interpretation kh: stepping keeps_hydra
  by unfold_locales (auto simp: keeps_hydra_def)

lemma kh_same: "rel same_hydra m \<Longrightarrow> rel keeps_hydra m"
  by (erule rel_mono) (simp add: keeps_hydra_def hydra_ok_def same_hydra_inv)

lemma kh_calm: "rel hcalm m \<Longrightarrow> rel keeps_hydra m"
  by (erule rel_mono) (simp add: keeps_hydra_def hydra_ok_def hcalm_def)

lemma kh_with_hydra:
  assumes "cstring input" "\<And>p. rel hcalm (body p)" "\<And>p. rel (honly p) (body p)"
  shows "rel keeps_hydra (with_hydra env input body)"
proof (rule relI)
  fix w w' :: "'a hworld_scheme" and r
  assume rn: "run_state (with_hydra env input body) w = (r, w')"
  show "keeps_hydra w w'"
    unfolding keeps_hydra_def
  proof
    assume h: "hydra_ok w"
    show "hydra_ok w'"
    proof (cases "hydra_refusal (fault env (tick w)) w (getKeyHydraParam input new_hydra_task)")
      case None
      show ?thesis by (rule hydra_found [OF h assms(1) rn assms(2,3) None])
    next
      case (Some e)
      then show ?thesis using with_hydra_run [OF h assms(1) rn] by simp
    qed
  qed
qed

lemma kh_handlers:
  assumes "times_ok env" "cstring s" "h \<in> set (g_hds env)"
  shows "rel keeps_hydra (snd h s)"
proof -
  have "rel keeps_hydra (daemon_start_hydra env s)" "rel keeps_hydra (daemon_stop_hydra env s)"
    unfolding daemon_start_hydra_def daemon_stop_hydra_def
    by (intro kh_with_hydra assms(2) hydra_bodies)+
  moreover have "rel keeps_hydra (daemon_delete_hydra env s)"
    by (rule relI) (use daemon_delete_hydra_run [OF _ assms(2)] in \<open>auto simp: keeps_hydra_def\<close>)
  moreover have "rel keeps_hydra (daemon_create_hydra env s)"
    by (rule relI) (use daemon_create_hydra_run [OF assms(1) _ assms(2)] in \<open>auto simp: keeps_hydra_def\<close>)
  ultimately show ?thesis
    using assms(3) by (auto simp: g_hds_def intro: so_daemon_task [THEN sh_scan, THEN kh_same])
qed

lemma kh_processMsg:
  assumes "times_ok env"
  shows "rel keeps_hydra (processMsg env buf)"
proof -
  have f: "rel keeps_hydra (snd h s)" if "find P (g_hds env) = Some h" "cstring s" for P h and s
    by (rule find_all [OF that(1), of "\<lambda>h. rel keeps_hydra (snd h s)"]) (rule kh_handlers [OF assms that(2)])
  obtain r1 nm s1 where t1: "getNextToken (c_str buf) [SOH] [] MAX_UUID_SIZE = (r1, nm, s1)"
    by (metis prod_cases3)
  obtain r2 cmd s2 where t2: "getNextToken s1 [SOH] [] MAX_COMM_SIZE = (r2, cmd, s2)"
    by (metis prod_cases3)
  have c: "cstring s2" if "r1 = 0" "r2 = 0"
    using getNextToken_cstring(3) [OF t2 [unfolded that]] getNextToken_cstring(3) [OF t1 [unfolded that]]
      c_str_cstring by blast
  show ?thesis
    unfolding processMsg_def t1 t2 prod.case
    by (intro rel_if kh.rel_return kh.rel_bind rel_option kh_same [OF sh_redis [OF ro_redis(1)]] f) (use c in simp_all)
qed

lemma sh_modify:
  "(\<And>w. htasks (f w) = htasks w \<and> hnxt (f w) = hnxt w \<and> h_createque (f w) = h_createque w \<and>
    h_nameset (f w) = h_nameset w \<and> h_name_cap (f w) = h_name_cap w) \<Longrightarrow> rel same_hydra (modify f)"
  by (rule rel_modify) (simp add: same_hydra_def)

lemma kh_received: "times_ok env \<Longrightarrow> rel keeps_hydra (handle_received env key r msg)"
  unfolding handle_received_def processIdle_def clearKb_def
  by (intro kh.rel_intros kh_processMsg kh_same [OF sh_redis [OF ro_redis(3)]] kh_same [OF sh_scan [OF so_runGvmChecks]]
      kh_same [OF sh_modify]; simp)

lemma kh_reap: "rel keeps_hydra (reap pids)"
proof (induction pids)
  case Nil
  then show ?case by (simp add: kh.rel_return)
next
  case (Cons pid pids)
  have "rel keeps_hydra (chgChildTask pid p)" for p
    unfolding chgChildTask_def by (intro kh.rel_intros kh_same [OF sh_get(1)] kh_calm [OF hc_upd]) simp
  with Cons show ?case unfolding reap.simps by (intro kh.rel_intros)
qed

lemma kh_monitor: "rel keeps_hydra (monitorHydraTask env)"
  unfolding monitorHydraTask_def
  by (intro kh.rel_intros kh_same [OF sh_calls(2)] kh_same [OF sh_modify] kh_reap) simp_all

lemma kh_timers: "rel keeps_hydra (doEveryLoop env)"
  unfolding doEveryLoop_def triggerTimerPerMinute_def timerPerMinute_def clearLogFile_def getTimeLastDays_def validateGvmConn_def
  by (intro kh.rel_intros kh_monitor kh_same [OF sh_calls(3)] kh_same [OF sh_calls(4)] kh_same [OF sh_modify]
      kh_same [OF sh_files(6)] kh_same [OF sh_scan [OF so_gvm(10)]]; simp)

lemma kh_running: "rel keeps_hydra (still_running env)"
  unfolding still_running_def stopKbMsg_def by (intro kh.rel_intros kh_same [OF sh_calls(2)] kh_same [OF sh_modify]) simp_all

lemma kh_loop_body: "times_ok env \<Longrightarrow> rel keeps_hydra (loop_body env key)"
  unfolding loop_body_def recvKbMsg_def
  by (intro kh.rel_intros kh_received kh_same [OF sh_redis [OF ro_redis(2)]] kh_timers kh_running kh_same [OF sh_modify]; simp)

text \<open>C9: in every state the service reaches, the store of brute-force tasks is consistent as well: names are
  unique and fit their buffers, every object is linked once in the array by name and once in the queue by creation
  time, both are in order, and the objects are exactly those that are linked, so none leaks and none is freed while it is linked.\<close>

theorem reachable_hydra_ok:
  fixes w0 w :: "'a sworld_scheme"
  assumes "times_ok env" "htasks w0 = Map.empty" "distinct (map h_task_name (filed_hydras w0))"
    and "reachable env key w0 w"
  shows "hydra_ok w"
  using assms(4)
proof induction
  case (started w1 w2 w3 r w4)
  have s: "scan_only w0 w1" "same_disk w0 w1" using rel_run [OF so_initDaemon started(1)] rel_run [OF dk_initDaemon started(1)] .
  have "hydra_ok w2"
    using initHydra_inv [OF _ _ started(2)] scan_only_fields(2) [OF s(1)] same_disk_filed [OF s(2)] assms(2,3) by simp
  moreover have "keeps_hydra w2 w3" using rel_run [OF kh_same [OF sh_redis [OF ro_redis(4)]] started(3)] .
  moreover have "keeps_hydra w3 w4"
    using rel_run [OF kh_same [OF sh_redis [OF ro_redis(3)]] started(4) [unfolded clearKb_def]] .
  moreover have "same_hydra w4 (w4\<lparr>loop_timeout := 0\<rparr>)" by (simp add: same_hydra_def)
  ultimately show ?case unfolding keeps_hydra_def hydra_ok_def using same_hydra_inv by blast
next
  case (iterated w w1 w2)
  then show ?case
    using rel_run [OF kh_running iterated(2)] rel_run [OF kh_loop_body [OF assms(1)] iterated(3)]
    unfolding keeps_hydra_def by blast
qed

lemma demo_no_hydras: "htasks demo_loaded = Map.empty" "filed_hydras demo_loaded = []"
  using demo_disk(5)
  by (simp_all add: demo_loaded_def demo_service_def filed_hydras_def hydra_task_file_def path_buf_def snprintf_def max_defs
      DEF_HYDRA_PRIV_DATA_DIR_def DEF_HYDRA_TASK_FILE_NAME_def task_file_def DEF_GVM_PRIV_DATA_DIR_def DEF_GVM_TASK_FILE_NAME_def)

lemma reachable_hydra_ok_witness: "hydra_ok demo_started"
  by (rule reachable_hydra_ok [OF stop_ok(2) demo_no_hydras(1) _ demo_started_reachable]) (simp add: demo_no_hydras(2))

end
