(* ===== verification/HydraTrip.thy ===== *)
theory HydraTrip imports HydraLoop begin

text \<open>
  The file of brute-force tasks written and read back: a daemon that starts on the file of another one has
  its tasks again, each without a process.
\<close>

subsection \<open>Records\<close>

definition service_text :: "string \<Rightarrow> bool" where
  "service_text s \<longleftrightarrow> s \<in> lang CUSTOM_SERVICES_PATTERN"

definition hydra_savable :: "hydra_task \<Rightarrow> bool" where
  "hydra_savable t \<longleftrightarrow>
     uuid (h_task_id t) \<and> chkName (h_task_name t) = 0 \<and> cstring (h_task_name t) \<and> length (h_task_name t) < MAX_NAME_SIZE \<and>
     chkHydraHostsIntern (h_hosts_type t) (h_hosts t) = 0 \<and> comm_text MAX_MEM_LIST_SIZE (h_hosts t) \<and>
     service_text (h_services t) \<and> length (h_services t) < MAX_MEM_LIST_SIZE \<and> comm_text MAX_MEM_LIST_SIZE (h_opts t) \<and>
     0 \<le> h_schedule_type t \<and> h_schedule_type t \<le> 9 \<and>
     (h_first_schedule_time t = [] \<or> stamp (h_first_schedule_time t)) \<and>
     comm_text MAX_SCHEDULE_LIST_SIZE (h_schedule_list t) \<and> stamp (h_create_time t) \<and>
     chkScheduleParam (h_schedule_type t) (h_first_schedule_time t) (h_schedule_list t) = 0"

text \<open>What reading gives: no process, no paths, no lists of words (their copies are files of the task), and the
  time of the last change is that of the creation.\<close>

definition hydra_restored :: "hydra_task \<Rightarrow> hydra_task" where
  "hydra_restored t = new_hydra_task\<lparr>h_task_id := h_task_id t, h_task_name := h_task_name t, h_hosts_type := h_hosts_type t,
     h_hosts := h_hosts t, h_services := h_services t, h_opts := h_opts t, h_schedule_type := h_schedule_type t,
     h_first_schedule_time := h_first_schedule_time t, h_schedule_list := h_schedule_list t,
     h_create_time := h_create_time t, h_modify_time := h_create_time t\<rparr>"

lemma over_services: "over (\<lambda>c. c \<noteq> NL \<and> c \<noteq> NUL) CUSTOM_SERVICES_PATTERN"
proof -
  have "\<not> (one_of ''-,'' NL \<or> isalnum NL)" "\<not> (one_of ''-,'' NUL \<or> isalnum NUL)" by code_simp+
  then show ?thesis unfolding CUSTOM_SERVICES_PATTERN_def by auto
qed

lemma service_chars: "service_text s \<Longrightarrow> NL \<notin> set s \<and> cstring s"
  using over_lang [OF over_services, of s] by (auto simp: service_text_def cstring_def)

lemma hydra_record: "hydra_savable t \<Longrightarrow> good_record (hydra_fields t)"
  unfolding hydra_savable_def hydra_fields_def
  by (simp add: good_keys service_chars, elim conjE disjE, simp_all add: NL_not)

lemma hosts_type_form:
  assumes "chkHydraHostsIntern ht s = 0"
  shows "dec ht \<in> lang CUSTOM_ON_OFF_PATTERN" "0 \<le> ht"
  using assms dec_bool [of False] dec_bool [of True] by (auto simp: chkHydraHostsIntern_def split: if_splits)

lemma read_hydra_record:
  assumes s: "hydra_savable t"
  shows "read_hydra (record_body (hydra_fields t)) new_hydra_task = (0, hydra_restored t)"
proof -
  let ?r = "record_body (hydra_fields t)"
  have g: "good_record (hydra_fields t)" using hydra_record [OF s] .
  have m: "(''task_id'', h_task_id t) \<in> set (hydra_fields t)" "(''task_name'', h_task_name t) \<in> set (hydra_fields t)"
    "(''hosts_type'', dec (h_hosts_type t)) \<in> set (hydra_fields t)" "(''hosts'', h_hosts t) \<in> set (hydra_fields t)"
    "(''services'', h_services t) \<in> set (hydra_fields t)" "(''opts'', h_opts t) \<in> set (hydra_fields t)"
    "(''schedule_type'', dec (h_schedule_type t)) \<in> set (hydra_fields t)"
    "(''schedule_time'', h_first_schedule_time t) \<in> set (hydra_fields t)"
    "(''schedule_list'', h_schedule_list t) \<in> set (hydra_fields t)" "(''create_time'', h_create_time t) \<in> set (hydra_fields t)"
    by (simp_all add: hydra_fields_def)
  note v = s [unfolded hydra_savable_def]
  note k = getPatternKey_record [OF g] and n = getPatternKeyInt_record [OF g]
  have f: "h_task_id t \<in> lang UUID_REG_PATTERN" "h_task_name t \<in> lang GVM_NAME_PATTERN" "h_hosts t \<in> lang CUSTOM_COMM_PATTERN"
    "h_services t \<in> lang CUSTOM_SERVICES_PATTERN" "h_opts t \<in> lang CUSTOM_COMM_PATTERN"
    "h_first_schedule_time t \<in> lang (Opt CUSTOM_TIME_STAMP_PATTERN)" "h_schedule_list t \<in> lang CUSTOM_COMM_PATTERN"
    "h_create_time t \<in> lang CUSTOM_TIME_STAMP_PATTERN" "dec (h_schedule_type t) \<in> lang CUSTOM_SCHEDULE_TYPE_PATTERN"
    using v by (auto simp: uuid_def stamp_def chkName_def service_text_def CUSTOM_SCHEDULE_TYPE_PATTERN_def
        simp del: lang.simps lang_DIGIT dest: comm_lang intro: dec_digit)
  have l: "length (h_task_id t) < MAX_UUID_SIZE" "length (h_task_name t) < MAX_NAME_SIZE" "length (h_hosts t) < MAX_MEM_LIST_SIZE"
    "length (h_services t) < MAX_MEM_LIST_SIZE" "length (h_opts t) < MAX_MEM_LIST_SIZE"
    "length (h_first_schedule_time t) < MAX_TIMESTAMP_SIZE" "length (h_schedule_list t) < MAX_SCHEDULE_LIST_SIZE"
    "length (h_create_time t) < MAX_TIMESTAMP_SIZE"
    using v form_length by (auto simp: comm_text_def max_defs)
  have "getPatternKey ?r ''task_id'' UUID_REG_PATTERN MAX_UUID_SIZE = (0, h_task_id t)"
    "getPatternKey ?r ''task_name'' GVM_NAME_PATTERN MAX_NAME_SIZE = (0, h_task_name t)"
    "getPatternKey ?r ''hosts'' CUSTOM_COMM_PATTERN MAX_MEM_LIST_SIZE = (0, h_hosts t)"
    "getPatternKey ?r ''services'' CUSTOM_SERVICES_PATTERN MAX_MEM_LIST_SIZE = (0, h_services t)"
    "getPatternKey ?r ''opts'' CUSTOM_COMM_PATTERN MAX_MEM_LIST_SIZE = (0, h_opts t)"
    "getPatternKey ?r ''schedule_time'' (Opt CUSTOM_TIME_STAMP_PATTERN) MAX_TIMESTAMP_SIZE = (0, h_first_schedule_time t)"
    "getPatternKey ?r ''schedule_list'' CUSTOM_COMM_PATTERN MAX_SCHEDULE_LIST_SIZE = (0, h_schedule_list t)"
    "getPatternKey ?r ''create_time'' CUSTOM_TIME_STAMP_PATTERN MAX_TIMESTAMP_SIZE = (0, h_create_time t)"
    by (intro k m f l)+
  moreover have "getPatternKeyInt ?r ''hosts_type'' CUSTOM_ON_OFF_PATTERN = (0, h_hosts_type t)"
    "getPatternKeyInt ?r ''schedule_type'' CUSTOM_SCHEDULE_TYPE_PATTERN = (0, h_schedule_type t)"
    using v hosts_type_form by (intro n m f; simp add: chkHydraHostsIntern_def split: if_splits)+
  ultimately show ?thesis
    using v by (simp add: read_hydra_def hydra_readers_def set_hydra_def Let_def) (simp add: hydra_restored_def)
qed

subsection \<open>The task file\<close>

definition hydra_text :: "hydra_task list \<Rightarrow> string" where
  "hydra_text ts = concat (map (\<lambda>t. record_text (hydra_fields t)) ts)"

lemma hydra_file_text:
  "\<forall>t\<in>set ts. hydra_savable t \<Longrightarrow> length ts < n \<Longrightarrow> hydra_file n (hydra_text ts) = map hydra_restored ts"
proof (induction ts arbitrary: n)
  case Nil
  then show ?case by (cases n) (simp_all add: hydra_text_def)
next
  case (Cons t ts)
  then obtain m where m: "n = Suc m" by (cases n) auto
  have x: "hydra_text (t # ts) = record_text (hydra_fields t) @ hydra_text ts" by (simp add: hydra_text_def)
  have "next_record (record_text (hydra_fields t) @ hydra_text ts) = Some (record_body (hydra_fields t), hydra_text ts)"
    using next_record_text [OF hydra_record] Cons.prems by simp
  then show ?case
    using Cons m read_hydra_record [of t] unfolding x by (simp add: record_text_ne)
qed

lemma each_hydra_records:
  "length (buf @ hydra_text (map f ps)) < MAX_CACHE_SIZE \<Longrightarrow>
    each (\<lambda>p. writeHydraRecord (f p)) ps buf = (0, buf @ hydra_text (map f ps))"
proof (induction ps arbitrary: buf)
  case Nil
  then show ?case by (simp add: hydra_text_def)
next
  case (Cons p ps)
  let ?r = "record_text (hydra_fields (f p))"
  have x: "hydra_text (f p # map f ps) = ?r @ hydra_text (map f ps)" by (simp add: hydra_text_def)
  have "length ?r < MAX_CACHE_SIZE - length buf" using Cons.prems unfolding list.map x by simp
  moreover have "0 < length ?r" using record_text_ne by simp
  ultimately have "writeHydraRecord (f p) buf = (0, buf @ ?r)"
    by (simp add: writeHydraRecord_def append_record_def Let_def)
  then show ?case using Cons.IH [of "buf @ ?r"] Cons.prems unfolding list.map x by simp
qed

lemma hydra_text_length: "length ts \<le> length (hydra_text ts)"
proof (induction ts)
  case (Cons t ts)
  have "0 < length (record_text (hydra_fields t))" using record_text_ne by simp
  then show ?case using Cons by (simp add: hydra_text_def Suc_le_eq del: length_greater_0_conv)
qed (simp add: hydra_text_def)

lemma cstring_hydra_text: "\<forall>t\<in>set ts. hydra_savable t \<Longrightarrow> cstring (hydra_text ts)"
proof (induction ts)
  case (Cons t ts)
  then have "cstring (record_text (hydra_fields t))"
    unfolding cstring_record hydra_fields_def by (auto simp: hydra_savable_def cstring_form service_chars NUL_def)
  with Cons show ?case by (simp add: hydra_text_def)
qed (simp add: hydra_text_def)

subsection \<open>A restart\<close>

definition hydra_task_file_tmp :: string where
  "hydra_task_file_tmp = path_buf (DEF_HYDRA_PRIV_DATA_DIR @ ''/.'' @ DEF_HYDRA_TASK_FILE_NAME)"

lemma hydra_files_differ: "hydra_task_file \<noteq> hydra_task_file_tmp"
  by (simp add: hydra_task_file_def hydra_task_file_tmp_def path_buf_def snprintf_def max_defs DEF_HYDRA_PRIV_DATA_DIR_def
      DEF_HYDRA_TASK_FILE_NAME_def)

text \<open>The tasks of the store in the order of the queue, and the paths that the start of the daemon sets.\<close>

definition hydra_list :: "'a hworld_scheme \<Rightarrow> hydra_task list" where
  "hydra_list w = map (hydra_at w) (lq_items (h_createque w))"

definition hydra_paths_set :: "'a hworld_scheme \<Rightarrow> bool" where
  "hydra_paths_set w \<longleftrightarrow> h_task_priv_dir w = DEF_HYDRA_PRIV_DATA_DIR \<and> h_task_file_name w = DEF_HYDRA_TASK_FILE_NAME"

lemma hydra_list_facts:
  assumes "hydra_ok w"
  shows "set (hydra_list w) = stored_hydras w" "distinct (map h_task_name (hydra_list w))"
proof -
  note l = hinv_facts(1) [OF assms [unfolded hydra_ok_def]]
  show "set (hydra_list w) = stored_hydras w" by (simp add: hydra_list_def stored_hydras_def queued_hydra_def)
  show "distinct (map h_task_name (hydra_list w))"
    using linked_facts(3-5) [OF l] by (simp add: hydra_list_def distinct_map comp_def)
qed

lemma written_hydra_file:
  fixes w :: "'a hworld_scheme"
  assumes "hydra_paths_set w" "length (hydra_text (hydra_list w)) < MAX_CACHE_SIZE"
    and "\<forall>t. \<not> closefail env t" "lookup hydra_task_file_tmp w \<noteq> Some Special"
    and "run_state (writeHydraTaskFile env) w = (0, w1)"
  shows "\<exists>b. lookup hydra_task_file w1 = Some (Reg b (hydra_text (hydra_list w)))"
proof -
  have "length ([] @ hydra_text (map (hydra_at w) (lq_items (h_createque w)))) < MAX_CACHE_SIZE"
    using assms(2) by (simp add: hydra_list_def)
  from each_hydra_records [OF this]
  have "run_state (writeFileSafe env (hydra_text (hydra_list w)) hydra_task_file hydra_task_file_tmp) w = (0, w1)"
    using assms(1,5)
    by (simp add: writeHydraTaskFile_def hydra_paths_set_def hydra_task_file_def hydra_task_file_tmp_def hydra_list_def Let_def)
  from writeFileSafe_post [OF hydra_files_differ assms(4,3) this] show ?thesis by simp
qed

lemma readable_hydra_file:
  assumes "\<forall>t\<in>set ts. hydra_savable t" "lookup hydra_task_file w = Some (Reg b (hydra_text ts))"
  shows "filed_hydras w = map hydra_restored ts"
proof -
  have "c_str (hydra_text ts) = hydra_text ts"
    using cstring_hydra_text [OF assms(1)] by (simp add: c_str_def cstring_def takeWhile_eq_all_conv) blast
  then show ?thesis
    using hydra_file_text [OF assms(1), of "Suc (length (hydra_text ts))"] hydra_text_length [of ts] assms(2)
    by (simp add: filed_hydras_def less_Suc_eq_le del: hydra_file.simps)
qed

lemma hydra_restored_name: "h_task_name (hydra_restored t) = h_task_name t"
  by (simp add: hydra_restored_def)

text \<open>C12: a daemon that starts on the file of brute-force tasks that another one wrote has exactly its tasks again,
  each with its identifier, name, hosts, services, options and schedule, and none with a process, in a consistent store.\<close>

theorem hydra_restart_recovers:
  fixes w w1 :: "'a hworld_scheme" and w2 w3 :: "'b hworld_scheme"
  assumes "hydra_ok w" "hydra_paths_set w" "\<forall>t\<in>stored_hydras w. hydra_savable t"
    and "length (hydra_text (hydra_list w)) < MAX_CACHE_SIZE"
    and "\<forall>t. \<not> closefail env t" "lookup hydra_task_file_tmp w \<noteq> Some Special"
    and "run_state (writeHydraTaskFile env) w = (0, w1)"
    and "htasks w2 = Map.empty" "fs w2 = fs w1" "run_state (initHydra env') w2 = (0, w3)"
  shows "hydra_ok w3 \<and> stored_hydras w3 = hydra_restored ` stored_hydras w"
proof -
  note l = hydra_list_facts [OF assms(1)]
  obtain b where "lookup hydra_task_file w1 = Some (Reg b (hydra_text (hydra_list w)))"
    using written_hydra_file [OF assms(2,4-7)] by blast
  then have f: "filed_hydras w2 = map hydra_restored (hydra_list w)"
    using readable_hydra_file [of "hydra_list w" w2 b] assms(3,9) l(1) by simp
  have "distinct (map h_task_name (filed_hydras w2))"
    using l(2) by (simp add: f comp_def hydra_restored_name)
  from initHydra_inv [OF assms(8) this assms(10)] show ?thesis by (simp add: f l(1))
qed

subsection \<open>An example\<close>

definition saved_hydra :: hydra_task where
  "saved_hydra = demo_hydra\<lparr>h_create_time := ''2020-09-13 12:26:40''\<rparr>"

lemma saved_hydra_savable: "hydra_savable saved_hydra"
  unfolding hydra_savable_def uuid_def stamp_def service_text_def matches_lang [symmetric] comm_text_def
  by (intro conjI; code_simp)

definition saved_hydras :: sworld where
  "saved_hydras = demo_hydras\<lparr>htasks := [0 \<mapsto> saved_hydra], fs := [(DEF_HYDRA_PRIV_DATA_DIR, Dir),
     (DEF_HYDRA_PRIV_DATA_DIR @ ''/templates'', Dir)], h_task_priv_dir := DEF_HYDRA_PRIV_DATA_DIR,
     h_task_file_name := DEF_HYDRA_TASK_FILE_NAME\<rparr>"

lemma saved_hydras_facts:
  "hydra_list saved_hydras = [saved_hydra]" "queued_hydra saved_hydras = {0}" "hydra_at saved_hydras 0 = saved_hydra"
  "stored_hydras saved_hydras = {saved_hydra}" "hydra_paths_set saved_hydras" "lq_items (h_createque saved_hydras) = [0]"
  by (simp_all add: saved_hydras_def demo_hydras_def hydra_list_def queued_hydra_def hydra_at_def stored_hydras_def hydra_paths_set_def)

lemma saved_hydras_ok: "hydra_ok saved_hydras"
  by (auto simp: hydra_ok_def hinv_def linked_def name_ok_def queued_hydra_def hydra_at_def lq_inv_def saved_hydras_def
      saved_hydra_def demo_hydras_def demo_hydra_def new_hydra_task_def max_defs DEF_LIST_ARRAY_SIZE_def NUL_def split: if_splits)

lemma saved_length: "length (hydra_text [saved_hydra]) < MAX_CACHE_SIZE" "length (hydra_text [saved_hydra]) \<le> MAX_TASK_FILE_SIZE"
proof -
  have "length (hydra_text [saved_hydra]) < 2000" by code_simp
  then show "length (hydra_text [saved_hydra]) < MAX_CACHE_SIZE" "length (hydra_text [saved_hydra]) \<le> MAX_TASK_FILE_SIZE"
    by (simp_all add: max_defs)
qed

lemma saved_written:
  "fst (run_state (writeHydraTaskFile quiet_env) saved_hydras) = 0"
  "fs (snd (run_state (writeHydraTaskFile quiet_env) saved_hydras)) =
     fs saved_hydras @ [(hydra_task_file, Reg True (hydra_text [saved_hydra]))]"
proof -
  let ?s = "hydra_text [saved_hydra]"
  have "length ([] @ hydra_text (map (hydra_at saved_hydras) [0])) < MAX_CACHE_SIZE"
    using saved_length by (simp add: saved_hydras_facts)
  from each_hydra_records [OF this] have e: "each (\<lambda>p. writeHydraRecord (hydra_at saved_hydras p)) [0] [] = (0, ?s)"
    by (simp add: saved_hydras_facts)
  have "run_state (writeHydraTaskFile quiet_env) saved_hydras =
      run_state (writeFileSafe quiet_env ?s hydra_task_file hydra_task_file_tmp) saved_hydras"
    using e saved_hydras_facts(5,6)
    by (simp add: writeHydraTaskFile_def Let_def hydra_paths_set_def hydra_task_file_def hydra_task_file_tmp_def del: each.simps)
  moreover have "?s \<noteq> []" by (simp add: hydra_text_def record_text_ne)
  moreover have "hydra_task_file \<noteq> DEF_HYDRA_PRIV_DATA_DIR" "hydra_task_file_tmp \<noteq> DEF_HYDRA_PRIV_DATA_DIR"
    "hydra_task_file \<noteq> DEF_HYDRA_PRIV_DATA_DIR @ ''/templates''" "hydra_task_file_tmp \<noteq> DEF_HYDRA_PRIV_DATA_DIR @ ''/templates''"
    by (simp_all add: hydra_task_file_def hydra_task_file_tmp_def path_buf_def snprintf_def max_defs DEF_HYDRA_PRIV_DATA_DIR_def
        DEF_HYDRA_TASK_FILE_NAME_def)
  ultimately show "fst (run_state (writeHydraTaskFile quiet_env) saved_hydras) = 0"
    "fs (snd (run_state (writeHydraTaskFile quiet_env) saved_hydras)) = fs saved_hydras @ [(hydra_task_file, Reg True ?s)]"
    using hydra_files_differ
    by (simp_all add: saved_hydras_def writeFileSafe_def writeFile_def write_mode_def write_all_def
        sys_create_def sys_fwrite_def sys_fclose_def add_bytes_def rename_if_def sys_rename_def fails_def now_def
        put_node_def drop_node_def)
qed

lemma parse_hydra_Nil [simp]: "parse_hydra_records n env [] = ret 0"
  by (cases n) simp_all

lemma saved_init:
  fixes w :: "'a hworld_scheme"
  assumes "\<And>n. fault env n = False" "fs w = F" "map_of F hydra_task_file = Some (Reg True (hydra_text [saved_hydra]))"
    "map_of F DEF_HYDRA_PRIV_DATA_DIR = Some Dir" "map_of F (DEF_HYDRA_PRIV_DATA_DIR @ ''/templates'') = Some Dir"
  shows "fst (run_state (initHydra env) w) = 0"
proof -
  let ?s = "hydra_text [saved_hydra]"
  have s: "?s \<noteq> []" "hydra_text [] = []" "c_str ?s = ?s" "length ?s \<le> MAX_TASK_FILE_SIZE"
    using cstring_hydra_text [of "[saved_hydra]"] saved_hydra_savable record_text_ne saved_length
    by (simp_all add: c_str_def cstring_def takeWhile_eq_all_conv hydra_text_def) metis
  have n: "next_record ?s = Some (record_body (hydra_fields saved_hydra), [])"
    using next_record_text [OF hydra_record [OF saved_hydra_savable], of "[]"] by (simp add: hydra_text_def)
  note r = read_hydra_record [OF saved_hydra_savable]
  have p: "path_buf (DEF_HYDRA_PRIV_DATA_DIR @ ''/templates'') = DEF_HYDRA_PRIV_DATA_DIR @ ''/templates''"
    "path_fits (DEF_HYDRA_PRIV_DATA_DIR @ ''/templates'')"
    by (simp_all add: path_buf_def path_fits_def snprintf_def max_defs DEF_HYDRA_PRIV_DATA_DIR_def)
  show ?thesis
    using assms s n r p
    by (simp add: initHydra_def createHydraData_def readHydraTaskFile_def parseHydraRecord_def chkExists_def sys_stat_def
        fails_def now_def readTotalFile_def hydra_task_file_def newHydraTask_def get_hydra_def upd_hydra_def
        hydra_at_def addHydraTask_def ls_add_def lq_init_def Let_def DEF_LIST_ARRAY_SIZE_def)
qed

lemma hydra_restart_recovers_witness:
  "stored_hydras (snd (run_state (initHydra quiet_env) (saved_hydras\<lparr>htasks := Map.empty, fs :=
     fs (snd (run_state (writeHydraTaskFile quiet_env) saved_hydras))\<rparr>))) = {hydra_restored saved_hydra}"
proof -
  let ?w1 = "snd (run_state (writeHydraTaskFile quiet_env) saved_hydras)"
  let ?w2 = "saved_hydras\<lparr>htasks := Map.empty, fs := fs ?w1\<rparr>"
  have r: "run_state (writeHydraTaskFile quiet_env) saved_hydras = (0, ?w1)"
    using saved_written by (simp add: prod_eq_iff)
  have f: "fs ?w2 = [(DEF_HYDRA_PRIV_DATA_DIR, Dir), (DEF_HYDRA_PRIV_DATA_DIR @ ''/templates'', Dir),
      (hydra_task_file, Reg True (hydra_text [saved_hydra]))]"
    using saved_written(2) by (simp add: saved_hydras_def)
  have "fst (run_state (initHydra quiet_env) ?w2) = 0"
    by (rule saved_init [OF _ f]) (simp_all add: hydra_task_file_def path_buf_def snprintf_def
        max_defs DEF_HYDRA_PRIV_DATA_DIR_def DEF_HYDRA_TASK_FILE_NAME_def)
  then have i: "run_state (initHydra quiet_env) ?w2 = (0, snd (run_state (initHydra quiet_env) ?w2))"
    by (simp add: prod_eq_iff)
  have "stored_hydras (snd (run_state (initHydra quiet_env) ?w2)) = hydra_restored ` stored_hydras saved_hydras"
    by (rule conjunct2 [OF hydra_restart_recovers [OF saved_hydras_ok saved_hydras_facts(5) _ _ _ _ r _ _ i]])
      (use saved_length saved_hydra_savable in \<open>simp_all add: saved_hydras_facts, simp_all add: saved_hydras_def hydra_task_file_tmp_def
        path_buf_def snprintf_def max_defs DEF_HYDRA_PRIV_DATA_DIR_def DEF_HYDRA_TASK_FILE_NAME_def\<close>)
  then show ?thesis by (simp add: saved_hydras_facts)
qed

end
