(* ===== verification/EndToEnd.thy ===== *)
theory EndToEnd imports HydraTrip begin

text \<open>
  A request from the client to the daemon and its answer back: what the client sends is the message that the daemon
  splits into the same command and fields, and the answer is pushed under the identifier the client waits for.
\<close>

lemma uuid_no_soh: "chkUuid u = 0 \<Longrightarrow> SOH \<notin> set u \<and> cstring u \<and> length u < MAX_UUID_SIZE"
  using no_soh_lang [OF over_no_soh(2), of u] cstring_form(1) [of u] form_length(1) [of u]
  by (simp add: chkUuid_def uuid_def)

definition commands :: "string list" where
  "commands = [''start_task'', ''stop_task'', ''delete_task'', ''create_task'', ''start_hydra'', ''stop_hydra'',
     ''delete_hydra'', ''create_hydra'']"

lemma commands_handled:
  assumes "cmd \<in> set commands"
  shows "\<exists>h :: string \<Rightarrow> ('a sworld_scheme, int) state. handler_of env cmd = Some h"
    "SOH \<notin> set cmd" "cstring cmd" "length cmd < MAX_COMM_SIZE"
proof -
  show "\<exists>h :: string \<Rightarrow> ('a sworld_scheme, int) state. handler_of env cmd = Some h"
    using assms by (auto simp: commands_def handler_of_def g_hds_def)
  have "\<forall>c\<in>set commands. SOH \<notin> set c \<and> cstring c \<and> length c < 20" by code_simp
  then show "SOH \<notin> set cmd" "cstring cmd" "length cmd < MAX_COMM_SIZE" using assms by (force simp: max_defs)+
qed

lemma msg_parts_fields:
  assumes "chkUuid u = 0" "cmd \<in> set commands" "cstring (kb_fields flds)"
  shows "msg_parts (kb_fields (u # cmd # flds)) = Some (u, cmd, kb_fields flds)"
proof -
  note u = uuid_no_soh [OF assms(1)] and c = commands_handled(2-4) [OF assms(2)]
  have "cstring (kb_fields (u # cmd # flds))" using u c assms(3) by (simp add: SOH_def NUL_def)
  then have "c_str (kb_fields (u # cmd # flds)) = kb_fields (u # cmd # flds)"
    unfolding c_str_def cstring_def by (subst takeWhile_eq_all_conv) metis
  then show ?thesis using u c assms(1) unfolding msg_parts_def by simp
qed

subsection \<open>The client's side\<close>

definition wait_cmd :: "string \<Rightarrow> string list" where
  "wait_cmd u = [''BRPOP'', u, dec MAX_REDIS_WAIT_TIMEOUT]"

definition message_cmd :: "string \<Rightarrow> string list" where
  "message_cmd m = [''LPUSH'', OPENVAS_MSG_NAME, m]"

text \<open>The answer \<open>r\<close> is what the server has under the identifier whenever it is asked.\<close>

definition server_holds :: "env \<Rightarrow> string \<Rightarrow> int \<Rightarrow> bool" where
  "server_holds env u r \<longleftrightarrow> (\<forall>t. redis env t (wait_cmd u) = Some (RArr [RStr u, RStr (dec r)]))"

text \<open>The client's access to the server works: nothing fails on its side, the test of a connection gets its
  answer, and every command gets a reply that is not an error.\<close>

definition client_up :: "env \<Rightarrow> bool" where
  "client_up env \<longleftrightarrow> (\<forall>t. \<not> fault env t \<and> redis env t PING = Some (RStatus ''PONG'')) \<and> server_up env"

lemma redis_cmd_reply:
  assumes "run_state (redis_cmd env cmd) w = (Some v, w')"
  shows "\<exists>t. redis env t cmd = Some v"
  using assms
  by (auto simp: redis_cmd_def redis_attempt_def send_cmd_def now_def set_link_def split: if_splits option.splits prod.splits sum.splits)

lemma redis_cmd_held:
  assumes "server_holds env u r" "run_state (redis_cmd env (wait_cmd u)) w = (a, w')"
  shows "a \<in> {None, Some (RArr [RStr u, RStr (dec r)])}"
proof (cases a)
  case (Some v)
  with redis_cmd_reply assms(2) obtain t where "redis env t (wait_cmd u) = Some v" by blast
  then show ?thesis using assms(1) Some by (simp add: server_holds_def)
qed simp

lemma answer_read:
  assumes "r \<in> answer_codes"
  shows "dec r \<noteq> []" "length (dec r) \<le> MAX_COMM_MIN_SIZE - 1" "isdigit (hd (dec r))" "list_all isdigit (tl (dec r))" "atoi (dec r) = r"
proof -
  have "\<forall>r\<in>set [0, 1, 2, 4, 5, 6, 7, 8, 10]. dec r \<noteq> [] \<and> length (dec r) \<le> 2 \<and> isdigit (hd (dec r)) \<and>
      list_all isdigit (tl (dec r)) \<and> atoi (dec r) = r" by code_simp
  moreover have "r \<in> set [0, 1, 2, 4, 5, 6, 7, 8, 10]" using assms by (auto simp: answer_codes_def gvm_err_defs)
  ultimately have "dec r \<noteq> []" "length (dec r) \<le> 2" "isdigit (hd (dec r))" "list_all isdigit (tl (dec r))" "atoi (dec r) = r"
    by blast+
  then show "dec r \<noteq> []" "length (dec r) \<le> MAX_COMM_MIN_SIZE - 1" "isdigit (hd (dec r))" "list_all isdigit (tl (dec r))"
    "atoi (dec r) = r" by (simp_all add: max_defs)
qed

lemma redis_bpop_int_held:
  assumes "server_holds env u r" "r \<in> answer_codes" "run_state (redis_bpop_int env u MAX_REDIS_WAIT_TIMEOUT) w = (x, w')"
  shows "x \<in> {(- 1, None), (1, Some r)}" "client_up env \<Longrightarrow> link w \<Longrightarrow> x = (1, Some r)"
proof -
  obtain a w1 where r1: "run_state (redis_cmd env (wait_cmd u)) w = (a, w1)" by (metis surj_pair)
  with redis_cmd_held [OF assms(1)] have a: "a \<in> {None, Some (RArr [RStr u, RStr (dec r)])}" by blast
  then have x: "x = (if a = None then (- 1, None) else (1, Some r))"
    using assms(3) r1 answer_read [OF assms(2)]
    by (auto simp: redis_bpop_int_def redis_bpop_str_def wait_cmd_def into_buf_def)
  then show "x \<in> {(- 1, None), (1, Some r)}" by simp
  assume "client_up env" "link w"
  then have "reply_ok a = 0" using redis_cmd_up [OF _ _ r1] by (simp add: client_up_def)
  then have "a \<noteq> None" by (cases a) (simp_all add: reply_ok_def)
  then show "x = (1, Some r)" using x by simp
qed

text \<open>The commands of the client are its message, the wait for the answer and tests of the connection.\<close>

lemma redis_conn_run:
  assumes "run_state (redis_conn env) w = (b, w')"
  shows "\<exists>cs. sent w' = sent w @ cs \<and> set cs \<subseteq> {PING} \<and> (client_up env \<longrightarrow> cs = [PING] \<and> b \<and> link w')"
proof (cases "fault env (tick w)")
  case True
  then show ?thesis using assms by (auto simp: redis_conn_def fails_def now_def client_up_def)
next
  case False
  obtain c w1 where r1: "run_state (get_redis_ctx env) (w\<lparr>tick := Suc (tick w), link := False\<rparr>) = (c, w1)" by (metis surj_pair)
  from get_redis_ctx_run [OF r1] obtain ps where ps: "ps \<in> {[], [PING]}" "sent w1 = sent w @ ps" by auto
  have w': "w' = w1" "b \<longleftrightarrow> c = 0"
    using assms r1 False by (auto simp: redis_conn_def fails_def now_def set_link_def)
  have "sent w1 = sent w @ [PING] \<and> c = 0 \<and> link w1" if "client_up env"
  proof -
    have s: "strcasecmp ''PONG'' ''PONG'' = 0" by code_simp
    have "redis env t [''PING''] = Some (RStatus ''PONG'')" "\<not> fault env t" for t
      using that by (simp_all add: client_up_def PING_def)
    then show ?thesis
      using r1 s
      by (simp add: get_redis_ctx_def redis_test_connection_def send_cmd_def fails_def now_def set_link_def PING_def)
        auto
  qed
  then show ?thesis using ps w' by auto
qed

text \<open>A command whose reply arrived has been sent.\<close>

lemma redis_cmd_replied:
  fixes w w' :: "'a rworld_scheme"
  assumes "run_state (redis_cmd env cmd) w = (Some v, w')" "sent w' = sent w @ cs"
  shows "cmd \<in> set cs"
proof -
  obtain a and w1 :: "'a rworld_scheme" where r1: "run_state (redis_attempt env cmd) w = (a, w1)" by (metis surj_pair)
  from redis_attempt_run [OF r1] obtain ps where ps: "sent w1 = sent w @ ps @ (if a = Inl False then [] else [cmd])"
    by auto
  show ?thesis
  proof (cases "a = Inl True")
    case False
    then have "w' = w1" "a = Inr v" using assms r1 by (auto simp: redis_cmd_def split: sum.splits)
    then show ?thesis using ps assms(2) by auto
  next
    case True
    obtain b and w2 :: "'a rworld_scheme" where r2: "run_state (redis_attempt env cmd) w1 = (b, w2)" by (metis surj_pair)
    from redis_attempt_run [OF r2] obtain qs where "sent w2 = sent w1 @ qs @ (if b = Inl False then [] else [cmd])"
      by auto
    moreover have "w' = w2" using assms r1 r2 True by (auto simp: redis_cmd_def split: sum.splits)
    ultimately show ?thesis using ps assms(2) True by auto
  qed
qed

lemma sendKbMsg_run:
  fixes w w' :: "'a rworld_scheme"
  assumes "m \<noteq> []" "run_state (sendKbMsg env OPENVAS_MSG_NAME u m (length m)) w = (a, w')"
  shows "\<exists>cs. sent w' = sent w @ cs \<and> set cs \<subseteq> {PING, message_cmd m, wait_cmd u} \<and>
      (a \<notin> {GVM_ERR_REDIS_CONN, GVM_ERR_FAIL} \<longrightarrow> message_cmd m \<in> set cs \<and> wait_cmd u \<in> set cs) \<and>
      (client_up env \<longrightarrow> cs = [PING, message_cmd m, wait_cmd u])"
    "server_holds env u r \<Longrightarrow> r \<in> answer_codes \<Longrightarrow>
      a \<in> {r, GVM_ERR_REDIS_CONN, GVM_ERR_FAIL} \<and> (client_up env \<longrightarrow> a = r)"
proof -
  obtain b and w1 :: "'a rworld_scheme" where r1: "run_state (redis_conn env) w = (b, w1)" by (metis surj_pair)
  obtain p and w2 :: "'a rworld_scheme" where r2: "run_state (redis_cmd env (message_cmd m)) w1 = (p, w2)"
    by (metis surj_pair)
  obtain x v and w3 :: "'a rworld_scheme" where
    r3: "run_state (redis_bpop_int env u MAX_REDIS_WAIT_TIMEOUT) w2 = ((x, v), w3)" by (metis surj_pair)
  obtain q and w4 :: "'a rworld_scheme" where r4: "run_state (redis_cmd env (wait_cmd u)) w2 = (q, w4)"
    by (metis surj_pair)
  have w3: "w3 = w4" "q = None \<longrightarrow> x = - 1"
    using r3 r4
    by (cases q; auto simp: redis_bpop_int_def redis_bpop_str_def wait_cmd_def split: prod.splits if_splits)+
  have o: "a = (if \<not> b then GVM_ERR_REDIS_CONN else if reply_ok p \<noteq> 0 then GVM_ERR_FAIL
      else if x = 1 then the v else if x = 0 then GVM_ERR_WAIT_TIMEOUT else GVM_ERR_FAIL)"
    "sent w' = (if \<not> b then sent w1 else if reply_ok p \<noteq> 0 then sent w2 else sent w3)"
    using assms r1 r2 r3
    by (auto simp: sendKbMsg_def redis_push_str_def message_cmd_def redis_delete_def set_link_def split: if_splits)
  from redis_conn_run [OF r1] obtain as where as: "sent w1 = sent w @ as" "set as \<subseteq> {PING}"
    "client_up env \<longrightarrow> as = [PING] \<and> b \<and> link w1" by blast
  from redis_cmd_sent [OF r2] obtain bs where bs: "sent w2 = sent w1 @ bs" "set bs \<subseteq> {PING, message_cmd m}" by blast
  from redis_cmd_sent [OF r4] obtain cs where cs: "sent w4 = sent w2 @ cs" "set cs \<subseteq> {PING, wait_cmd u}" by blast
  have up: "reply_ok p = 0 \<and> bs = [message_cmd m] \<and> cs = [wait_cmd u] \<and> link w2" if "client_up env"
    using redis_cmd_up [OF _ _ r2] redis_cmd_up [OF _ _ r4] as(3) bs(1) cs(1) that by (simp add: client_up_def)
  have "p \<noteq> None" if "reply_ok p = 0" using that by (cases p) (simp_all add: reply_ok_def)
  then have inb: "message_cmd m \<in> set bs" if "reply_ok p = 0" using redis_cmd_replied [of env _ w1 _ w2] r2 bs(1) that by blast
  have inc: "wait_cmd u \<in> set cs" if "x \<noteq> - 1" using redis_cmd_replied [of env _ w2 _ w4] r4 cs(1) w3(2) that by blast
  show "\<exists>cs. sent w' = sent w @ cs \<and> set cs \<subseteq> {PING, message_cmd m, wait_cmd u} \<and>
      (a \<notin> {GVM_ERR_REDIS_CONN, GVM_ERR_FAIL} \<longrightarrow> message_cmd m \<in> set cs \<and> wait_cmd u \<in> set cs) \<and>
      (client_up env \<longrightarrow> cs = [PING, message_cmd m, wait_cmd u])"
    using o as bs cs inb inc up unfolding w3(1)
    by (intro exI [of _ "as @ (if \<not> b then [] else bs @ (if reply_ok p \<noteq> 0 then [] else cs))"]) (auto split: if_splits)
  show "a \<in> {r, GVM_ERR_REDIS_CONN, GVM_ERR_FAIL} \<and> (client_up env \<longrightarrow> a = r)"
    if "server_holds env u r" "r \<in> answer_codes"
    using redis_bpop_int_held [OF that r3] o(1) up as(3) by auto
qed

subsection \<open>Both sides\<close>

text \<open>C7: a request with any of the eight commands and fields without NUL is served end to end.  The client
  draws an identifier and builds one message of it, the command and the fields.  If its access to the server
  works, it sends exactly a test of the connection, this message and the wait under the identifier; otherwise it
  sends nothing but these three, and it has sent the message and the wait unless it reports that the connection
  or a command failed.  Whatever state the daemon is in, when it processes this message it runs the handler of
  exactly this command on exactly these fields, and with a server that is up it pushes exactly the handler's
  result under the identifier, with a time limit.  A client that is given this answer returns it if its access to
  the server works, and otherwise this answer or one of the two codes for a failed access.\<close>

theorem request_served:
  fixes cw cw' :: "'a rworld_scheme"
  assumes "\<forall>t. broken_down (localtime env t)" "cmd \<in> set commands" "cstring (kb_fields flds)" "length (kb_fields flds) < 10000000"
    and "run_state (php_send env cmd flds) cw = (a, cw')"
  shows "\<exists>u m cs. chkUuid u = 0 \<and> m = kb_fields (u # cmd # flds) \<and>
    sent cw' = sent cw @ cs \<and> set cs \<subseteq> {PING, message_cmd m, wait_cmd u} \<and>
    (a \<notin> {GVM_ERR_REDIS_CONN, GVM_ERR_FAIL} \<longrightarrow> message_cmd m \<in> set cs \<and> wait_cmd u \<in> set cs) \<and>
    (client_up env \<longrightarrow> cs = [PING, message_cmd m, wait_cmd u]) \<and>
    (\<forall>env' r. \<forall>w w' :: 'b sworld_scheme. run_state (processMsg env' m) w = (r, w') \<longrightarrow>
      (\<exists>h. handler_of env' cmd = Some h \<and> r = fst (run_state (h (kb_fields flds)) w)) \<and>
      (\<exists>ds. sent w' = sent w @ ds \<and> set ds \<subseteq> {PING, push_cmd u r, expire_cmd u} \<and>
        (server_up env' \<and> link w \<longrightarrow> ds = [push_cmd u r, expire_cmd u])) \<and>
      (server_holds env u r \<longrightarrow>
        a \<in> {r, GVM_ERR_REDIS_CONN, GVM_ERR_FAIL} \<and> (client_up env \<longrightarrow> a = r)))"
proof -
  obtain x u and w1 :: "'a rworld_scheme" where r1: "run_state (genUUID env MAX_UUID_SIZE) cw = ((x, u), w1)"
    by (metis surj_pair)
  have "36 < MAX_UUID_SIZE" by (simp add: max_defs)
  from wp_run [OF wp_genUUID [OF assms(1) this] r1] have x: "x = 0" "chkUuid u = 0" by simp_all
  have "world.more w1 = world.more cw" using touches_run [OF touches_genUUID [of "\<lambda>_. True"] r1] by (simp add: same_rest_def)
  then have s1: "sent w1 = sent cw" by (cases w1; cases cw) simp
  define m where "m = kb_fields (u # cmd # flds)"
  have "length u < 64" "length cmd < 256"
    using uuid_no_soh [OF x(2)] commands_handled(4) [OF assms(2)] by (simp_all add: max_defs)
  then have m: "length m < MAX_CACHE_SIZE" "m \<noteq> []" using assms(4) by (simp_all add: max_defs m_def)
  then have r2: "run_state (sendKbMsg env OPENVAS_MSG_NAME u m (length m)) w1 = (a, cw')"
    using assms(5) r1 x(1) by (simp add: php_send_def Let_def m_def del: kb_fields_simps)
  note c = sendKbMsg_run [OF m(2) r2]
  have d: "(\<exists>h. handler_of env' cmd = Some h \<and> r = fst (run_state (h (kb_fields flds)) w)) \<and>
      (\<exists>ds. sent w' = sent w @ ds \<and> set ds \<subseteq> {PING, push_cmd u r, expire_cmd u} \<and>
        (server_up env' \<and> link w \<longrightarrow> ds = [push_cmd u r, expire_cmd u])) \<and>
      (server_holds env u r \<longrightarrow> a \<in> {r, GVM_ERR_REDIS_CONN, GVM_ERR_FAIL} \<and> (client_up env \<longrightarrow> a = r))"
    if "run_state (processMsg env' m) w = (r, w')" for env' r and w w' :: "'b sworld_scheme"
  proof -
    obtain h :: "string \<Rightarrow> ('b sworld_scheme, int) state" where h: "handler_of env' cmd = Some h"
      using commands_handled(1) [OF assms(2)] by blast
    from processMsg_run [OF that] have p: "r \<in> answer_codes" "r = fst (run_state (h (kb_fields flds)) w)"
      "\<exists>ds. sent w' = sent w @ ds \<and> set ds \<subseteq> {PING, push_cmd u r, expire_cmd u} \<and>
        (server_up env' \<and> link w \<longrightarrow> ds = [push_cmd u r, expire_cmd u])"
      unfolding m_def msg_parts_fields [OF x(2) assms(2,3)] by (auto simp: h)
    then show ?thesis using h c(2) [of r] by blast
  qed
  from c(1) obtain cs where cs: "sent cw' = sent cw @ cs" "set cs \<subseteq> {PING, message_cmd m, wait_cmd u}"
    "a \<notin> {GVM_ERR_REDIS_CONN, GVM_ERR_FAIL} \<longrightarrow> message_cmd m \<in> set cs \<and> wait_cmd u \<in> set cs"
    "client_up env \<longrightarrow> cs = [PING, message_cmd m, wait_cmd u]" unfolding s1 by (elim exE conjE)
  show ?thesis
    by (rule exI [of _ u], rule exI [of _ m], rule exI [of _ cs], intro conjI x(2) m_def cs) (intro allI impI, rule d)
qed

lemma request_served_witness:
  "\<exists>u m. chkUuid u = 0 \<and> sent (snd (run_state (php_send stop_env ''start_hydra'' [''ssh'', demo_id CHR ''e'']) demo_service)) =
     [PING, message_cmd m, wait_cmd u] \<and>
   fst (run_state (processMsg stop_env m) demo_service) =
     fst (run_state (daemon_start_hydra stop_env (kb_fields [''ssh'', demo_id CHR ''e''])) demo_service)"
proof -
  let ?flds = "[''ssh'', demo_id CHR ''e'']"
  have b: "\<forall>t. broken_down (localtime stop_env t)"
    by (simp add: stop_env_def quiet_env_def demo_env_def broken_down_def)
  have c: "''start_hydra'' \<in> set commands" "length (kb_fields ?flds) < 10000000"
    by (simp_all add: commands_def demo_id_def)
  have n: "cstring (kb_fields ?flds)" by code_simp
  have up: "client_up stop_env"
    by (simp add: client_up_def server_up_def stop_env_def quiet_env_def PING_def)
  obtain a and cw' :: sworld where r: "run_state (php_send stop_env ''start_hydra'' ?flds) demo_service = (a, cw')"
    by (metis surj_pair)
  from request_served [OF b c(1) n c(2) r, where 'b = unit] obtain u m cs where u: "chkUuid u = 0"
    and s: "sent cw' = sent demo_service @ cs" "client_up stop_env \<longrightarrow> cs = [PING, message_cmd m, wait_cmd u]"
    and d: "\<forall>env' r. \<forall>w w' :: sworld. run_state (processMsg env' m) w = (r, w') \<longrightarrow>
      (\<exists>h. handler_of env' ''start_hydra'' = Some h \<and> r = fst (run_state (h (kb_fields ?flds)) w)) \<and>
      (\<exists>ds. sent w' = sent w @ ds \<and> set ds \<subseteq> {PING, push_cmd u r, expire_cmd u} \<and>
        (server_up env' \<and> link w \<longrightarrow> ds = [push_cmd u r, expire_cmd u])) \<and>
      (server_holds stop_env u r \<longrightarrow>
        a \<in> {r, GVM_ERR_REDIS_CONN, GVM_ERR_FAIL} \<and> (client_up stop_env \<longrightarrow> a = r))" by (elim exE conjE)
  obtain k and w' :: sworld where rn: "run_state (processMsg stop_env m) demo_service = (k, w')" by (metis surj_pair)
  have "handler_of stop_env ''start_hydra'' = Some (daemon_start_hydra stop_env :: string \<Rightarrow> (sworld, int) state)"
    by (simp add: handler_of_def g_hds_def)
  moreover obtain h :: "string \<Rightarrow> (sworld, int) state" where "handler_of stop_env ''start_hydra'' = Some h"
    "k = fst (run_state (h (kb_fields ?flds)) demo_service)" using d [rule_format, OF rn] by (elim exE conjE)
  ultimately have "k = fst (run_state (daemon_start_hydra stop_env (kb_fields ?flds)) demo_service)" by simp
  moreover have "sent demo_service = []" by (simp add: demo_service_def)
  ultimately show ?thesis using rn r u s up by (intro exI [of _ u] exI [of _ m]) simp
qed

end
