(* ===== verification/Signals.thy ===== *)
theory Signals imports HydraRun begin

text \<open>
  The signals of the daemon and of the processes of brute-force tasks: what \<open>handleSignal\<close>
  (\<^verbatim>\<open>openvas_business.c\<close>), \<open>hydraSignal\<close> and \<open>handleChildSignal\<close> (\<^verbatim>\<open>hydra_business.c\<close>) install, the handlers with their
  flags, and what a signal does to a process under POSIX.  The main model reads the flags from its environment; here
  they follow from the signals that arrive.
\<close>

subsection \<open>Dispositions\<close>

definition SIGHUP :: int where "SIGHUP = 1"
definition SIGINT :: int where "SIGINT = 2"
definition SIGQUIT :: int where "SIGQUIT = 3"
definition SIGUSR2 :: int where "SIGUSR2 = 12"
definition SIGPIPE :: int where "SIGPIPE = 13"
definition SIGCHLD :: int where "SIGCHLD = 17"

lemmas sig_defs = SIGHUP_def SIGINT_def SIGQUIT_def SIGUSR1_def SIGUSR2_def SIGPIPE_def SIGTERM_def SIGCHLD_def

datatype handler = DaemonSignalHandler | HydraTaskChild | HydraIgnHandler | HydraChildHandler | HydraStopHandler

datatype disposition = SIG_DFL | SIG_IGN | Catch handler

text \<open>A process: its dispositions, the signal it gets when its parent dies, \<open>g_isRun\<close>, \<open>g_has_child_exit\<close>,
  \<open>g_has_stop_task\<close>, and whether it is alive.\<close>

record process =
  disp :: "int \<Rightarrow> disposition"
  pdeathsig :: int
  p_isRun :: bool
  p_child_exit :: bool
  p_stop_task :: bool
  p_alive :: bool

definition sigaction :: "int \<Rightarrow> disposition \<Rightarrow> process \<Rightarrow> process" where
  "sigaction sig d p = p\<lparr>disp := (disp p)(sig := d)\<rparr>"

definition handleSignal :: "process \<Rightarrow> process" where
  "handleSignal p =
     (let h = Catch DaemonSignalHandler
      in sigaction SIGPIPE SIG_IGN (sigaction SIGQUIT h (sigaction SIGHUP h (sigaction SIGTERM h (sigaction SIGINT h p)))))"

definition hydraSignal :: "process \<Rightarrow> process" where
  "hydraSignal p = sigaction SIGUSR2 SIG_IGN (sigaction SIGUSR1 SIG_IGN (sigaction SIGCHLD (Catch HydraTaskChild) p))"

text \<open>\<open>ok\<close>: \<open>prctl\<close> succeeds.\<close>

definition handleChildSignal :: "bool \<Rightarrow> process \<Rightarrow> int \<times> process" where
  "handleChildSignal ok p =
     (let i = Catch HydraIgnHandler; s = Catch HydraStopHandler;
          p1 = sigaction SIGPIPE i (sigaction SIGQUIT i (sigaction SIGHUP i (sigaction SIGTERM i (sigaction SIGINT i p))));
          p2 = sigaction SIGUSR2 s (sigaction SIGUSR1 s (sigaction SIGCHLD (Catch HydraChildHandler) p1))
      in if ok then (0, p2\<lparr>pdeathsig := SIGUSR2\<rparr>) else (- 1, p2))"

subsection \<open>Handlers\<close>

definition daemonSignalHandler :: "int \<Rightarrow> process \<Rightarrow> process" where
  "daemonSignalHandler sig p = sigaction sig SIG_DFL (p\<lparr>p_isRun := False\<rparr>)"

definition hydraTaskChild :: "int \<Rightarrow> process \<Rightarrow> process" where
  "hydraTaskChild sig p = p\<lparr>p_child_exit := True\<rparr>"

definition hydraStopHandler :: "int \<Rightarrow> process \<Rightarrow> process" where
  "hydraStopHandler sig p = p\<lparr>p_stop_task := True\<rparr>"

definition hydraIgnHandler :: "int \<Rightarrow> process \<Rightarrow> process" where "hydraIgnHandler sig p = p"
definition hydraChildHandler :: "int \<Rightarrow> process \<Rightarrow> process" where "hydraChildHandler sig p = p"

fun run_handler :: "handler \<Rightarrow> int \<Rightarrow> process \<Rightarrow> process" where
  "run_handler DaemonSignalHandler sig p = daemonSignalHandler sig p"
| "run_handler HydraTaskChild sig p = hydraTaskChild sig p"
| "run_handler HydraIgnHandler sig p = hydraIgnHandler sig p"
| "run_handler HydraChildHandler sig p = hydraChildHandler sig p"
| "run_handler HydraStopHandler sig p = hydraStopHandler sig p"

text \<open>A signal arrives; by default it ends the process, but for the end of a child.\<close>

definition deliver :: "int \<Rightarrow> process \<Rightarrow> process" where
  "deliver sig p =
     (if \<not> p_alive p then p
      else case disp p sig of
        SIG_DFL \<Rightarrow> if sig = SIGCHLD then p else p\<lparr>p_alive := False\<rparr>
      | SIG_IGN \<Rightarrow> p
      | Catch h \<Rightarrow> run_handler h sig p)"

text \<open>A process that has just been started, and the child of \<open>runHydra\<close> after \<open>fork\<close>, which inherits the dispositions
  and starts with \<open>g_has_stop_task = 0\<close>; it calls \<open>handleChildSignal\<close> only in \<open>onStartTask\<close>.\<close>

definition new_process :: process where
  "new_process = \<lparr>disp = (\<lambda>_. SIG_DFL), pdeathsig = 0, p_isRun = True, p_child_exit = False, p_stop_task = False, p_alive = True\<rparr>"

definition daemon_process :: process where
  "daemon_process = hydraSignal (handleSignal new_process)"

definition fork_child :: "process \<Rightarrow> process" where
  "fork_child p = p\<lparr>pdeathsig := 0, p_stop_task := False\<rparr>"

subsection \<open>The daemon\<close>

definition ENDING :: "int list" where "ENDING = [SIGINT, SIGTERM, SIGHUP, SIGQUIT]"
definition HANDLED :: "int list" where "HANDLED = ENDING @ [SIGPIPE, SIGUSR1, SIGUSR2, SIGCHLD]"

lemma daemon_disp:
  "disp daemon_process sig = (if sig \<in> set ENDING then Catch DaemonSignalHandler
     else if sig = SIGCHLD then Catch HydraTaskChild
     else if sig \<in> {SIGPIPE, SIGUSR1, SIGUSR2} then SIG_IGN else SIG_DFL)"
  by (simp add: daemon_process_def hydraSignal_def handleSignal_def sigaction_def new_process_def ENDING_def sig_defs Let_def)

text \<open>The state after a sequence of signals: the first request to end of a kind is noticed, the second of the
  same kind ends the process.\<close>

definition signalled :: "int list \<Rightarrow> process \<Rightarrow> bool" where
  "signalled sigs p \<longleftrightarrow> (let ends = filter (\<lambda>s. s \<in> set ENDING) sigs in
     (p_alive p \<longleftrightarrow> distinct ends) \<and>
     (p_alive p \<longrightarrow> (p_isRun p \<longleftrightarrow> ends = []) \<and> (p_child_exit p \<longleftrightarrow> SIGCHLD \<in> set sigs) \<and>
       (\<forall>s. disp p s = (if s \<in> set ends then SIG_DFL else disp daemon_process s))))"

lemma signalled_step:
  assumes i: "signalled sigs p" and h: "s \<in> set HANDLED"
  shows "signalled (sigs @ [s]) (deliver s p)"
proof (cases "p_alive p")
  case False
  then show ?thesis using i by (simp add: deliver_def signalled_def Let_def)
next
  case True
  let ?ends = "filter (\<lambda>s. s \<in> set ENDING) sigs"
  have d: "distinct ?ends" "p_isRun p \<longleftrightarrow> ?ends = []" "p_child_exit p \<longleftrightarrow> SIGCHLD \<in> set sigs"
    "\<And>s. disp p s = (if s \<in> set ?ends then SIG_DFL else disp daemon_process s)"
    using i True by (simp_all add: signalled_def Let_def)
  have c: "SIGCHLD \<notin> set ENDING" "set ENDING \<inter> {SIGPIPE, SIGUSR1, SIGUSR2} = {}" by (simp_all add: ENDING_def sig_defs)
  have s: "s \<in> set ENDING \<or> s = SIGCHLD \<or> s \<in> {SIGPIPE, SIGUSR1, SIGUSR2}" using h by (auto simp: HANDLED_def)
  consider (again) "s \<in> set ?ends" | (ends) "s \<in> set ENDING" "s \<notin> set ?ends" | (child) "s = SIGCHLD" |
    (ign) "s \<in> {SIGPIPE, SIGUSR1, SIGUSR2}" "s \<notin> set ENDING" "s \<noteq> SIGCHLD"
    using s c(2) by (auto simp: sig_defs)
  then show ?thesis
  proof cases
    case again
    then have "disp p s = SIG_DFL" "s \<noteq> SIGCHLD" using d(4) c(1) by auto
    then show ?thesis using True again by (auto simp: deliver_def signalled_def Let_def)
  next
    case ends
    then have "disp p s = Catch DaemonSignalHandler" using d(4) by (simp add: daemon_disp)
    then show ?thesis using True ends d c(1) by (auto simp: deliver_def daemonSignalHandler_def sigaction_def signalled_def Let_def)
  next
    case child
    then have "disp p s = Catch HydraTaskChild" using d(4) c(1) by (simp add: daemon_disp)
    then show ?thesis using True child d c(1) by (simp add: deliver_def hydraTaskChild_def signalled_def Let_def)
  next
    case ign
    then have "disp p s = SIG_IGN" using d(4) by (auto simp: daemon_disp)
    then show ?thesis using True ign d by (auto simp: deliver_def signalled_def Let_def)
  qed
qed

lemma daemon_signals:
  assumes "set sigs \<subseteq> set HANDLED"
  shows "signalled sigs (fold deliver sigs daemon_process)"
  using assms
proof (induction sigs rule: rev_induct)
  case Nil
  show ?case
    by (simp add: daemon_process_def hydraSignal_def handleSignal_def sigaction_def new_process_def signalled_def Let_def)
next
  case (snoc s sigs)
  then show ?case using signalled_step [of sigs _ s] by simp
qed

subsection \<open>The process of a task\<close>

lemma child_disp:
  "disp (snd (handleChildSignal ok p)) sig = (if sig \<in> {SIGUSR1, SIGUSR2} then Catch HydraStopHandler
     else if sig = SIGCHLD then Catch HydraChildHandler
     else if sig \<in> set ENDING \<or> sig = SIGPIPE then Catch HydraIgnHandler else disp p sig)"
  by (simp add: handleChildSignal_def sigaction_def ENDING_def Let_def sig_defs)

text \<open>Once its handlers are in place, none of the signals ends the process of a task, and exactly the user signals ask
  it to stop.\<close>

lemma child_signals:
  assumes "set sigs \<subseteq> set HANDLED" "p_alive p"
  shows "fold deliver sigs (snd (handleChildSignal ok p)) =
    (snd (handleChildSignal ok p))\<lparr>p_stop_task := (p_stop_task p \<or> SIGUSR1 \<in> set sigs \<or> SIGUSR2 \<in> set sigs)\<rparr>"
  using assms(1)
proof (induction sigs rule: rev_induct)
  case Nil
  show ?case by (simp add: handleChildSignal_def sigaction_def Let_def)
next
  case (snoc s sigs)
  let ?c = "snd (handleChildSignal ok p)" and ?b = "p_stop_task p \<or> SIGUSR1 \<in> set sigs \<or> SIGUSR2 \<in> set sigs"
  have e: "fold deliver sigs ?c = ?c\<lparr>p_stop_task := ?b\<rparr>" using snoc by simp
  have a: "p_alive ?c" using assms(2) by (simp add: handleChildSignal_def sigaction_def Let_def)
  have f: "fold deliver (sigs @ [s]) ?c = deliver s (?c\<lparr>p_stop_task := ?b\<rparr>)" using e by simp
  show ?case
  proof (cases "s \<in> {SIGUSR1, SIGUSR2}")
    case True
    then have "disp ?c s = Catch HydraStopHandler" by (simp add: child_disp)
    then show ?thesis unfolding f using a True by (auto simp: deliver_def hydraStopHandler_def)
  next
    case False
    then have "disp ?c s \<in> {Catch HydraChildHandler, Catch HydraIgnHandler}"
      using snoc.prems by (auto simp: child_disp HANDLED_def)
    then show ?thesis unfolding f using a False by (auto simp: deliver_def hydraIgnHandler_def hydraChildHandler_def)
  qed
qed

text \<open>Between \<open>fork\<close> and \<open>handleChildSignal\<close> the process still ignores the user signals, as the daemon does: a stop
  request that arrives then is lost, although the daemon answers it with success and forgets the process.  The same
  signal right afterwards stops the task.\<close>

lemma early_stop_lost:
  assumes "set sigs \<subseteq> {SIGUSR1, SIGUSR2}"
  shows "snd (handleChildSignal ok (fold deliver sigs (fork_child daemon_process))) = snd (handleChildSignal ok (fork_child daemon_process))"
    "\<not> p_stop_task (snd (handleChildSignal ok (fork_child daemon_process)))"
    "p_stop_task (deliver SIGUSR1 (snd (handleChildSignal ok (fork_child daemon_process))))"
proof -
  have "deliver s (fork_child daemon_process) = fork_child daemon_process" if "s \<in> {SIGUSR1, SIGUSR2}" for s
    using that daemon_disp [of s] by (auto simp: deliver_def fork_child_def ENDING_def sig_defs)
  then have "fold deliver sigs (fork_child daemon_process) = fork_child daemon_process"
    using assms by (induction sigs) auto
  then show "snd (handleChildSignal ok (fold deliver sigs (fork_child daemon_process))) = snd (handleChildSignal ok (fork_child daemon_process))"
    by simp
  have a: "p_alive (fork_child daemon_process)"
    by (simp add: fork_child_def daemon_process_def hydraSignal_def handleSignal_def sigaction_def new_process_def Let_def)
  show "\<not> p_stop_task (snd (handleChildSignal ok (fork_child daemon_process)))"
    by (simp add: handleChildSignal_def sigaction_def fork_child_def Let_def)
  show "p_stop_task (deliver SIGUSR1 (snd (handleChildSignal ok (fork_child daemon_process))))"
    using child_signals [of "[SIGUSR1]" "fork_child daemon_process" ok] a by (simp add: HANDLED_def)
qed

text \<open>C25: whatever signals arrive and in whatever order, the daemon notices the first request to end of each kind and
  dies of the second, ignores the user signals and the loss of a connection, and notes the end of children; the process of a task, once
  its handlers are in place, survives all of them and is asked to stop by the user signals alone.  User signals that
  arrive before that are lost.\<close>

theorem process_signals:
  assumes "set sigs \<subseteq> set HANDLED" "set early \<subseteq> {SIGUSR1, SIGUSR2}"
  shows "signalled sigs (fold deliver sigs daemon_process) \<and>
    (let c = fold deliver sigs (snd (handleChildSignal ok (fold deliver early (fork_child daemon_process))))
     in p_alive c \<and> (p_stop_task c \<longleftrightarrow> SIGUSR1 \<in> set sigs \<or> SIGUSR2 \<in> set sigs))"
proof -
  have a: "p_alive (fork_child daemon_process)" "\<not> p_stop_task (fork_child daemon_process)"
    by (simp_all add: fork_child_def daemon_process_def hydraSignal_def handleSignal_def sigaction_def new_process_def Let_def)
  then have "p_alive (snd (handleChildSignal ok (fork_child daemon_process)))"
    by (simp add: handleChildSignal_def sigaction_def Let_def)
  then show ?thesis
    unfolding early_stop_lost(1) [OF assms(2)] child_signals [OF assms(1) a(1)]
    using daemon_signals [OF assms(1)] a(2) by simp
qed

lemma process_signals_witness:
  "\<not> p_alive (fold deliver [SIGTERM, SIGUSR1, SIGTERM] daemon_process) \<and>
   p_stop_task (fold deliver [SIGTERM, SIGUSR1, SIGTERM] (snd (handleChildSignal True (fork_child daemon_process))))"
proof -
  have "set [SIGTERM, SIGUSR1, SIGTERM] \<subseteq> set HANDLED" "SIGTERM \<in> set ENDING" by (simp_all add: HANDLED_def ENDING_def)
  with process_signals [of "[SIGTERM, SIGUSR1, SIGTERM]" "[]" True] show ?thesis
    by (auto simp: signalled_def Let_def simp del: fold_simps(2) split: if_splits)
qed

end
