(* ===== verification/Spec2Isabelle.thy ===== *)
theory Spec2Isabelle imports EndToEnd Signals begin

text \<open>
  Verification of the task daemon of \<^verbatim>\<open>openvas_tool\<close>.

  \<^bold>\<open>The program.\<close>  One process (\<^verbatim>\<open>main.c\<close>, option 1) waits for messages on a Redis list and manages two kinds of
  tasks: scans, which it delegates to \<^verbatim>\<open>gvmd\<close> through the shell command \<^verbatim>\<open>gvm-cli\<close> and XML, and brute-force
  tasks, which it runs itself as \<^verbatim>\<open>hydra\<close> processes started by \<^verbatim>\<open>cron\<close>.  Clients are a PHP extension
  (\<^verbatim>\<open>php_openvas.c\<close>, \<^verbatim>\<open>task_openvas.c\<close>) and \<^verbatim>\<open>main.c\<close> with option 2.  A request goes through these parts: the
  client checks and escapes the parameters and joins them (\<open>Checks\<close>, \<open>Requests\<close>); Redis carries the text
  (\<open>Redis\<close>); the main loop dispatches it (\<open>Service\<close>); a handler parses it again, talks to the scanner (\<open>Gvm\<close>) or
  to a child process (\<open>HydraRun\<close>), and changes the store of tasks (\<open>Tasks\<close>, \<open>HydraTasks\<close>), which is kept in files
  (\<open>Files\<close>, \<open>Records\<close>) and in the ordered containers of \<^verbatim>\<open>llist.c\<close> (\<open>LList\<close>, \<open>ListSet\<close>).  Between messages the
  loop checks the scan that is due next (\<open>Backend\<close>), watches the connection to the scanner, collects children
  and cleans old log files.

  \<^bold>\<open>How code becomes definitions.\<close>  A C function without effects is a HOL function of the same name; buffers
  it writes are returned with the return code.  A function with effects is a state transformer in the monad of
  \<^verbatim>\<open>HOL-Library.State_Monad\<close>.  The state is a chain of records, one per layer: \<open>world\<close> (files and the clock of
  calls), \<open>rworld\<close> (connection to Redis), \<open>gworld\<close> (commands given to the shell and signals sent), \<open>dworld\<close>
  (\<open>struct GvmDataList\<close> and the heap of task objects), \<open>bworld\<close> (the static variable of \<open>validateGvmConn\<close>),
  \<open>hworld\<close> and \<open>cworld\<close> (brute-force tasks and children), \<open>sworld\<close> (the main loop).  What is not under \<^verbatim>\<open>src\<close> or belongs to
  the operating system is the record \<open>env\<close>: which call fails when, the clocks, the output of a shell command,
  replies of Redis, the XML reader, \<open>strftime\<close> and \<open>strptime\<close>, dead children, random numbers.  Every theorem
  holds for every \<open>env\<close>, except for the hypotheses it names: \<open>clock_ok\<close> (the monotonic clock stays within 31 bits,
  so that the difference of two times fits the \<open>int\<close> of the comparison), \<open>times_ok\<close> (formatted times are C
  strings), \<open>sched_ok\<close> (a time in the schedule format has no character special to the shell).  C strings are HOL
  strings without their NUL; sizes of buffers are arguments, and the sizes of \<^verbatim>\<open>base_openvas.h\<close> are constants
  (\<open>max_defs\<close>).  Pointers to tasks are numbers with a heap \<open>tasks\<close>; freeing removes the entry.  Return codes are
  the \<open>int\<close>s of the code.

  \<^bold>\<open>Theories.\<close>
  \<^item> \<open>Prelude\<close>, \<open>Text\<close>: the functions of the C library on strings, comparators, numbers in text, tokens.
  \<^item> \<open>QueueSpec\<close> (the locale \<open>ordered_queue\<close>), \<open>LList\<close>, \<open>ListQueue\<close>, \<open>ListSet\<close>: \<^verbatim>\<open>llist.c\<close> with its pointers and array
    indexes, the list-level operations the daemons use, and the simulation between the two.
  \<^item> \<open>Regex\<close>, \<open>Patterns\<close>, \<open>Checks\<close>, \<open>CheckProps\<close>: regular expressions with languages and derivatives, the macros of
    \<^verbatim>\<open>base_openvas.h\<close>, the validators and what they accept, character by
    character, and the entries of a list of hosts (\<open>host_entries\<close>).
  \<^item> \<open>World\<close>, \<open>Files\<close>, \<open>FileProps\<close>: the monad, the file system, \<^verbatim>\<open>comm_misc.c\<close>; \<open>touches\<close> says which paths an operation
    may change.
  \<^item> \<open>Redis\<close>, \<open>Model\<close>, \<open>Requests\<close>, \<open>RequestProps\<close>: \<^verbatim>\<open>base_openvas.c\<close>, the structures, and both ends of a request;
    a schedule type that does not start with a digit passes the client and not the daemon (\<open>number_field\<close>).
  \<^item> \<open>Gvm\<close>, \<open>GvmProps\<close>: requests to the scanner, and how a POSIX shell reads the command lines (\<open>sh_dq\<close>, \<open>safe_cmd\<close>).
  \<^item> \<open>Records\<close>, \<open>Tasks\<close>, \<open>TaskInv\<close>, \<open>Sched\<close>, \<open>Xml\<close>, \<open>Backend\<close>, \<open>StoreOps\<close>, \<open>Daemon\<close>, \<open>DaemonInv\<close>: the scans, their
    invariant \<open>tasks_inv\<close> (with the objects a handler holds as a parameter), and that every operation keeps it.
  \<^item> \<open>HydraTasks\<close>, \<open>HydraFiles\<close>, \<open>HydraRun\<close>: brute-force tasks, their files, schedules, processes and requests.
  \<^item> \<open>Service\<close>: the main loop and the start.
  \<^item> \<open>Steps\<close> (the locale \<open>stepping\<close>: relations between states that all parts of a program keep), \<open>Effects\<close>, \<open>EffectsAll\<close>,
    \<open>StoreLoop\<close>, \<open>Restart\<close>, \<open>Roundtrip\<close>, \<open>ServiceProps\<close>, \<open>Objects\<close>, \<open>CheckSteps\<close>: the properties of the service as a whole:
    reachable states, effects, the invariants of the store and of the objects, the round trip over a restart, and the
    state machine of a scan.
  \<^item> \<open>Answers\<close>: what the four requests about scans answer in every case, and which tasks they change.
  \<^item> \<open>HydraProps\<close>: the arguments, programs (the chain of states \<open>programs_from\<close>), children and week days of brute-force
    tasks.
  \<^item> \<open>Frames\<close>: what each part of the service leaves alone (\<open>scan_only\<close>, \<open>daemon_only\<close>, \<open>redis_only\<close>); \<open>Replies\<close>: how often
    commands go to the server, the one answer of a message, the bounds of the loop's counters.
  \<^item> \<open>HydraInv\<close>, \<open>HydraLoop\<close>, \<open>HydraTrip\<close>: the invariant \<open>hinv\<close> of the store of brute-force tasks, what the requests about
    them answer, that every reachable state has the invariant, and the round trip of their file over a restart.
  \<^item> \<open>EndToEnd\<close>: a request from \<open>php_send\<close> through \<open>processMsg\<close> to the handler, and its answer back; \<open>client_up\<close> and
    \<open>server_up\<close> say when the access to Redis works, and then the commands sent are given exactly.
  \<^item> \<open>Signals\<close>: the dispositions and handlers of the daemon and of the process of a task, and what any sequence of
    signals does to both.

  \<^bold>\<open>Loops and fuel.\<close>  The loops over linked nodes may not end on a broken heap: they are \<open>partial_function\<close>s whose
  results are proved to exist on well-formed queues.  The main loop runs as long as it is not asked to end: it takes
  the number of iterations as its first argument, and \<open>main_loop_ends\<close> gives a number that is enough.  The other
  loops have as fuel the length of the text or the list they consume (\<open>parse_records\<close>, \<open>walk_path\<close>, \<open>copy_loop\<close>), or the number of paths
  for \<open>deleteDir\<close>; each step shortens it.

  \<^bold>\<open>Not modelled.\<close>  The PHP glue of \<^verbatim>\<open>gvm_util.c\<close> and the PHP scripts; the log functions; titles of processes,
  daemonising, the release of the lock at the end (the process ends with it), the choice between daemon and client in
  \<open>main\<close>, the start and end of the XML library; a signal between two given statements (the flags are read from \<open>env\<close> at the points where the code
  looks at them; \<open>Signals\<close> says which signals set them); functions that print or test (\<^verbatim>\<open>test.c\<close>, \<open>print*\<close>, \<open>test*\<close>); the vendored programs below
  \<^verbatim>\<open>gvm_install\<close>, whose replies are parameters.
\<close>

end
